(* ===== verification/Prelude.thy ===== *)
theory Prelude
  imports Main "HOL-Library.State_Monad" "HOL-Library.Char_ord" "HOL-Library.List_Lexorder"
begin

text \<open>
  What every component shares: the Go primitives the sources use (errors, panics, decimal
  formatting, \<open>filepath.Join\<close>), small facts about lists and maps, and the relational
  reasoning rules for state-monad programs. A program here is a value of
  \<open>('s, 'a) state\<close> from HOL-Library.State_Monad.
\<close>

section \<open>The monad\<close>

abbreviation return :: "'a \<Rightarrow> ('s, 'a) state" where
  "return \<equiv> State_Monad.return"

section \<open>Go errors and panics\<close>

text \<open>
  A Go \<open>error\<close> value: one made by a library (its machine-readable reason and its text), one
  made by \<open>errors.New\<close> or \<open>fmt.Errorf\<close>, or one that wraps another with \<open>%w\<close>.
  \<open>err_text\<close> is the \<open>Error()\<close> method. A nil error is \<open>None\<close>.
\<close>

datatype error =
    LibError string string
  | NewError string
  | WrapError string error

primrec err_text :: "error \<Rightarrow> string" where
  "err_text (LibError reason txt) = txt"
| "err_text (NewError txt) = txt"
| "err_text (WrapError txt e) = txt @ '': '' @ err_text e"

text \<open>The outcome of code that may dereference a nil pointer.\<close>

datatype 'a go = Val 'a | Panic string

primrec is_panic :: "'a go \<Rightarrow> bool" where
  "is_panic (Val x) = False"
| "is_panic (Panic m) = True"

text \<open>Continue with the value, or stop with the panic.\<close>

definition go_bind :: "('s, 'a go) state \<Rightarrow> ('a \<Rightarrow> ('s, 'b go) state) \<Rightarrow> ('s, 'b go) state" where
  "go_bind m f = do {
     r \<leftarrow> m;
     case r of Panic p \<Rightarrow> return (Panic p) | Val x \<Rightarrow> f x
   }"

text \<open>\<open>*p\<close>: the value behind a pointer, or the run-time panic for nil.\<close>

primrec deref :: "'a option \<Rightarrow> 'a go" where
  "deref None = Panic ''nil pointer dereference''"
| "deref (Some x) = Val x"

lemma deref_Val_iff [simp]: "deref p = Val x \<longleftrightarrow> p = Some x"
  by (cases p) auto

lemma is_panic_deref [simp]: "is_panic (deref p) \<longleftrightarrow> p = None"
  by (cases p) auto

section \<open>Decimal formatting\<close>

text \<open>\<open>strconv.Itoa\<close> and \<open>fmt.Sprintf("%d", n)\<close>.\<close>

fun nat_digits :: "nat \<Rightarrow> string" where
  "nat_digits n =
     (if n < 10 then [char_of (48 + n)] else nat_digits (n div 10) @ [char_of (48 + n mod 10)])"

declare nat_digits.simps [simp del]

definition itoa :: "int \<Rightarrow> string" where
  "itoa z = (if z < 0 then CHR ''-'' # nat_digits (nat (- z)) else nat_digits (nat z))"

text \<open>Reading the digits back: the value of a digit string, most significant first.\<close>

fun digits_value :: "nat \<Rightarrow> string \<Rightarrow> nat" where
  "digits_value acc [] = acc"
| "digits_value acc (c # cs) = digits_value (10 * acc + (of_char c - 48)) cs"

definition atoi :: "string \<Rightarrow> int" where
  "atoi s = (case s of
       [] \<Rightarrow> 0
     | c # cs \<Rightarrow> if c = CHR ''-'' then - int (digits_value 0 cs) else int (digits_value 0 s))"

lemma digits_value_snoc:
  "digits_value acc (cs @ [c]) = 10 * digits_value acc cs + (of_char c - 48)"
  by (induction cs arbitrary: acc) auto

lemma of_char_digit: "d < 10 \<Longrightarrow> (of_char (char_of (48 + d :: nat)) :: nat) = 48 + d"
  by simp

lemma digits_value_nat_digits: "digits_value 0 (nat_digits n) = n"
proof (induction n rule: nat_digits.induct)
  case (1 n)
  show ?case
  proof (cases "n < 10")
    case True
    then show ?thesis by (simp add: nat_digits.simps [of n] of_char_digit)
  next
    case False
    with 1 show ?thesis
      by (simp add: nat_digits.simps [of n] digits_value_snoc of_char_digit)
  qed
qed

lemma nat_digits_not_Nil [simp]: "nat_digits n \<noteq> []"
  by (subst nat_digits.simps) simp

lemma char_of_digit_range:
  assumes "d < 10"
  shows "char_of (48 + d :: nat) \<noteq> CHR ''-''" and "char_of (48 + d :: nat) \<noteq> CHR ''/''"
proof -
  have code: "(of_char (char_of (48 + d :: nat)) :: nat) = 48 + d"
    using assms by (rule of_char_digit)
  have minus: "(of_char (CHR ''-'') :: nat) = 45" and slash: "(of_char (CHR ''/'') :: nat) = 47"
    by simp_all
  show "char_of (48 + d :: nat) \<noteq> CHR ''-''"
  proof
    assume "char_of (48 + d :: nat) = CHR ''-''"
    with code minus have "48 + d = 45" by metis
    then show False by simp
  qed
  show "char_of (48 + d :: nat) \<noteq> CHR ''/''"
  proof
    assume "char_of (48 + d :: nat) = CHR ''/''"
    with code slash have "48 + d = 47" by metis
    then show False by simp
  qed
qed

lemma set_nat_digits: "c \<in> set (nat_digits n) \<Longrightarrow> \<exists>d < 10. c = char_of (48 + d :: nat)"
proof (induction n rule: nat_digits.induct)
  case (1 n)
  show ?case
  proof (cases "n < 10")
    case True
    with "1.prems" show ?thesis by (auto simp: nat_digits.simps [of n])
  next
    case False
    then have "nat_digits n = nat_digits (n div 10) @ [char_of (48 + n mod 10)]"
      by (simp add: nat_digits.simps [of n])
    with "1.prems" consider "c \<in> set (nat_digits (n div 10))" | "c = char_of (48 + n mod 10)"
      by auto
    then show ?thesis
    proof cases
      case 1
      with "1.IH" False show ?thesis by blast
    next
      case 2
      moreover have "n mod 10 < 10" by simp
      ultimately show ?thesis by blast
    qed
  qed
qed

lemma hd_nat_digits_not_minus: "hd (nat_digits n) \<noteq> CHR ''-''"
proof -
  have "hd (nat_digits n) \<in> set (nat_digits n)" by simp
  then show ?thesis using set_nat_digits char_of_digit_range(1) by metis
qed

text \<open>Printing then reading gives the number back, so printing is injective.\<close>

lemma atoi_itoa: "atoi (itoa z) = z"
proof (cases "z < 0")
  case True
  then show ?thesis by (simp add: itoa_def atoi_def digits_value_nat_digits)
next
  case False
  obtain c cs where c: "nat_digits (nat z) = c # cs" by (cases "nat_digits (nat z)") auto
  with hd_nat_digits_not_minus [of "nat z"] have "c \<noteq> CHR ''-''" by simp
  with c False show ?thesis
    using digits_value_nat_digits [of "nat z"] by (simp add: itoa_def atoi_def)
qed

lemma itoa_inject [simp]: "itoa x = itoa y \<longleftrightarrow> x = y"
  by (metis atoi_itoa)

section \<open>\<open>filepath.Join\<close>\<close>

text \<open>
  \<open>filepath.Clean\<close> works on the path's segments: empty and \<open>.\<close> segments vanish, a \<open>..\<close>
  removes the segment before it, at the root it vanishes, and in a relative path it stays when
  nothing is left to remove. The stack \<open>st\<close> holds the kept segments, last first.
\<close>

fun split_on :: "char \<Rightarrow> string \<Rightarrow> string list" where
  "split_on d [] = [[]]"
| "split_on d (c # cs) =
     (if c = d then [] # split_on d cs
      else case split_on d cs of [] \<Rightarrow> [[c]] | w # ws \<Rightarrow> (c # w) # ws)"

fun clean_segments :: "bool \<Rightarrow> string list \<Rightarrow> string list \<Rightarrow> string list" where
  "clean_segments rooted st [] = rev st"
| "clean_segments rooted st (w # ws) =
     (if w = [] \<or> w = ''.'' then clean_segments rooted st ws
      else if w = ''..'' then
        (case st of
           [] \<Rightarrow> clean_segments rooted (if rooted then [] else [w]) ws
         | prev # rest \<Rightarrow>
             if \<not> rooted \<and> prev = ''..'' then clean_segments rooted (w # st) ws
             else clean_segments rooted rest ws)
      else clean_segments rooted (w # st) ws)"

fun join_segments :: "string list \<Rightarrow> string" where
  "join_segments [] = []"
| "join_segments [w] = w"
| "join_segments (w # ws) = w @ ''/'' @ join_segments ws"

definition filepath_Clean :: "string \<Rightarrow> string" where
  "filepath_Clean p =
     (let rooted = (p \<noteq> [] \<and> hd p = CHR ''/'');
          body = join_segments (clean_segments rooted [] (split_on (CHR ''/'') p))
      in if rooted then ''/'' @ body else if body = [] then ''.'' else body)"

definition filepath_Join :: "string list \<Rightarrow> string" where
  "filepath_Join elems =
     (let xs = filter (\<lambda>e. e \<noteq> []) elems
      in if xs = [] then [] else filepath_Clean (join_segments xs))"

section \<open>Reasoning about programs by a relation between states\<close>

text \<open>
  A reflexive and transitive relation between the state before and after is kept by a whole
  program when each of its calls keeps it. The rules below follow the constructs the models are
  written with; each relation of interest is an interpretation.
\<close>

locale step_relation =
  fixes R :: "'s \<Rightarrow> 's \<Rightarrow> bool"
  assumes R_refl: "R s s"
    and R_trans: "R s t \<Longrightarrow> R t u \<Longrightarrow> R s u"
begin

lemma rel_return: "state_io_rel R (return x)"
  by (auto simp: state_io_rel_def R_refl)

lemma rel_get: "state_io_rel R State_Monad.get"
  by (auto simp: state_io_rel_def R_refl)

lemma rel_bind:
  "state_io_rel R m \<Longrightarrow> (\<And>x. state_io_rel R (f x)) \<Longrightarrow> state_io_rel R (State_Monad.bind m f)"
  by (auto simp: state_io_rel_def split: prod.splits) (metis R_trans snd_conv)

lemma rel_if:
  "(c \<Longrightarrow> state_io_rel R m) \<Longrightarrow> (\<not> c \<Longrightarrow> state_io_rel R n) \<Longrightarrow>
   state_io_rel R (if c then m else n)"
  by simp

lemma rel_option:
  "(p = None \<Longrightarrow> state_io_rel R m) \<Longrightarrow> (\<And>x. p = Some x \<Longrightarrow> state_io_rel R (f x)) \<Longrightarrow>
   state_io_rel R (case p of None \<Rightarrow> m | Some x \<Rightarrow> f x)"
  by (cases p) auto

lemma rel_sum:
  "(\<And>e. p = Inl e \<Longrightarrow> state_io_rel R (f e)) \<Longrightarrow> (\<And>x. p = Inr x \<Longrightarrow> state_io_rel R (g x)) \<Longrightarrow>
   state_io_rel R (case p of Inl e \<Rightarrow> f e | Inr x \<Rightarrow> g x)"
  by (cases p) auto

lemma rel_prod:
  "(\<And>x y. p = (x, y) \<Longrightarrow> state_io_rel R (f x y)) \<Longrightarrow>
   state_io_rel R (case p of (x, y) \<Rightarrow> f x y)"
  by (cases p) auto

lemma rel_go:
  "(\<And>x. p = Val x \<Longrightarrow> state_io_rel R (f x)) \<Longrightarrow>
   (\<And>e. p = Panic e \<Longrightarrow> state_io_rel R (g e)) \<Longrightarrow>
   state_io_rel R (case p of Val x \<Rightarrow> f x | Panic e \<Rightarrow> g e)"
  by (cases p) auto

lemma rel_let: "(\<And>x. x = v \<Longrightarrow> state_io_rel R (f x)) \<Longrightarrow> state_io_rel R (Let v f)"
  by simp

lemma rel_go_bind:
  "state_io_rel R m \<Longrightarrow> (\<And>x. state_io_rel R (f x)) \<Longrightarrow> state_io_rel R (go_bind m f)"
  unfolding go_bind_def by (intro rel_bind rel_go rel_return)

lemma relD: "state_io_rel R m \<Longrightarrow> R s (snd (run_state m s))"
  by (auto simp: state_io_rel_def)

lemmas rel_rules = rel_return rel_get rel_bind rel_if rel_option rel_sum rel_prod rel_go rel_let
  rel_go_bind

end

lemma run_go_bind [simp]:
  "run_state (go_bind m f) s =
     (case run_state m s of (Val x, s') \<Rightarrow> run_state (f x) s' | (Panic p, s') \<Rightarrow> (Panic p, s'))"
  by (auto simp: go_bind_def split: prod.splits go.splits)

end
