(* ===== verification/Types.thy ===== *)
theory Types
  imports Prelude "HOL-Library.AList"
begin

text \<open>
  The data the operator works on: status conditions, the pod-level Kubernetes objects it builds,
  the objects it reads, and the four custom resources of \<open>api/v1beta1\<close>. Fields carry the Go
  names. A Go struct that embeds another is a record extension; a pointer is an option; a nil
  map or slice that the code tells apart from an empty one is an option too. Objects of other
  APIs are represented by what the sources read of them, one field per accessor.
\<close>

section \<open>Conditions\<close>

text \<open>
  The condition types, reasons and severities are the constants the code uses, of lib-common,
  mariadb-operator and \<open>api/v1beta1/conditions.go\<close>; the last constructor stands for any other.
\<close>

datatype ctype =
    ReadyCondition | InputReadyCondition | TLSInputReadyCondition | ServiceConfigReadyCondition
  | MemcachedReadyCondition | DeploymentReadyCondition | CreateServiceReadyCondition
  | KeystoneEndpointReadyCondition | DBReadyCondition | KeystoneServiceReadyCondition
  | ServiceAccountReadyCondition | RoleReadyCondition | RoleBindingReadyCondition
  | DBSyncReadyCondition | CronJobReadyCondition | ExposeServiceReadyCondition
  | MariaDBAccountReadyCondition
  | WatcherRabbitMQTransportURLReadyCondition | WatcherAPIReadyCondition
  | WatcherApplierReadyCondition | WatcherDecisionEngineReadyCondition
  | OtherCondition string

datatype cstatus = CTrue | CFalse | CUnknown

datatype creason = InitReason | RequestedReason | ErrorReason | CreationFailedReason
  | OtherReason string

datatype cseverity = SeverityNone | SeverityInfo | SeverityWarning | SeverityError

text \<open>
  Message formats: a constant of lib-common or mariadb-operator, by its identifier (its text is
  not part of the sources), a format the sources spell out, and a format already applied to its
  arguments with \<open>fmt.Sprintf\<close>.
\<close>

datatype cmsg = LibMessage string | Text string | Sprintf cmsg "string list"

text \<open>The fields of one condition, as the CRD schema lists them.\<close>

record condition =
  Type :: ctype
  Status :: cstatus
  Severity :: cseverity
  Reason :: creason
  Message :: string
  LastTransitionTime :: string

text \<open>\<open>condition.Conditions\<close>: a slice, which is nil before the first reconcile.\<close>

type_synonym conditions = "condition list option"

section \<open>Results of a reconcile\<close>

text \<open>\<open>ctrl.Result\<close>; a duration counts nanoseconds.\<close>

record result =
  Requeue :: bool
  RequeueAfter :: int

definition Result0 :: result where
  "Result0 = \<lparr>Requeue = False, RequeueAfter = 0\<rparr>"

definition seconds :: "int \<Rightarrow> int" where
  "seconds n = n * 1000000000"

record nsname =
  NName :: string
  NNamespace :: string

section \<open>Pods and workloads\<close>

type_synonym string_map = "string \<rightharpoonup> string"

text \<open>\<open>m[k]\<close> of a Go map of strings: the zero value for a missing key.\<close>

definition map_get :: "string_map \<Rightarrow> string \<Rightarrow> string" where
  "map_get m k = (case m k of None \<Rightarrow> [] | Some v \<Rightarrow> v)"

text \<open>A map of strings as \<open>fmt\<close> prints it with \<open>%s\<close> or \<open>%v\<close>: the entries in the order of their keys.\<close>

definition fmt_map :: "string_map \<Rightarrow> string" where
  "fmt_map m = ''map['' @
     (case List.map (\<lambda>k. k @ '':'' @ map_get m k) (sorted_list_of_set (dom m)) of
        [] \<Rightarrow> []
      | entry # rest \<Rightarrow> entry @ concat (List.map (\<lambda>e. '' '' @ e) rest)) @ '']''"

lemma fmt_map_one: "fmt_map [k \<mapsto> v] = ''map['' @ k @ '':'' @ v @ '']''"
  by (simp add: fmt_map_def map_get_def)

datatype volume_source =
    SecretVolume (SecretVolumeName: string) (SecretVolumeMode: "int option")
      (SecretVolumeItems: "(string \<times> string) list")
  | EmptyDir string
  | OtherSource string

record volume =
  VolName :: string
  VolSource :: volume_source

record volume_mount =
  MountName :: string
  MountPath :: string
  SubPath :: string
  ReadOnly :: bool

datatype setter = SetValue string

text \<open>A \<open>map[string]env.Setter\<close>, as an association list so that it can be listed.\<close>

type_synonym env_vars = "(string \<times> setter) list"

record envvar =
  EnvName :: string
  EnvValue :: string

datatype uri_scheme = SchemeUnset | URISchemeHTTPS

datatype probe_handler = NoHandler | HTTPGet int uri_scheme | Exec "string list"

record probe =
  FailureThreshold :: int
  PeriodSeconds :: int
  TimeoutSeconds :: int
  Handler :: probe_handler

type_synonym resources = string

record container =
  CName :: string
  Command :: "string list"
  Args :: "string list"
  Image :: string
  RunAsUser :: int
  Env :: "envvar list"
  VolumeMounts :: "volume_mount list"
  CResources :: resources
  ReadinessProbe :: "probe option"
  LivenessProbe :: "probe option"
  StartupProbe :: "probe option"

text \<open>The arguments of \<open>affinity.DistributePods\<close>: label, its values, topology key.\<close>

datatype affinity = DistributePods string "string list" string

datatype restart_policy = RestartPolicyUnset | RestartPolicyOnFailure

record pod_spec =
  ServiceAccountName :: string
  RestartPolicy :: restart_policy
  Volumes :: "volume list"
  Containers :: "container list"
  Affinity :: "affinity option"
  PodNodeSelector :: string_map

datatype pod_management = PodManagementUnset | ParallelPodManagement

record statefulset =
  SSName :: string
  SSNamespace :: string
  SSLabels :: string_map
  MatchLabels :: string_map
  PodManagementPolicy :: pod_management
  SSReplicas :: "int option"
  TemplateLabels :: string_map
  SSPod :: pod_spec

text \<open>The part of a StatefulSet the controllers read back.\<close>

record statefulset_status =
  SSGeneration :: int
  SSObservedGeneration :: int
  ReadyReplicas :: int

record job =
  JobName :: string
  JobNamespace :: string
  JobLabels :: string_map
  JobAnnotations :: string_map
  JobPod :: pod_spec

datatype concurrency_policy = ForbidConcurrent

record cronjob =
  CronName :: string
  CronNamespace :: string
  CronLabels :: string_map
  CronSchedule :: string
  CronConcurrency :: concurrency_policy
  CronTemplateLabels :: string_map
  CronTemplateAnnotations :: string_map
  Parallelism :: int
  Completions :: int
  CronPod :: pod_spec

section \<open>Objects the controllers read\<close>

record secret =
  SecretName :: string
  Data :: string_map
  SecretFinalizers :: "string list"

text \<open>What the code asks of a Memcached object: its finalizers, \<open>IsReady\<close>, its server lists.\<close>

record memcached =
  MemcachedFinalizers :: "string list"
  MemcachedReady :: bool
  ServerListString :: string
  ServerListWithInetString :: string
  MemcachedTLSSupport :: bool

text \<open>What the code asks of a \<open>mariadbv1.Database\<close>.\<close>

record database =
  AccountName :: string
  AccountUserName :: string
  DBSecretPassword :: string
  DatabaseHostname :: string
  ClientConfig :: "bool \<Rightarrow> string"

end
