(* ===== verification/Api.thy ===== *)
theory Api
  imports Types
begin

text \<open>
  The custom resources of \<open>api/v1beta1\<close>: Watcher and the three it creates (WatcherAPI,
  WatcherApplier, WatcherDecisionEngine), and the messages of \<open>conditions.go\<close>. Where Go gives
  two structs a field of one name, the field of the template structs has a \<open>T\<close> in front.
\<close>

section \<open>TLS and service parameters\<close>

text \<open>The parts of \<open>tls.Ca\<close>, \<open>tls.API\<close> and \<open>service.RoutedOverrideSpec\<close> the sources touch.\<close>

record tls_Ca =
  CaBundleSecretName :: string

record tls_API = tls_Ca +
  PublicSecretName :: "string option"
  InternalSecretName :: "string option"

record RoutedOverrideSpec =
  EmbeddedLabelsAnnotations :: "string option"
  OverrideEndpointURL :: "string option"
  ServiceOverride :: string

abbreviation EndpointPublic :: string where "EndpointPublic \<equiv> ''public''"
abbreviation EndpointInternal :: string where "EndpointInternal \<equiv> ''internal''"

text \<open>Reading a missing key of a Go map gives the zero value.\<close>

definition RoutedOverrideSpec0 :: RoutedOverrideSpec where
  "RoutedOverrideSpec0 =
     \<lparr>EmbeddedLabelsAnnotations = None, OverrideEndpointURL = None, ServiceOverride = []\<rparr>"

record APIOverrideSpec =
  Service :: "string \<rightharpoonup> RoutedOverrideSpec"

record PasswordSelector =
  ServiceSelector :: string

section \<open>Specs\<close>

record WatcherCommon =
  ServiceUser :: string
  PasswordSelectors :: PasswordSelector
  MemcachedInstance :: string
  PreserveJobs :: bool
  NodeSelector :: "string_map option"
  CustomServiceConfig :: string
  PrometheusSecret :: string

record WatcherSecretSpec = WatcherCommon +
  Secret :: string

record WatcherSubCrsCommon = WatcherSecretSpec +
  ContainerImage :: string
  Resources :: resources
  ServiceAccount :: string
  Replicas :: "int option"

record WatcherAPISpec = WatcherSubCrsCommon +
  Override :: APIOverrideSpec
  TLS :: tls_API

record WatcherApplierSpec = WatcherSubCrsCommon +
  TLSCa :: tls_Ca

record WatcherDecisionEngineSpec = WatcherSubCrsCommon +
  DETLSCa :: tls_Ca

record WatcherSubCrsTemplate =
  TResources :: resources
  TNodeSelector :: "string_map option"
  TCustomServiceConfig :: string

record WatcherApplierTemplate = WatcherSubCrsTemplate +
  TReplicas :: "int option"

type_synonym WatcherDecisionEngineTemplate = WatcherApplierTemplate

record WatcherAPITemplate = WatcherApplierTemplate +
  TOverride :: APIOverrideSpec
  TTLS :: tls_API

text \<open>
  \<open>route.OverrideSpec\<close> is read only in \<open>hasCertInOverrideSpec\<close>: its spec, the TLS part of that,
  and three fields of it.
\<close>

record route_tls =
  RouteCertificate :: string
  RouteKey :: string
  RouteCACertificate :: string

record route_spec =
  RouteSpecTLS :: "route_tls option"

record route_override =
  RouteOverrideSpec :: "route_spec option"

record TLSServiceOverride =
  TLSSecretName :: string

record WatcherOverride =
  RouteOverride :: "route_override option"
  TLSOverride :: "TLSServiceOverride option"

record WatcherDBPurge =
  Schedule :: "string option"
  PurgeAge :: "int option"

record WatcherImages =
  APIContainerImageURL :: string
  DecisionEngineContainerImageURL :: string
  ApplierContainerImageURL :: string

record WatcherTemplate = WatcherSecretSpec +
  RabbitMqClusterName :: "string option"
  DatabaseInstance :: "string option"
  DatabaseAccountName :: string
  APIServiceTemplate :: WatcherAPITemplate
  ApplierServiceTemplate :: WatcherApplierTemplate
  DecisionEngineServiceTemplate :: WatcherDecisionEngineTemplate
  APIOverride :: WatcherOverride
  DBPurge :: WatcherDBPurge

record WatcherSpec = WatcherTemplate +
  Images :: WatcherImages

section \<open>Custom resources\<close>

text \<open>
  What every resource has: its metadata, its spec and the status fields common to all four. The
  other status fields are extensions.
\<close>

record 'spec cr =
  Kind :: string
  Name :: string
  Namespace :: string
  UID :: string
  Generation :: int
  DeletionTimestamp :: "string option"
  Finalizers :: "string list"
  Spec :: 'spec
  Conditions :: conditions
  Hash :: "string_map option"
  ObservedGeneration :: int

record 'spec sub_cr = "'spec cr" +
  ReadyCount :: int

type_synonym WatcherAPI = "WatcherAPISpec sub_cr"
type_synonym WatcherApplier = "WatcherApplierSpec sub_cr"
type_synonym WatcherDecisionEngine = "WatcherDecisionEngineSpec sub_cr"

record Watcher = "WatcherSpec cr" +
  ServiceID :: string
  APIServiceReadyCount :: int
  ApplierServiceReadyCount :: int
  DecisionEngineServiceReadyCount :: int

definition DbSyncHash :: string where
  "DbSyncHash = ''dbsync''"

text \<open>The RBAC accessors of a Watcher.\<close>

definition RbacNamespace :: "Watcher \<Rightarrow> string" where
  "RbacNamespace i = Namespace i"

definition RbacResourceName :: "Watcher \<Rightarrow> string" where
  "RbacResourceName i = ''watcher-'' @ Name i"

section \<open>Condition messages\<close>

definition WatcherRabbitMQTransportURLReadyRunningMessage :: cmsg where
  "WatcherRabbitMQTransportURLReadyRunningMessage = Text ''WatcherRabbitMQTransportURL creation in progress''"
definition WatcherRabbitMQTransportURLReadyMessage :: cmsg where
  "WatcherRabbitMQTransportURLReadyMessage = Text ''WatcherRabbitMQTransportURL successfully created''"
definition WatcherRabbitMQTransportURLReadyErrorMessage :: cmsg where
  "WatcherRabbitMQTransportURLReadyErrorMessage = Text ''WatcherRabbitMQTransportURL error occured %s''"
definition WatcherAPIReadyInitMessage :: cmsg where
  "WatcherAPIReadyInitMessage = Text ''WatcherAPI creation not started''"
definition WatcherAPIReadyErrorMessage :: cmsg where
  "WatcherAPIReadyErrorMessage = Text ''WatcherAPI error occured %s''"
definition WatcherPrometheusSecretErrorMessage :: cmsg where
  "WatcherPrometheusSecretErrorMessage = Text ''Error with prometheus config secret''"
definition WatcherApplierReadyInitMessage :: cmsg where
  "WatcherApplierReadyInitMessage = Text ''WatcherApplier creation not started''"
definition WatcherApplierReadyErrorMessage :: cmsg where
  "WatcherApplierReadyErrorMessage = Text ''WatcherApplier error occured %s''"
definition WatcherDecisionEngineReadyInitMessage :: cmsg where
  "WatcherDecisionEngineReadyInitMessage = Text ''WatcherDecisionEngine creation not started''"
definition WatcherDecisionEngineReadyErrorMessage :: cmsg where
  "WatcherDecisionEngineReadyErrorMessage = Text ''WatcherDecisionEngine error occured %s''"

end
