(* ===== verification/Lib.thy ===== *)
theory Lib
  imports Api
begin

text \<open>
  The third-party functions the sources call, as parameters: one field per function or constant.
  Nothing is assumed of them here; what the code relies on is stated as named laws at the end,
  which a property takes as a hypothesis. Calls that talk to the cluster are in theory Effects.
\<close>

text \<open>A reference to the owner of a resource.\<close>

record owner_ref =
  OwnerKind :: string
  OwnerName :: string
  OwnerUID :: string
  OwnerIsController :: bool

record lib =
  \<comment> \<open>lib-common/condition\<close>
  FalseCondition :: "ctype \<Rightarrow> creason \<Rightarrow> cseverity \<Rightarrow> cmsg \<Rightarrow> string list \<Rightarrow> condition"
  UnknownCondition :: "ctype \<Rightarrow> creason \<Rightarrow> cmsg \<Rightarrow> condition"
  CSet :: "condition option \<Rightarrow> conditions \<Rightarrow> conditions"
  CMarkTrue :: "ctype \<Rightarrow> cmsg \<Rightarrow> conditions \<Rightarrow> conditions"
  CInit :: "condition list \<Rightarrow> conditions \<Rightarrow> conditions"
  CIsTrue :: "ctype \<Rightarrow> conditions \<Rightarrow> bool"
  CIsUnknown :: "ctype \<Rightarrow> conditions \<Rightarrow> bool"
  CAllSubTrue :: "conditions \<Rightarrow> bool"
  CMirror :: "ctype \<Rightarrow> conditions \<Rightarrow> condition option"
  CRestore :: "conditions \<Rightarrow> conditions \<Rightarrow> conditions"
  \<comment> \<open>controller-runtime, apimachinery and lib-common/helper\<close>
  AddFinalizer :: "string \<Rightarrow> string list \<Rightarrow> string list \<times> bool"
  RemoveFinalizer :: "string \<Rightarrow> string list \<Rightarrow> string list \<times> bool"
  GetFinalizer :: "string \<Rightarrow> string"
  GetControllerOf :: "owner_ref list \<Rightarrow> owner_ref option"
  IsNotFound :: "error option \<Rightarrow> bool"
  \<comment> \<open>lib-common/util, env, labels\<close>
  HashValues :: "string list \<Rightarrow> string \<times> error option"
  HashEnvs :: "envvar list \<Rightarrow> string \<times> error option"
  SetHash :: "string_map \<Rightarrow> string \<Rightarrow> string \<Rightarrow> string_map \<times> bool"
  MergeEnvs :: "envvar list \<Rightarrow> env_vars \<Rightarrow> envvar list"
  MergeStringMaps :: "string_map \<Rightarrow> string_map \<Rightarrow> string_map"
  GetLabels :: "nsname \<Rightarrow> string \<Rightarrow> string_map"
  WrapErrorForObject :: "string \<Rightarrow> error \<Rightarrow> error"
  AddAnnotation :: "string_map \<Rightarrow> string_map \<Rightarrow> string_map"
  GetEnvVar :: "string \<Rightarrow> string \<Rightarrow> string"
  \<comment> \<open>lib-common/tls\<close>
  APIEnabled :: "tls_API \<Rightarrow> string \<Rightarrow> bool"
  CaCreateVolume :: "string \<Rightarrow> volume"
  CaCreateVolumeMounts :: "string \<Rightarrow> volume_mount list"
  ToService :: "string option \<Rightarrow> error + string"
  ServiceCreateVolume :: "string \<Rightarrow> string \<Rightarrow> volume"
  ServiceCreateVolumeMounts :: "string \<Rightarrow> string \<Rightarrow> volume_mount list"
  \<comment> \<open>constants\<close>
  AppSelector :: string
  LabelHostname :: string
  InputHashName :: string
  CABundleKey :: string
  TLSHashName :: string
  DownstreamTLSCABundlePath :: string
  DatabasePasswordSelector :: string
  AnnotationEndpointKey :: string
  AnnotationIngressCreateKey :: string
  AnnotationHostnameKey :: string
  AnnotationIngressTargetPortNameKey :: string
  CertKey :: string
  PrivateKey :: string
  CAKey :: string
  InternalCABundleKey :: string
  CABundleSecret :: string

section \<open>Laws of the condition list\<close>

definition cond_list :: "conditions \<Rightarrow> condition list" where
  "cond_list cs = (case cs of None \<Rightarrow> [] | Some l \<Rightarrow> l)"

text \<open>The status a condition list records for a type, if it has one.\<close>

definition status_of :: "ctype \<Rightarrow> conditions \<Rightarrow> cstatus option" where
  "status_of t cs = map_option Status (List.find (\<lambda>c. Type c = t) (cond_list cs))"

text \<open>A list with one entry per type, which is how the package keeps it.\<close>

definition cond_wf :: "conditions \<Rightarrow> bool" where
  "cond_wf cs \<longleftrightarrow> distinct (map Type (cond_list cs))"

text \<open>
  The documented behaviour of lib-common's \<open>condition\<close> package. The constructors give the type and
  status they name.
\<close>

definition constructor_laws :: "lib \<Rightarrow> bool" where
  "constructor_laws L \<longleftrightarrow>
     (\<forall>t r sv m args. Type (FalseCondition L t r sv m args) = t \<and>
        Status (FalseCondition L t r sv m args) = CFalse) \<and>
     (\<forall>t r m. Type (UnknownCondition L t r m) = t \<and> Status (UnknownCondition L t r m) = CUnknown)"

text \<open>
  \<open>Set\<close> and \<open>MarkTrue\<close> change the entry of one type and \<open>Set(nil)\<close> nothing; \<open>Init\<close> records every
  condition it is given; restoring transition times changes no status. All keep one entry per type.
\<close>

definition update_laws :: "lib \<Rightarrow> bool" where
  "update_laws L \<longleftrightarrow>
     (\<forall>c cs t. status_of t (CSet L (Some c) cs) =
        (if t = Type c then Some (Status c) else status_of t cs)) \<and>
     (\<forall>cs. CSet L None cs = cs) \<and>
     (\<forall>t m cs u. status_of u (CMarkTrue L t m cs) = (if u = t then Some CTrue else status_of u cs)) \<and>
     (\<forall>l cs t. distinct (map Type l) \<longrightarrow> t \<in> Type ` set l \<longrightarrow>
        status_of t (CInit L l cs) = status_of t (Some l)) \<and>
     (\<forall>saved cs t. status_of t (CRestore L saved cs) = status_of t cs) \<and>
     (\<forall>c cs. cond_wf cs \<longrightarrow> cond_wf (CSet L c cs)) \<and>
     (\<forall>t m cs. cond_wf cs \<longrightarrow> cond_wf (CMarkTrue L t m cs)) \<and>
     (\<forall>l cs. cond_wf cs \<longrightarrow> cond_wf (CInit L l cs)) \<and>
     (\<forall>saved cs. cond_wf cs \<longrightarrow> cond_wf (CRestore L saved cs))"

text \<open>
  \<open>IsTrue\<close> and \<open>IsUnknown\<close> read the entry, a missing one being unknown; \<open>AllSubConditionIsTrue\<close>
  holds when every entry but \<open>Ready\<close> is True; \<open>Mirror\<close> gives a condition of the type asked for, and
  a True one only if every entry is True.
\<close>

definition query_laws :: "lib \<Rightarrow> bool" where
  "query_laws L \<longleftrightarrow>
     (\<forall>t cs. CIsTrue L t cs \<longleftrightarrow> status_of t cs = Some CTrue) \<and>
     (\<forall>t cs. CIsUnknown L t cs \<longleftrightarrow> status_of t cs \<in> {None, Some CUnknown}) \<and>
     (\<forall>cs. CAllSubTrue L cs \<longleftrightarrow>
        (\<forall>c \<in> set (cond_list cs). Type c \<noteq> ReadyCondition \<longrightarrow> Status c = CTrue)) \<and>
     (\<forall>t cs c. CMirror L t cs = Some c \<longrightarrow> Type c = t \<and>
        (Status c = CTrue \<longrightarrow> (\<forall>d \<in> set (cond_list cs). Status d = CTrue)))"

definition cond_laws :: "lib \<Rightarrow> bool" where
  "cond_laws L \<longleftrightarrow> constructor_laws L \<and> update_laws L \<and> query_laws L"

lemma status_of_mem: "status_of t cs = Some st \<Longrightarrow> \<exists>c \<in> set (cond_list cs). Type c = t \<and> Status c = st"
  by (auto simp: status_of_def find_Some_iff)

lemma status_of_wf:
  "cond_wf cs \<Longrightarrow> c \<in> set (cond_list cs) \<Longrightarrow> status_of (Type c) cs = Some (Status c)"
proof -
  assume wf: "cond_wf cs" and c: "c \<in> set (cond_list cs)"
  then obtain d where d: "List.find (\<lambda>x. Type x = Type c) (cond_list cs) = Some d"
    by (cases "List.find (\<lambda>x. Type x = Type c) (cond_list cs)") (auto simp: find_None_iff)
  then have "d \<in> set (cond_list cs)" and "Type d = Type c" by (auto simp: find_Some_iff)
  with wf c have "d = c" by (simp add: cond_wf_def distinct_map inj_on_def)
  with d show ?thesis by (simp add: status_of_def)
qed

text \<open>The laws as rewrite rules.\<close>

lemma cond_lawsD:
  assumes "cond_laws L"
  shows "Type (FalseCondition L t r sv m args) = t" "Status (FalseCondition L t r sv m args) = CFalse"
    "Type (UnknownCondition L t r m) = t" "Status (UnknownCondition L t r m) = CUnknown"
    "status_of u (CSet L (Some c) cs) = (if u = Type c then Some (Status c) else status_of u cs)"
    "CSet L None cs = cs"
    "status_of u (CMarkTrue L t m cs) = (if u = t then Some CTrue else status_of u cs)"
    "status_of u (CRestore L saved cs) = status_of u cs"
    "CIsTrue L t cs \<longleftrightarrow> status_of t cs = Some CTrue"
    "CIsUnknown L t cs \<longleftrightarrow> status_of t cs \<in> {None, Some CUnknown}"
  using assms by (simp_all add: cond_laws_def constructor_laws_def update_laws_def query_laws_def)

lemma cond_laws_wf:
  assumes "cond_laws L" and "cond_wf cs"
  shows "cond_wf (CSet L c' cs)" "cond_wf (CMarkTrue L t m cs)" "cond_wf (CInit L l cs)"
    "cond_wf (CRestore L saved cs)"
  using assms by (simp_all add: cond_laws_def update_laws_def)

lemma status_of_init:
  "cond_laws L \<Longrightarrow> distinct (map Type l) \<Longrightarrow> t \<in> Type ` set l \<Longrightarrow>
   status_of t (CInit L l cs) = status_of t (Some l)"
  unfolding cond_laws_def update_laws_def by blast

lemma all_sub_status:
  "cond_laws L \<Longrightarrow> CAllSubTrue L cs \<Longrightarrow> t \<noteq> ReadyCondition \<Longrightarrow> status_of t cs \<in> {None, Some CTrue}"
  unfolding cond_laws_def query_laws_def
  by (cases "status_of t cs") (auto dest: status_of_mem)

lemma all_sub_true:
  assumes "cond_laws L" and "cond_wf cs"
    and "\<And>t. t \<noteq> ReadyCondition \<Longrightarrow> status_of t cs \<in> {None, Some CTrue}"
  shows "CAllSubTrue L cs"
proof -
  have "Status c = CTrue" if "c \<in> set (cond_list cs)" "Type c \<noteq> ReadyCondition" for c
    using status_of_wf [OF assms(2) that(1)] assms(3) [OF that(2)] by auto
  then show ?thesis using assms(1) by (simp add: cond_laws_def query_laws_def)
qed

lemma mirror_type: "cond_laws L \<Longrightarrow> CMirror L t cs = Some c \<Longrightarrow> Type c = t"
  unfolding cond_laws_def query_laws_def by blast

lemma mirror_true:
  "cond_laws L \<Longrightarrow> CMirror L t cs = Some c \<Longrightarrow> Status c = CTrue \<Longrightarrow>
   status_of u cs \<in> {None, Some CTrue}"
  unfolding cond_laws_def query_laws_def
  by (cases "status_of u cs") (auto dest!: status_of_mem)

section \<open>Laws of the other helpers\<close>

text \<open>The documented behaviour of the finalizer helpers: membership, and whether it changed.\<close>

definition finalizer_laws :: "lib \<Rightarrow> bool" where
  "finalizer_laws L \<longleftrightarrow>
     (\<forall>f fs. fst (AddFinalizer L f fs) = (if f \<in> set fs then fs else fs @ [f]) \<and>
        (snd (AddFinalizer L f fs) \<longleftrightarrow> f \<notin> set fs)) \<and>
     (\<forall>f fs. fst (RemoveFinalizer L f fs) = filter (\<lambda>x. x \<noteq> f) fs \<and>
        (snd (RemoveFinalizer L f fs) \<longleftrightarrow> f \<in> set fs))"

text \<open>\<open>IsNotFound(nil)\<close> is false.\<close>

definition notfound_law :: "lib \<Rightarrow> bool" where
  "notfound_law L \<longleftrightarrow> \<not> IsNotFound L None"

text \<open>
  \<open>util.SetHash\<close> stores the hash under its name and reports whether it was different, a hash that
  is not there counting as empty; a hash that could be computed is not empty.
\<close>

definition hash_laws :: "lib \<Rightarrow> bool" where
  "hash_laws L \<longleftrightarrow>
     (\<forall>m k h. SetHash L m k h = (if map_get m k = h then (m, False) else (m(k \<mapsto> h), True))) \<and>
     (\<forall>vs h. HashEnvs L vs = (h, None) \<longrightarrow> h \<noteq> [])"

lemma set_hash:
  assumes "hash_laws L" and "HashEnvs L vs = (h, None)"
  shows "SetHash L m k h = (if m k = Some h then (m, False) else (m(k \<mapsto> h), True))"
proof -
  have "h \<noteq> []" and "SetHash L m k h = (if map_get m k = h then (m, False) else (m(k \<mapsto> h), True))"
    using assms unfolding hash_laws_def by blast+
  then show ?thesis by (cases "m k") (auto simp: map_get_def)
qed

text \<open>\<open>env.MergeEnvs\<close> lists every variable of the map with the value its setter gives.\<close>

definition env_laws :: "lib \<Rightarrow> bool" where
  "env_laws L \<longleftrightarrow>
     (\<forall>m e. e \<in> set (MergeEnvs L [] m) \<longleftrightarrow> map_of m (EnvName e) = Some (SetValue (EnvValue e)))"

end
