(* ===== verification/Volumes.thy ===== *)
theory Volumes
  imports Lib
begin

text \<open>
  \<open>pkg/watcher/constants.go\<close> and \<open>pkg/watcher/volumes.go\<close>: the constants, the volumes and
  mounts every workload starts from, and when a pod's mounts fit its volumes.
\<close>

section \<open>Constants\<close>

definition ServiceName :: string where "ServiceName = ''watcher''"
definition ServiceType :: string where "ServiceType = ''infra-optim''"
definition DatabaseName :: string where "DatabaseName = ''watcher''"
definition DatabaseUsernamePrefix :: string where "DatabaseUsernamePrefix = ''watcher''"
definition DatabaseCRName :: string where "DatabaseCRName = ''watcher''"
definition DefaultsConfigFileName :: string where "DefaultsConfigFileName = ''00-default.conf''"
definition GlobalCustomConfigFileName :: string where
  "GlobalCustomConfigFileName = ''01-global-custom.conf''"
definition ServiceCustomConfigFileName :: string where
  "ServiceCustomConfigFileName = ''02-service-custom.conf''"
definition LogVolume :: string where "LogVolume = ''logs''"
definition WatcherPublicPort :: int where "WatcherPublicPort = 9322"
definition WatcherLogPath :: string where "WatcherLogPath = ''/var/log/watcher/''"
definition ConfigVolume :: string where "ConfigVolume = ''config-data''"
definition PrometheusCaCertFolderPath :: string where
  "PrometheusCaCertFolderPath = ''/etc/pki/ca-trust/extracted/pem/prometheus/''"
definition WatcherUserID :: int where "WatcherUserID = 42451"
definition scriptVolume :: string where "scriptVolume = ''scripts-volume''"

lemmas watcher_constants = ServiceName_def DefaultsConfigFileName_def LogVolume_def
  WatcherPublicPort_def WatcherLogPath_def ConfigVolume_def PrometheusCaCertFolderPath_def
  WatcherUserID_def scriptVolume_def GlobalCustomConfigFileName_def
  ServiceCustomConfigFileName_def

section \<open>Volumes and mounts\<close>

text \<open>
  \<open>GetConfigSecretVolumes\<close>: the loop over the secret names, with the index \<open>idx\<close> of the name it
  looks at. Octal 0640 is 416, 0644 is 420, 0740 is 480.
\<close>

fun config_secret_volumes :: "nat \<Rightarrow> string list \<Rightarrow> volume list \<times> volume_mount list" where
  "config_secret_volumes idx [] = ([], [])"
| "config_secret_volumes idx (secretName # rest) =
     (let secretVol = \<lparr>VolName = secretName, VolSource = SecretVolume secretName (Some 416) []\<rparr>;
          secretMount = \<lparr>MountName = secretName,
            MountPath = ''/var/lib/config-data/secret-'' @ itoa (int idx),
            SubPath = [], ReadOnly = True\<rparr>;
          (vs, ms) = config_secret_volumes (Suc idx) rest
      in (secretVol # vs, secretMount # ms))"

definition GetConfigSecretVolumes :: "string list \<Rightarrow> volume list \<times> volume_mount list" where
  "GetConfigSecretVolumes secretNames = config_secret_volumes 0 secretNames"

definition GetVolumes :: "string \<Rightarrow> string list \<Rightarrow> volume list" where
  "GetVolumes name secretNames =
     [\<lparr>VolName = ''config-data'',
       VolSource = SecretVolume (name @ ''-config-data'') (Some 420) []\<rparr>] @
     fst (GetConfigSecretVolumes secretNames)"

definition GetVolumeMounts :: "string list \<Rightarrow> volume_mount list" where
  "GetVolumeMounts secretNames =
     [\<lparr>MountName = ''config-data'', MountPath = ''/var/lib/config-data/default'',
       SubPath = [], ReadOnly = True\<rparr>,
      \<lparr>MountName = ''config-data'', MountPath = ''/etc/my.cnf'',
       SubPath = ''my.cnf'', ReadOnly = True\<rparr>] @
     snd (GetConfigSecretVolumes secretNames)"

definition GetLogVolumeMount :: "volume_mount list" where
  "GetLogVolumeMount =
     [\<lparr>MountName = LogVolume, MountPath = ''/var/log/watcher'', SubPath = [], ReadOnly = False\<rparr>]"

definition GetLogVolume :: "volume list" where
  "GetLogVolume = [\<lparr>VolName = LogVolume, VolSource = EmptyDir []\<rparr>]"

definition GetKollaConfigVolumeMount :: "string \<Rightarrow> volume_mount" where
  "GetKollaConfigVolumeMount serviceName =
     \<lparr>MountName = ConfigVolume, MountPath = ''/var/lib/kolla/config_files/config.json'',
      SubPath = serviceName @ ''-config.json'', ReadOnly = True\<rparr>"

definition GetScriptVolumeMount :: volume_mount where
  "GetScriptVolumeMount =
     \<lparr>MountName = scriptVolume, MountPath = ''/var/lib/openstack/bin'',
      SubPath = [], ReadOnly = False\<rparr>"

definition GetScriptVolume :: "string \<Rightarrow> volume" where
  "GetScriptVolume secretName =
     \<lparr>VolName = scriptVolume, VolSource = SecretVolume secretName (Some 480) []\<rparr>"

section \<open>When a pod's mounts fit its volumes\<close>

text \<open>
  How the volumes of a pod have to be wired to its containers: the volume names and the container
  names do not repeat, no container mounts a volume the pod does not have, none mounts two things at
  one path. A pod that breaks this is refused by the API server, which checks more than this.
\<close>

definition mounts_fit :: "volume list \<Rightarrow> volume_mount list \<Rightarrow> bool" where
  "mounts_fit vs ms \<longleftrightarrow>
     (\<forall>m \<in> set ms. MountName m \<in> VolName ` set vs) \<and> distinct (map MountPath ms)"

definition pod_wired :: "pod_spec \<Rightarrow> bool" where
  "pod_wired p \<longleftrightarrow>
     distinct (map VolName (Volumes p)) \<and>
     distinct (map CName (Containers p)) \<and>
     (\<forall>c \<in> set (Containers p). mounts_fit (Volumes p) (VolumeMounts c))"

lemma config_secret_volumes_names:
  "map VolName (fst (config_secret_volumes idx ns)) = ns"
  "map MountName (snd (config_secret_volumes idx ns)) = ns"
  by (induction ns arbitrary: idx) (simp_all add: Let_def split_beta)

lemma config_secret_volumes_paths:
  "map MountPath (snd (config_secret_volumes idx ns)) =
     map (\<lambda>k. ''/var/lib/config-data/secret-'' @ itoa (int k)) [idx ..< idx + length ns]"
proof (induction ns arbitrary: idx)
  case Nil
  then show ?case by simp
next
  case (Cons n ns)
  have "[idx ..< idx + length (n # ns)] = idx # [Suc idx ..< Suc idx + length ns]"
    by (subst upt_conv_Cons) simp_all
  then have "map (\<lambda>k. ''/var/lib/config-data/secret-'' @ itoa (int k)) [idx ..< idx + length (n # ns)] =
      (''/var/lib/config-data/secret-'' @ itoa (int idx)) #
      map (\<lambda>k. ''/var/lib/config-data/secret-'' @ itoa (int k)) [Suc idx ..< Suc idx + length ns]"
    by (simp only: list.map)
  also have "\<dots> = map MountPath (snd (config_secret_volumes idx (n # ns)))"
    by (simp only: Cons.IH [symmetric] config_secret_volumes.simps Let_def split_beta snd_conv
        list.map volume_mount.simps)
  finally show ?case by simp
qed

lemma secret_path_inj: "inj_on (\<lambda>k. ''/var/lib/config-data/secret-'' @ itoa (int k)) A"
  by (rule inj_onI) (simp only: append_same_eq same_append_eq itoa_inject of_nat_eq_iff)

text \<open>Each secret gets a path of its own, and none of the two fixed paths.\<close>

lemma GetVolumeMounts_distinct: "distinct (map MountPath (GetVolumeMounts ns))"
proof -
  have "distinct (map MountPath (snd (config_secret_volumes 0 ns)))"
    by (simp only: config_secret_volumes_paths distinct_map distinct_upt secret_path_inj simp_thms)
  moreover have "p \<notin> set (map MountPath (snd (config_secret_volumes 0 ns)))"
    if "p = ''/var/lib/config-data/default'' \<or> p = ''/etc/my.cnf''" for p
    using that by (auto simp: config_secret_volumes_paths)
  ultimately show ?thesis
    by (simp add: GetVolumeMounts_def GetConfigSecretVolumes_def)
qed

lemma GetVolumeMounts_declared:
  "m \<in> set (GetVolumeMounts ns) \<Longrightarrow> MountName m \<in> VolName ` set (GetVolumes name ns)"
proof -
  assume m: "m \<in> set (GetVolumeMounts ns)"
  have names: "VolName ` set (GetVolumes name ns) = insert ''config-data'' (set ns)"
    using config_secret_volumes_names(1) [of 0 ns]
    by (auto simp: GetVolumes_def GetConfigSecretVolumes_def simp flip: set_map)
  have "MountName ` set (GetVolumeMounts ns) = insert ''config-data'' (set ns)"
    using config_secret_volumes_names(2) [of 0 ns]
    by (auto simp: GetVolumeMounts_def GetConfigSecretVolumes_def simp flip: set_map)
  with m names show ?thesis by blast
qed

text \<open>
  The general volumes and mounts of a workload fit together: whatever the list of secrets,
  every mount \<open>GetVolumeMounts\<close> makes refers to a volume \<open>GetVolumes\<close> declares for it, and no
  two mounts share a path, so no secret shadows another or one of the two config files.
\<close>

lemma config_mounts_fit: "mounts_fit (GetVolumes name ns) (GetVolumeMounts ns)"
  by (simp add: mounts_fit_def GetVolumeMounts_declared GetVolumeMounts_distinct)

lemma GetVolumes_Nil:
  "GetVolumes name [] = [\<lparr>VolName = ''config-data'',
     VolSource = SecretVolume (name @ ''-config-data'') (Some 420) []\<rparr>]"
  by (simp add: GetVolumes_def GetConfigSecretVolumes_def)

lemma GetVolumeMounts_Nil:
  "GetVolumeMounts [] =
     [\<lparr>MountName = ''config-data'', MountPath = ''/var/lib/config-data/default'',
       SubPath = [], ReadOnly = True\<rparr>,
      \<lparr>MountName = ''config-data'', MountPath = ''/etc/my.cnf'',
       SubPath = ''my.cnf'', ReadOnly = True\<rparr>]"
  by (simp add: GetVolumeMounts_def GetConfigSecretVolumes_def)

lemmas volume_defs = GetVolumes_Nil GetVolumeMounts_Nil GetLogVolumeMount_def GetLogVolume_def
  GetKollaConfigVolumeMount_def GetScriptVolumeMount_def GetScriptVolume_def

end
