(* ===== verification/Workloads.thy ===== *)
theory Workloads
  imports Volumes
begin

text \<open>
  The workloads the operator deploys: the StatefulSets of \<open>pkg/watcherapi\<close>,
  \<open>pkg/watcherapplier\<close> and \<open>pkg/watcherdecisionengine\<close>, and the db-sync Job and db-purge CronJob
  of \<open>pkg/watcher\<close>. A CA certificate for Prometheus is passed as the association list of the Go
  map, which is empty or holds the keys \<open>casecret_name\<close> and \<open>casecret_key\<close>.
\<close>

section \<open>Pieces the builders share\<close>

definition ServiceCommand :: string where "ServiceCommand = ''/usr/local/bin/kolla_start''"

definition config_data_custom :: "string \<Rightarrow> volume" where
  "config_data_custom name =
     \<lparr>VolName = ''config-data-custom'', VolSource = SecretVolume (name @ ''-config-data'') (Some 420) []\<rparr>"

definition kolla_env :: "lib \<Rightarrow> string \<Rightarrow> envvar list" where
  "kolla_env L configHash =
     MergeEnvs L [] [(''KOLLA_CONFIG_STRATEGY'', SetValue ''COPY_ALWAYS''),
                     (''CONFIG_HASH'', SetValue configHash)]"

text \<open>The volume and mount of a bundle CA, when the spec names one.\<close>

definition ca_volumes :: "lib \<Rightarrow> string \<Rightarrow> volume list" where
  "ca_volumes L bundle = (if bundle \<noteq> [] then [CaCreateVolume L bundle] else [])"

definition ca_mounts :: "lib \<Rightarrow> string \<Rightarrow> volume_mount list" where
  "ca_mounts L bundle = (if bundle \<noteq> [] then CaCreateVolumeMounts L bundle else [])"

type_synonym prometheus_ca = "(string \<times> string) list"

definition prometheus_volumes :: "prometheus_ca \<Rightarrow> volume list" where
  "prometheus_volumes ca =
     (if length ca \<noteq> 0 then
        [\<lparr>VolName = ''custom-prometheus-ca'',
          VolSource = SecretVolume (map_get (map_of ca) ''casecret_name'') None []\<rparr>]
      else [])"

definition prometheus_mounts :: "prometheus_ca \<Rightarrow> volume_mount list" where
  "prometheus_mounts ca =
     (if length ca \<noteq> 0 then
        [\<lparr>MountName = ''custom-prometheus-ca'',
          MountPath = filepath_Join [PrometheusCaCertFolderPath, map_get (map_of ca) ''casecret_key''],
          SubPath = map_get (map_of ca) ''casecret_key'', ReadOnly = True\<rparr>]
      else [])"

definition pod_node_selector :: "string_map option \<Rightarrow> string_map" where
  "pod_node_selector ns = (case ns of None \<Rightarrow> Map.empty | Some m \<Rightarrow> m)"

section \<open>watcher-api\<close>

text \<open>
  The three probes share one \<open>HTTPGetAction\<close>, so switching the scheme of the liveness probe
  switches all of them.
\<close>

definition api_http_get :: "lib \<Rightarrow> WatcherAPI \<Rightarrow> probe_handler" where
  "api_http_get L i =
     HTTPGet WatcherPublicPort
       (if APIEnabled L (TLS (Spec i)) EndpointPublic then URISchemeHTTPS else SchemeUnset)"

definition api_startup_probe :: "lib \<Rightarrow> WatcherAPI \<Rightarrow> probe" where
  "api_startup_probe L i =
     \<lparr>FailureThreshold = 6, PeriodSeconds = 10, TimeoutSeconds = 0, Handler = api_http_get L i\<rparr>"

definition api_liveness_probe :: "lib \<Rightarrow> WatcherAPI \<Rightarrow> probe" where
  "api_liveness_probe L i =
     \<lparr>FailureThreshold = 0, PeriodSeconds = 5, TimeoutSeconds = 5, Handler = api_http_get L i\<rparr>"

definition api_readiness_probe :: "lib \<Rightarrow> WatcherAPI \<Rightarrow> probe" where
  "api_readiness_probe L i =
     \<lparr>FailureThreshold = 0, PeriodSeconds = 5, TimeoutSeconds = 5, Handler = api_http_get L i\<rparr>"

text \<open>
  The loop over the endpoints: an enabled one adds the volume and mounts of its certificate, and
  the first secret that cannot be turned into a service ends the build with the error.
\<close>

fun api_tls_volumes ::
  "lib \<Rightarrow> tls_API \<Rightarrow> string list \<Rightarrow> volume list \<times> volume_mount list \<Rightarrow>
   error + (volume list \<times> volume_mount list)" where
  "api_tls_volumes L tls [] acc = Inr acc"
| "api_tls_volumes L tls (endpt # rest) (vs, ms) =
     (if APIEnabled L tls endpt then
        (let tlsEndptCfg = (if endpt = EndpointPublic then PublicSecretName tls
                            else if endpt = EndpointInternal then InternalSecretName tls else None)
         in case ToService L tlsEndptCfg of
              Inl err \<Rightarrow> Inl err
            | Inr svc \<Rightarrow> api_tls_volumes L tls rest
                (vs @ [ServiceCreateVolume L svc endpt],
                 ms @ ServiceCreateVolumeMounts L svc endpt))
      else api_tls_volumes L tls rest (vs, ms))"

definition api_volumes :: "lib \<Rightarrow> WatcherAPI \<Rightarrow> prometheus_ca \<Rightarrow> volume list" where
  "api_volumes L i ca =
     GetLogVolume @ [config_data_custom (Name i)] @
     ca_volumes L (CaBundleSecretName (TLS (Spec i))) @ prometheus_volumes ca"

definition api_volume_mounts :: "lib \<Rightarrow> WatcherAPI \<Rightarrow> prometheus_ca \<Rightarrow> volume_mount list" where
  "api_volume_mounts L i ca =
     [GetKollaConfigVolumeMount ''watcher-api''] @ GetLogVolumeMount @
     ca_mounts L (CaBundleSecretName (TLS (Spec i))) @ prometheus_mounts ca"

definition api_containers ::
  "lib \<Rightarrow> WatcherAPI \<Rightarrow> string \<Rightarrow> volume_mount list \<Rightarrow> container list" where
  "api_containers L i configHash apiVolumeMounts =
     [\<lparr>CName = Name i @ ''-log'',
       Command = [''/usr/bin/dumb-init''],
       Args = [''--single-child'', ''--'', ''/usr/bin/tail'', ''-n+1'', ''-F'',
               WatcherLogPath @ Name i @ ''.log''],
       Image = ContainerImage (Spec i),
       RunAsUser = WatcherUserID,
       Env = kolla_env L configHash,
       VolumeMounts = GetLogVolumeMount,
       CResources = Resources (Spec i),
       ReadinessProbe = Some (api_readiness_probe L i),
       LivenessProbe = Some (api_liveness_probe L i),
       StartupProbe = Some (api_startup_probe L i)\<rparr>,
      \<lparr>CName = ServiceName @ ''-api'',
       Command = [''/bin/bash''],
       Args = [''-c'', ServiceCommand],
       Image = ContainerImage (Spec i),
       RunAsUser = WatcherUserID,
       Env = kolla_env L configHash,
       VolumeMounts = GetVolumeMounts [] @ apiVolumeMounts,
       CResources = Resources (Spec i),
       ReadinessProbe = Some (api_readiness_probe L i),
       LivenessProbe = Some (api_liveness_probe L i),
       StartupProbe = None\<rparr>]"

definition api_StatefulSet ::
  "lib \<Rightarrow> WatcherAPI \<Rightarrow> string \<Rightarrow> prometheus_ca \<Rightarrow> string_map \<Rightarrow> error + statefulset" where
  "api_StatefulSet L i configHash ca labels =
     (case api_tls_volumes L (TLS (Spec i)) [EndpointInternal, EndpointPublic]
             (api_volumes L i ca, api_volume_mounts L i ca) of
        Inl err \<Rightarrow> Inl err
      | Inr (apiVolumes, apiVolumeMounts) \<Rightarrow> Inr
          \<lparr>SSName = Name i, SSNamespace = Namespace i, SSLabels = labels,
           MatchLabels = labels,
           PodManagementPolicy = ParallelPodManagement,
           SSReplicas = Replicas (Spec i),
           TemplateLabels = labels,
           SSPod = \<lparr>ServiceAccountName = ServiceAccount (Spec i),
             RestartPolicy = RestartPolicyUnset,
             Volumes = GetVolumes (Name i) [] @ apiVolumes,
             Containers = api_containers L i configHash apiVolumeMounts,
             Affinity = Some (DistributePods (AppSelector L) [map_get labels (AppSelector L)]
               (LabelHostname L)),
             PodNodeSelector = pod_node_selector (NodeSelector (Spec i))\<rparr>\<rparr>)"

section \<open>watcher-applier\<close>

definition applier_ComponentName :: string where
  "applier_ComponentName = ServiceName @ ''-applier''"

definition applier_probe_exec :: probe_handler where
  "applier_probe_exec = Exec [''/usr/bin/pgrep'', ''-r'', ''DRST'', applier_ComponentName]"

definition applier_StatefulSet ::
  "lib \<Rightarrow> WatcherApplier \<Rightarrow> string \<Rightarrow> string_map \<Rightarrow> statefulset" where
  "applier_StatefulSet L i configHash labels =
     (let volumes = GetLogVolume @ [config_data_custom (Name i)] @
            ca_volumes L (CaBundleSecretName (TLSCa (Spec i)));
          volumeMounts = [GetKollaConfigVolumeMount applier_ComponentName] @ GetLogVolumeMount @
            ca_mounts L (CaBundleSecretName (TLSCa (Spec i)))
      in \<lparr>SSName = Name i, SSNamespace = Namespace i, SSLabels = labels,
          MatchLabels = labels,
          PodManagementPolicy = PodManagementUnset,
          SSReplicas = Replicas (Spec i),
          TemplateLabels = labels,
          SSPod = \<lparr>ServiceAccountName = ServiceAccount (Spec i),
            RestartPolicy = RestartPolicyUnset,
            Volumes = GetVolumes (Name i) [] @ volumes,
            Containers =
              [\<lparr>CName = applier_ComponentName,
                Command = [''/bin/bash''],
                Args = [''-c'', ServiceCommand],
                Image = ContainerImage (Spec i),
                RunAsUser = WatcherUserID,
                Env = kolla_env L configHash,
                VolumeMounts = GetVolumeMounts [] @ volumeMounts,
                CResources = Resources (Spec i),
                ReadinessProbe = Some \<lparr>FailureThreshold = 0, PeriodSeconds = 5,
                  TimeoutSeconds = 5, Handler = applier_probe_exec\<rparr>,
                LivenessProbe = Some \<lparr>FailureThreshold = 0, PeriodSeconds = 10,
                  TimeoutSeconds = 10, Handler = applier_probe_exec\<rparr>,
                StartupProbe = Some \<lparr>FailureThreshold = 6, PeriodSeconds = 10,
                  TimeoutSeconds = 0, Handler = applier_probe_exec\<rparr>\<rparr>],
            Affinity = None,
            PodNodeSelector = pod_node_selector (NodeSelector (Spec i))\<rparr>\<rparr>)"

section \<open>watcher-decision-engine\<close>

definition de_ComponentName :: string where
  "de_ComponentName = ServiceName @ ''-decision-engine''"

definition de_probe_exec :: probe_handler where
  "de_probe_exec = Exec [''/usr/bin/pgrep'', ''-f'', ''-r'', ''DRST'', de_ComponentName]"

definition de_volumes :: "lib \<Rightarrow> WatcherDecisionEngine \<Rightarrow> prometheus_ca \<Rightarrow> volume list" where
  "de_volumes L i ca =
     GetLogVolume @ [config_data_custom (Name i)] @
     ca_volumes L (CaBundleSecretName (DETLSCa (Spec i))) @ prometheus_volumes ca"

definition de_volume_mounts ::
  "lib \<Rightarrow> WatcherDecisionEngine \<Rightarrow> prometheus_ca \<Rightarrow> volume_mount list" where
  "de_volume_mounts L i ca =
     [GetKollaConfigVolumeMount de_ComponentName] @ GetLogVolumeMount @
     ca_mounts L (CaBundleSecretName (DETLSCa (Spec i))) @ prometheus_mounts ca"

definition de_StatefulSet ::
  "lib \<Rightarrow> WatcherDecisionEngine \<Rightarrow> string \<Rightarrow> prometheus_ca \<Rightarrow> string_map \<Rightarrow> statefulset" where
  "de_StatefulSet L i configHash ca labels =
     \<lparr>SSName = Name i, SSNamespace = Namespace i, SSLabels = labels,
      MatchLabels = labels,
      PodManagementPolicy = PodManagementUnset,
      SSReplicas = Replicas (Spec i),
      TemplateLabels = labels,
      SSPod = \<lparr>ServiceAccountName = ServiceAccount (Spec i),
        RestartPolicy = RestartPolicyUnset,
        Volumes = GetVolumes (Name i) [] @ de_volumes L i ca,
        Containers =
          [\<lparr>CName = de_ComponentName,
            Command = [''/bin/bash''],
            Args = [''-c'', ServiceCommand],
            Image = ContainerImage (Spec i),
            RunAsUser = WatcherUserID,
            Env = kolla_env L configHash,
            VolumeMounts = GetVolumeMounts [] @ de_volume_mounts L i ca,
            CResources = Resources (Spec i),
            ReadinessProbe = Some \<lparr>FailureThreshold = 0, PeriodSeconds = 30,
              TimeoutSeconds = 30, Handler = de_probe_exec\<rparr>,
            LivenessProbe = Some \<lparr>FailureThreshold = 0, PeriodSeconds = 30,
              TimeoutSeconds = 30, Handler = de_probe_exec\<rparr>,
            StartupProbe = Some \<lparr>FailureThreshold = 6, PeriodSeconds = 10,
              TimeoutSeconds = 0, Handler = de_probe_exec\<rparr>\<rparr>],
        Affinity = Some (DistributePods (AppSelector L) [ServiceName] (LabelHostname L)),
        PodNodeSelector = pod_node_selector (NodeSelector (Spec i))\<rparr>\<rparr>"

section \<open>The db-sync job\<close>

definition DBSyncCommand :: string where
  "DBSyncCommand = ''/usr/local/bin/kolla_set_configs && /usr/local/bin/kolla_start''"

definition dbsync_volumes :: "lib \<Rightarrow> Watcher \<Rightarrow> volume list" where
  "dbsync_volumes L i =
     [\<lparr>VolName = ''db-sync-config-data'',
       VolSource = SecretVolume (Name i @ ''-config-data'') (Some 420)
         [(DefaultsConfigFileName, DefaultsConfigFileName)]\<rparr>] @
     ca_volumes L (CaBundleSecretName (TTLS (APIServiceTemplate (Spec i))))"

definition dbsync_mounts :: "lib \<Rightarrow> Watcher \<Rightarrow> volume_mount list" where
  "dbsync_mounts L i =
     [\<lparr>MountName = ''db-sync-config-data'', MountPath = ''/etc/watcher/watcher.conf.d'',
       SubPath = [], ReadOnly = True\<rparr>,
      \<lparr>MountName = ''config-data'', MountPath = ''/var/lib/kolla/config_files/config.json'',
       SubPath = ''watcher-dbsync-config.json'', ReadOnly = True\<rparr>] @
     ca_mounts L (CaBundleSecretName (TTLS (APIServiceTemplate (Spec i))))"

definition DbSyncJob :: "lib \<Rightarrow> Watcher \<Rightarrow> string_map \<Rightarrow> string_map \<Rightarrow> job" where
  "DbSyncJob L i labels annotations =
     \<lparr>JobName = Name i @ ''-db-sync'', JobNamespace = Namespace i, JobLabels = labels,
      JobAnnotations = annotations,
      JobPod = \<lparr>ServiceAccountName = RbacResourceName i,
        RestartPolicy = RestartPolicyOnFailure,
        Volumes = GetVolumes (Name i) [] @ dbsync_volumes L i,
        Containers =
          [\<lparr>CName = Name i @ ''-db-sync'',
            Command = [''/bin/bash''],
            Args = [''-c'', DBSyncCommand],
            Image = APIContainerImageURL (Images (Spec i)),
            RunAsUser = 0,
            Env = MergeEnvs L [] [(''KOLLA_CONFIG_STRATEGY'', SetValue ''COPY_ALWAYS''),
                                  (''KOLLA_BOOTSTRAP'', SetValue ''TRUE'')],
            VolumeMounts = GetVolumeMounts [] @ dbsync_mounts L i,
            CResources = [],
            ReadinessProbe = None, LivenessProbe = None, StartupProbe = None\<rparr>],
        Affinity = None,
        PodNodeSelector = Map.empty\<rparr>\<rparr>"

section \<open>The db-purge cron job\<close>

definition dbpurge_volumes :: "lib \<Rightarrow> Watcher \<Rightarrow> volume list" where
  "dbpurge_volumes L i =
     GetVolumes (Name i) [] @ [config_data_custom (Name i)] @
     [GetScriptVolume (Name i @ ''-scripts'')] @
     ca_volumes L (CaBundleSecretName (TTLS (APIServiceTemplate (Spec i))))"

definition dbpurge_mounts :: "lib \<Rightarrow> Watcher \<Rightarrow> volume_mount list" where
  "dbpurge_mounts L i =
     GetVolumeMounts [] @ [GetKollaConfigVolumeMount ''watcher-dbpurge''] @
     [GetScriptVolumeMount] @
     ca_mounts L (CaBundleSecretName (TTLS (APIServiceTemplate (Spec i))))"

definition dbpurge_env :: "lib \<Rightarrow> int \<Rightarrow> envvar list" where
  "dbpurge_env L age =
     MergeEnvs L [] [(''KOLLA_CONFIG_STRATEGY'', SetValue ''COPY_ALWAYS''),
                     (''KOLLA_BOOTSTRAP'', SetValue ''true''),
                     (''PURGE_AGE'', SetValue (itoa age))]"

text \<open>The age and the schedule are read through pointers, in that order.\<close>

definition DBPurgeCronJob :: "lib \<Rightarrow> Watcher \<Rightarrow> string_map \<Rightarrow> string_map \<Rightarrow> cronjob go" where
  "DBPurgeCronJob L i labels annotations =
     (case deref (PurgeAge (DBPurge (Spec i))) of
        Panic p \<Rightarrow> Panic p
      | Val age \<Rightarrow>
     (case deref (Schedule (DBPurge (Spec i))) of
        Panic p \<Rightarrow> Panic p
      | Val schedule \<Rightarrow> Val
     \<lparr>CronName = Name i @ ''-db-purge'', CronNamespace = Namespace i, CronLabels = labels,
      CronSchedule = schedule,
      CronConcurrency = ForbidConcurrent,
      CronTemplateLabels = labels, CronTemplateAnnotations = annotations,
      Parallelism = 1, Completions = 1,
      CronPod = \<lparr>ServiceAccountName = RbacResourceName i,
        RestartPolicy = RestartPolicyOnFailure,
        Volumes = dbpurge_volumes L i,
        Containers =
          [\<lparr>CName = ''watcher-db-manage'',
            Command = [''/bin/bash''],
            Args = [''-c'', ServiceCommand],
            Image = APIContainerImageURL (Images (Spec i)),
            RunAsUser = WatcherUserID,
            Env = dbpurge_env L age,
            VolumeMounts = dbpurge_mounts L i,
            CResources = [],
            ReadinessProbe = None, LivenessProbe = None, StartupProbe = None\<rparr>],
        Affinity = None,
        PodNodeSelector = pod_node_selector (NodeSelector (Spec i))\<rparr>\<rparr>))"

end
