(* ===== verification/PodWiring.thy ===== *)
theory PodWiring
  imports Workloads
begin

text \<open>
  Correctness of the workload builders: every pod they build has its volumes wired to its containers
  (\<open>pod_wired\<close>), its selector matches its own labels, the names of its containers are well formed,
  those made from the name of a resource exactly when that name is short and has no dot, and a new
  configuration hash changes the pod template, which is what makes Kubernetes roll the pods.
\<close>

section \<open>The names and paths of the builders\<close>

definition own_volume_names :: "string list" where
  "own_volume_names = [''config-data'', ''config-data-custom'', ''logs'', ''custom-prometheus-ca'',
     ''db-sync-config-data'', ''scripts-volume'']"

definition own_mount_paths :: "string list" where
  "own_mount_paths = [''/var/lib/config-data/default'', ''/etc/my.cnf'',
     ''/var/lib/kolla/config_files/config.json'', ''/var/log/watcher'',
     ''/etc/watcher/watcher.conf.d'', ''/var/lib/openstack/bin'']"

definition under_prometheus :: "string \<Rightarrow> bool" where
  "under_prometheus p \<longleftrightarrow>
     take (length PrometheusCaCertFolderPath) p = PrometheusCaCertFolderPath"

text \<open>
  What the pods rely on of the volumes lib-common makes for TLS: a mount names the volume made
  with it; the volume names are not the operator's own and differ from each other; the mount
  paths are neither the operator's own nor under the Prometheus folder, and all differ.
\<close>

definition tls_law_ca :: "lib \<Rightarrow> bool" where
  "tls_law_ca L \<longleftrightarrow>
     (\<forall>b. VolName (CaCreateVolume L b) \<notin> set own_volume_names \<and>
        distinct (map MountPath (CaCreateVolumeMounts L b)) \<and>
        (\<forall>m \<in> set (CaCreateVolumeMounts L b). MountName m = VolName (CaCreateVolume L b) \<and>
           MountPath m \<notin> set own_mount_paths \<and> \<not> under_prometheus (MountPath m)))"

definition tls_law_service :: "lib \<Rightarrow> bool" where
  "tls_law_service L \<longleftrightarrow>
     (\<forall>s e. VolName (ServiceCreateVolume L s e) \<notin> set own_volume_names \<and>
        (\<forall>b. VolName (ServiceCreateVolume L s e) \<noteq> VolName (CaCreateVolume L b)) \<and>
        distinct (map MountPath (ServiceCreateVolumeMounts L s e)) \<and>
        (\<forall>m \<in> set (ServiceCreateVolumeMounts L s e).
           MountName m = VolName (ServiceCreateVolume L s e) \<and>
           MountPath m \<notin> set own_mount_paths \<and> \<not> under_prometheus (MountPath m) \<and>
           (\<forall>b. MountPath m \<notin> MountPath ` set (CaCreateVolumeMounts L b)))) \<and>
     (\<forall>s s' e e'. e \<noteq> e' \<longrightarrow>
        VolName (ServiceCreateVolume L s e) \<noteq> VolName (ServiceCreateVolume L s' e') \<and>
        MountPath ` set (ServiceCreateVolumeMounts L s e) \<inter>
          MountPath ` set (ServiceCreateVolumeMounts L s' e') = {})"

text \<open>A key of a Kubernetes secret is one path segment.\<close>

definition plain_segment :: "string \<Rightarrow> bool" where
  "plain_segment k \<longleftrightarrow> k \<noteq> [] \<and> CHR ''/'' \<notin> set k \<and> k \<noteq> ''.'' \<and> k \<noteq> ''..''"

lemma split_on_plain: "d \<notin> set k \<Longrightarrow> split_on d k = [k]"
  by (induction k) auto

lemma prometheus_path:
  assumes "plain_segment k"
  shows "filepath_Join [PrometheusCaCertFolderPath, k] = PrometheusCaCertFolderPath @ k"
  using assms
  by (simp add: filepath_Join_def filepath_Clean_def PrometheusCaCertFolderPath_def
      plain_segment_def split_on_plain Let_def)

lemma prometheus_path_under:
  "plain_segment k \<Longrightarrow> under_prometheus (filepath_Join [PrometheusCaCertFolderPath, k])"
  by (simp add: under_prometheus_def prometheus_path)

lemma own_paths_not_under: "p \<in> set own_mount_paths \<Longrightarrow> \<not> under_prometheus p"
  by (auto simp: own_mount_paths_def under_prometheus_def PrometheusCaCertFolderPath_def)


section \<open>Assembling volumes and mounts from segments\<close>

definition segment_ok :: "volume list \<Rightarrow> volume_mount list \<Rightarrow> bool" where
  "segment_ok vs ms \<longleftrightarrow> distinct (map VolName vs) \<and> mounts_fit vs ms"

definition apart :: "volume list \<Rightarrow> volume_mount list \<Rightarrow> volume list \<Rightarrow> volume_mount list \<Rightarrow> bool" where
  "apart vs ms ws ns \<longleftrightarrow>
     VolName ` set vs \<inter> VolName ` set ws = {} \<and> MountPath ` set ms \<inter> MountPath ` set ns = {}"

lemma apartI:
  assumes "\<And>v w. v \<in> set vs \<Longrightarrow> w \<in> set ws \<Longrightarrow> VolName v \<noteq> VolName w"
    and "\<And>m n. m \<in> set ms \<Longrightarrow> n \<in> set ns \<Longrightarrow> MountPath m \<noteq> MountPath n"
  shows "apart vs ms ws ns"
  unfolding apart_def using assms by (intro conjI equals0I) blast+

lemma segment_append:
  "segment_ok vs ms \<Longrightarrow> segment_ok ws ns \<Longrightarrow> apart vs ms ws ns \<Longrightarrow>
   segment_ok (vs @ ws) (ms @ ns)"
  by (auto simp: segment_ok_def mounts_fit_def apart_def)

lemma segment_Nil [simp]: "segment_ok [] []"
  by (simp add: segment_ok_def mounts_fit_def)

lemma apart_Nil [simp]: "apart vs ms [] []"
  by (simp add: apart_def)

lemma apart_append:
  "apart vs ms ws ns \<Longrightarrow> apart us ls ws ns \<Longrightarrow> apart (vs @ us) (ms @ ls) ws ns"
  by (auto simp: apart_def)

text \<open>
  An extra segment keeps off the operator's own names and paths; \<open>own_segment\<close> says that a
  segment uses only those.
\<close>

definition extra_ok :: "volume list \<Rightarrow> volume_mount list \<Rightarrow> bool" where
  "extra_ok vs ms \<longleftrightarrow> segment_ok vs ms \<and>
     (\<forall>v \<in> set vs. VolName v \<notin> set own_volume_names \<or> VolName v = ''custom-prometheus-ca'') \<and>
     (\<forall>m \<in> set ms. MountPath m \<notin> set own_mount_paths)"

definition own_segment :: "volume list \<Rightarrow> volume_mount list \<Rightarrow> bool" where
  "own_segment vs ms \<longleftrightarrow> segment_ok vs ms \<and>
     (\<forall>v \<in> set vs. VolName v \<in> set own_volume_names \<and> VolName v \<noteq> ''custom-prometheus-ca'') \<and>
     (\<forall>m \<in> set ms. MountPath m \<in> set own_mount_paths)"

lemma own_extra_apart: "own_segment vs ms \<Longrightarrow> extra_ok ws ns \<Longrightarrow> apart vs ms ws ns"
  by (fastforce simp: own_segment_def extra_ok_def apart_def)

lemma own_extra_segment: "own_segment vs ms \<Longrightarrow> extra_ok ws ns \<Longrightarrow> segment_ok (vs @ ws) (ms @ ns)"
  by (blast intro: segment_append own_extra_apart dest: own_segment_def [THEN iffD1]
      extra_ok_def [THEN iffD1])

lemma extra_append:
  "extra_ok vs ms \<Longrightarrow> extra_ok ws ns \<Longrightarrow> apart vs ms ws ns \<Longrightarrow> extra_ok (vs @ ws) (ms @ ns)"
  by (auto simp: extra_ok_def intro: segment_append)

lemma extra_Nil [simp]: "extra_ok [] []"
  by (simp add: extra_ok_def)

lemma ca_extra: "tls_law_ca L \<Longrightarrow> extra_ok (ca_volumes L b) (ca_mounts L b)"
  by (auto simp: tls_law_ca_def extra_ok_def segment_ok_def mounts_fit_def ca_volumes_def
      ca_mounts_def)

definition prometheus_ok :: "prometheus_ca \<Rightarrow> bool" where
  "prometheus_ok ca \<longleftrightarrow> ca = [] \<or> plain_segment (map_get (map_of ca) ''casecret_key'')"

lemma prometheus_mounts_under:
  "prometheus_ok ca \<Longrightarrow> m \<in> set (prometheus_mounts ca) \<Longrightarrow> under_prometheus (MountPath m)"
  by (auto simp: prometheus_ok_def prometheus_mounts_def prometheus_path_under split: if_splits)

lemma prometheus_extra: "prometheus_ok ca \<Longrightarrow> extra_ok (prometheus_volumes ca) (prometheus_mounts ca)"
  using prometheus_mounts_under [of ca] own_paths_not_under
  by (auto simp: extra_ok_def segment_ok_def mounts_fit_def prometheus_volumes_def
      prometheus_mounts_def split: if_splits)

lemma ca_prometheus_apart:
  assumes "tls_law_ca L" and "prometheus_ok ca"
  shows "apart (ca_volumes L b) (ca_mounts L b) (prometheus_volumes ca) (prometheus_mounts ca)"
proof -
  have "\<not> under_prometheus (MountPath m)" if "m \<in> set (ca_mounts L b)" for m
    using that assms(1) by (auto simp: ca_mounts_def tls_law_ca_def split: if_splits)
  then have "MountPath ` set (ca_mounts L b) \<inter> MountPath ` set (prometheus_mounts ca) = {}"
    using prometheus_mounts_under [OF assms(2)] by fastforce
  moreover have "VolName ` set (ca_volumes L b) \<inter> VolName ` set (prometheus_volumes ca) = {}"
    using assms(1) by (auto simp: ca_volumes_def prometheus_volumes_def tls_law_ca_def
        own_volume_names_def)
  ultimately show ?thesis by (simp add: apart_def)
qed

lemma base_own_segment:
  "own_segment (GetVolumes name [] @ GetLogVolume @ [config_data_custom n])
     (GetVolumeMounts [] @ [GetKollaConfigVolumeMount svc] @ GetLogVolumeMount)"
  by (simp add: own_segment_def segment_ok_def mounts_fit_def volume_defs config_data_custom_def
      own_volume_names_def own_mount_paths_def LogVolume_def ConfigVolume_def)

lemma segment_pod:
  assumes "segment_ok (Volumes p) (VolumeMounts c)" and "Containers p = [c]"
  shows "pod_wired p"
  using assms by (simp add: pod_wired_def segment_ok_def)


section \<open>The endpoint certificates of watcher-api\<close>

definition service_segment ::
  "lib \<Rightarrow> string set \<Rightarrow> volume list \<Rightarrow> volume_mount list \<Rightarrow> bool" where
  "service_segment L es vs ms \<longleftrightarrow> extra_ok vs ms \<and>
     (\<forall>v \<in> set vs. \<exists>s e. e \<in> es \<and> v = ServiceCreateVolume L s e) \<and>
     (\<forall>m \<in> set ms. \<exists>s e. e \<in> es \<and> m \<in> set (ServiceCreateVolumeMounts L s e))"

lemma service_one:
  "tls_law_service L \<Longrightarrow>
   service_segment L {e} [ServiceCreateVolume L s e] (ServiceCreateVolumeMounts L s e)"
  by (auto simp: tls_law_service_def service_segment_def extra_ok_def segment_ok_def mounts_fit_def)

lemma service_apart:
  assumes law: "tls_law_service L" and "e \<notin> es" and "service_segment L {e} vs ms"
    and "service_segment L es ws ns"
  shows "apart vs ms ws ns"
proof -
  have vol: "VolName (ServiceCreateVolume L s e) \<noteq> VolName (ServiceCreateVolume L s' e')"
    and paths: "MountPath ` set (ServiceCreateVolumeMounts L s e) \<inter>
      MountPath ` set (ServiceCreateVolumeMounts L s' e') = {}" if "e' \<in> es" for s s' e'
    using that assms(1,2) unfolding tls_law_service_def by metis+
  have "VolName ` set vs \<inter> VolName ` set ws = {}"
    using assms(3,4) vol unfolding service_segment_def by fastforce
  moreover have "MountPath ` set ms \<inter> MountPath ` set ns = {}"
    using assms(3,4) paths unfolding service_segment_def by fastforce
  ultimately show ?thesis by (simp add: apart_def)
qed

lemma service_append:
  assumes "tls_law_service L" and "e \<notin> es" and "service_segment L {e} vs ms"
    and "service_segment L es ws ns"
  shows "service_segment L (insert e es) (vs @ ws) (ms @ ns)"
  using service_apart [OF assms] assms(3,4) extra_append
  by (fastforce simp: service_segment_def)

lemma service_mono: "service_segment L es vs ms \<Longrightarrow> es \<subseteq> fs \<Longrightarrow> service_segment L fs vs ms"
  by (fastforce simp: service_segment_def)

lemma api_tls_volumes_segment:
  assumes "tls_law_service L" and "distinct es"
    and "api_tls_volumes L tls es (vs, ms) = Inr (vs', ms')"
  shows "\<exists>ws ns. vs' = vs @ ws \<and> ms' = ms @ ns \<and> service_segment L (set es) ws ns"
  using assms(2,3)
proof (induction es arbitrary: vs ms)
  case Nil
  then show ?case by (simp add: service_segment_def)
next
  case (Cons e es)
  show ?case
  proof (cases "APIEnabled L tls e")
    case False
    with Cons.prems Cons.IH [of vs ms] obtain ws ns
      where "vs' = vs @ ws" "ms' = ms @ ns" "service_segment L (set es) ws ns" by auto
    then show ?thesis using service_mono [of L "set es" ws ns "set (e # es)"] by auto
  next
    case True
    with Cons.prems obtain svc where rest: "api_tls_volumes L tls es
        (vs @ [ServiceCreateVolume L svc e], ms @ ServiceCreateVolumeMounts L svc e) = Inr (vs', ms')"
      by (auto simp: Let_def split: sum.splits)
    with Cons.prems(1) Cons.IH obtain ws ns
      where tail: "vs' = (vs @ [ServiceCreateVolume L svc e]) @ ws"
        "ms' = (ms @ ServiceCreateVolumeMounts L svc e) @ ns" "service_segment L (set es) ws ns"
      by (metis distinct.simps(2))
    have "service_segment L (insert e (set es)) ([ServiceCreateVolume L svc e] @ ws)
        (ServiceCreateVolumeMounts L svc e @ ns)"
      using assms(1) Cons.prems(1) service_one [OF assms(1)] tail(3) by (intro service_append) auto
    with tail(1,2) show ?thesis by (metis append.assoc list.set(2))
  qed
qed

lemma service_ca_prometheus_apart:
  assumes "tls_law_service L" and "prometheus_ok ca" and "service_segment L es ws ns"
  shows "apart (ca_volumes L b @ prometheus_volumes ca) (ca_mounts L b @ prometheus_mounts ca) ws ns"
proof (rule apart_append)
  have not_under: "\<not> under_prometheus (MountPath m)" if "m \<in> set ns" for m
    using that assms(1,3) unfolding service_segment_def tls_law_service_def by metis
  have own: "VolName v \<notin> set own_volume_names" if "v \<in> set ws" for v
    using that assms(1,3) unfolding service_segment_def tls_law_service_def by metis
  have prom: "v \<in> set (prometheus_volumes ca) \<Longrightarrow> VolName v \<in> set own_volume_names" for v
    by (auto simp: prometheus_volumes_def own_volume_names_def split: if_splits)
  have names: "VolName v \<noteq> VolName w" if "v \<in> set (prometheus_volumes ca)" and "w \<in> set ws" for v w
    using prom [OF that(1)] own [OF that(2)] by metis
  have paths: "MountPath m \<noteq> MountPath n" if "m \<in> set (prometheus_mounts ca)" and "n \<in> set ns" for m n
    using prometheus_mounts_under [OF assms(2) that(1)] not_under [OF that(2)] by metis
  show "apart (prometheus_volumes ca) (prometheus_mounts ca) ws ns"
    using names paths by (rule apartI)
  have ca_names: "VolName v \<noteq> VolName w" if "v \<in> set (ca_volumes L b)" and "w \<in> set ws" for v w
  proof -
    obtain s e where "w = ServiceCreateVolume L s e"
      using \<open>w \<in> set ws\<close> assms(3) unfolding service_segment_def by blast
    moreover from that(1) have "v = CaCreateVolume L b" by (simp add: ca_volumes_def split: if_splits)
    ultimately show ?thesis using assms(1) unfolding tls_law_service_def by metis
  qed
  have ca_paths: "MountPath m \<noteq> MountPath n" if "m \<in> set (ca_mounts L b)" and "n \<in> set ns" for m n
  proof -
    obtain s e where "n \<in> set (ServiceCreateVolumeMounts L s e)"
      using \<open>n \<in> set ns\<close> assms(3) unfolding service_segment_def by blast
    then have "MountPath n \<notin> MountPath ` set (CaCreateVolumeMounts L b)"
      using assms(1) unfolding tls_law_service_def by blast
    moreover from that(1) have "MountPath m \<in> MountPath ` set (CaCreateVolumeMounts L b)"
      by (auto simp: ca_mounts_def split: if_splits)
    ultimately show ?thesis by metis
  qed
  show "apart (ca_volumes L b) (ca_mounts L b) ws ns"
    using ca_names ca_paths by (rule apartI)
qed

section \<open>Container names\<close>

text \<open>
  The names Kubernetes allows: a container's is a DNS label (lower case letters, digits and dashes, a
  letter or digit at both ends, at most 63 characters); a resource's is a DNS subdomain, which may
  have dots and be longer.
\<close>

definition label_char :: "char \<Rightarrow> bool" where
  "label_char c \<longleftrightarrow> c \<in> set ''abcdefghijklmnopqrstuvwxyz0123456789''"

definition dns_label :: "string \<Rightarrow> bool" where
  "dns_label n \<longleftrightarrow> n \<noteq> [] \<and> length n \<le> 63 \<and> (\<forall>c \<in> set n. label_char c \<or> c = CHR ''-'') \<and>
     label_char (hd n) \<and> label_char (last n)"

definition dns_subdomain :: "string \<Rightarrow> bool" where
  "dns_subdomain n \<longleftrightarrow> n \<noteq> [] \<and> length n \<le> 253 \<and>
     (\<forall>part \<in> set (split_on (CHR ''.'') n). part \<noteq> [] \<and> (\<forall>c \<in> set part. label_char c \<or> c = CHR ''-'') \<and>
        label_char (hd part) \<and> label_char (last part))"

text \<open>A label made of the name of a resource and a suffix: the name has no dot and leaves room.\<close>

lemma label_char_dot: "\<not> label_char (CHR ''.'')"
  by (simp add: label_char_def)

lemma dns_label_suffix:
  assumes "dns_subdomain n" and "suffix \<noteq> []" and "label_char (last suffix)"
    and "\<forall>c \<in> set suffix. label_char c \<or> c = CHR ''-''" and "length suffix \<le> 63"
  shows "dns_label (n @ suffix) \<longleftrightarrow> CHR ''.'' \<notin> set n \<and> length n \<le> 63 - length suffix"
proof (cases "CHR ''.'' \<in> set n")
  case True
  then have "\<not> (\<forall>c \<in> set (n @ suffix). label_char c \<or> c = CHR ''-'')" using label_char_dot by auto
  with True show ?thesis by (simp only: dns_label_def) blast
next
  case False
  then have "split_on (CHR ''.'') n = [n]" by (rule split_on_plain)
  with assms(1) have n: "n \<noteq> []" "\<forall>c \<in> set n. label_char c \<or> c = CHR ''-''" "label_char (hd n)"
    by (simp_all add: dns_subdomain_def)
  have "\<forall>c \<in> set (n @ suffix). label_char c \<or> c = CHR ''-''" using n(2) assms(4) by auto
  moreover have "hd (n @ suffix) = hd n" "last (n @ suffix) = last suffix" using n(1) assms(2) by simp_all
  ultimately have "dns_label (n @ suffix) \<longleftrightarrow> length (n @ suffix) \<le> 63"
    using n assms(2,3) by (simp add: dns_label_def)
  with False assms(5) show ?thesis by auto
qed

lemma component_labels:
  "dns_label (ServiceName @ ''-api'')" "dns_label applier_ComponentName" "dns_label de_ComponentName"
  "dns_label ''watcher-db-manage''"
  by (simp_all add: dns_label_def label_char_def ServiceName_def applier_ComponentName_def de_ComponentName_def)

section \<open>Every pod is wired\<close>

lemma api_segment:
  assumes "tls_law_ca L" and "tls_law_service L" and "prometheus_ok ca"
    and "api_tls_volumes L (TLS (Spec i)) [EndpointInternal, EndpointPublic]
      (api_volumes L i ca, api_volume_mounts L i ca) = Inr (vs, ms)"
  shows "segment_ok (GetVolumes (Name i) [] @ vs) (GetVolumeMounts [] @ ms)"
proof -
  let ?b = "CaBundleSecretName (TLS (Spec i))"
  obtain ws ns where split: "vs = api_volumes L i ca @ ws" "ms = api_volume_mounts L i ca @ ns"
    and svc: "service_segment L {EndpointInternal, EndpointPublic} ws ns"
    using api_tls_volumes_segment [OF assms(2) _ assms(4)] by auto
  have "extra_ok (ca_volumes L ?b @ prometheus_volumes ca) (ca_mounts L ?b @ prometheus_mounts ca)"
    using assms(1,3) by (intro extra_append ca_extra prometheus_extra ca_prometheus_apart)
  then have "extra_ok ((ca_volumes L ?b @ prometheus_volumes ca) @ ws)
      ((ca_mounts L ?b @ prometheus_mounts ca) @ ns)"
    by (rule extra_append) (use svc service_ca_prometheus_apart [OF assms(2,3) svc] in
        \<open>simp_all add: service_segment_def\<close>)
  from own_extra_segment [OF base_own_segment this, of "Name i" "Name i" "''watcher-api''"]
  show ?thesis by (simp add: split api_volumes_def api_volume_mounts_def)
qed

lemma api_container_names:
  fixes n :: string
  assumes "n @ ''-log'' = ServiceName @ ''-api''"
  shows False
proof -
  from assms have "last (n @ ''-log'') = last (ServiceName @ ''-api'')" by (rule arg_cong)
  then show False by (simp add: ServiceName_def)
qed

lemma log_mount_fits:
  "segment_ok vs ms \<Longrightarrow> set GetLogVolumeMount \<subseteq> set ms \<Longrightarrow> mounts_fit vs GetLogVolumeMount"
  by (auto simp: segment_ok_def mounts_fit_def GetLogVolumeMount_def)

text \<open>
  C33. A watcher-api StatefulSet that is built has a pod whose volumes fit its containers: volume and
  container names do not repeat, every mount of both containers names a declared volume, no container
  mounts two things at one path; and the selector equals the labels of its own pods. This is under the
  laws of the volumes lib-common makes for TLS, and for a Prometheus secret that names its CA by the
  name of a file. The container names are well formed exactly when the name of the resource has no dot
  and at most 59 characters: a longer or dotted name, which Kubernetes allows for a resource, gives a
  pod it refuses.
\<close>

theorem api_statefulset_wired:
  assumes "tls_law_ca L" and "tls_law_service L" and "prometheus_ok ca"
    and "api_StatefulSet L i h ca labels = Inr ss"
  shows "pod_wired (SSPod ss) \<and> MatchLabels ss = TemplateLabels ss \<and>
    (dns_subdomain (Name i) \<longrightarrow>
       ((\<forall>c \<in> set (Containers (SSPod ss)). dns_label (CName c)) \<longleftrightarrow>
          CHR ''.'' \<notin> set (Name i) \<and> length (Name i) \<le> 59))"
proof -
  obtain vs ms where tls: "api_tls_volumes L (TLS (Spec i)) [EndpointInternal, EndpointPublic]
      (api_volumes L i ca, api_volume_mounts L i ca) = Inr (vs, ms)"
    and volumes: "Volumes (SSPod ss) = GetVolumes (Name i) [] @ vs"
    and containers: "Containers (SSPod ss) = api_containers L i h ms"
    and labels: "MatchLabels ss = TemplateLabels ss"
    using assms(4) by (auto simp: api_StatefulSet_def split: sum.splits)
  have seg: "segment_ok (GetVolumes (Name i) [] @ vs) (GetVolumeMounts [] @ ms)"
    using assms(1-3) tls by (rule api_segment)
  obtain ns where "ms = api_volume_mounts L i ca @ ns"
    using api_tls_volumes_segment [OF assms(2) _ tls] by auto
  then have "mounts_fit (GetVolumes (Name i) [] @ vs) GetLogVolumeMount"
    by (intro log_mount_fits [OF seg]) (auto simp: api_volume_mounts_def)
  moreover have "mounts_fit (GetVolumes (Name i) [] @ vs) (GetVolumeMounts [] @ ms)"
    and "distinct (map VolName (GetVolumes (Name i) [] @ vs))"
    using seg by (simp_all add: segment_ok_def)
  ultimately have "pod_wired (SSPod ss)"
    using api_container_names by (auto simp: pod_wired_def volumes containers api_containers_def)
  moreover have "(\<forall>c \<in> set (Containers (SSPod ss)). dns_label (CName c)) \<longleftrightarrow> dns_label (Name i @ ''-log'')"
    using component_labels(1) by (auto simp: containers api_containers_def)
  moreover have "dns_label (Name i @ ''-log'') \<longleftrightarrow> CHR ''.'' \<notin> set (Name i) \<and> length (Name i) \<le> 59"
    if "dns_subdomain (Name i)"
    using dns_label_suffix [OF that, of "''-log''"] by (simp add: label_char_def)
  ultimately show ?thesis using labels by blast
qed


text \<open>
  C34. The same for the applier and the decision engine: their pods' volumes fit their containers,
  under the law of the CA volume and for a Prometheus secret that names its CA by the name of a file,
  and their selectors equal the labels of their pods. Their container names are well formed whatever
  the resources are called.
\<close>

theorem service_statefulsets_wired:
  assumes "tls_law_ca L" and "prometheus_ok ca"
  shows "pod_wired (SSPod (applier_StatefulSet L a h labels)) \<and>
    MatchLabels (applier_StatefulSet L a h labels) = TemplateLabels (applier_StatefulSet L a h labels) \<and>
    (\<forall>c \<in> set (Containers (SSPod (applier_StatefulSet L a h labels))). dns_label (CName c)) \<and>
    pod_wired (SSPod (de_StatefulSet L d h ca labels)) \<and>
    MatchLabels (de_StatefulSet L d h ca labels) = TemplateLabels (de_StatefulSet L d h ca labels) \<and>
    (\<forall>c \<in> set (Containers (SSPod (de_StatefulSet L d h ca labels))). dns_label (CName c))"
proof (intro conjI)
  let ?a = "CaBundleSecretName (TLSCa (Spec a))" and ?d = "CaBundleSecretName (DETLSCa (Spec d))"
  show "pod_wired (SSPod (applier_StatefulSet L a h labels))"
    using own_extra_segment [OF base_own_segment ca_extra [OF assms(1), of ?a],
        of "Name a" "Name a" applier_ComponentName]
    by (intro segment_pod) (auto simp: applier_StatefulSet_def Let_def)
  have "extra_ok (ca_volumes L ?d @ prometheus_volumes ca) (ca_mounts L ?d @ prometheus_mounts ca)"
    using assms by (intro extra_append ca_extra prometheus_extra ca_prometheus_apart)
  from own_extra_segment [OF base_own_segment this, of "Name d" "Name d" de_ComponentName]
  show "pod_wired (SSPod (de_StatefulSet L d h ca labels))"
    by (intro segment_pod) (auto simp: de_StatefulSet_def de_volumes_def de_volume_mounts_def)
qed (simp_all add: applier_StatefulSet_def de_StatefulSet_def component_labels Let_def)

text \<open>
  C35. The pods of the db-sync Job and the db-purge CronJob have volumes that fit their containers,
  under the law of the CA volume; the CronJob panics exactly when its schedule or its purge age is nil,
  and otherwise passes on the schedule and, as the variable \<open>PURGE_AGE\<close>, a decimal string that reads
  back as the age.
\<close>

theorem db_jobs_wired:
  assumes "tls_law_ca L" and "env_laws L"
  shows "pod_wired (JobPod (DbSyncJob L i labels ann)) \<and>
    (is_panic (DBPurgeCronJob L i labels ann) \<longleftrightarrow>
       PurgeAge (DBPurge (Spec i)) = None \<or> Schedule (DBPurge (Spec i)) = None) \<and>
    (\<forall>cj. DBPurgeCronJob L i labels ann = Val cj \<longrightarrow>
       pod_wired (CronPod cj) \<and> Schedule (DBPurge (Spec i)) = Some (CronSchedule cj) \<and>
       (\<exists>age v. PurgeAge (DBPurge (Spec i)) = Some age \<and> atoi v = age \<and>
          (\<forall>c \<in> set (Containers (CronPod cj)). \<lparr>EnvName = ''PURGE_AGE'', EnvValue = v\<rparr> \<in> set (Env c))))"
proof (intro conjI)
  let ?b = "CaBundleSecretName (TTLS (APIServiceTemplate (Spec i)))"
  have ca: "extra_ok (ca_volumes L ?b) (ca_mounts L ?b)" using assms(1) by (rule ca_extra)
  have "own_segment (GetVolumes (Name i) [] @ [\<lparr>VolName = ''db-sync-config-data'',
        VolSource = SecretVolume (Name i @ ''-config-data'') (Some 420)
          [(DefaultsConfigFileName, DefaultsConfigFileName)]\<rparr>])
      (GetVolumeMounts [] @ [\<lparr>MountName = ''db-sync-config-data'',
        MountPath = ''/etc/watcher/watcher.conf.d'', SubPath = [], ReadOnly = True\<rparr>,
      \<lparr>MountName = ''config-data'', MountPath = ''/var/lib/kolla/config_files/config.json'',
        SubPath = ''watcher-dbsync-config.json'', ReadOnly = True\<rparr>])"
    by (simp add: own_segment_def segment_ok_def mounts_fit_def volume_defs own_volume_names_def
        own_mount_paths_def)
  from own_extra_segment [OF this ca] show "pod_wired (JobPod (DbSyncJob L i labels ann))"
    by (intro segment_pod) (auto simp: DbSyncJob_def dbsync_volumes_def dbsync_mounts_def)
  have "own_segment (GetVolumes (Name i) [] @ [config_data_custom (Name i)] @ [GetScriptVolume (Name i @ ''-scripts'')])
      (GetVolumeMounts [] @ [GetKollaConfigVolumeMount ''watcher-dbpurge''] @ [GetScriptVolumeMount])"
    by (simp add: own_segment_def segment_ok_def mounts_fit_def volume_defs config_data_custom_def
        own_volume_names_def own_mount_paths_def scriptVolume_def ConfigVolume_def)
  from own_extra_segment [OF this ca]
  have seg: "segment_ok (dbpurge_volumes L i) (dbpurge_mounts L i)"
    by (simp add: dbpurge_volumes_def dbpurge_mounts_def)
  have env: "\<lparr>EnvName = ''PURGE_AGE'', EnvValue = itoa age\<rparr> \<in> set (dbpurge_env L age)" for age
    using assms(2) by (simp add: env_laws_def dbpurge_env_def)
  show "\<forall>cj. DBPurgeCronJob L i labels ann = Val cj \<longrightarrow>
       pod_wired (CronPod cj) \<and> Schedule (DBPurge (Spec i)) = Some (CronSchedule cj) \<and>
       (\<exists>age v. PurgeAge (DBPurge (Spec i)) = Some age \<and> atoi v = age \<and>
          (\<forall>c \<in> set (Containers (CronPod cj)). \<lparr>EnvName = ''PURGE_AGE'', EnvValue = v\<rparr> \<in> set (Env c)))"
    using seg env
    by (auto simp: DBPurgeCronJob_def atoi_itoa split: go.splits intro!: segment_pod exI [of _ "itoa _"])
  show "is_panic (DBPurgeCronJob L i labels ann) \<longleftrightarrow>
      PurgeAge (DBPurge (Spec i)) = None \<or> Schedule (DBPurge (Spec i)) = None"
    by (cases "PurgeAge (DBPurge (Spec i))"; cases "Schedule (DBPurge (Spec i))")
      (auto simp: DBPurgeCronJob_def)
qed

section \<open>A new configuration hash rolls the pods\<close>

text \<open>
  The contract the controllers rely on: a builder, given everything but the configuration hash,
  puts the hash into the environment of every container of a non-empty pod.
\<close>

locale workload =
  fixes builds :: "string \<Rightarrow> statefulset \<Rightarrow> bool" and L :: lib
  assumes has_container: "builds h ss \<Longrightarrow> Containers (SSPod ss) \<noteq> []"
    and hash_env: "builds h ss \<Longrightarrow> c \<in> set (Containers (SSPod ss)) \<Longrightarrow> Env c = kolla_env L h"
begin

lemma env_hash:
  assumes "env_laws L"
  shows "e \<in> set (kolla_env L h) \<Longrightarrow> EnvName e = ''CONFIG_HASH'' \<Longrightarrow> EnvValue e = h"
    and "\<lparr>EnvName = ''CONFIG_HASH'', EnvValue = h\<rparr> \<in> set (kolla_env L h)"
  using assms by (fastforce simp: env_laws_def kolla_env_def)+

lemma rolls:
  assumes "env_laws L" and "builds h ss" and "builds h' ss'" and "h \<noteq> h'"
  shows "SSPod ss \<noteq> SSPod ss'"
proof
  assume eq: "SSPod ss = SSPod ss'"
  obtain c where c: "c \<in> set (Containers (SSPod ss))"
    using has_container [OF assms(2)] by (meson list.set_sel(1))
  have "Env c = kolla_env L h" and "Env c = kolla_env L h'"
    using hash_env assms(2,3) c eq by metis+
  then show False using env_hash [OF assms(1)] assms(4) by (metis envvar.select_convs(1,2))
qed

end

interpretation api_wl: workload "\<lambda>h ss. api_StatefulSet L i h ca labels = Inr ss" L for L i ca labels
  by unfold_locales (auto simp: api_StatefulSet_def api_containers_def split: sum.splits)

interpretation applier_wl: workload "\<lambda>h ss. applier_StatefulSet L i h labels = ss" L for L i labels
  by unfold_locales (auto simp: applier_StatefulSet_def Let_def)

interpretation de_wl: workload "\<lambda>h ss. de_StatefulSet L i h ca labels = ss" L for L i ca labels
  by unfold_locales (auto simp: de_StatefulSet_def)

text \<open>
  C32. For each of the three services two different configuration hashes give different pod
  templates, so a change of any hashed input rolls the pods and does not go unnoticed.
\<close>

theorem config_hash_rolls_pods:
  assumes "env_laws L" and "h \<noteq> h'"
  shows "(\<forall>ss ss'. api_StatefulSet L i h ca labels = Inr ss \<longrightarrow>
       api_StatefulSet L i h' ca labels = Inr ss' \<longrightarrow> SSPod ss \<noteq> SSPod ss') \<and>
    SSPod (applier_StatefulSet L a h labels) \<noteq> SSPod (applier_StatefulSet L a h' labels) \<and>
    SSPod (de_StatefulSet L d h ca labels) \<noteq> SSPod (de_StatefulSet L d h' ca labels)"
  using api_wl.rolls [OF assms(1) _ _ assms(2)] applier_wl.rolls [OF assms(1) refl refl assms(2)]
    de_wl.rolls [OF assms(1) refl refl assms(2)] by blast

end
