(* ===== verification/Sample.thy ===== *)
theory Sample
  imports PodWiring
begin

text \<open>
  A concrete choice of the third-party parameters. It is used only to show that the laws can hold
  together and to evaluate the model in the witnesses of the properties.
\<close>

fun sample_put :: "condition \<Rightarrow> condition list \<Rightarrow> condition list" where
  "sample_put c [] = [c]"
| "sample_put c (d # ds) = (if Type d = Type c then c # ds else d # sample_put c ds)"

definition sample_cond :: "ctype \<Rightarrow> cstatus \<Rightarrow> creason \<Rightarrow> cseverity \<Rightarrow> condition" where
  "sample_cond t st r sv =
     \<lparr>Type = t, Status = st, Severity = sv, Reason = r, Message = [], LastTransitionTime = []\<rparr>"

definition sample_set :: "condition option \<Rightarrow> conditions \<Rightarrow> conditions" where
  "sample_set c cs = (case c of None \<Rightarrow> cs | Some d \<Rightarrow> Some (sample_put d (cond_list cs)))"

definition sample_init :: "condition list \<Rightarrow> conditions \<Rightarrow> conditions" where
  "sample_init l cs = Some (fold sample_put l (cond_list cs))"

text \<open>The first entry that is False, else the first that is Unknown, else the first.\<close>

definition sample_mirror :: "ctype \<Rightarrow> conditions \<Rightarrow> condition option" where
  "sample_mirror t cs = map_option (\<lambda>c. c\<lparr>Type := t\<rparr>)
     (case filter (\<lambda>c. Status c = CFalse) (cond_list cs) of
        c # _ \<Rightarrow> Some c
      | [] \<Rightarrow> (case filter (\<lambda>c. Status c = CUnknown) (cond_list cs) of
          c # _ \<Rightarrow> Some c
        | [] \<Rightarrow> (case cond_list cs of [] \<Rightarrow> None | c # _ \<Rightarrow> Some c)))"

definition sample_merge :: "envvar list \<Rightarrow> env_vars \<Rightarrow> envvar list" where
  "sample_merge vs m =
     vs @ map (\<lambda>(k, x). case x of SetValue v \<Rightarrow> \<lparr>EnvName = k, EnvValue = v\<rparr>) (AList.clearjunk m)"

definition sample_lib :: lib where
  "sample_lib =
     \<lparr>FalseCondition = (\<lambda>t r sv m args. sample_cond t CFalse r sv),
      UnknownCondition = (\<lambda>t r m. sample_cond t CUnknown r SeverityNone),
      CSet = sample_set,
      CMarkTrue = (\<lambda>t m. sample_set (Some (sample_cond t CTrue (OtherReason []) SeverityNone))),
      CInit = sample_init,
      CIsTrue = (\<lambda>t cs. status_of t cs = Some CTrue),
      CIsUnknown = (\<lambda>t cs. status_of t cs = None \<or> status_of t cs = Some CUnknown),
      CAllSubTrue = (\<lambda>cs. list_all (\<lambda>c. Type c \<noteq> ReadyCondition \<longrightarrow> Status c = CTrue) (cond_list cs)),
      CMirror = sample_mirror,
      CRestore = (\<lambda>saved cs. cs),
      AddFinalizer = (\<lambda>f fs. if f \<in> set fs then (fs, False) else (fs @ [f], True)),
      RemoveFinalizer = (\<lambda>f fs. (filter (\<lambda>x. x \<noteq> f) fs, f \<in> set fs)),
      GetFinalizer = (\<lambda>k. ''openstack.org/'' @ k),
      GetControllerOf = List.find OwnerIsController,
      IsNotFound = (\<lambda>e. case e of Some (LibError r _) \<Rightarrow> r = ''NotFound'' | _ \<Rightarrow> False),
      HashValues = (\<lambda>vs. (''h'' @ concat vs, None)),
      HashEnvs = (\<lambda>vs. (''h'', None)),
      SetHash = (\<lambda>m k h. if map_get m k = h then (m, False) else (m(k \<mapsto> h), True)),
      MergeEnvs = sample_merge,
      MergeStringMaps = (\<lambda>m n. m ++ n),
      GetLabels = (\<lambda>n g. [''service'' \<mapsto> g]),
      WrapErrorForObject = WrapError,
      AddAnnotation = (\<lambda>m n. m ++ n),
      GetEnvVar = (\<lambda>v d. d),
      APIEnabled = (\<lambda>t e. (if e = EndpointPublic then PublicSecretName t else InternalSecretName t) \<noteq> None),
      CaCreateVolume = (\<lambda>b. \<lparr>VolName = ''tlsca'', VolSource = SecretVolume b None []\<rparr>),
      CaCreateVolumeMounts = (\<lambda>b. [\<lparr>MountName = ''tlsca'', MountPath = ''/ca'', SubPath = [], ReadOnly = True\<rparr>]),
      ToService = (\<lambda>s. case s of None \<Rightarrow> Inl (NewError ''no secret'') | Some n \<Rightarrow> Inr n),
      ServiceCreateVolume = (\<lambda>s e. \<lparr>VolName = ''tls-'' @ e, VolSource = SecretVolume s None []\<rparr>),
      ServiceCreateVolumeMounts = (\<lambda>s e. [\<lparr>MountName = ''tls-'' @ e, MountPath = ''/tls/'' @ e, SubPath = [], ReadOnly = True\<rparr>]),
      AppSelector = ''service'',
      LabelHostname = ''kubernetes.io/hostname'',
      InputHashName = ''input'',
      CABundleKey = ''tls-ca-bundle.pem'',
      TLSHashName = ''certs'',
      DownstreamTLSCABundlePath = ''/etc/pki/ca-trust/extracted/pem/tls-ca-bundle.pem'',
      DatabasePasswordSelector = ''DatabasePassword'',
      AnnotationEndpointKey = ''endpoint'',
      AnnotationIngressCreateKey = ''core.openstack.org/ingress_create'',
      AnnotationHostnameKey = ''dnsmasq.network.openstack.org/hostname'',
      AnnotationIngressTargetPortNameKey = ''core.openstack.org/ingress_target_port_name'',
      CertKey = ''tls.crt'',
      PrivateKey = ''tls.key'',
      CAKey = ''ca.crt'',
      InternalCABundleKey = ''internal-ca-bundle.pem'',
      CABundleSecret = ''combined-ca-bundle''\<rparr>"

lemma status_put [simp]:
  "status_of t (Some (sample_put c l)) = (if t = Type c then Some (Status c) else status_of t (Some l))"
  by (induction c l rule: sample_put.induct) (auto simp: status_of_def cond_list_def)

lemma status_cond_list [simp]: "status_of t (Some (cond_list cs)) = status_of t cs"
  by (simp add: status_of_def cond_list_def split: option.splits)

lemma status_of_empty [simp]: "status_of t None = None" "status_of t (Some []) = None"
  by (simp_all add: status_of_def cond_list_def)

lemma types_put: "Type ` set (sample_put c l) = insert (Type c) (Type ` set l)"
  by (induction c l rule: sample_put.induct) auto

lemma put_distinct: "distinct (map Type l) \<Longrightarrow> distinct (map Type (sample_put c l))"
proof (induction c l rule: sample_put.induct)
  case (2 c d ds)
  then show ?case using types_put [of c ds] by (auto simp flip: set_map)
qed simp

lemma fold_put_distinct: "distinct (map Type l) \<Longrightarrow> distinct (map Type (fold sample_put cs l))"
  by (induction cs arbitrary: l) (auto simp: put_distinct)

lemma status_fold_put:
  "distinct (map Type cs) \<Longrightarrow> status_of t (Some (fold sample_put cs l)) =
     (if t \<in> Type ` set cs then status_of t (Some cs) else status_of t (Some l))"
proof (induction cs arbitrary: l)
  case Nil
  then show ?case by simp
next
  case (Cons c cs)
  have "status_of t (Some (c # cs)) = (if t = Type c then Some (Status c) else status_of t (Some cs))"
    by (auto simp: status_of_def cond_list_def)
  with Cons show ?case by auto
qed

lemma sample_mirror_Some:
  assumes "sample_mirror t cs = Some c"
  shows "Type c = t \<and> (Status c = CTrue \<longrightarrow> (\<forall>d \<in> set (cond_list cs). Status d = CTrue))"
proof (cases "filter (\<lambda>c. Status c = CFalse) (cond_list cs)")
  case (Cons d ds)
  then have "d \<in> set (filter (\<lambda>c. Status c = CFalse) (cond_list cs))" by simp
  then have "Status d = CFalse" by simp
  moreover have "c = d\<lparr>Type := t\<rparr>" using Cons assms by (simp add: sample_mirror_def)
  ultimately show ?thesis by simp
next
  case no_false: Nil
  show ?thesis
  proof (cases "filter (\<lambda>c. Status c = CUnknown) (cond_list cs)")
    case (Cons d ds)
    then have "d \<in> set (filter (\<lambda>c. Status c = CUnknown) (cond_list cs))" by simp
  then have "Status d = CUnknown" by simp
    moreover have "c = d\<lparr>Type := t\<rparr>" using Cons no_false assms by (simp add: sample_mirror_def)
    ultimately show ?thesis by simp
  next
    case Nil
    with no_false have "\<forall>d \<in> set (cond_list cs). Status d = CTrue"
      unfolding filter_empty_conv using cstatus.exhaust by blast
    moreover have "Type c = t"
      using Nil no_false assms by (simp add: sample_mirror_def split: list.splits) force
    ultimately show ?thesis by blast
  qed
qed

lemma sample_constructor_laws: "constructor_laws sample_lib"
  by (simp add: constructor_laws_def sample_lib_def sample_cond_def)

lemma sample_wf_simps:
  "cond_wf (Some l) \<longleftrightarrow> distinct (map Type l)" "distinct (map Type (cond_list cs)) \<longleftrightarrow> cond_wf cs"
  by (simp_all add: cond_wf_def cond_list_def)

lemma sample_update_laws: "update_laws sample_lib"
  by (auto simp: update_laws_def sample_lib_def sample_set_def sample_init_def sample_cond_def
      sample_wf_simps put_distinct fold_put_distinct status_fold_put split: option.splits)

lemma sample_query_laws: "query_laws sample_lib"
  by (auto simp: query_laws_def sample_lib_def list_all_iff dest: sample_mirror_Some)

lemma sample_cond_laws: "cond_laws sample_lib"
  by (simp add: cond_laws_def sample_constructor_laws sample_update_laws sample_query_laws)

lemma sample_finalizer_laws: "finalizer_laws sample_lib"
  by (simp add: finalizer_laws_def sample_lib_def)

lemma sample_notfound_law: "notfound_law sample_lib"
  by (simp add: notfound_law_def sample_lib_def)

lemma sample_hash_laws: "hash_laws sample_lib"
  by (simp add: hash_laws_def sample_lib_def)

lemma sample_env_laws: "env_laws sample_lib"
proof -
  have "e \<in> set (sample_merge [] m) \<longleftrightarrow> map_of m (EnvName e) = Some (SetValue (EnvValue e))" for m e
  proof -
    have inv: "(case x of SetValue v \<Rightarrow> \<lparr>EnvName = k, EnvValue = v\<rparr>) = e \<longleftrightarrow>
        k = EnvName e \<and> x = SetValue (EnvValue e)" for k x
      by (cases x) auto
    have "e \<in> set (sample_merge [] m) \<longleftrightarrow> (\<exists>(k, x) \<in> set (AList.clearjunk m).
        (case x of SetValue v \<Rightarrow> \<lparr>EnvName = k, EnvValue = v\<rparr>) = e)"
      by (force simp: sample_merge_def image_iff split_beta)
    also have "\<dots> \<longleftrightarrow> (EnvName e, SetValue (EnvValue e)) \<in> set (AList.clearjunk m)"
      unfolding inv by blast
    also have "\<dots> \<longleftrightarrow> map_of (AList.clearjunk m) (EnvName e) = Some (SetValue (EnvValue e))"
      by simp
    finally show ?thesis by (simp add: map_of_clearjunk)
  qed
  then show ?thesis by (simp add: env_laws_def sample_lib_def)
qed

lemma sample_tls_law_ca: "tls_law_ca sample_lib"
  by (simp add: tls_law_ca_def sample_lib_def own_volume_names_def own_mount_paths_def
      under_prometheus_def PrometheusCaCertFolderPath_def)

lemma sample_tls_law_service: "tls_law_service sample_lib"
  by (auto simp: tls_law_service_def sample_lib_def own_volume_names_def own_mount_paths_def
      under_prometheus_def PrometheusCaCertFolderPath_def)

lemmas sample_laws = sample_cond_laws sample_finalizer_laws sample_notfound_law sample_hash_laws
  sample_env_laws sample_tls_law_ca sample_tls_law_service

end
