(* ===== verification/Effects.thy ===== *)
theory Effects
  imports Volumes
begin

text \<open>
  The effects of the controllers. A reconcile runs on a copy of its resource (\<open>inst\<close>) and talks
  to the cluster; \<open>trace\<close> lists every call made, with its arguments, in order. The cluster is an
  environment: one answer function per kind of call, which may depend on the whole history, the
  call being answered last. Nothing restricts the answers, so a property holds for every cluster
  and every interleaving of its changes with the calls. A Go function returning a pointer and an
  error returns one of the two: its answer is a sum.
\<close>

section \<open>Data of the calls\<close>

text \<open>\<open>util.Template\<close>: a Secret to render. The options of the templates are strings, booleans or maps.\<close>

datatype param = PStr string | PBool bool | PMap "(string \<times> param) list"

datatype template_type = TemplateTypeConfig | TemplateTypeScripts | TemplateTypeNone

record template =
  TplName :: string
  TplNamespace :: string
  TplType :: template_type
  InstanceType :: string
  ConfigOptions :: "(string \<times> param) list"
  CustomData :: string_map
  TplLabels :: string_map
  AdditionalTemplate :: string_map

record keystone_api =
  GetEndpoint :: "string \<Rightarrow> error + string"

text \<open>What \<open>service.NewService\<close> is given, and the Service it makes as the controllers read it.\<close>

datatype service_type = ServiceTypeClusterIP | ServiceTypeLoadBalancer | OtherServiceType string

record service_details =
  SvcName :: string
  SvcNamespace :: string
  SvcLabels :: string_map
  SvcSelector :: string_map
  SvcPort :: int

record service_obj = service_details +
  SvcType :: service_type
  SvcAnnotations :: string_map

record keystone_endpoint =
  KEName :: string
  KENamespace :: string
  KEEndpoints :: string_map
  KELabels :: string_map

record keystone_service =
  KSServiceType :: string
  KSServiceName :: string
  KSServiceDescription :: string
  KSEnabled :: bool
  KSServiceUser :: string
  KSSecret :: string
  KSPasswordSelector :: string
  KSNamespace :: string
  KSLabels :: string_map

record policy_rule =
  APIGroups :: "string list"
  ResourceNames :: "string list"
  PolicyResources :: "string list"
  Verbs :: "string list"

record database_request =
  DBInstance :: string
  DBName :: string
  DBCRName :: string
  DBAccount :: string
  DBNamespace :: string

record transport_url =
  TransportReady :: bool
  TransportSecretName :: string

record job_request =
  JobDef :: job
  JobHashType :: string
  JobPreserve :: bool
  JobBeforeHash :: string

text \<open>
  What the code reads of an OpenShift Route, with the owners it reads and overwrites, and what it gives
  \<open>route.NewRoute\<close>.
\<close>

record route =
  RouteName :: string
  RouteTo :: string
  RouteOwners :: "owner_ref list"
  RouteHost :: string

record route_details =
  RDName :: string
  RDNamespace :: string
  RDLabels :: string_map
  RDServiceName :: string
  RDTargetPortName :: string

datatype tls_termination = TLSTerminationEdge | TLSTerminationReencrypt

record tls_config =
  Termination :: tls_termination
  TLSCertificate :: string
  TLSKey :: string
  TLSCACertificate :: string
  DestinationCACertificate :: string
  RedirectInsecure :: bool

text \<open>The overrides given to \<open>route.NewRoute\<close>, which lays them over the route in this order.\<close>

datatype route_layer = CustomLayer route_override | TLSLayer tls_config

section \<open>Calls, histories, answers\<close>

datatype (discs_sels) 'i call =
    GetInstance nsname
  | PatchInstance 'i
  | GetSecret nsname
  | UpdateSecret secret
  | EnsureSecrets "template list"
  | GetMemcachedByName string string
  | UpdateMemcached memcached
  | GetKeystoneAPI string
  | GetDatabaseByNameAndAccount string string string
  | ApplyStatefulSet statefulset
  | ValidateCACertSecret nsname
  | ValidateCertSecrets tls_API string
  | ApplyService service_obj
  | ApplyKeystoneEndpoint keystone_endpoint
  | GetKeystoneEndpointWithName string string
  | UpdateKeystoneEndpoint "string list"
  | ReconcileRbac "policy_rule list"
  | EnsureMariaDBAccount string string string
  | ApplyDatabase database_request
  | WaitForDBCreated database_request
  | ApplyTransportURL nsname string_map "string option"
  | ApplyKeystoneService keystone_service
  | DoJob job_request
  | ApplyCronJob cronjob
  | ApplyWatcherAPI nsname WatcherAPISpec
  | ApplyWatcherApplier nsname WatcherApplierSpec
  | ApplyWatcherDecisionEngine nsname WatcherDecisionEngineSpec
  | DeleteUnusedMariaDBAccountFinalizers string string string
  | DeleteDatabaseFinalizer database
  | GetKeystoneServiceWithName string string
  | UpdateKeystoneService "string list"
  | GetServicesListWithLabel string string_map
  | ValidateCertSecret "string option" string
  | ListRoutes string string_map
  | DeleteRoute route
  | GetRoute nsname
  | ApplyRoute route_details "route_layer list"
  | GetDataFromSecret string string

type_synonym 'i history = "'i call list"

record 'i st =
  inst :: 'i
  trace :: "'i history"

text \<open>
  The answers. \<open>CreateOrPatch\<close> calls return a result and an error, some with what the object looks
  like afterwards. \<open>helper.NewHelper\<close>, \<open>service.NewService\<close> and \<open>route.NewRoute\<close> are library code that
  may fail without a call; the order a Go map is ranged over is the runtime's choice.
\<close>

record 'i env =
  RequeueTimeout :: int
  NewHelper :: "error option"
  PortsOrder :: "'i history \<Rightarrow> bool"
  OnGetInstance :: "'i history \<Rightarrow> error + 'i"
  OnPatchInstance :: "'i history \<Rightarrow> error option"
  OnGetSecret :: "'i history \<Rightarrow> error + secret"
  OnUpdateSecret :: "'i history \<Rightarrow> error option"
  OnEnsureSecrets :: "'i history \<Rightarrow> env_vars \<times> error option"
  OnGetMemcached :: "'i history \<Rightarrow> error + memcached"
  OnUpdateMemcached :: "'i history \<Rightarrow> error option"
  OnGetKeystoneAPI :: "'i history \<Rightarrow> error + keystone_api"
  OnGetDatabase :: "'i history \<Rightarrow> error + database"
  OnApplyStatefulSet :: "'i history \<Rightarrow> result \<times> error option \<times> statefulset_status"
  OnValidateCACertSecret :: "'i history \<Rightarrow> error + string"
  OnValidateCertSecrets :: "'i history \<Rightarrow> error + string"
  OnNewService :: "'i history \<Rightarrow> service_details \<Rightarrow> RoutedOverrideSpec \<Rightarrow> error + service_obj"
  ServiceHostname :: "service_obj \<Rightarrow> string"
  APIEndpoint :: "service_obj \<Rightarrow> string option \<Rightarrow> string option \<Rightarrow> error + string"
  OnApplyService :: "'i history \<Rightarrow> result \<times> error option"
  OnApplyKeystoneEndpoint :: "'i history \<Rightarrow> result \<times> error option \<times> conditions"
  OnGetKeystoneEndpoint :: "'i history \<Rightarrow> error + string list"
  OnUpdateKeystoneEndpoint :: "'i history \<Rightarrow> error option"
  OnReconcileRbac :: "'i history \<Rightarrow> result \<times> error option \<times> condition list"
  OnEnsureMariaDBAccount :: "'i history \<Rightarrow> error option"
  OnApplyDatabase :: "'i history \<Rightarrow> result \<times> error option \<times> database"
  OnWaitForDBCreated :: "'i history \<Rightarrow> result \<times> error option"
  OnApplyTransportURL :: "'i history \<Rightarrow> error option \<times> transport_url"
  OnApplyKeystoneService :: "'i history \<Rightarrow> result \<times> error option \<times> conditions \<times> string"
  OnDoJob :: "'i history \<Rightarrow> result \<times> error option \<times> string option"
  OnApplyCronJob :: "'i history \<Rightarrow> result \<times> error option"
  OnApplyWatcherAPI :: "'i history \<Rightarrow> error + WatcherAPI"
  OnApplyWatcherApplier :: "'i history \<Rightarrow> error + WatcherApplier"
  OnApplyWatcherDecisionEngine :: "'i history \<Rightarrow> error + WatcherDecisionEngine"
  OnDeleteUnusedFinalizers :: "'i history \<Rightarrow> error option"
  OnDeleteDatabaseFinalizer :: "'i history \<Rightarrow> error option"
  OnGetKeystoneService :: "'i history \<Rightarrow> error + string list"
  OnUpdateKeystoneService :: "'i history \<Rightarrow> error option"
  OnGetServices :: "'i history \<Rightarrow> error + service_obj list"
  OnValidateCertSecret :: "'i history \<Rightarrow> error option"
  OnListRoutes :: "'i history \<Rightarrow> error + route list"
  OnDeleteRoute :: "'i history \<Rightarrow> error option"
  OnGetRoute :: "'i history \<Rightarrow> error + string"
  OnNewRoute :: "'i history \<Rightarrow> route_details \<Rightarrow> route_layer list \<Rightarrow> error option"
  OnApplyRoute :: "'i history \<Rightarrow> result \<times> error option \<times> string"
  OnGetDataFromSecret :: "'i history \<Rightarrow> string \<times> result \<times> error option"

text \<open>Making a call: it is recorded, then answered.\<close>

definition perform :: "'i call \<Rightarrow> ('i history \<Rightarrow> 'a) \<Rightarrow> ('i st, 'a) state" where
  "perform c answer = State (\<lambda>s. (answer (trace s @ [c]), s\<lparr>trace := trace s @ [c]\<rparr>))"

definition the_inst :: "('i st, 'i) state" where
  "the_inst = State (\<lambda>s. (inst s, s))"

definition modify_inst :: "('i \<Rightarrow> 'i) \<Rightarrow> ('i st, unit) state" where
  "modify_inst f = State (\<lambda>s. ((), s\<lparr>inst := f (inst s)\<rparr>))"

text \<open>\<open>instance.Status.Conditions.Set(c)\<close> and \<open>MarkTrue(t, m)\<close>, and setting a False condition.\<close>

type_synonym ('spec, 'z) cr_st = "('spec, 'z) cr_scheme st"

definition cond_set :: "lib \<Rightarrow> condition option \<Rightarrow> (('spec, 'z) cr_st, unit) state" where
  "cond_set L c = modify_inst (\<lambda>i. i\<lparr>Conditions := CSet L c (Conditions i)\<rparr>)"

definition mark_true :: "lib \<Rightarrow> ctype \<Rightarrow> cmsg \<Rightarrow> (('spec, 'z) cr_st, unit) state" where
  "mark_true L t m = modify_inst (\<lambda>i. i\<lparr>Conditions := CMarkTrue L t m (Conditions i)\<rparr>)"

definition set_false ::
  "lib \<Rightarrow> ctype \<Rightarrow> creason \<Rightarrow> cseverity \<Rightarrow> cmsg \<Rightarrow> string list \<Rightarrow> (('spec, 'z) cr_st, unit) state" where
  "set_false L t r sv m args = cond_set L (Some (FalseCondition L t r sv m args))"

section \<open>Control flow\<close>

text \<open>
  How a block of a reconcile ends: it returns from the whole function with a result and an error,
  it panics, or it goes on with a value.
\<close>

datatype 'a flow = Ret result "error option" | Crash string | Next 'a

definition continue :: "('s, 'a flow) state \<Rightarrow> ('a \<Rightarrow> ('s, 'b flow) state) \<Rightarrow> ('s, 'b flow) state" where
  "continue m f = do {
     r \<leftarrow> m;
     case r of Ret res err \<Rightarrow> return (Ret res err) | Crash p \<Rightarrow> return (Crash p) | Next x \<Rightarrow> f x
   }"

text \<open>Calling a function that may panic.\<close>

definition call_go :: "('s, 'a go) state \<Rightarrow> ('a \<Rightarrow> ('s, 'b flow) state) \<Rightarrow> ('s, 'b flow) state" where
  "call_go m f = do { r \<leftarrow> m; case r of Panic p \<Rightarrow> return (Crash p) | Val x \<Rightarrow> f x }"

text \<open>The end of a function body: its outcome as a result and an error, or a panic.\<close>

definition outcome :: "('s, unit flow) state \<Rightarrow> ('s, (result \<times> error option) go) state" where
  "outcome m = do {
     r \<leftarrow> m;
     case r of
       Ret res err \<Rightarrow> return (Val (res, err))
     | Crash p \<Rightarrow> return (Panic p)
     | Next u \<Rightarrow> return (Val (Result0, None))
   }"

text \<open>
  The deferred function of every \<open>Reconcile\<close>: it restores the transition times, mirrors the other
  conditions into \<open>Ready\<close> when that is still unknown, and patches the resource. It also runs when
  the body panics. An error of the patch replaces the error the body returned.
\<close>

definition patch_on_exit ::
  "lib \<Rightarrow> ('spec, 'z) cr_scheme env \<Rightarrow> conditions \<Rightarrow> (('spec, 'z) cr_st, (result \<times> error option) go) state
   \<Rightarrow> (('spec, 'z) cr_st, (result \<times> error option) go) state" where
  "patch_on_exit L E saved body = do {
     r \<leftarrow> body;
     modify_inst (\<lambda>i. i\<lparr>Conditions := CRestore L saved (Conditions i)\<rparr>);
     i \<leftarrow> the_inst;
     (if CIsUnknown L ReadyCondition (Conditions i)
      then cond_set L (CMirror L ReadyCondition (Conditions i)) else return ());
     i \<leftarrow> the_inst;
     err \<leftarrow> perform (PatchInstance i) (OnPatchInstance E);
     return (case err of
         None \<Rightarrow> r
       | Some e \<Rightarrow> (case r of Val (res, _) \<Rightarrow> Val (res, Some e) | Panic p \<Rightarrow> Panic p))
   }"

section \<open>Evaluation\<close>

lemma run_perform [simp]:
  "run_state (perform c answer) s = (answer (trace s @ [c]), s\<lparr>trace := trace s @ [c]\<rparr>)"
  by (simp add: perform_def)

lemma run_the_inst [simp]: "run_state the_inst s = (inst s, s)"
  by (simp add: the_inst_def)

lemma run_modify_inst [simp]: "run_state (modify_inst f) s = ((), s\<lparr>inst := f (inst s)\<rparr>)"
  by (simp add: modify_inst_def)

lemma run_cond_set [simp]:
  "run_state (cond_set L c) s =
     ((), s\<lparr>inst := (inst s)\<lparr>Conditions := CSet L c (Conditions (inst s))\<rparr>\<rparr>)"
  by (simp add: cond_set_def)

lemma run_mark_true [simp]:
  "run_state (mark_true L t m) s =
     ((), s\<lparr>inst := (inst s)\<lparr>Conditions := CMarkTrue L t m (Conditions (inst s))\<rparr>\<rparr>)"
  by (simp add: mark_true_def)

lemma run_set_false [simp]:
  "run_state (set_false L t r sv m args) s =
     ((), s\<lparr>inst := (inst s)\<lparr>Conditions :=
        CSet L (Some (FalseCondition L t r sv m args)) (Conditions (inst s))\<rparr>\<rparr>)"
  by (simp add: set_false_def)

text \<open>
  Taking a run of blocks apart: either the first block ends the function, or it went on and the
  rest ran from where it stopped.
\<close>

lemma run_continue:
  "run_state (continue m f) s =
     (case run_state m s of
        (Next x, t) \<Rightarrow> run_state (f x) t
      | (Ret res err, t) \<Rightarrow> (Ret res err, t)
      | (Crash p, t) \<Rightarrow> (Crash p, t))"
  by (auto simp: continue_def split: prod.splits flow.splits)

lemma run_call_go [simp]:
  "run_state (call_go m f) s =
     (case run_state m s of (Val x, t) \<Rightarrow> run_state (f x) t | (Panic p, t) \<Rightarrow> (Crash p, t))"
  by (auto simp: call_go_def split: prod.splits go.splits)

lemma continue_cases:
  assumes "run_state (continue m f) s = (r, u)"
  obtains (goes_on) x t where "run_state m s = (Next x, t)" and "run_state (f x) t = (r, u)"
  | (returns) res err where "run_state m s = (Ret res err, u)" and "r = Ret res err"
  | (panics) p where "run_state m s = (Crash p, u)" and "r = Crash p"
  using assms by (auto simp: run_continue split: prod.splits flow.splits)

end
