(* ===== verification/Reasoning.thy ===== *)
theory Reasoning
  imports Effects
begin

text \<open>
  Relations between the state before and after a program, and the rules that carry them through
  the constructs of the models: what the calls may be, what part of the resource stays as it is,
  and the walk from a resource that became \<open>Ready\<close> back through every block of the run.
\<close>

section \<open>Rules for the constructs of Effects\<close>

context step_relation
begin

lemma rel_continue:
  "state_io_rel R m \<Longrightarrow> (\<And>x. state_io_rel R (f x)) \<Longrightarrow> state_io_rel R (continue m f)"
  unfolding continue_def by (intro rel_bind) (auto intro: rel_return split: flow.splits)

lemma rel_call_go:
  "state_io_rel R m \<Longrightarrow> (\<And>x. state_io_rel R (f x)) \<Longrightarrow> state_io_rel R (call_go m f)"
  unfolding call_go_def by (intro rel_bind) (auto intro: rel_return split: go.splits)

lemma rel_outcome: "state_io_rel R m \<Longrightarrow> state_io_rel R (outcome m)"
  unfolding outcome_def by (intro rel_bind) (auto intro: rel_return split: flow.splits)

lemma rel_flow:
  "(\<And>x. p = Next x \<Longrightarrow> state_io_rel R (f x)) \<Longrightarrow> (\<And>r e. p = Ret r e \<Longrightarrow> state_io_rel R (g r e)) \<Longrightarrow>
   (\<And>e. p = Crash e \<Longrightarrow> state_io_rel R (h e)) \<Longrightarrow>
   state_io_rel R (case p of Ret r e \<Rightarrow> g r e | Crash e \<Rightarrow> h e | Next x \<Rightarrow> f x)"
  by (cases p) auto

lemmas flow_rules = rel_rules rel_continue rel_call_go rel_outcome rel_flow

end

section \<open>What a program calls\<close>

definition extends :: "('i call \<Rightarrow> bool) \<Rightarrow> 'i st \<Rightarrow> 'i st \<Rightarrow> bool" where
  "extends P s t \<longleftrightarrow> (\<exists>tr. trace t = trace s @ tr \<and> (\<forall>c \<in> set tr. P c))"

lemma extends_refl: "extends P s s"
  by (simp add: extends_def)

lemma extends_trans: "extends P s t \<Longrightarrow> extends P t u \<Longrightarrow> extends P s u"
proof -
  assume "extends P s t" and "extends P t u"
  then obtain tr tr' where "trace t = trace s @ tr" "trace u = trace t @ tr'"
      and "\<forall>c \<in> set tr. P c" "\<forall>c \<in> set tr'. P c"
    by (auto simp: extends_def)
  then have "trace u = trace s @ (tr @ tr')" and "\<forall>c \<in> set (tr @ tr'). P c" by auto
  then show "extends P s u" unfolding extends_def by blast
qed

interpretation ext: step_relation "extends P" for P
  by unfold_locales (rule extends_refl, rule extends_trans)

lemma extends_perform: "P c \<Longrightarrow> state_io_rel (extends P) (perform c f)"
  by (auto simp: state_io_rel_def extends_def)

lemma extends_inst:
  "state_io_rel (extends P) the_inst" "state_io_rel (extends P) (modify_inst f)"
  "state_io_rel (extends P) (cond_set L c)" "state_io_rel (extends P) (mark_true L t m)"
  "state_io_rel (extends P) (set_false L t rs sv m args)"
  by (auto simp: state_io_rel_def extends_def)

lemmas ext_rules = ext.flow_rules extends_inst extends_perform

text \<open>Calls only add up, whatever they are.\<close>

lemma extends_mono: "extends P s t \<Longrightarrow> (\<And>c. P c \<Longrightarrow> Q c) \<Longrightarrow> extends Q s t"
  unfolding extends_def by blast

text \<open>A call of the history and the answer it got.\<close>

definition answered :: "'i history \<Rightarrow> 'i call \<Rightarrow> ('i history \<Rightarrow> 'a) \<Rightarrow> 'a \<Rightarrow> bool" where
  "answered tr c answer v \<longleftrightarrow> (\<exists>h h'. tr = h @ [c] @ h' \<and> answer (h @ [c]) = v)"

lemma answered_snoc: "answered (h @ [c]) c answer (answer (h @ [c]))"
  unfolding answered_def by (metis append_Nil2)

lemma answered_append: "answered tr c answer v \<Longrightarrow> answered (tr @ tr') c answer v"
  unfolding answered_def by (metis append_assoc)

lemma answered_mono: "answered (trace s) c answer v \<Longrightarrow> extends P s t \<Longrightarrow> answered (trace t) c answer v"
  unfolding extends_def by (auto intro: answered_append)

text \<open>The same for a call made during the run that began in state \<open>s\<close>.\<close>

definition answered_since :: "'i st \<Rightarrow> 'i st \<Rightarrow> 'i call \<Rightarrow> ('i history \<Rightarrow> 'a) \<Rightarrow> 'a \<Rightarrow> bool" where
  "answered_since s t c answer v \<longleftrightarrow>
     (\<exists>h h'. trace t = trace s @ h @ [c] @ h' \<and> answer (trace s @ h @ [c]) = v)"

lemma answered_since_perform:
  "extends P s t \<Longrightarrow> trace u = trace t @ [c] \<Longrightarrow> answer (trace t @ [c]) = v \<Longrightarrow>
   answered_since s u c answer v"
  unfolding extends_def answered_since_def by force

lemma answered_since_later:
  "answered_since s t c answer v \<Longrightarrow> extends P t u \<Longrightarrow> answered_since s u c answer v"
  unfolding extends_def answered_since_def by force

lemma answered_since_earlier:
  assumes "extends P s0 s" and "answered_since s t c answer v"
  shows "answered_since s0 t c answer v"
proof -
  from assms obtain tr h h' where "trace s = trace s0 @ tr"
      and "trace t = trace s @ h @ [c] @ h'" "answer (trace s @ h @ [c]) = v"
    unfolding extends_def answered_since_def by blast
  then have "trace t = trace s0 @ (tr @ h) @ [c] @ h'" "answer (trace s0 @ (tr @ h) @ [c]) = v"
    by simp_all
  then show ?thesis unfolding answered_since_def by blast
qed

section \<open>What a program keeps of the resource\<close>

definition keeps :: "('i \<Rightarrow> 'a) \<Rightarrow> 'i st \<Rightarrow> 'i st \<Rightarrow> bool" where
  "keeps f s t \<longleftrightarrow> f (inst t) = f (inst s)"

interpretation kp: step_relation "keeps f" for f
  by unfold_locales (auto simp: keeps_def)

lemma keeps_effects:
  "state_io_rel (keeps f) (perform c answer)" "state_io_rel (keeps f) the_inst"
  by (auto simp: state_io_rel_def keeps_def)

lemma modify_inst_id [simp]: "modify_inst (\<lambda>i. i) = return ()"
  by (rule state_ext) simp

lemma keeps_modify: "(\<And>i. f (g i) = f i) \<Longrightarrow> state_io_rel (keeps f) (modify_inst g)"
  by (auto simp: state_io_rel_def keeps_def)

lemmas keep_rules = kp.flow_rules keeps_effects keeps_modify

text \<open>What no operation changes: a resource's identity and its spec.\<close>

definition identity :: "('spec, 'z) cr_scheme \<Rightarrow> string \<times> string \<times> string \<times> string \<times> int \<times> string option \<times> 'spec" where
  "identity i = (Kind i, Name i, Namespace i, UID i, Generation i, DeletionTimestamp i, Spec i)"

lemma identity_update [simp]:
  "identity (i\<lparr>Conditions := c\<rparr>) = identity i" "identity (i\<lparr>Hash := h\<rparr>) = identity i"
  "identity (i\<lparr>Finalizers := fs\<rparr>) = identity i" "identity (i\<lparr>ObservedGeneration := g\<rparr>) = identity i"
  by (simp_all add: identity_def)

lemma identity_ops:
  "state_io_rel (keeps identity) (cond_set L c)" "state_io_rel (keeps identity) (mark_true L t m)"
  "state_io_rel (keeps identity) (set_false L t rs sv m args)"
  by (auto simp: state_io_rel_def keeps_def)

text \<open>The status of one condition, which an operation on another type leaves alone.\<close>

definition cstate :: "ctype \<Rightarrow> ('spec, 'z) cr_scheme \<Rightarrow> cstatus option" where
  "cstate t i = status_of t (Conditions i)"

lemma cstate_update [simp]:
  "cstate t (i\<lparr>Hash := h\<rparr>) = cstate t i" "cstate t (i\<lparr>Finalizers := fs\<rparr>) = cstate t i"
  "cstate t (i\<lparr>ObservedGeneration := g\<rparr>) = cstate t i"
  "cstate t (i\<lparr>Conditions := cs\<rparr>) = status_of t cs"
  by (simp_all add: cstate_def)

lemma keeps_cstate:
  assumes "cond_laws L"
  shows "u \<noteq> t \<Longrightarrow> state_io_rel (keeps (cstate t)) (mark_true L u m)"
    and "u \<noteq> t \<Longrightarrow> state_io_rel (keeps (cstate t)) (set_false L u rs sv m args)"
  using assms by (auto simp: state_io_rel_def keeps_def cond_lawsD cstate_def)

lemma keeps_cstate_Some:
  "cond_laws L \<Longrightarrow> Type c \<noteq> t \<Longrightarrow> state_io_rel (keeps (cstate t)) (cond_set L (Some c))"
  by (auto simp: state_io_rel_def keeps_def cond_lawsD cstate_def)

lemma keeps_cstate_mirror:
  assumes "cond_laws L" and "u \<noteq> t"
  shows "state_io_rel (keeps (cstate t)) (cond_set L (CMirror L u cs))"
  using assms by (cases "CMirror L u cs")
    (auto simp: state_io_rel_def keeps_def cond_lawsD cstate_def dest: mirror_type)

lemmas cstate_rules = keep_rules keeps_cstate keeps_cstate_Some keeps_cstate_mirror

text \<open>
  After its initialisation the condition list is only changed by \<open>Set\<close> and \<open>MarkTrue\<close>: the lists one
  can get to, and the programs that only take such steps.
\<close>

inductive cond_steps :: "lib \<Rightarrow> conditions \<Rightarrow> conditions \<Rightarrow> bool" for L :: lib and cs :: conditions where
  same: "cond_steps L cs cs"
| cset: "cond_steps L cs ds \<Longrightarrow> cond_steps L cs (CSet L c ds)"
| mark: "cond_steps L cs ds \<Longrightarrow> cond_steps L cs (CMarkTrue L t m ds)"

lemma cond_steps_trans: "cond_steps L ds es \<Longrightarrow> cond_steps L cs ds \<Longrightarrow> cond_steps L cs es"
  by (induction rule: cond_steps.induct) (auto intro: cond_steps.intros)

definition conds :: "lib \<Rightarrow> ('spec, 'z) cr_st \<Rightarrow> ('spec, 'z) cr_st \<Rightarrow> bool" where
  "conds L s u \<longleftrightarrow> cond_steps L (Conditions (inst s)) (Conditions (inst u))"

interpretation cd: step_relation "conds L" for L
  by unfold_locales (auto simp: conds_def intro: cond_steps.same cond_steps_trans)

lemma conds_effects:
  "state_io_rel (conds L) (perform c answer)" "state_io_rel (conds L) the_inst"
  by (auto simp: state_io_rel_def conds_def intro: cond_steps.same)

lemma conds_modify: "(\<And>i. Conditions (g i) = Conditions i) \<Longrightarrow> state_io_rel (conds L) (modify_inst g)"
  by (auto simp: state_io_rel_def conds_def intro: cond_steps.same)

lemma conds_ops:
  "state_io_rel (conds L) (cond_set L oc)" "state_io_rel (conds L) (mark_true L u m)"
  "state_io_rel (conds L) (set_false L u rs sv m args)"
  by (auto simp: state_io_rel_def conds_def intro: cond_steps.intros)

lemmas cond_rules = cd.flow_rules conds_effects conds_modify conds_ops

text \<open>Once listed, a condition stays listed, and there is never a second entry of a type.\<close>

lemma cond_steps_listed:
  assumes "cond_laws L"
  shows "cond_steps L cs ds \<Longrightarrow> status_of t cs \<noteq> None \<Longrightarrow> status_of t ds \<noteq> None"
proof (induction rule: cond_steps.induct)
  case (cset ds c)
  then show ?case by (cases c) (simp_all add: cond_lawsD [OF assms])
qed (simp_all add: cond_lawsD [OF assms])

lemma cond_steps_wf: "cond_steps L cs ds \<Longrightarrow> cond_laws L \<Longrightarrow> cond_wf cs \<Longrightarrow> cond_wf ds"
  by (induction rule: cond_steps.induct) (simp_all add: cond_laws_wf)

lemma conds_listed:
  assumes "cond_laws L" and "state_io_rel (conds L) m" and "run_state m s = (x, u)"
    and "cstate t (inst s) \<noteq> None"
  shows "cstate t (inst u) \<noteq> None"
  using state_io_relD [OF assms(2,3)] cond_steps_listed [OF assms(1)] assms(4)
  by (auto simp: conds_def cstate_def)

section \<open>Walking back from \<open>Ready\<close>\<close>

text \<open>
  The run of a reconcile that leaves \<open>t\<close> True although it was not: every block that keeps \<open>t\<close>
  went on.
\<close>

lemma continue_True:
  assumes "run_state (continue m f) s = (r, u)"
    and "state_io_rel (keeps (cstate t)) m"
    and "cstate t (inst s) \<noteq> Some CTrue" and "cstate t (inst u) = Some CTrue"
  obtains x s' where "run_state m s = (Next x, s')" and "run_state (f x) s' = (r, u)"
    and "cstate t (inst s') \<noteq> Some CTrue"
proof -
  have kept: "cstate t (inst s') = cstate t (inst s)" if "run_state m s = (x, s')" for x s'
    using kp.relD [OF assms(2), of s] that by (simp add: keeps_def)
  from assms(1) show ?thesis
    by (cases rule: continue_cases) (use kept assms(3,4) that in auto)
qed

section \<open>The deferred function\<close>

definition exit_inst :: "lib \<Rightarrow> conditions \<Rightarrow> ('spec, 'z) cr_scheme \<Rightarrow> ('spec, 'z) cr_scheme" where
  "exit_inst L saved i =
     (let cs = CRestore L saved (Conditions i)
      in i\<lparr>Conditions := (if CIsUnknown L ReadyCondition cs
            then CSet L (CMirror L ReadyCondition cs) cs else cs)\<rparr>)"

text \<open>
  Whatever the body did, the last call is the patch of the resource as it is then; a patch error
  is the error returned.
\<close>

lemma run_patch_on_exit:
  assumes "run_state body s = (r, s1)"
  shows "run_state (patch_on_exit L E saved body) s =
     (case OnPatchInstance E (trace s1 @ [PatchInstance (exit_inst L saved (inst s1))]) of
        None \<Rightarrow> r
      | Some e \<Rightarrow> (case r of Val (res, _) \<Rightarrow> Val (res, Some e) | Panic p \<Rightarrow> Panic p),
      \<lparr>inst = exit_inst L saved (inst s1),
       trace = trace s1 @ [PatchInstance (exit_inst L saved (inst s1))]\<rparr>)"
  using assms by (simp add: patch_on_exit_def exit_inst_def Let_def)

lemma identity_exit [simp]: "identity (exit_inst L saved i) = identity i"
  by (simp add: exit_inst_def Let_def)

lemma exit_fields [simp]:
  "Hash (exit_inst L saved i) = Hash i" "Finalizers (exit_inst L saved i) = Finalizers i"
  "ObservedGeneration (exit_inst L saved i) = ObservedGeneration i" "Spec (exit_inst L saved i) = Spec i"
  "Name (exit_inst L saved i) = Name i" "Namespace (exit_inst L saved i) = Namespace i"
  "DeletionTimestamp (exit_inst L saved i) = DeletionTimestamp i"
  "cr.more (exit_inst L saved i) = cr.more i"
  by (simp_all add: exit_inst_def Let_def)

text \<open>The deferred function changes \<open>Ready\<close> only, and never makes it True.\<close>

lemma cstate_exit:
  assumes L: "cond_laws L"
  shows "t \<noteq> ReadyCondition \<Longrightarrow> cstate t (exit_inst L saved i) = cstate t i"
    and "cstate ReadyCondition i \<noteq> None \<Longrightarrow> cstate ReadyCondition (exit_inst L saved i) = Some CTrue \<Longrightarrow>
         cstate ReadyCondition i = Some CTrue"
proof -
  let ?cs = "CRestore L saved (Conditions i)"
  show "cstate t (exit_inst L saved i) = cstate t i" if "t \<noteq> ReadyCondition"
  proof (cases "CMirror L ReadyCondition ?cs")
    case None
    then show ?thesis by (simp add: exit_inst_def Let_def cstate_def cond_lawsD [OF L])
  next
    case (Some c)
    with mirror_type [OF L Some] that show ?thesis
      by (simp add: exit_inst_def Let_def cstate_def cond_lawsD [OF L])
  qed
  assume some: "cstate ReadyCondition i \<noteq> None"
    and now: "cstate ReadyCondition (exit_inst L saved i) = Some CTrue"
  show "cstate ReadyCondition i = Some CTrue"
  proof (rule ccontr)
    assume no: "cstate ReadyCondition i \<noteq> Some CTrue"
    have same: "status_of ReadyCondition ?cs = cstate ReadyCondition i"
      by (simp add: cstate_def cond_lawsD [OF L])
    show False
    proof (cases "CMirror L ReadyCondition ?cs")
      case None
      with now no same show False
        by (auto simp: exit_inst_def Let_def cstate_def cond_lawsD [OF L] split: if_splits)
    next
      case (Some c)
      then have "Type c = ReadyCondition" by (rule mirror_type [OF L])
      moreover have "Status c = CTrue \<Longrightarrow> status_of ReadyCondition ?cs \<in> {None, Some CTrue}"
        by (rule mirror_true [OF L Some])
      ultimately show False
        using now no same some Some
        by (auto simp: exit_inst_def Let_def cstate_def cond_lawsD [OF L] split: if_splits)
    qed
  qed
qed

end
