(* ===== verification/Common.thy ===== *)
theory Common
  imports Reasoning
begin

text \<open>
  \<open>controllers/watcher_common.go\<close>: the constants of the controllers and the operations they share,
  which read a secret, read the memcached instance and render the configuration secrets. The first
  two report through a \<open>conditionUpdater\<close>, an interface of the source; it is a locale here, and the
  condition list of a resource is its instance.
\<close>

section \<open>Constants\<close>

definition passwordSecretField :: string where "passwordSecretField = ''.spec.secret''"
definition prometheusSecretField :: string where
  "prometheusSecretField = ''.spec.prometheusSecret''"
definition caBundleSecretNameField :: string where
  "caBundleSecretNameField = ''.spec.tls.caBundleSecretName''"
definition tlsAPIInternalField :: string where
  "tlsAPIInternalField = ''.spec.tls.api.internal.secretName''"
definition tlsAPIPublicField :: string where
  "tlsAPIPublicField = ''.spec.tls.api.public.secretName''"
definition tlsRouteSecretField :: string where
  "tlsRouteSecretField = ''.spec.apiOverride.tls.secretName''"

definition apiWatchFields :: "string list" where
  "apiWatchFields = [passwordSecretField, prometheusSecretField, tlsAPIInternalField,
     tlsAPIPublicField, caBundleSecretNameField]"

definition applierWatchFields :: "string list" where
  "applierWatchFields = [passwordSecretField, prometheusSecretField, caBundleSecretNameField]"

definition watcherWatchFields :: "string list" where
  "watcherWatchFields = [passwordSecretField, prometheusSecretField, tlsRouteSecretField]"

definition decisionEngineWatchFields :: "string list" where
  "decisionEngineWatchFields = [passwordSecretField, prometheusSecretField, caBundleSecretNameField]"

definition TransportURLSelector :: string where "TransportURLSelector = ''transport_url''"
definition DatabaseAccount :: string where "DatabaseAccount = ''database_account''"
definition DatabaseUsername :: string where "DatabaseUsername = ''database_username''"
definition DatabasePassword :: string where "DatabasePassword = ''database_password''"
definition DatabaseHostnameKey :: string where "DatabaseHostnameKey = ''database_hostname''"
definition PrometheusHost :: string where "PrometheusHost = ''host''"
definition PrometheusPort :: string where "PrometheusPort = ''port''"
definition PrometheusCaCertSecret :: string where "PrometheusCaCertSecret = ''ca_secret''"
definition PrometheusCaCertKey :: string where "PrometheusCaCertKey = ''ca_key''"
definition WatcherAPILabelPrefix :: string where "WatcherAPILabelPrefix = ''watcher-api''"
definition WatcherApplierLabelPrefix :: string where
  "WatcherApplierLabelPrefix = ''watcher-applier''"
definition WatcherDecisionEngineLabelPrefix :: string where
  "WatcherDecisionEngineLabelPrefix = ''watcher-decision-engine''"

text \<open>\<open>NewReconcilerBase\<close>: the requeue timeout every controller starts with.\<close>

definition NewReconcilerBase_RequeueTimeout :: int where
  "NewReconcilerBase_RequeueTimeout = seconds 5"

definition getAPIServiceLabels :: "lib \<Rightarrow> string_map" where
  "getAPIServiceLabels L = [AppSelector L \<mapsto> WatcherAPILabelPrefix]"

section \<open>Operations\<close>

text \<open>The loop over the expected fields: their values, or the first one that is missing.\<close>

fun collect_fields :: "string_map \<Rightarrow> string list \<Rightarrow> string + string list" where
  "collect_fields d [] = Inr []"
| "collect_fields d (field # rest) =
     (case d field of
        None \<Rightarrow> Inl field
      | Some val \<Rightarrow> (case collect_fields d rest of
            Inl missing \<Rightarrow> Inl missing
          | Inr vals \<Rightarrow> Inr (val # vals)))"

definition secret_zero :: secret where
  "secret_zero = \<lparr>SecretName = [], Data = Map.empty, SecretFinalizers = []\<rparr>"

text \<open>\<open>upd\<close> is the updater's \<open>Set\<close>. The result: hash, result, secret, error.\<close>

definition ensureSecret ::
  "lib \<Rightarrow> 'i env \<Rightarrow> (condition \<Rightarrow> ('i st, unit) state) \<Rightarrow> nsname \<Rightarrow> string list \<Rightarrow>
   ('i st, string \<times> result \<times> secret \<times> error option) state" where
  "ensureSecret L E upd secretName expectedFields = do {
     got \<leftarrow> perform (GetSecret secretName) (OnGetSecret E);
     case got of
       Inl err \<Rightarrow>
         if IsNotFound L (Some err) then do {
           upd (FalseCondition L InputReadyCondition RequestedReason SeverityInfo
                  (LibMessage ''InputReadyWaitingMessage'') []);
           return ([], \<lparr>Requeue = False, RequeueAfter = RequeueTimeout E\<rparr>, secret_zero, None)
         } else do {
           upd (FalseCondition L InputReadyCondition ErrorReason SeverityWarning
                  (LibMessage ''InputReadyErrorMessage'') [err_text err]);
           return ([], Result0, secret_zero, Some err)
         }
     | Inr sec \<Rightarrow>
         (case collect_fields (Data sec) expectedFields of
            Inl field \<Rightarrow> do {
              let err = NewError (''field '' @ [CHR 0x27] @ field @ [CHR 0x27] @ '' not found in secret/'' @
                NName secretName);
              upd (FalseCondition L InputReadyCondition ErrorReason SeverityWarning
                     (LibMessage ''InputReadyErrorMessage'') [err_text err]);
              return ([], Result0, sec, Some err)
            }
          | Inr values \<Rightarrow>
              (case HashValues L values of
                 (hash, Some err) \<Rightarrow> do {
                   upd (FalseCondition L InputReadyCondition ErrorReason SeverityWarning
                          (LibMessage ''InputReadyErrorMessage'') [err_text err]);
                   return ([], Result0, sec, Some err)
                 }
               | (hash, None) \<Rightarrow> return (hash, Result0, sec, None)))
   }"

text \<open>The configuration secret of a resource and, when asked for, the secret of its scripts.\<close>

definition config_templates ::
  "('spec, 'z) cr_scheme \<Rightarrow> (string \<times> param) list \<Rightarrow> string_map \<Rightarrow> string_map \<Rightarrow> bool \<Rightarrow> template list" where
  "config_templates i templateParameters customData cmLabels scripts =
     (let extraTemplates = [''00-default.conf'' \<mapsto> ''/00-default.conf'',
                            ''watcher-blank.conf'' \<mapsto> ''/watcher-blank.conf'']
      in [\<lparr>TplName = Name i @ ''-config-data'', TplNamespace = Namespace i,
           TplType = TemplateTypeConfig, InstanceType = Kind i,
           ConfigOptions = templateParameters, CustomData = customData, TplLabels = cmLabels,
           AdditionalTemplate = extraTemplates\<rparr>] @
         (if scripts then
            [\<lparr>TplName = Name i @ ''-scripts'', TplNamespace = Namespace i,
              TplType = TemplateTypeScripts, InstanceType = Kind i,
              ConfigOptions = templateParameters, CustomData = Map.empty, TplLabels = cmLabels,
              AdditionalTemplate = Map.empty\<rparr>]
          else []))"

definition GenerateConfigsGeneric ::
  "'i env \<Rightarrow> ('spec, 'z) cr_scheme \<Rightarrow> env_vars \<Rightarrow> (string \<times> param) list \<Rightarrow> string_map \<Rightarrow> string_map \<Rightarrow>
   bool \<Rightarrow> ('i st, env_vars \<times> error option) state" where
  "GenerateConfigsGeneric E i envVars templateParameters customData cmLabels scripts = do {
     (added, err) \<leftarrow> perform (EnsureSecrets (config_templates i templateParameters customData cmLabels scripts))
       (OnEnsureSecrets E);
     return (added @ envVars, err)
   }"

definition ensureMemcached ::
  "lib \<Rightarrow> 'i env \<Rightarrow> (condition \<Rightarrow> ('i st, unit) state) \<Rightarrow> (ctype \<Rightarrow> cmsg \<Rightarrow> ('i st, unit) state) \<Rightarrow>
   string \<Rightarrow> string \<Rightarrow> ('i st, error + memcached) state" where
  "ensureMemcached L E upd mark namespaceName memcachedName = do {
     got \<leftarrow> perform (GetMemcachedByName memcachedName namespaceName) (OnGetMemcached E);
     case got of
       Inl err \<Rightarrow>
         if IsNotFound L (Some err) then do {
           upd (FalseCondition L MemcachedReadyCondition RequestedReason SeverityInfo
                  (LibMessage ''MemcachedReadyWaitingMessage'') []);
           return (Inl (NewError (''memcached '' @ memcachedName @ '' not found'')))
         } else do {
           upd (FalseCondition L MemcachedReadyCondition ErrorReason SeverityWarning
                  (LibMessage ''MemcachedReadyErrorMessage'') [err_text err]);
           return (Inl err)
         }
     | Inr memcached \<Rightarrow>
         if \<not> MemcachedReady memcached then do {
           upd (FalseCondition L MemcachedReadyCondition RequestedReason SeverityInfo
                  (LibMessage ''MemcachedReadyWaitingMessage'') []);
           return (Inl (NewError (''memcached '' @ memcachedName @ '' is not ready'')))
         } else do {
           mark MemcachedReadyCondition (LibMessage ''MemcachedReadyMessage'');
           return (Inr memcached)
         }
   }"

section \<open>What the operations guarantee\<close>

text \<open>The secret's values the caller asked for are all there, and the hash is theirs.\<close>

definition secret_hash :: "lib \<Rightarrow> secret \<Rightarrow> string list \<Rightarrow> string \<Rightarrow> bool" where
  "secret_hash L sec fs h \<longleftrightarrow>
     (\<exists>vals. collect_fields (Data sec) fs = Inr vals \<and> HashValues L vals = (h, None))"

lemma collect_fields_Inr:
  "collect_fields d fs = Inr vals \<Longrightarrow> map d fs = map Some vals"
  by (induction fs arbitrary: vals) (auto split: option.splits sum.splits)

lemma collect_fields_Inl:
  "collect_fields d fs = Inl f \<Longrightarrow> f \<in> set fs \<and> d f = None"
  by (induction fs) (auto split: option.splits sum.splits)

lemma secret_hash_fields: "secret_hash L sec fs h \<Longrightarrow> f \<in> set fs \<Longrightarrow> \<exists>v. Data sec f = Some v"
proof -
  assume "secret_hash L sec fs h" and f: "f \<in> set fs"
  then obtain vals where "map (Data sec) fs = map Some vals"
    unfolding secret_hash_def using collect_fields_Inr by blast
  with f have "Data sec f \<in> set (map Some vals)" by (metis image_eqI list.set_map)
  then show ?thesis by auto
qed

text \<open>
  The interface \<open>conditionUpdater\<close>: setting a condition records its status under its type and
  touches no other; neither operation calls the cluster. \<open>ok\<close> says that the condition package
  keeps its documented behaviour.
\<close>

locale condition_updater =
  fixes ok :: bool
    and upd :: "condition \<Rightarrow> ('i st, unit) state"
    and mark :: "ctype \<Rightarrow> cmsg \<Rightarrow> ('i st, unit) state"
    and state_of :: "ctype \<Rightarrow> 'i st \<Rightarrow> cstatus option"
  assumes upd_state: "ok \<Longrightarrow>
      state_of u (snd (run_state (upd c) s)) = (if u = Type c then Some (Status c) else state_of u s)"
    and mark_state: "ok \<Longrightarrow>
      state_of u (snd (run_state (mark t m) s)) = (if u = t then Some CTrue else state_of u s)"
    and upd_trace: "trace (snd (run_state (upd c) s)) = trace s"
    and mark_trace: "trace (snd (run_state (mark t m) s)) = trace s"
    and call_state: "state_of u (s\<lparr>trace := h\<rparr>) = state_of u s"
begin

lemma updD: "run_state (upd c) s = (x, t) \<Longrightarrow> ok \<Longrightarrow>
    (\<forall>u. state_of u t = (if u = Type c then Some (Status c) else state_of u s)) \<and> trace t = trace s"
  using upd_state [of _ c s] upd_trace [of c s] by simp

lemma markD: "run_state (mark u m) s = (x, t) \<Longrightarrow> ok \<Longrightarrow>
    (\<forall>v. state_of v t = (if v = u then Some CTrue else state_of v s)) \<and> trace t = trace s"
  using mark_state [of _ u m s] mark_trace [of u m s] by simp

text \<open>
  \<open>ensureSecret\<close> makes one call. It either reports \<open>InputReady\<close> False, or it changes nothing and
  returns the secret it read with the hash of the expected values.
\<close>

lemma ensureSecret_cases:
  assumes "ok" "cond_laws L"
    and "run_state (ensureSecret L E upd n fs) s = ((h, res, sec, err), t)"
  shows "trace t = trace s @ [GetSecret n]"
    and "(state_of InputReadyCondition t = Some CFalse \<and> h = [] \<and>
            (err \<noteq> None \<or> res = \<lparr>Requeue = False, RequeueAfter = RequeueTimeout E\<rparr>) \<and>
            (\<forall>u. u \<noteq> InputReadyCondition \<longrightarrow> state_of u t = state_of u s)) \<or>
         (err = None \<and> res = Result0 \<and> t = s\<lparr>trace := trace s @ [GetSecret n]\<rparr> \<and>
            OnGetSecret E (trace s @ [GetSecret n]) = Inr sec \<and> secret_hash L sec fs h)"
  using assms
  by (auto simp: ensureSecret_def secret_hash_def call_state Let_def cond_lawsD [OF assms(2)]
      split: sum.splits if_splits prod.splits option.splits dest!: updD)

lemma ensureMemcached_cases:
  assumes "ok" "cond_laws L"
    and "run_state (ensureMemcached L E upd mark ns n) s = (r, t)"
  shows "trace t = trace s @ [GetMemcachedByName n ns]"
    and "u \<noteq> MemcachedReadyCondition \<Longrightarrow> state_of u t = state_of u s"
    and "(\<exists>err. r = Inl err) \<and> state_of MemcachedReadyCondition t = Some CFalse \<or>
         (\<exists>mc. r = Inr mc \<and> MemcachedReady mc \<and>
            OnGetMemcached E (trace s @ [GetMemcachedByName n ns]) = Inr mc \<and>
            state_of MemcachedReadyCondition t = Some CTrue)"
  using assms
  by (auto simp: ensureMemcached_def call_state cond_lawsD [OF assms(2)]
      split: sum.splits if_splits prod.splits dest!: updD markD) (metis)

end

interpretation inst_upd: condition_updater "cond_laws L"
    "\<lambda>c. cond_set L (Some c) :: (('spec, 'z) cr_st, unit) state" "mark_true L"
    "\<lambda>u s. cstate u (inst s)" for L
  by unfold_locales (auto simp: cstate_def cond_lawsD)

section \<open>Summaries the controllers share\<close>

text \<open>A secret was read in the run from \<open>s\<close> to \<open>t\<close>; it has every expected field and the hash is \<open>h\<close>.\<close>

definition secret_read ::
  "lib \<Rightarrow> 'i env \<Rightarrow> 'i st \<Rightarrow> 'i st \<Rightarrow> nsname \<Rightarrow> string list \<Rightarrow> string \<Rightarrow> secret \<Rightarrow> bool" where
  "secret_read L E s t n fs h sec \<longleftrightarrow>
     answered_since s t (GetSecret n) (OnGetSecret E) (Inr sec) \<and> secret_hash L sec fs h"

text \<open>
  The memcached instance was read ready, and it carries our finalizer: it had it already, or an
  update that adds it was accepted.
\<close>

definition memcached_claimed ::
  "'i env \<Rightarrow> 'i st \<Rightarrow> 'i st \<Rightarrow> string \<Rightarrow> string \<Rightarrow> string \<Rightarrow> bool" where
  "memcached_claimed E s t name ns key \<longleftrightarrow>
     (\<exists>mc. answered_since s t (GetMemcachedByName name ns) (OnGetMemcached E) (Inr mc) \<and>
        MemcachedReady mc \<and>
        (key \<in> set (MemcachedFinalizers mc) \<or>
         (\<exists>mc'. key \<in> set (MemcachedFinalizers mc') \<and>
            answered_since s t (UpdateMemcached mc') (OnUpdateMemcached E) None)))"

lemma secret_read_later: "secret_read L E s t n fs h sec \<Longrightarrow> extends P t u \<Longrightarrow> secret_read L E s u n fs h sec"
  unfolding secret_read_def by (blast intro: answered_since_later)

lemma secret_read_earlier: "extends P s0 s \<Longrightarrow> secret_read L E s t n fs h sec \<Longrightarrow> secret_read L E s0 t n fs h sec"
  unfolding secret_read_def by (blast intro: answered_since_earlier)

lemma memcached_claimed_later:
  "memcached_claimed E s t name ns key \<Longrightarrow> extends P t u \<Longrightarrow> memcached_claimed E s u name ns key"
  unfolding memcached_claimed_def by (blast intro: answered_since_later)

lemma memcached_claimed_earlier:
  "extends P s0 s \<Longrightarrow> memcached_claimed E s t name ns key \<Longrightarrow> memcached_claimed E s0 t name ns key"
  unfolding memcached_claimed_def by (blast intro: answered_since_earlier)

text \<open>A successful \<open>ensureSecret\<close>: no error, and a hash.\<close>

lemma ensureSecret_read:
  assumes "cond_laws L"
    and "run_state (ensureSecret L E (\<lambda>c. cond_set L (Some c)) n fs) s = ((h, res, sec, None), t)"
    and "res = Result0 \<and> RequeueTimeout E \<noteq> 0 \<or> h \<noteq> []"
  shows "t = s\<lparr>trace := trace s @ [GetSecret n]\<rparr>" and "secret_read L E s t n fs h sec"
proof -
  note c = inst_upd.ensureSecret_cases(2) [OF assms(1,1,2)]
  from c assms(3) show t: "t = s\<lparr>trace := trace s @ [GetSecret n]\<rparr>" by (auto simp: Result0_def)
  from c assms(3) have "OnGetSecret E (trace s @ [GetSecret n]) = Inr sec" and "secret_hash L sec fs h"
    by (auto simp: Result0_def)
  then show "secret_read L E s t n fs h sec"
    unfolding secret_read_def t
    by (auto intro: answered_since_perform [OF extends_refl])
qed

text \<open>\<open>GenerateConfigsGeneric\<close> adds the hashes of the secrets it wrote to the variables.\<close>

lemma generate_ok:
  assumes "run_state (GenerateConfigsGeneric E i vars params custom labels scripts) s = ((vars', None), t)"
  obtains added where "vars' = added @ vars" and "inst t = inst s"
    and "answered_since s t (EnsureSecrets (config_templates i params custom labels scripts))
      (OnEnsureSecrets E) (added, None)"
proof -
  let ?call = "EnsureSecrets (config_templates i params custom labels scripts)"
  from assms have t: "t = s\<lparr>trace := trace s @ [?call]\<rparr>"
      and "(vars', None) = (case OnEnsureSecrets E (trace s @ [?call]) of (added, err) \<Rightarrow> (added @ vars, err))"
    by (auto simp: GenerateConfigsGeneric_def split: prod.splits)
  then obtain added where v: "vars' = added @ vars" and a: "OnEnsureSecrets E (trace s @ [?call]) = (added, None)"
    by (auto split: prod.splits)
  from a have "answered_since s t ?call (OnEnsureSecrets E) (added, None)"
    by (intro answered_since_perform [OF extends_refl]) (simp_all add: t)
  with v t show ?thesis by (intro that) simp_all
qed

lemma answered_sinceI:
  "trace t = trace s @ h @ c # h' \<Longrightarrow> answer (trace s @ h @ [c]) = v \<Longrightarrow> answered_since s t c answer v"
  unfolding answered_since_def by force

lemma answered_since_prefix:
  "answered_since (s\<lparr>trace := trace s @ xs\<rparr>) t c answer v \<Longrightarrow> answered_since s t c answer v"
  by (rule answered_since_earlier [of "\<lambda>_. True"]) (simp_all add: extends_def)

lemma collect_fields_all:
  "collect_fields data fs = (case List.find (\<lambda>f. data f = None) fs of
     Some f \<Rightarrow> Inl f | None \<Rightarrow> Inr (map (map_get data) fs))"
  by (induction fs) (auto simp: map_get_def split: option.splits sum.splits)

text \<open>
  C29. Reading a secret with the fields a controller needs, on every branch: a missing secret is waited
  for, another error of the read is returned, a secret that lacks a field or whose values cannot be hashed is an
  error, and each of these is reported as \<open>InputReady\<close> False; otherwise the resource is left as it is
  and the hash is that of the fields in the order asked for.
\<close>

theorem ensureSecret_outcomes:
  assumes "cond_laws L"
    and "run_state (ensureSecret L E (\<lambda>c. cond_set L (Some c)) n fs) s = ((h, res, sec, err), t)"
  shows "trace t = trace s @ [GetSecret n] \<and>
    (case OnGetSecret E (trace t) of
       Inl e \<Rightarrow> cstate InputReadyCondition (inst t) = Some CFalse \<and> h = [] \<and>
         (if IsNotFound L (Some e) then err = None \<and> res = \<lparr>Requeue = False, RequeueAfter = RequeueTimeout E\<rparr>
          else err = Some e \<and> res = Result0)
     | Inr found \<Rightarrow> sec = found \<and> res = Result0 \<and>
         (err = None \<longleftrightarrow> (\<forall>f \<in> set fs. Data found f \<noteq> None) \<and>
            snd (HashValues L (map (map_get (Data found)) fs)) = None) \<and>
         (if err = None then inst t = inst s \<and> HashValues L (map (map_get (Data found)) fs) = (h, None)
          else cstate InputReadyCondition (inst t) = Some CFalse))"
proof (cases "OnGetSecret E (trace s @ [GetSecret n])")
  case (Inl e)
  with assms(2) show ?thesis
    by (auto simp: ensureSecret_def cstate_def cond_lawsD [OF assms(1)] split: if_splits)
next
  case (Inr found)
  show ?thesis
  proof (cases "List.find (\<lambda>f. Data found f = None) fs")
    case None
    then have "\<forall>f \<in> set fs. Data found f \<noteq> None" by (simp add: find_None_iff)
    with None Inr assms(2) show ?thesis
      by (auto simp: ensureSecret_def collect_fields_all cstate_def cond_lawsD [OF assms(1)]
          split: prod.splits option.splits)
  next
    case (Some f)
    then have "\<exists>f \<in> set fs. Data found f = None" by (auto simp: find_Some_iff)
    with Some Inr assms(2) show ?thesis
      by (auto simp: ensureSecret_def collect_fields_all cstate_def Let_def cond_lawsD [OF assms(1)])
  qed
qed

end
