(* ===== verification/Controllers.thy ===== *)
theory Controllers
  imports Common
begin

text \<open>
  What the four \<open>Reconcile\<close> functions share: each loads its resource, installs the deferred function
  and runs a body. The locale \<open>reconciler\<close> states the shape and what a body must respect; its lemmas
  say what the caller of any such controller can rely on. Every controller is an interpretation.
\<close>

text \<open>A nil map of the status read as a Go map.\<close>

definition hash_map :: "string_map option \<Rightarrow> string_map" where
  "hash_map h = (case h of None \<Rightarrow> Map.empty | Some m \<Rightarrow> m)"

definition no_patch :: "'i call \<Rightarrow> bool" where
  "no_patch c \<longleftrightarrow> (\<forall>j. c \<noteq> PatchInstance j)"

lemma run_outcome:
  "run_state (outcome m) s =
     (case run_state m s of
        (Ret res err, t) \<Rightarrow> (Val (res, err), t)
      | (Crash p, t) \<Rightarrow> (Panic p, t)
      | (Next u, t) \<Rightarrow> (Val (Result0, None), t))"
  by (auto simp: outcome_def split: prod.splits flow.splits)

lemma snd_run_outcome [simp]: "snd (run_state (outcome m) s) = snd (run_state m s)"
  by (auto simp: run_outcome split: prod.splits flow.splits)

text \<open>\<open>controllerutil.RemoveFinalizer(instance, helper.GetFinalizer())\<close>\<close>

definition drop_own_finalizer :: "lib \<Rightarrow> (('spec, 'z) cr_st, unit) state" where
  "drop_own_finalizer L = modify_inst (\<lambda>i. i\<lparr>Finalizers :=
     fst (RemoveFinalizer L (GetFinalizer L (Kind i)) (Finalizers i))\<rparr>)"

text \<open>
  The start of every body: a live resource gets the finalizer, and when that changed something, or
  the resource is new, the reconcile returns so that the change is stored first. Then a resource
  being deleted goes to \<open>delete\<close>, any other to \<open>normal\<close>.
\<close>

definition finalizer_gate ::
  "lib \<Rightarrow> bool \<Rightarrow> (('spec, 'z) cr_st, unit flow) state \<Rightarrow> (('spec, 'z) cr_st, unit flow) state \<Rightarrow>
   (('spec, 'z) cr_st, unit flow) state" where
  "finalizer_gate L isNewInstance delete normal = do {
     i \<leftarrow> the_inst;
     added \<leftarrow> (if DeletionTimestamp i = None then do {
         let (fs, added) = AddFinalizer L (GetFinalizer L (Kind i)) (Finalizers i);
         modify_inst (\<lambda>i. i\<lparr>Finalizers := fs\<rparr>);
         return added
       } else return False);
     if added \<or> isNewInstance then return (Ret Result0 None)
     else if DeletionTimestamp i \<noteq> None then delete
     else normal
   }"

lemma run_finalizer_gate:
  "run_state (finalizer_gate L new delete normal) s =
     (if DeletionTimestamp (inst s) = None then
        (let (fs, added) = AddFinalizer L (GetFinalizer L (Kind (inst s))) (Finalizers (inst s));
             s' = s\<lparr>inst := (inst s)\<lparr>Finalizers := fs\<rparr>\<rparr>
         in if added \<or> new then (Ret Result0 None, s') else run_state normal s')
      else if new then (Ret Result0 None, s)
      else run_state delete s)"
  by (simp add: finalizer_gate_def Let_def split_beta)

lemma gate_keeps:
  assumes "state_io_rel (keeps f) delete" and "state_io_rel (keeps f) normal"
    and "\<And>i fs. f (i\<lparr>Finalizers := fs\<rparr>) = f i"
  shows "state_io_rel (keeps f) (finalizer_gate L new delete normal)"
  unfolding finalizer_gate_def by (intro keep_rules assms)

lemma gate_extends:
  assumes "state_io_rel (extends P) delete" and "state_io_rel (extends P) normal"
  shows "state_io_rel (extends P) (finalizer_gate L new delete normal)"
  unfolding finalizer_gate_def by (intro ext_rules assms)

lemma gate_conds:
  assumes "state_io_rel (conds L) delete" and "state_io_rel (conds L) normal"
  shows "state_io_rel (conds L) (finalizer_gate L new delete normal)"
  unfolding finalizer_gate_def by (intro cond_rules assms; simp)

lemma drop_own_finalizer_rules:
  "(\<And>i fs. f (i\<lparr>Finalizers := fs\<rparr>) = f i) \<Longrightarrow> state_io_rel (keeps f) (drop_own_finalizer L)"
  "state_io_rel (extends P) (drop_own_finalizer L)"
  "state_io_rel (conds L) (drop_own_finalizer L)"
  unfolding drop_own_finalizer_def
  by (simp_all add: keeps_modify extends_inst conds_modify)

text \<open>A condition that became True behind the gate: the resource was live and kept its finalizer.\<close>

lemma gate_True:
  assumes "run_state (finalizer_gate L new delete normal) s = (r, u)"
    and "state_io_rel (keeps (cstate t)) delete"
    and "cstate t (inst s) \<noteq> Some CTrue" and "cstate t (inst u) = Some CTrue"
  obtains "DeletionTimestamp (inst s) = None" and "\<not> new"
    and "\<not> snd (AddFinalizer L (GetFinalizer L (Kind (inst s))) (Finalizers (inst s)))"
    and "run_state normal (s\<lparr>inst := (inst s)\<lparr>Finalizers :=
           fst (AddFinalizer L (GetFinalizer L (Kind (inst s))) (Finalizers (inst s)))\<rparr>\<rparr>) = (r, u)"
proof -
  have "keeps (cstate t) s (snd (run_state delete s))" using assms(2) by (rule kp.relD)
  with assms(1,3,4) that show ?thesis
    by (auto simp: run_finalizer_gate Let_def split_beta keeps_def split: if_splits prod.splits)
qed

text \<open>After \<open>Init\<close> with a list of Unknown conditions, each of them is Unknown.\<close>

lemma status_of_unknowns:
  "t \<in> Type ` set l \<Longrightarrow> \<forall>c \<in> set l. Status c = CUnknown \<Longrightarrow> status_of t (Some l) = Some CUnknown"
  unfolding status_of_def cond_list_def by (induction l) auto

lemma status_of_init_unknown:
  "cond_laws L \<Longrightarrow> distinct (map Type l) \<Longrightarrow> \<forall>c \<in> set l. Status c = CUnknown \<Longrightarrow>
   t \<in> Type ` set l \<Longrightarrow> status_of t (CInit L l cs) = Some CUnknown"
  by (simp only: status_of_init status_of_unknowns)

text \<open>A body that initialises the conditions first has every one of them listed at its end.\<close>

lemma listed_after_init:
  assumes "cond_laws L" and "state_io_rel (conds L) rest"
    and "\<And>i. cstate t (init i) \<noteq> None"
  shows "cstate t (inst (snd (run_state (do { modify_inst init; rest }) s))) \<noteq> None"
  using conds_listed [OF assms(1,2), of "s\<lparr>inst := init (inst s)\<rparr>", OF prod.collapse [symmetric]] assms(3) by simp

text \<open>The shape of \<open>Reconcile\<close>; \<open>prep\<close> is what one of them does to a new resource first.\<close>

definition reconcile_shape ::
  "lib \<Rightarrow> (('spec, 'z) cr_scheme \<Rightarrow> ('spec, 'z) cr_scheme) \<Rightarrow>
   (('spec, 'z) cr_scheme env \<Rightarrow> bool \<Rightarrow> (('spec, 'z) cr_st, unit flow) state) \<Rightarrow>
   ('spec, 'z) cr_scheme env \<Rightarrow> nsname \<Rightarrow> (('spec, 'z) cr_st, (result \<times> error option) go) state" where
  "reconcile_shape L prep body E req = do {
     got \<leftarrow> perform (GetInstance req) (OnGetInstance E);
     case got of
       Inl err \<Rightarrow> return (Val (Result0, if IsNotFound L (Some err) then None else Some err))
     | Inr i \<Rightarrow> do {
         modify_inst (\<lambda>_. i);
         case NewHelper E of
           Some err \<Rightarrow> return (Val (Result0, Some err))
         | None \<Rightarrow> do {
             modify_inst prep;
             patch_on_exit L E (Conditions (prep i)) (outcome (body E (Conditions i = None)))
           }
       }
   }"

locale reconciler =
  fixes L :: lib
    and prep :: "('spec, 'z) cr_scheme \<Rightarrow> ('spec, 'z) cr_scheme"
    and body :: "('spec, 'z) cr_scheme env \<Rightarrow> bool \<Rightarrow> (('spec, 'z) cr_st, unit flow) state"
    and reconcile ::
      "('spec, 'z) cr_scheme env \<Rightarrow> nsname \<Rightarrow> (('spec, 'z) cr_st, (result \<times> error option) go) state"
  assumes shape: "reconcile E req = reconcile_shape L prep body E req"
    and prep_identity: "identity (prep i) = identity i"
    and body_identity: "state_io_rel (keeps identity) (body E new)"
    and body_calls: "state_io_rel (extends no_patch) (body E new)"
    and body_ready: "cond_laws L \<Longrightarrow> cstate ReadyCondition (inst (snd (run_state (body E new) s))) \<noteq> None"
begin

text \<open>A resource that is gone, or that cannot be read: nothing happens to the cluster.\<close>

lemma not_loaded:
  assumes "OnGetInstance E (trace s @ [GetInstance req]) = Inl err"
  shows "run_state (reconcile E req) s =
    (Val (Result0, if IsNotFound L (Some err) then None else Some err),
     s\<lparr>trace := trace s @ [GetInstance req]\<rparr>)"
  using assms by (simp add: shape reconcile_shape_def)

text \<open>A resource that was loaded: the body runs, then the deferred function.\<close>

lemma loaded:
  assumes "OnGetInstance E (trace s @ [GetInstance req]) = Inr i" and "NewHelper E = None"
    and "run_state (body E (Conditions i = None))
           \<lparr>inst = prep i, trace = trace s @ [GetInstance req]\<rparr> = (b, s1)"
  shows "snd (run_state (reconcile E req) s) =
      \<lparr>inst = exit_inst L (Conditions (prep i)) (inst s1),
       trace = trace s1 @ [PatchInstance (exit_inst L (Conditions (prep i)) (inst s1))]\<rparr>"
    and "fst (run_state (reconcile E req) s) =
      (case OnPatchInstance E (trace s1 @ [PatchInstance (exit_inst L (Conditions (prep i)) (inst s1))]) of
         None \<Rightarrow> (case b of Ret res err \<Rightarrow> Val (res, err) | Crash p \<Rightarrow> Panic p | Next u \<Rightarrow> Val (Result0, None))
       | Some e \<Rightarrow> (case b of Ret res err \<Rightarrow> Val (res, Some e) | Crash p \<Rightarrow> Panic p
                      | Next u \<Rightarrow> Val (Result0, Some e)))"
proof -
  obtain ro where ro: "run_state (outcome (body E (Conditions i = None)))
      \<lparr>inst = prep i, trace = trace s @ [GetInstance req]\<rparr> = (ro, s1)"
    and ro_b: "ro = (case b of Ret res err \<Rightarrow> Val (res, err) | Crash p \<Rightarrow> Panic p | Next u \<Rightarrow> Val (Result0, None))"
    using assms(3) by (cases b) (auto simp: run_outcome)
  have st: "s\<lparr>trace := trace s @ [GetInstance req], inst := prep i\<rparr> =
      \<lparr>inst = prep i, trace = trace s @ [GetInstance req]\<rparr>"
    by simp
  show "snd (run_state (reconcile E req) s) =
      \<lparr>inst = exit_inst L (Conditions (prep i)) (inst s1),
       trace = trace s1 @ [PatchInstance (exit_inst L (Conditions (prep i)) (inst s1))]\<rparr>"
    using assms(1,2) by (simp add: shape reconcile_shape_def st run_patch_on_exit [OF ro])
  show "fst (run_state (reconcile E req) s) =
      (case OnPatchInstance E (trace s1 @ [PatchInstance (exit_inst L (Conditions (prep i)) (inst s1))]) of
         None \<Rightarrow> (case b of Ret res err \<Rightarrow> Val (res, err) | Crash p \<Rightarrow> Panic p | Next u \<Rightarrow> Val (Result0, None))
       | Some e \<Rightarrow> (case b of Ret res err \<Rightarrow> Val (res, Some e) | Crash p \<Rightarrow> Panic p
                      | Next u \<Rightarrow> Val (Result0, Some e)))"
    using assms(1,2) by (cases b) (simp_all add: shape reconcile_shape_def st run_patch_on_exit [OF ro] ro_b split: option.split)
qed

text \<open>
  Exactly one patch, and it comes last: it carries the resource as the run leaves it, of the same
  identity and spec, and its error is the error returned.
\<close>

lemma patches_last:
  assumes "OnGetInstance E (trace s @ [GetInstance req]) = Inr i" and "NewHelper E = None"
    and run: "run_state (reconcile E req) s = (r, t)"
  shows "\<exists>tr. trace t = trace s @ GetInstance req # tr @ [PatchInstance (inst t)] \<and>
      (\<forall>c \<in> set tr. no_patch c)"
    and "identity (inst t) = identity i"
    and "OnPatchInstance E (trace t) = Some e \<Longrightarrow> is_panic r \<or> (\<exists>res. r = Val (res, Some e))"
proof -
  let ?s0 = "\<lparr>inst = prep i, trace = trace s @ [GetInstance req]\<rparr>"
  obtain b s1 where b: "run_state (body E (Conditions i = None)) ?s0 = (b, s1)" by fastforce
  note l = loaded [OF assms(1,2) b]
  have t: "t = snd (run_state (reconcile E req) s)" and r: "r = fst (run_state (reconcile E req) s)"
    by (simp_all add: run)
  have "extends no_patch ?s0 s1" using ext.relD [OF body_calls] b by (metis snd_conv)
  then show "\<exists>tr. trace t = trace s @ GetInstance req # tr @ [PatchInstance (inst t)] \<and>
      (\<forall>c \<in> set tr. no_patch c)"
    by (auto simp: t l(1) extends_def)
  have "keeps identity ?s0 s1" using kp.relD [OF body_identity] b by (metis snd_conv)
  then show "identity (inst t) = identity i"
    by (simp add: t l(1) keeps_def prep_identity)
  assume "OnPatchInstance E (trace t) = Some e"
  then show "is_panic r \<or> (\<exists>res. r = Val (res, Some e))"
    by (cases b) (simp_all add: r t l)
qed

text \<open>A resource patched with \<open>Ready\<close> True was already ready when the body ended.\<close>

lemma ready_back:
  assumes "cond_laws L"
    and "OnGetInstance E (trace s @ [GetInstance req]) = Inr i" and "NewHelper E = None"
    and "run_state (reconcile E req) s = (r, t)"
    and "cstate ReadyCondition (inst t) = Some CTrue"
  obtains b s1 where "run_state (body E (Conditions i = None))
        \<lparr>inst = prep i, trace = trace s @ [GetInstance req]\<rparr> = (b, s1)"
    and "cstate ReadyCondition (inst s1) = Some CTrue"
    and "inst t = exit_inst L (Conditions (prep i)) (inst s1)"
    and "trace t = trace s1 @ [PatchInstance (inst t)]"
proof -
  let ?s0 = "\<lparr>inst = prep i, trace = trace s @ [GetInstance req]\<rparr>"
  obtain b s1 where b: "run_state (body E (Conditions i = None)) ?s0 = (b, s1)" by fastforce
  note l = loaded [OF assms(2,3) b]
  have t: "t = snd (run_state (reconcile E req) s)" by (simp add: assms(4))
  have "cstate ReadyCondition (inst s1) \<noteq> None"
    using body_ready [OF assms(1), of E "Conditions i = None" ?s0] b by simp
  moreover have "cstate ReadyCondition (exit_inst L (Conditions (prep i)) (inst s1)) = Some CTrue"
    using assms(5) by (simp add: t l(1))
  ultimately have "cstate ReadyCondition (inst s1) = Some CTrue" by (rule cstate_exit(2) [OF assms(1)])
  with b l(1) that show ?thesis by (simp add: t)
qed

end

section \<open>The three service controllers\<close>

text \<open>
  The body of a service's reconcile is its status initialisation behind the finalizer gate, with a
  \<open>delete\<close> and a \<open>normal\<close> branch; \<open>types\<close> are the conditions it reports.
\<close>

locale service_reconciler = reconciler L prep body reconcile
  for L :: lib and prep :: "('spec, 'z) cr_scheme \<Rightarrow> ('spec, 'z) cr_scheme"
    and body reconcile +
  fixes init :: "('spec, 'z) cr_scheme \<Rightarrow> ('spec, 'z) cr_scheme"
    and delete :: "('spec, 'z) cr_scheme env \<Rightarrow> (('spec, 'z) cr_st, unit flow) state"
    and normal :: "('spec, 'z) cr_scheme env \<Rightarrow> (('spec, 'z) cr_st, unit flow) state"
    and types :: "ctype set"
  assumes body_shape: "body E new =
      do { modify_inst init; finalizer_gate L new (delete E) (normal E) }"
    and prep_keeps: "Finalizers (prep i) = Finalizers i" "Hash (prep i) = Hash i"
    and init_identity: "identity (init i) = identity i"
    and init_keeps: "Finalizers (init i) = Finalizers i" "hash_map (Hash (init i)) = hash_map (Hash i)"
    and init_unknown: "cond_laws L \<Longrightarrow> u \<in> types \<Longrightarrow> cstate u (init i) = Some CUnknown"
    and Ready_type: "ReadyCondition \<in> types"
    and delete_Ready: "cond_laws L \<Longrightarrow> state_io_rel (keeps (cstate ReadyCondition)) (delete E)"
    and branch_conds: "state_io_rel (conds L) (delete E)" "state_io_rel (conds L) (normal E)"
begin

lemma init_identityD:
  "Kind (init i) = Kind i" "DeletionTimestamp (init i) = DeletionTimestamp i"
  using init_identity [of i] by (simp_all add: identity_def)

lemma prep_identityD:
  "Kind (prep i) = Kind i" "DeletionTimestamp (prep i) = DeletionTimestamp i"
  using prep_identity [of i] by (simp_all add: identity_def)

lemma body_lists: "cond_laws L \<Longrightarrow> u \<in> types \<Longrightarrow>
    cstate u (inst (snd (run_state (body E new) s))) \<noteq> None"
  unfolding body_shape
  by (rule listed_after_init) (auto intro: gate_conds branch_conds simp: init_unknown)

text \<open>
  The first reconcile of a live resource that is new or lacks the finalizer only stores the
  finalizer: between reading and patching the resource nothing is called.
\<close>

lemma first_reconcile:
  assumes "finalizer_laws L"
    and "OnGetInstance E (trace s @ [GetInstance req]) = Inr i" and "NewHelper E = None"
    and "DeletionTimestamp i = None"
    and "Conditions i = None \<or> GetFinalizer L (Kind i) \<notin> set (Finalizers i)"
    and "run_state (reconcile E req) s = (r, t)"
  shows "trace t = trace s @ [GetInstance req, PatchInstance (inst t)]"
    and "GetFinalizer L (Kind i) \<in> set (Finalizers (inst t))"
    and "set (Finalizers i) \<subseteq> set (Finalizers (inst t))"
    and "r = Val (Result0, OnPatchInstance E (trace t))"
proof -
  let ?s0 = "\<lparr>inst = prep i, trace = trace s @ [GetInstance req]\<rparr>" and ?key = "GetFinalizer L (Kind i)"
  obtain fs added where af: "AddFinalizer L ?key (Finalizers i) = (fs, added)" by fastforce
  with assms(1) have fs: "?key \<in> set fs" "set (Finalizers i) \<subseteq> set fs"
      and new: "added \<longleftrightarrow> ?key \<notin> set (Finalizers i)"
    unfolding finalizer_laws_def by (metis fst_conv in_set_conv_decomp, metis Un_iff fst_conv set_append subsetI,
      metis snd_conv)
  from new assms(5) have go: "added \<or> Conditions i = None" by auto
  have b: "run_state (body E (Conditions i = None)) ?s0 =
      (Ret Result0 None, ?s0\<lparr>inst := (init (prep i))\<lparr>Finalizers := fs\<rparr>\<rparr>)"
    using af go assms(4)
    by (auto simp: body_shape run_finalizer_gate init_identityD prep_identityD init_keeps prep_keeps Let_def)
  note l = loaded [OF assms(2,3) b]
  have t: "t = snd (run_state (reconcile E req) s)" and r: "r = fst (run_state (reconcile E req) s)"
    by (simp_all add: assms(6))
  show "trace t = trace s @ [GetInstance req, PatchInstance (inst t)]"
    and "?key \<in> set (Finalizers (inst t))" and "set (Finalizers i) \<subseteq> set (Finalizers (inst t))"
    using fs by (simp_all add: t l)
  show "r = Val (Result0, OnPatchInstance E (trace t))"
    by (simp add: r t l split: option.split)
qed

text \<open>A body that makes the resource Ready ran its \<open>normal\<close> branch.\<close>

lemma body_Ready:
  assumes "cond_laws L" and run: "run_state (body E new) s = (r, t)"
    and after: "cstate ReadyCondition (inst t) = Some CTrue"
  obtains s1 where "run_state (normal E) s1 = (r, t)" and "trace s1 = trace s"
    and "identity (inst s1) = identity (inst s)"
    and "hash_map (Hash (inst s1)) = hash_map (Hash (inst s))"
    and "\<forall>u \<in> types. cstate u (inst s1) = Some CUnknown"
    and "DeletionTimestamp (inst s) = None" and "\<not> new"
    and "\<not> snd (AddFinalizer L (GetFinalizer L (Kind (inst s))) (Finalizers (inst s)))"
proof -
  let ?s0 = "s\<lparr>inst := init (inst s)\<rparr>"
  have start: "\<forall>u \<in> types. cstate u (inst ?s0) = Some CUnknown"
    using init_unknown [OF assms(1)] by simp
  from run have "run_state (finalizer_gate L new (delete E) (normal E)) ?s0 = (r, t)"
    by (simp add: body_shape)
  then show ?thesis
    by (rule gate_True [OF _ delete_Ready [OF assms(1)] _ after])
      (use start Ready_type in \<open>auto simp: init_identity init_keeps init_identityD intro!: that\<close>)
qed

text \<open>What holds of every call of the two branches holds of every call of the run.\<close>

lemma reconcile_calls:
  assumes load: "OnGetInstance E (trace s @ [GetInstance req]) = Inr i" "NewHelper E = None"
    and run: "run_state (reconcile E req) s = (r, t)"
    and P: "P (GetInstance req)" "\<And>j. P (PatchInstance j)"
    and del: "state_io_rel (extends P) (delete E)"
    and nrm: "\<And>s2. identity (inst s2) = identity i \<Longrightarrow> hash_map (Hash (inst s2)) = hash_map (Hash i) \<Longrightarrow>
        extends P s2 (snd (run_state (normal E) s2))"
  shows "extends P s t"
proof -
  let ?s0 = "\<lparr>inst = prep i, trace = trace s @ [GetInstance req]\<rparr>"
  let ?s1 = "?s0\<lparr>inst := init (prep i)\<rparr>"
  let ?s2 = "?s1\<lparr>inst := (init (prep i))\<lparr>Finalizers :=
      fst (AddFinalizer L (GetFinalizer L (Kind i)) (Finalizers i))\<rparr>\<rparr>"
  obtain b u where b: "run_state (body E (Conditions i = None)) ?s0 = (b, u)" by fastforce
  have t: "trace t = trace u @ [PatchInstance (inst t)]" using loaded(1) [OF load b] run by auto
  have same: "identity (inst ?s2) = identity i" "hash_map (Hash (inst ?s2)) = hash_map (Hash i)"
    by (simp_all add: init_identity prep_identity init_keeps prep_keeps)
  have "extends P ?s0 (snd (run_state (delete E) ?s1))"
    using ext.relD [OF del, of ?s1] by (simp add: extends_def)
  moreover have "extends P ?s0 (snd (run_state (normal E) ?s2))"
    using nrm [OF same] by (simp add: extends_def)
  moreover have "u = ?s1 \<or> u = ?s2 \<or> u = snd (run_state (delete E) ?s1) \<or> u = snd (run_state (normal E) ?s2)"
    using b
    by (auto simp: body_shape run_finalizer_gate init_identityD prep_identityD init_keeps prep_keeps
        Let_def split_beta split: if_splits)
  moreover have "extends P ?s0 ?s1" "extends P ?s0 ?s2" by (simp_all add: extends_def)
  ultimately have "extends P ?s0 u" by blast
  moreover have "extends P s (?s0\<lparr>inst := inst s\<rparr>)" using P by (simp add: extends_def)
  ultimately show ?thesis using t P(2) by (auto simp: extends_def)
qed

text \<open>A resource being deleted: nothing changes while it is new, otherwise \<open>delete\<close> decides.\<close>

lemma reconcile_delete:
  assumes load: "OnGetInstance E (trace s @ [GetInstance req]) = Inr i" "NewHelper E = None"
    and run: "run_state (reconcile E req) s = (r, t)"
    and deleting: "DeletionTimestamp i \<noteq> None"
  obtains (new) "Finalizers (inst t) = Finalizers i" and "Conditions i = None"
  | (old) s1 u d where "run_state (delete E) s1 = (d, u)"
    and "Finalizers (inst t) = Finalizers (inst u)" and "trace t = trace u @ [PatchInstance (inst t)]"
    and "identity (inst s1) = identity i" and "Finalizers (inst s1) = Finalizers i"
    and "trace s1 = trace s @ [GetInstance req]" and "Conditions i \<noteq> None"
proof -
  let ?s0 = "\<lparr>inst = prep i, trace = trace s @ [GetInstance req]\<rparr>"
  let ?s1 = "?s0\<lparr>inst := init (prep i)\<rparr>"
  obtain b u where b: "run_state (body E (Conditions i = None)) ?s0 = (b, u)" by fastforce
  have t: "t = \<lparr>inst = exit_inst L (Conditions (prep i)) (inst u),
      trace = trace u @ [PatchInstance (exit_inst L (Conditions (prep i)) (inst u))]\<rparr>"
    using loaded(1) [OF load b] run by simp
  have s1: "identity (inst ?s1) = identity i" "Finalizers (inst ?s1) = Finalizers i"
    by (simp_all add: init_identity prep_identity init_keeps prep_keeps)
  obtain d v where d: "run_state (delete E) ?s1 = (d, v)" by fastforce
  show ?thesis
  proof (cases "Conditions i = None")
    case True
    with b deleting have "u = ?s1"
      by (auto simp: body_shape run_finalizer_gate init_identityD prep_identityD)
    with new True s1 t show ?thesis by simp
  next
    case False
    with b deleting d have "u = v"
      by (auto simp: body_shape run_finalizer_gate init_identityD prep_identityD)
    with old [OF d _ _ s1] False t show ?thesis by simp
  qed
qed

text \<open>
  What the caller knows of a resource stored with \<open>Ready\<close> True, given what that means for the
  \<open>normal\<close> branch: the run had a live resource with the finalizer, and every condition is True.
\<close>

lemma reconcile_Ready:
  assumes L: "cond_laws L" "finalizer_laws L"
    and load: "OnGetInstance E (trace s @ [GetInstance req]) = Inr i" "NewHelper E = None"
    and run: "run_state (reconcile E req) s = (r, t)"
    and ready: "cstate ReadyCondition (inst t) = Some CTrue"
    and subs: "\<And>b s1 s2 u. run_state (normal E) s2 = (b, s1) \<Longrightarrow>
        cstate ReadyCondition (inst s2) \<noteq> Some CTrue \<Longrightarrow> cstate ReadyCondition (inst s1) = Some CTrue \<Longrightarrow>
        u \<noteq> ReadyCondition \<Longrightarrow> cstate u (inst s1) \<in> {None, Some CTrue}"
  obtains b s1 s2 where "run_state (normal E) s2 = (b, s1)"
    and "\<forall>u \<in> types. cstate u (inst s2) = Some CUnknown" and "cstate ReadyCondition (inst s1) = Some CTrue"
    and "extends (\<lambda>_. True) s s2" and "extends (\<lambda>_. True) s1 t"
    and "identity (inst s2) = identity i" and "hash_map (Hash (inst s2)) = hash_map (Hash i)"
    and "DeletionTimestamp i = None" and "GetFinalizer L (Kind i) \<in> set (Finalizers i)"
    and "\<forall>u \<in> types. cstate u (inst t) = Some CTrue"
proof -
  let ?s0 = "\<lparr>inst = prep i, trace = trace s @ [GetInstance req]\<rparr>"
  obtain b s1 where b: "run_state (body E (Conditions i = None)) ?s0 = (b, s1)"
      and r1: "cstate ReadyCondition (inst s1) = Some CTrue"
      and t: "inst t = exit_inst L (Conditions (prep i)) (inst s1)" "trace t = trace s1 @ [PatchInstance (inst t)]"
    using ready_back [OF L(1) load run ready] by blast
  obtain s2 where n: "run_state (normal E) s2 = (b, s1)" and s2: "trace s2 = trace ?s0"
      "identity (inst s2) = identity i" "hash_map (Hash (inst s2)) = hash_map (Hash i)"
      "\<forall>u \<in> types. cstate u (inst s2) = Some CUnknown"
      and live: "DeletionTimestamp i = None" "\<not> snd (AddFinalizer L (GetFinalizer L (Kind i)) (Finalizers i))"
    using body_Ready [OF L(1) b r1] by (auto simp: prep_identity prep_identityD prep_keeps)
  have start: "cstate ReadyCondition (inst s2) \<noteq> Some CTrue" using s2(4) Ready_type by simp
  have "cstate u (inst t) = Some CTrue" if u: "u \<in> types" for u
  proof (cases "u = ReadyCondition")
    case False
    have "cstate u (inst s1) \<noteq> None"
      using body_lists [OF L(1) u, of E "Conditions i = None" ?s0] by (simp add: b)
    with subs [OF n start r1 False] False show ?thesis
      by (simp add: t(1) cstate_exit(1) [OF L(1)])
  qed (use ready in simp)
  moreover have "GetFinalizer L (Kind i) \<in> set (Finalizers i)"
    using L(2) live(2) unfolding finalizer_laws_def by blast
  moreover have "extends (\<lambda>_. True) s s2" and "extends (\<lambda>_. True) s1 t"
    using s2(1) t(2) by (auto simp: extends_def)
  ultimately show ?thesis using that n s2 r1 live(1) by blast
qed

end

end
