(* ===== verification/ServiceCommon.thy ===== *)
theory ServiceCommon
  imports Controllers Workloads
begin

text \<open>
  The code that the reconciles of WatcherAPI, WatcherApplier and WatcherDecisionEngine repeat line
  by line, translated once: reading the input secrets, claiming and releasing memcached, the hash of
  the inputs, observing the StatefulSet, the end of the reconcile. Each controller's theory names
  the blocks it is made of. The lemmas say what a block that goes on has achieved.
\<close>

section \<open>Inputs\<close>

definition service_expected_fields :: "('a WatcherSecretSpec_scheme, 'z) cr_scheme \<Rightarrow> string list" where
  "service_expected_fields i =
     [ServiceSelector (PasswordSelectors (Spec i)), TransportURLSelector, DatabaseAccount,
      DatabaseUsername, DatabaseHostnameKey, DatabasePassword, GlobalCustomConfigFileName]"

definition service_secret ::
  "lib \<Rightarrow> ('a WatcherSecretSpec_scheme, 'z) cr_scheme env \<Rightarrow>
   (('a WatcherSecretSpec_scheme, 'z) cr_st, (secret \<times> env_vars) flow) state" where
  "service_secret L E = do {
     i \<leftarrow> the_inst;
     (secretHash, res, sec, err) \<leftarrow> ensureSecret L E (\<lambda>c. cond_set L (Some c))
       \<lparr>NName = Secret (Spec i), NNamespace = Namespace i\<rparr> (service_expected_fields i);
     if err \<noteq> None \<or> res \<noteq> Result0 then return (Ret res err)
     else return (Next (sec, [(Secret (Spec i), SetValue secretHash)]))
   }"

definition prometheus_secret ::
  "lib \<Rightarrow> ('a WatcherCommon_scheme, 'z) cr_scheme env \<Rightarrow> env_vars \<Rightarrow>
   (('a WatcherCommon_scheme, 'z) cr_st, (secret \<times> env_vars) flow) state" where
  "prometheus_secret L E configVars = do {
     i \<leftarrow> the_inst;
     (hashPrometheus, res, sec, err) \<leftarrow> ensureSecret L E (\<lambda>c. cond_set L (Some c))
       \<lparr>NName = PrometheusSecret (Spec i), NNamespace = Namespace i\<rparr> [PrometheusHost, PrometheusPort];
     if err \<noteq> None \<or> hashPrometheus = [] then do {
       set_false L InputReadyCondition RequestedReason SeverityWarning WatcherPrometheusSecretErrorMessage [];
       return (Ret Result0 (Some (NewError ''error retrieving required data from prometheus secret'')))
     }
     else return (Next (sec, (PrometheusSecret (Spec i), SetValue hashPrometheus) # configVars))
   }"

text \<open>The CA certificate the Prometheus secret names, when it names both the secret and the key.\<close>

definition prometheus_ca_of :: "secret \<Rightarrow> prometheus_ca" where
  "prometheus_ca_of sec =
     (let prometheusCaCertSecret = map_get (Data sec) PrometheusCaCertSecret;
          prometheusCaCertKey = map_get (Data sec) PrometheusCaCertKey
      in if prometheusCaCertSecret \<noteq> [] \<and> prometheusCaCertKey \<noteq> []
         then [(''casecret_key'', prometheusCaCertKey), (''casecret_name'', prometheusCaCertSecret)]
         else [])"

definition prometheus_ca_path :: "secret \<Rightarrow> string" where
  "prometheus_ca_path sec =
     (let prometheusCaCertSecret = map_get (Data sec) PrometheusCaCertSecret;
          prometheusCaCertKey = map_get (Data sec) PrometheusCaCertKey
      in if prometheusCaCertSecret \<noteq> [] \<and> prometheusCaCertKey \<noteq> []
         then filepath_Join [PrometheusCaCertFolderPath, prometheusCaCertKey] else [])"

section \<open>Memcached\<close>

definition claim_memcached ::
  "lib \<Rightarrow> ('a WatcherCommon_scheme, 'z) cr_scheme env \<Rightarrow>
   (('a WatcherCommon_scheme, 'z) cr_st, memcached flow) state" where
  "claim_memcached L E = do {
     i \<leftarrow> the_inst;
     got \<leftarrow> ensureMemcached L E (\<lambda>c. cond_set L (Some c)) (mark_true L) (Namespace i) (MemcachedInstance (Spec i));
     case got of
       Inl err \<Rightarrow> return (Ret Result0 (Some err))
     | Inr memcached \<Rightarrow>
         (case AddFinalizer L (GetFinalizer L (Kind i)) (MemcachedFinalizers memcached) of
            (fs, added) \<Rightarrow> do {
              let memcached = memcached\<lparr>MemcachedFinalizers := fs\<rparr>;
              if added then do {
                err \<leftarrow> perform (UpdateMemcached memcached) (OnUpdateMemcached E);
                case err of
                  Some e \<Rightarrow> do {
                    set_false L MemcachedReadyCondition ErrorReason SeverityWarning
                      (LibMessage ''MemcachedReadyErrorMessage'') [err_text e];
                    return (Ret Result0 (Some e))
                  }
                | None \<Rightarrow> return (Next memcached)
              } else return (Next memcached)
            })
   }"

definition release_memcached ::
  "lib \<Rightarrow> ('a WatcherCommon_scheme, 'z) cr_scheme env \<Rightarrow>
   (('a WatcherCommon_scheme, 'z) cr_st, unit flow) state" where
  "release_memcached L E = do {
     i \<leftarrow> the_inst;
     got \<leftarrow> perform (GetMemcachedByName (MemcachedInstance (Spec i)) (Namespace i)) (OnGetMemcached E);
     case got of
       Inl err \<Rightarrow> if \<not> IsNotFound L (Some err) then return (Ret Result0 None) else return (Next ())
     | Inr memcached \<Rightarrow>
         (case RemoveFinalizer L (GetFinalizer L (Kind i)) (MemcachedFinalizers memcached) of
            (fs, removed) \<Rightarrow>
              if removed then do {
                err \<leftarrow> perform (UpdateMemcached (memcached\<lparr>MemcachedFinalizers := fs\<rparr>)) (OnUpdateMemcached E);
                case err of Some e \<Rightarrow> return (Ret Result0 (Some e)) | None \<Rightarrow> return (Next ())
              } else return (Next ()))
   }"

section \<open>Configuration\<close>

text \<open>What the configuration is rendered from: the Keystone URL and the database.\<close>

definition config_sources ::
  "lib \<Rightarrow> ('spec, 'z) cr_scheme env \<Rightarrow> secret \<Rightarrow> (('spec, 'z) cr_st, error + string \<times> database) state" where
  "config_sources L E sec = do {
     i \<leftarrow> the_inst;
     keystoneAPI \<leftarrow> perform (GetKeystoneAPI (Namespace i)) (OnGetKeystoneAPI E);
     case keystoneAPI of
       Inl err \<Rightarrow> do {
         set_false L ServiceConfigReadyCondition ErrorReason SeverityWarning
           (LibMessage ''ServiceConfigReadyErrorMessage'') [''keystoneAPI not found''];
         return (Inl err)
       }
     | Inr api \<Rightarrow>
         (case GetEndpoint api EndpointInternal of
            Inl err \<Rightarrow> return (Inl err)
          | Inr keystoneInternalURL \<Rightarrow> do {
              got \<leftarrow> perform (GetDatabaseByNameAndAccount DatabaseCRName
                       (map_get (Data sec) DatabaseAccount) (Namespace i)) (OnGetDatabase E);
              case got of
                Inl err \<Rightarrow> return (Inl err)
              | Inr db \<Rightarrow> return (Inr (keystoneInternalURL, db))
            })
   }"

definition service_customData ::
  "('a WatcherSecretSpec_scheme, 'z) cr_scheme \<Rightarrow> secret \<Rightarrow> database \<Rightarrow> string \<Rightarrow> string_map" where
  "service_customData i sec db caBundle =
     [GlobalCustomConfigFileName \<mapsto> map_get (Data sec) GlobalCustomConfigFileName,
      ServiceCustomConfigFileName \<mapsto> CustomServiceConfig (Spec i),
      ''my.cnf'' \<mapsto> ClientConfig db (caBundle \<noteq> [])]"

definition database_connection :: "string \<Rightarrow> string \<Rightarrow> string \<Rightarrow> string" where
  "database_connection user password host =
     ''mysql+pymysql://'' @ user @ '':'' @ password @ ''@'' @ host @ ''/'' @ DatabaseName @
     ''?read_default_file=/etc/my.cnf''"

definition service_parameters ::
  "lib \<Rightarrow> ('a WatcherSecretSpec_scheme, 'z) cr_scheme \<Rightarrow> secret \<Rightarrow> memcached \<Rightarrow> string \<Rightarrow> string \<Rightarrow>
   (string \<times> param) list" where
  "service_parameters L i sec memcached keystoneInternalURL caBundle =
     [(''DatabaseConnection'', PStr (database_connection (map_get (Data sec) DatabaseUsername)
         (map_get (Data sec) DatabasePassword) (map_get (Data sec) DatabaseHostnameKey))),
      (''KeystoneAuthURL'', PStr keystoneInternalURL),
      (''ServicePassword'', PStr (map_get (Data sec) (ServiceSelector (PasswordSelectors (Spec i))))),
      (''ServiceUser'', PStr (ServiceUser (Spec i))),
      (''TransportURL'', PStr (map_get (Data sec) TransportURLSelector)),
      (''MemcachedServers'', PStr (ServerListString memcached)),
      (''MemcachedServersWithInet'', PStr (ServerListWithInetString memcached)),
      (''MemcachedTLS'', PBool (MemcachedTLSSupport memcached)),
      (''APIPublicPort'', PStr (itoa WatcherPublicPort)),
      (''CaFilePath'', PStr (if caBundle \<noteq> [] then DownstreamTLSCABundlePath L else []))]"

definition prometheus_parameters :: "secret \<Rightarrow> (string \<times> param) list" where
  "prometheus_parameters sec =
     [(''PrometheusHost'', PStr (map_get (Data sec) PrometheusHost)),
      (''PrometheusPort'', PStr (map_get (Data sec) PrometheusPort)),
      (''PrometheusCaCertPath'', PStr (prometheus_ca_path sec))]"

definition input_hash ::
  "lib \<Rightarrow> env_vars \<Rightarrow> (('spec, 'z) cr_st, string \<times> bool \<times> error option) state" where
  "input_hash L envVars = do {
     i \<leftarrow> the_inst;
     case HashEnvs L (MergeEnvs L [] envVars) of
       (hash, Some err) \<Rightarrow> return (hash, False, Some err)
     | (hash, None) \<Rightarrow>
         (case SetHash L (hash_map (Hash i)) (InputHashName L) hash of
            (hashMap, changed) \<Rightarrow> do {
              (if changed then modify_inst (\<lambda>i. i\<lparr>Hash := Some hashMap\<rparr>) else return ());
              return (hash, changed, None)
            })
   }"

text \<open>
  The step of \<open>Reconcile\<close> that uses it. When the hash cannot be computed the code formats \<open>err\<close>,
  which is nil at that point, and not \<open>errorHash\<close>: that is a nil pointer dereference.
\<close>

definition settle_input_hash ::
  "lib \<Rightarrow> (('spec, 'z) cr_st, string \<times> bool \<times> error option) state \<Rightarrow> (('spec, 'z) cr_st, string flow) state" where
  "settle_input_hash L createHashOfInputHashes = do {
     (inputHash, hashChanged, errorHash) \<leftarrow> createHashOfInputHashes;
     if errorHash \<noteq> None then call_go (return (deref None)) (\<lambda>e. do {
         set_false L ServiceConfigReadyCondition ErrorReason SeverityWarning
           (LibMessage ''ServiceConfigReadyErrorMessage'') [err_text e];
         return (Ret Result0 None)
       })
     else if hashChanged then return (Ret Result0 None)
     else do {
       mark_true L ServiceConfigReadyCondition (LibMessage ''ServiceConfigReadyMessage'');
       return (Next inputHash)
     }
   }"

section \<open>Deployment\<close>

definition observe_statefulset ::
  "lib \<Rightarrow> statefulset_status \<Rightarrow>
   (('a WatcherSubCrsCommon_scheme, 'z) sub_cr_scheme st, (result \<times> error option) go) state" where
  "observe_statefulset L ss = do {
     (if SSGeneration ss = SSObservedGeneration ss
      then modify_inst (\<lambda>i. i\<lparr>ReadyCount := ReadyReplicas ss\<rparr>) else return ());
     i \<leftarrow> the_inst;
     case deref (Replicas (Spec i)) of
       Panic p \<Rightarrow> return (Panic p)
     | Val replicas \<Rightarrow>
         if ReadyCount i = replicas \<and> SSGeneration ss = SSObservedGeneration ss then do {
           mark_true L DeploymentReadyCondition (LibMessage ''DeploymentReadyMessage'');
           return (Val (Result0, None))
         } else do {
           set_false L DeploymentReadyCondition RequestedReason SeverityInfo
             (LibMessage ''DeploymentReadyRunningMessage'') [];
           return (Val (Result0, None))
         }
   }"

text \<open>Applier and decision engine: a \<open>NotFound\<close> error counts as a deployment in progress.\<close>

definition apply_statefulset ::
  "lib \<Rightarrow> ('a WatcherSubCrsCommon_scheme, 'z) sub_cr_scheme env \<Rightarrow> statefulset \<Rightarrow>
   (('a WatcherSubCrsCommon_scheme, 'z) sub_cr_scheme st, (result \<times> error option) go) state" where
  "apply_statefulset L E ssDef = do {
     (ctrlResult, err, ss) \<leftarrow> perform (ApplyStatefulSet ssDef) (OnApplyStatefulSet E);
     if err \<noteq> None \<and> \<not> IsNotFound L err then do {
       set_false L DeploymentReadyCondition ErrorReason SeverityWarning
         (LibMessage ''DeploymentReadyErrorMessage'') [err_text (the err)];
       return (Val (ctrlResult, err))
     } else if ctrlResult \<noteq> Result0 \<or> IsNotFound L err then do {
       set_false L DeploymentReadyCondition RequestedReason SeverityInfo
         (LibMessage ''DeploymentReadyRunningMessage'') [];
       return (Val (ctrlResult, None))
     } else observe_statefulset L ss
   }"

definition finish_reconcile :: "lib \<Rightarrow> (('spec, 'z) cr_st, unit flow) state" where
  "finish_reconcile L = do {
     i \<leftarrow> the_inst;
     (if CAllSubTrue L (Conditions i)
      then mark_true L ReadyCondition (LibMessage ''ReadyMessage'') else return ());
     return (Ret Result0 None)
   }"

lemmas service_blocks = service_secret_def prometheus_secret_def claim_memcached_def release_memcached_def
  config_sources_def input_hash_def settle_input_hash_def observe_statefulset_def apply_statefulset_def
  finish_reconcile_def ensureSecret_def ensureMemcached_def GenerateConfigsGeneric_def

section \<open>Frames of the blocks\<close>

lemma identity_ready_count [simp]:
  "identity (i\<lparr>ReadyCount := n\<rparr>) = identity (i :: ('spec, 'z) sub_cr_scheme)"
  by (simp add: identity_def)

lemma cstate_ready_count [simp]:
  "cstate t (i\<lparr>ReadyCount := n\<rparr>) = cstate t (i :: ('spec, 'z) sub_cr_scheme)"
  by (simp add: cstate_def)

lemma blocks_identity:
  "state_io_rel (keeps identity) (service_secret L E)"
  "state_io_rel (keeps identity) (prometheus_secret L E vars)"
  "state_io_rel (keeps identity) (claim_memcached L E)"
  "state_io_rel (keeps identity) (release_memcached L E)"
  "state_io_rel (keeps identity) (config_sources L E sec)"
  "state_io_rel (keeps identity) (input_hash L vars)"
  "state_io_rel (keeps identity) (settle_input_hash L (input_hash L vars))"
  "state_io_rel (keeps identity) (apply_statefulset L E ssd)"
  "state_io_rel (keeps identity) (observe_statefulset L st)"
  "state_io_rel (keeps identity) (finish_reconcile L)"
  "state_io_rel (keeps identity) (drop_own_finalizer L)"
  "state_io_rel (keeps identity) (GenerateConfigsGeneric E i vars params custom labels scripts)"
  unfolding service_blocks by (intro keep_rules identity_ops drop_own_finalizer_rules; simp)+

lemma blocks_calls:
  assumes "\<And>n. P (GetSecret n)" "\<And>m n. P (GetMemcachedByName m n)" "\<And>m. P (UpdateMemcached m)"
    "\<And>n. P (GetKeystoneAPI n)" "\<And>d a n. P (GetDatabaseByNameAndAccount d a n)"
    "\<And>cms. P (EnsureSecrets cms)"
  shows "state_io_rel (extends P) (service_secret L E)"
    "state_io_rel (extends P) (prometheus_secret L E vars)"
    "state_io_rel (extends P) (claim_memcached L E)"
    "state_io_rel (extends P) (release_memcached L E)"
    "state_io_rel (extends P) (config_sources L E sec)"
    "state_io_rel (extends P) (input_hash L vars)"
    "state_io_rel (extends P) (settle_input_hash L (input_hash L vars))"
    "state_io_rel (extends P) (finish_reconcile L)"
    "state_io_rel (extends P) (GenerateConfigsGeneric E i vars params custom labels scripts)"
  unfolding service_blocks by (intro ext_rules assms; simp)+

lemma blocks_calls_deploy:
  "P (ApplyStatefulSet ssd) \<Longrightarrow> state_io_rel (extends P) (apply_statefulset L E ssd)"
  "state_io_rel (extends P) (observe_statefulset L st)"
  unfolding service_blocks by (intro ext_rules; simp)+

lemma blocks_Hash:
  "state_io_rel (keeps Hash) (service_secret L E)"
  "state_io_rel (keeps Hash) (prometheus_secret L E vars)"
  "state_io_rel (keeps Hash) (claim_memcached L E)"
  "state_io_rel (keeps Hash) (config_sources L E sec)"
  "state_io_rel (keeps Hash) (mark_true L t m)"
  "state_io_rel (keeps Hash) (set_false L t rs sv m args)"
  "state_io_rel (keeps Hash) (GenerateConfigsGeneric E i vars params custom labels scripts)"
  unfolding service_blocks cond_set_def mark_true_def set_false_def by (intro keep_rules; simp)+

lemma generate_frames:
  "state_io_rel (keeps (cstate u)) (GenerateConfigsGeneric E i vars params custom labels scripts)"
  "state_io_rel (conds L) (GenerateConfigsGeneric E i vars params custom labels scripts)"
  unfolding GenerateConfigsGeneric_def by (intro keep_rules, intro cond_rules)

lemma blocks_cstate:
  assumes "cond_laws L"
  shows "u \<noteq> InputReadyCondition \<Longrightarrow> state_io_rel (keeps (cstate u)) (service_secret L E)"
    "u \<noteq> InputReadyCondition \<Longrightarrow> state_io_rel (keeps (cstate u)) (prometheus_secret L E vars)"
    "u \<noteq> MemcachedReadyCondition \<Longrightarrow> state_io_rel (keeps (cstate u)) (claim_memcached L E)"
    "state_io_rel (keeps (cstate u)) (release_memcached L E)"
    "u \<noteq> ServiceConfigReadyCondition \<Longrightarrow> state_io_rel (keeps (cstate u)) (config_sources L E sec)"
    "state_io_rel (keeps (cstate u)) (input_hash L vars)"
    "u \<noteq> ServiceConfigReadyCondition \<Longrightarrow>
       state_io_rel (keeps (cstate u)) (settle_input_hash L (input_hash L vars))"
    "u \<noteq> DeploymentReadyCondition \<Longrightarrow> state_io_rel (keeps (cstate u)) (apply_statefulset L E ssd)"
    "u \<noteq> DeploymentReadyCondition \<Longrightarrow> state_io_rel (keeps (cstate u)) (observe_statefulset L st)"
    "u \<noteq> ReadyCondition \<Longrightarrow> state_io_rel (keeps (cstate u)) (finish_reconcile L)"
    "state_io_rel (keeps (cstate u)) (drop_own_finalizer L)"
  unfolding service_blocks
  by (intro cstate_rules drop_own_finalizer_rules assms; simp add: cond_lawsD [OF assms])+

lemma blocks_conds:
  "state_io_rel (conds L) (service_secret L E)"
  "state_io_rel (conds L) (prometheus_secret L E vars)"
  "state_io_rel (conds L) (claim_memcached L E)"
  "state_io_rel (conds L) (release_memcached L E)"
  "state_io_rel (conds L) (config_sources L E sec)"
  "state_io_rel (conds L) (settle_input_hash L (input_hash L vars))"
  "state_io_rel (conds L) (apply_statefulset L E ssd)"
  "state_io_rel (conds L) (observe_statefulset L st)"
  "state_io_rel (conds L) (finish_reconcile L)"
  "state_io_rel (conds L) (drop_own_finalizer L)"
  unfolding service_blocks by (intro cond_rules drop_own_finalizer_rules; simp)+

section \<open>What a Ready service stands for\<close>

text \<open>
  The StatefulSet was applied; its controller has seen this generation, and all the replicas the
  spec asks for are ready.
\<close>

definition deployed ::
  "('spec, 'z) cr_scheme env \<Rightarrow> ('spec, 'z) cr_st \<Rightarrow> ('spec, 'z) cr_st \<Rightarrow> statefulset \<Rightarrow> int option \<Rightarrow> bool" where
  "deployed E s t ss replicas \<longleftrightarrow>
     (\<exists>st. answered_since s t (ApplyStatefulSet ss) (OnApplyStatefulSet E) (Result0, None, st) \<and>
        SSGeneration st = SSObservedGeneration st \<and> replicas = Some (ReadyReplicas st))"

lemma deployed_later: "deployed E s t ss n \<Longrightarrow> extends P t u \<Longrightarrow> deployed E s u ss n"
  unfolding deployed_def by (blast intro: answered_since_later)

lemma deployed_earlier: "extends P s0 s \<Longrightarrow> deployed E s t ss n \<Longrightarrow> deployed E s0 t ss n"
  unfolding deployed_def by (blast intro: answered_since_earlier)

text \<open>
  The configuration of \<open>i\<close> was rendered and stored: the Keystone API with its internal URL and the
  database that the secret \<open>sec\<close> names were read, and the secrets \<open>cms\<close> makes from them were written
  without an error; \<open>added\<close> holds the hashes this returned.
\<close>

definition config_written ::
  "('spec, 'z) cr_scheme env \<Rightarrow> ('spec, 'z) cr_st \<Rightarrow> ('spec, 'z) cr_st \<Rightarrow> ('spec, 'z) cr_scheme \<Rightarrow> secret \<Rightarrow>
   (string \<Rightarrow> database \<Rightarrow> template list) \<Rightarrow> env_vars \<Rightarrow> bool" where
  "config_written E s t i sec cms added \<longleftrightarrow>
     (\<exists>api url db.
        answered_since s t (GetKeystoneAPI (Namespace i)) (OnGetKeystoneAPI E) (Inr api) \<and>
        GetEndpoint api EndpointInternal = Inr url \<and>
        answered_since s t (GetDatabaseByNameAndAccount DatabaseCRName
          (map_get (Data sec) DatabaseAccount) (Namespace i)) (OnGetDatabase E) (Inr db) \<and>
        answered_since s t (EnsureSecrets (cms url db)) (OnEnsureSecrets E) (added, None))"

lemma config_written_later:
  "config_written E s t i sec cms added \<Longrightarrow> extends P t u \<Longrightarrow> config_written E s u i sec cms added"
  unfolding config_written_def by (blast intro: answered_since_later)

lemma config_written_earlier:
  "extends P s0 s \<Longrightarrow> config_written E s t i sec cms added \<Longrightarrow> config_written E s0 t i sec cms added"
  unfolding config_written_def by (blast intro: answered_since_earlier)

text \<open>The memcached instance was read ready; \<open>mc\<close> is it, up to the finalizers.\<close>

definition memcached_read :: "'i env \<Rightarrow> 'i st \<Rightarrow> 'i st \<Rightarrow> string \<Rightarrow> string \<Rightarrow> memcached \<Rightarrow> bool" where
  "memcached_read E s t name ns mc \<longleftrightarrow>
     (\<exists>mc' fs. answered_since s t (GetMemcachedByName name ns) (OnGetMemcached E) (Inr mc') \<and>
        MemcachedReady mc' \<and> mc = mc'\<lparr>MemcachedFinalizers := fs\<rparr>)"

lemma memcached_read_later: "memcached_read E s t n ns mc \<Longrightarrow> extends P t u \<Longrightarrow> memcached_read E s u n ns mc"
  unfolding memcached_read_def by (blast intro: answered_since_later)

lemma memcached_read_earlier: "extends P s0 s \<Longrightarrow> memcached_read E s t n ns mc \<Longrightarrow> memcached_read E s0 t n ns mc"
  unfolding memcached_read_def by (blast intro: answered_since_earlier)

text \<open>
  The configuration a service runs with: rendered in this run from what was read in it, and \<open>h\<close> is the
  hash of variables among which are the hashes of the secrets it was stored in.
\<close>

definition config_rendered ::
  "lib \<Rightarrow> ('a WatcherCommon_scheme, 'z) cr_scheme env \<Rightarrow> ('a WatcherCommon_scheme, 'z) cr_st \<Rightarrow>
   ('a WatcherCommon_scheme, 'z) cr_st \<Rightarrow> ('a WatcherCommon_scheme, 'z) cr_scheme \<Rightarrow> secret \<Rightarrow>
   (memcached \<Rightarrow> string \<Rightarrow> database \<Rightarrow> template list) \<Rightarrow> string \<Rightarrow> bool" where
  "config_rendered L E s t i sec cms h \<longleftrightarrow>
     (\<exists>mc added vars. memcached_read E s t (MemcachedInstance (Spec i)) (Namespace i) mc \<and>
        config_written E s t i sec (cms mc) added \<and>
        set added \<subseteq> set vars \<and> HashEnvs L (MergeEnvs L [] vars) = (h, None))"

lemma config_rendered_later:
  "config_rendered L E s t i sec cms h \<Longrightarrow> extends P t u \<Longrightarrow> config_rendered L E s u i sec cms h"
  unfolding config_rendered_def by (blast intro: config_written_later memcached_read_later)

lemma config_rendered_earlier:
  "extends P s0 s \<Longrightarrow> config_rendered L E s t i sec cms h \<Longrightarrow> config_rendered L E s0 t i sec cms h"
  unfolding config_rendered_def by (blast intro: config_written_earlier memcached_read_earlier)

text \<open>The end of a service's reconcile, where \<open>Ready\<close> may become True.\<close>

lemma finish_Ready:
  assumes "cond_laws L"
    and "run_state (finish_reconcile L) s = (r, t)"
    and "cstate ReadyCondition (inst s) \<noteq> Some CTrue" and "cstate ReadyCondition (inst t) = Some CTrue"
  shows "trace t = trace s"
    and "u \<noteq> ReadyCondition \<Longrightarrow> cstate u (inst t) = cstate u (inst s)"
    and "u \<noteq> ReadyCondition \<Longrightarrow> cstate u (inst s) \<in> {None, Some CTrue}"
proof -
  have all: "CAllSubTrue L (Conditions (inst s))"
  proof (rule ccontr)
    assume "\<not> CAllSubTrue L (Conditions (inst s))"
    with assms(2-4) show False by (auto simp: finish_reconcile_def)
  qed
  with assms(2) show "trace t = trace s" by (auto simp: finish_reconcile_def)
  show "u \<noteq> ReadyCondition \<Longrightarrow> cstate u (inst t) = cstate u (inst s)"
    using all assms(2) by (auto simp: finish_reconcile_def cond_lawsD [OF assms(1)] cstate_def)
  show "u \<noteq> ReadyCondition \<Longrightarrow> cstate u (inst s) \<in> {None, Some CTrue}"
    using all_sub_status [OF assms(1) all] by (simp add: cstate_def)
qed

section \<open>What the reconcile may deploy, and what a deletion must do first\<close>

definition no_deploy :: "'i call \<Rightarrow> bool" where
  "no_deploy c \<longleftrightarrow> (\<forall>ss. c \<noteq> ApplyStatefulSet ss)"

text \<open>Only StatefulSets that are \<open>built\<close> from the hash the resource records.\<close>

definition deploys_only :: "lib \<Rightarrow> ('spec, 'z) cr_scheme \<Rightarrow> (string \<Rightarrow> statefulset \<Rightarrow> bool) \<Rightarrow>
   ('spec, 'z) cr_scheme call \<Rightarrow> bool" where
  "deploys_only L i built c \<longleftrightarrow>
     (\<forall>ss. c = ApplyStatefulSet ss \<longrightarrow> (\<exists>h. hash_map (Hash i) (InputHashName L) = Some h \<and> built h ss))"

text \<open>
  The memcached instance no longer carries our finalizer: it is gone, it was read without it, or an
  update that takes it off was accepted.
\<close>

definition memcached_released ::
  "lib \<Rightarrow> 'i env \<Rightarrow> 'i st \<Rightarrow> 'i st \<Rightarrow> string \<Rightarrow> string \<Rightarrow> string \<Rightarrow> bool" where
  "memcached_released L E s t name ns key \<longleftrightarrow>
     (\<exists>err. answered_since s t (GetMemcachedByName name ns) (OnGetMemcached E) (Inl err) \<and>
        IsNotFound L (Some err)) \<or>
     (\<exists>mc. answered_since s t (GetMemcachedByName name ns) (OnGetMemcached E) (Inr mc) \<and>
        (key \<notin> set (MemcachedFinalizers mc) \<or>
         (\<exists>mc'. key \<notin> set (MemcachedFinalizers mc') \<and>
            answered_since s t (UpdateMemcached mc') (OnUpdateMemcached E) None)))"

lemma memcached_released_later:
  "memcached_released L E s t name ns key \<Longrightarrow> extends P t u \<Longrightarrow> memcached_released L E s u name ns key"
  unfolding memcached_released_def by (blast intro: answered_since_later)

lemma memcached_released_earlier:
  "extends P s0 s \<Longrightarrow> memcached_released L E s t name ns key \<Longrightarrow> memcached_released L E s0 t name ns key"
  unfolding memcached_released_def by (blast intro: answered_since_earlier)

lemma no_deploy_deploys_only: "extends no_deploy s t \<Longrightarrow> extends (deploys_only L i built) s t"
  unfolding extends_def no_deploy_def deploys_only_def by blast

text \<open>One block after another: a property of the calls that each run of a block has.\<close>

lemma extends_continue:
  assumes "\<And>x u. run_state m s = (x, u) \<Longrightarrow> extends P s u"
    and "\<And>x u. run_state m s = (Next x, u) \<Longrightarrow> extends P u (snd (run_state (f x) u))"
  shows "extends P s (snd (run_state (continue m f) s))"
proof -
  obtain r u where r: "run_state m s = (r, u)" by fastforce
  then show ?thesis
    using assms(1) [OF r] assms(2)
    by (cases r) (auto simp: run_continue intro: extends_trans)
qed

lemma no_deploy_run:
  "state_io_rel (extends no_deploy) m \<Longrightarrow> run_state m s = (x, u) \<Longrightarrow> extends (deploys_only L i built) s u"
  by (rule no_deploy_deploys_only) (rule state_io_relD)

lemma no_deploy_run_snd:
  "state_io_rel (extends no_deploy) m \<Longrightarrow> extends (deploys_only L i built) s (snd (run_state m s))"
  by (rule no_deploy_deploys_only) (rule ext.relD)

section \<open>What a block that goes on has achieved\<close>

lemma service_secret_Next:
  assumes "cond_laws L" and "RequeueTimeout E \<noteq> 0"
    and "run_state (service_secret L E) s = (Next (sec, vars), t)"
  obtains h where "secret_read L E s t \<lparr>NName = Secret (Spec (inst s)), NNamespace = Namespace (inst s)\<rparr>
      (service_expected_fields (inst s)) h sec"
    and "vars = [(Secret (Spec (inst s)), SetValue h)]" and "inst t = inst s"
proof -
  let ?n = "\<lparr>NName = Secret (Spec (inst s)), NNamespace = Namespace (inst s)\<rparr>"
  obtain h res sec' err t1 where r: "run_state (ensureSecret L E (\<lambda>c. cond_set L (Some c)) ?n
      (service_expected_fields (inst s))) s = ((h, res, sec', err), t1)"
    by (metis prod_cases4 surj_pair)
  with assms(3) have ok: "err = None" "res = Result0" "sec' = sec"
      "vars = [(Secret (Spec (inst s)), SetValue h)]" "t = t1"
    by (auto simp: service_secret_def split: if_splits)
  note e = ensureSecret_read [OF assms(1) r [unfolded ok(1)]]
  from e ok assms(2) that show ?thesis by simp
qed

lemma prometheus_secret_Next:
  assumes "cond_laws L" and "run_state (prometheus_secret L E vars) s = (Next (sec, vars'), t)"
  obtains h where "secret_read L E s t \<lparr>NName = PrometheusSecret (Spec (inst s)), NNamespace = Namespace (inst s)\<rparr>
      [PrometheusHost, PrometheusPort] h sec"
    and "vars' = (PrometheusSecret (Spec (inst s)), SetValue h) # vars" and "inst t = inst s"
proof -
  let ?n = "\<lparr>NName = PrometheusSecret (Spec (inst s)), NNamespace = Namespace (inst s)\<rparr>"
  obtain h res sec' err t1 where r: "run_state (ensureSecret L E (\<lambda>c. cond_set L (Some c)) ?n
      [PrometheusHost, PrometheusPort]) s = ((h, res, sec', err), t1)"
    by (metis prod_cases4 surj_pair)
  with assms(2) have ok: "err = None" "h \<noteq> []" "sec' = sec"
      "vars' = (PrometheusSecret (Spec (inst s)), SetValue h) # vars" "t = t1"
    by (auto simp: prometheus_secret_def split: if_splits)
  note e = ensureSecret_read [OF assms(1) r [unfolded ok(1)]]
  from e ok that show ?thesis by simp
qed

lemma claim_memcached_Next:
  assumes "cond_laws L" and "finalizer_laws L" and "run_state (claim_memcached L E) s = (Next mc, t)"
  shows "memcached_claimed E s t (MemcachedInstance (Spec (inst s))) (Namespace (inst s))
      (GetFinalizer L (Kind (inst s)))"
    and "memcached_read E s t (MemcachedInstance (Spec (inst s))) (Namespace (inst s)) mc"
proof -
  let ?key = "GetFinalizer L (Kind (inst s))"
  let ?n = "MemcachedInstance (Spec (inst s))" and ?ns = "Namespace (inst s)"
  obtain r s1 where r: "run_state (ensureMemcached L E (\<lambda>c. cond_set L (Some c)) (mark_true L) ?ns ?n) s = (r, s1)"
    by fastforce
  note c = inst_upd.ensureMemcached_cases [OF assms(1,1) r]
  obtain mc0 where mc0: "r = Inr mc0" using r assms(3)
    by (cases r) (auto simp: claim_memcached_def)
  with c(3) have ready: "MemcachedReady mc0"
    and got: "OnGetMemcached E (trace s @ [GetMemcachedByName ?n ?ns]) = Inr mc0" by auto
  have s1: "answered_since s s1 (GetMemcachedByName ?n ?ns) (OnGetMemcached E) (Inr mc0)"
    using c(1) got by (auto intro: answered_since_perform [OF extends_refl])
  have ext1: "extends no_patch s s1" using c(1) by (simp add: extends_def no_patch_def)
  obtain fs added where af: "AddFinalizer L ?key (MemcachedFinalizers mc0) = (fs, added)" by fastforce
  with assms(2) have key: "?key \<in> set fs" and old: "\<not> added \<Longrightarrow> ?key \<in> set (MemcachedFinalizers mc0)"
    unfolding finalizer_laws_def by (metis fst_conv in_set_conv_decomp, metis snd_conv)
  have mc: "mc = mc0\<lparr>MemcachedFinalizers := fs\<rparr>"
    using assms(3) r mc0 af by (auto simp: claim_memcached_def Let_def split: option.splits if_splits)
  let ?u = "UpdateMemcached (mc0\<lparr>MemcachedFinalizers := fs\<rparr>)"
  have t: "if added then t = s1\<lparr>trace := trace s1 @ [?u]\<rparr> \<and> OnUpdateMemcached E (trace s1 @ [?u]) = None
      else trace t = trace s1"
    using assms(3) r mc0 af by (auto simp: claim_memcached_def Let_def split: option.splits if_splits)
  then have later: "extends (\<lambda>_. True) s1 t" by (auto simp: extends_def split: if_splits)
  note got_t = answered_since_later [OF s1 later]
  with ready mc show "memcached_read E s t ?n ?ns mc" unfolding memcached_read_def by blast
  have "answered_since s t ?u (OnUpdateMemcached E) None" if added
    using answered_since_perform [OF ext1, of t ?u "OnUpdateMemcached E" None] t that by simp
  moreover have "?key \<in> set (MemcachedFinalizers (mc0\<lparr>MemcachedFinalizers := fs\<rparr>))" using key by simp
  ultimately show "memcached_claimed E s t ?n ?ns ?key"
    using got_t ready old unfolding memcached_claimed_def by blast
qed

lemma release_memcached_Next:
  assumes "finalizer_laws L" and run: "run_state (release_memcached L E) s = (Next x, t)"
  shows "memcached_released L E s t (MemcachedInstance (Spec (inst s))) (Namespace (inst s))
      (GetFinalizer L (Kind (inst s)))"
proof -
  let ?key = "GetFinalizer L (Kind (inst s))"
  let ?get = "GetMemcachedByName (MemcachedInstance (Spec (inst s))) (Namespace (inst s))"
  let ?s1 = "s\<lparr>trace := trace s @ [?get]\<rparr>"
  have got: "answered_since s ?s1 ?get (OnGetMemcached E) (OnGetMemcached E (trace s @ [?get]))"
    by (rule answered_since_perform [OF extends_refl]) simp_all
  show ?thesis
  proof (cases "OnGetMemcached E (trace s @ [?get])")
    case (Inl e)
    with run have "IsNotFound L (Some e)" and "t = ?s1"
      by (auto simp: release_memcached_def split: if_splits)
    with got Inl show ?thesis unfolding memcached_released_def by metis
  next
    case (Inr mc)
    obtain fs removed where rf: "RemoveFinalizer L ?key (MemcachedFinalizers mc) = (fs, removed)" by fastforce
    with assms(1) have fs: "?key \<notin> set fs" "removed \<longleftrightarrow> ?key \<in> set (MemcachedFinalizers mc)"
      unfolding finalizer_laws_def by (metis (mono_tags, lifting) fst_conv mem_Collect_eq set_filter,
        metis snd_conv)
    show ?thesis
    proof (cases removed)
      case False
      with run Inr rf have "t = ?s1" by (auto simp: release_memcached_def)
      with got Inr fs False show ?thesis unfolding memcached_released_def by metis
    next
      case True
      let ?up = "UpdateMemcached (mc\<lparr>MemcachedFinalizers := fs\<rparr>)"
      from True run Inr rf have up: "OnUpdateMemcached E (trace s @ [?get] @ [?up]) = None"
        and t: "trace t = trace s @ [?get, ?up]"
        by (auto simp: release_memcached_def split: option.splits)
      have "answered_since s t ?up (OnUpdateMemcached E) None"
        by (rule answered_since_perform [of "\<lambda>_. True" s ?s1]) (use up t in \<open>simp_all add: extends_def\<close>)
      moreover have "answered_since s t ?get (OnGetMemcached E) (Inr mc)"
        by (rule answered_since_later [of _ ?s1 _ _ _ "\<lambda>_. True"]) (use got Inr t in \<open>simp_all add: extends_def\<close>)
      moreover have "?key \<notin> set (MemcachedFinalizers (mc\<lparr>MemcachedFinalizers := fs\<rparr>))" using fs by simp
      ultimately show ?thesis unfolding memcached_released_def by blast
    qed
  qed
qed

text \<open>The two calls of a service's \<open>generateServiceConfigs\<close>.\<close>

lemma config_sources_Inr:
  assumes "run_state (config_sources L E sec) s = (Inr (url, db), t)"
  obtains api where "answered_since s t (GetKeystoneAPI (Namespace (inst s))) (OnGetKeystoneAPI E) (Inr api)"
    and "GetEndpoint api EndpointInternal = Inr url" and "inst t = inst s"
    and "answered_since s t (GetDatabaseByNameAndAccount DatabaseCRName (map_get (Data sec) DatabaseAccount)
      (Namespace (inst s))) (OnGetDatabase E) (Inr db)"
proof -
  let ?k = "GetKeystoneAPI (Namespace (inst s))"
    and ?d = "GetDatabaseByNameAndAccount DatabaseCRName (map_get (Data sec) DatabaseAccount) (Namespace (inst s))"
  from assms obtain api where api: "OnGetKeystoneAPI E (trace s @ [] @ [?k]) = Inr api"
      "GetEndpoint api EndpointInternal = Inr url" "OnGetDatabase E (trace s @ [?k] @ [?d]) = Inr db"
      and t: "trace t = trace s @ [?k] @ ?d # []" and i: "inst t = inst s"
    by (auto simp: config_sources_def split: sum.splits)
  have t': "trace t = trace s @ [] @ ?k # [?d]" by (simp add: t)
  have "answered_since s t ?k (OnGetKeystoneAPI E) (Inr api)" and "answered_since s t ?d (OnGetDatabase E) (Inr db)"
    by (rule answered_sinceI [OF t'], rule api) (rule answered_sinceI [OF t], rule api)
  with api(2) i show ?thesis by (intro that)
qed

lemma generate_service_configs:
  assumes run: "(case run_state (config_sources L E sec) s of (sources, u) \<Rightarrow>
      run_state (case sources of
          Inl err \<Rightarrow> return (vars, Some err)
        | Inr (url, db) \<Rightarrow> GenerateConfigsGeneric E (inst s) vars (params url) (custom db) labels scripts) u) =
    ((vars', None), t)"
  obtains added where "vars' = added @ vars" and "inst t = inst s"
    and "config_written E s t (inst s) sec
      (\<lambda>url db. config_templates (inst s) (params url) (custom db) labels scripts) added"
proof -
  from run obtain url db s1 where 1: "run_state (config_sources L E sec) s = (Inr (url, db), s1)"
      and 2: "run_state (GenerateConfigsGeneric E (inst s) vars (params url) (custom db) labels scripts) s1 =
        ((vars', None), t)"
    by (auto split: prod.splits sum.splits)
  obtain added where g: "vars' = added @ vars" "inst t = inst s1"
      "answered_since s1 t (EnsureSecrets (config_templates (inst s) (params url) (custom db) labels scripts))
        (OnEnsureSecrets E) (added, None)"
    by (rule generate_ok [OF 2])
  obtain api where a: "answered_since s s1 (GetKeystoneAPI (Namespace (inst s))) (OnGetKeystoneAPI E) (Inr api)"
      "GetEndpoint api EndpointInternal = Inr url" "inst s1 = inst s"
      "answered_since s s1 (GetDatabaseByNameAndAccount DatabaseCRName (map_get (Data sec) DatabaseAccount)
        (Namespace (inst s))) (OnGetDatabase E) (Inr db)"
    by (rule config_sources_Inr [OF 1])
  have "state_io_rel (extends (\<lambda>_. True)) (config_sources L E sec)"
    unfolding config_sources_def by (intro ext_rules; simp)
  note e1 = state_io_relD [OF this 1]
  have "state_io_rel (extends (\<lambda>_. True))
      (GenerateConfigsGeneric E (inst s) vars (params url) (custom db) labels scripts)"
    unfolding GenerateConfigsGeneric_def by (intro ext_rules; simp)
  note e2 = state_io_relD [OF this 2]
  have "config_written E s t (inst s) sec
      (\<lambda>url db. config_templates (inst s) (params url) (custom db) labels scripts) added"
    unfolding config_written_def
    using answered_since_later [OF a(1) e2] a(2) answered_since_later [OF a(4) e2] answered_since_earlier [OF e1 g(3)]
    by blast
  with g a show ?thesis by (intro that) simp_all
qed

text \<open>A hash that is settled without change is the one recorded, and is the hash of the variables.\<close>

lemma settle_input_hash_Next:
  assumes "hash_laws L" and "run_state (settle_input_hash L (input_hash L vars)) s = (Next h, t)"
  shows "hash_map (Hash (inst s)) (InputHashName L) = Some h"
    and "HashEnvs L (MergeEnvs L [] vars) = (h, None)"
  using assms(2) set_hash [OF assms(1), of "MergeEnvs L [] vars"]
  by (auto simp: settle_input_hash_def input_hash_def split: prod.splits option.splits if_splits)

lemma observe_statefulset_ready:
  assumes "cond_laws L" and "run_state (observe_statefulset L st) s = (Val (res, err), t)"
    and "cstate DeploymentReadyCondition (inst t) \<noteq> Some CFalse"
  shows "SSGeneration st = SSObservedGeneration st \<and> Replicas (Spec (inst s)) = Some (ReadyReplicas st) \<and>
    ReadyCount (inst t) = ReadyReplicas st \<and> trace t = trace s"
  using assms(2,3)
  by (auto simp: observe_statefulset_def cstate_def cond_lawsD [OF assms(1)]
      split: option.splits if_splits go.splits)

lemma apply_statefulset_ready:
  assumes "cond_laws L" and "notfound_law L"
    and run: "run_state (apply_statefulset L E ssd) s = (Val (res, err), t)"
    and "cstate DeploymentReadyCondition (inst t) \<noteq> Some CFalse"
  shows "deployed E s t ssd (Replicas (Spec (inst s)))"
proof -
  let ?c = "ApplyStatefulSet ssd" and ?s1 = "s\<lparr>trace := trace s @ [ApplyStatefulSet ssd]\<rparr>"
  obtain res' err' st where a: "OnApplyStatefulSet E (trace s @ [?c]) = (res', err', st)" by (metis surj_pair)
  have "err' = None" "res' = Result0" and o: "run_state (observe_statefulset L st) ?s1 = (Val (res, err), t)"
    using assms(2-4) a
    by (auto simp: apply_statefulset_def notfound_law_def cstate_def cond_lawsD [OF assms(1)] split: if_splits)
  moreover note observe_statefulset_ready [OF assms(1) o assms(4)]
  moreover have "answered_since s t ?c (OnApplyStatefulSet E) (res', err', st)"
    by (rule answered_since_perform [OF extends_refl]) (use a calculation in simp_all)
  ultimately show ?thesis unfolding deployed_def by auto
qed

lemma finish_no_deploy: "state_io_rel (extends no_deploy) (finish_reconcile L)"
  unfolding finish_reconcile_def by (intro ext_rules)

lemma extends_same_trace: "trace t = trace s \<Longrightarrow> extends P s t"
  by (simp add: extends_def)

lemma run_then_check:
  "snd (run_state (call_go m (\<lambda>(res, err). if err \<noteq> None then return (Ret res err) else return (Next ()))) s) =
   snd (run_state m s)"
  by (auto split: prod.splits go.splits)

end
