(* ===== verification/Endpoints.thy ===== *)
theory Endpoints
  imports ServiceCommon
begin

text \<open>
  The routes of \<open>controllers/watcher_controller.go\<close>: \<open>EndpointDetail\<close> with \<open>ensureRoute\<close> and
  \<open>CreateRoute\<close>, and \<open>exposeEndpoints\<close>, which the Watcher's reconcile calls after the WatcherAPI is
  applied. The lemmas bound what these may do to the routes of the cluster.
\<close>

section \<open>Endpoint details\<close>

text \<open>The fields the code sets or reads. Names shared with other structs are prefixed.\<close>

record ServiceTLSDetails =
  ServiceTLSEnabled :: bool
  ServiceTLSSecretName :: "string option"
  ServiceTLSCaBundle :: string

record ServiceDetails =
  ServiceSpec :: service_obj
  ServiceOverrideSpec :: RoutedOverrideSpec
  ServiceTLS :: ServiceTLSDetails

record RouteTLSDetails =
  RouteTLSEnabled :: bool
  RouteTLSSecretName :: "string option"
  RouteTLSCertName :: string

record RouteDetails =
  RouteCreate :: bool
  RouteCustom :: route_override
  RouteTLS :: RouteTLSDetails

record EndpointDetail =
  EDName :: string
  EDNamespace :: string
  EDType :: string
  EDLabels :: string_map
  EDService :: ServiceDetails
  EDRoute :: RouteDetails
  EDHostname :: "string option"
  EDProto :: string
  EDEndpointURL :: string

section \<open>Creating a route\<close>

definition hasCertInOverrideSpec :: "route_override \<Rightarrow> bool" where
  "hasCertInOverrideSpec overrideSpec =
     (case RouteOverrideSpec overrideSpec of
        None \<Rightarrow> False
      | Some spec \<Rightarrow>
          (case RouteSpecTLS spec of
             None \<Rightarrow> False
           | Some cert \<Rightarrow> RouteCACertificate cert \<noteq> [] \<and> RouteCertificate cert \<noteq> [] \<and> RouteKey cert \<noteq> []))"

definition route_of_endpoint :: "lib \<Rightarrow> EndpointDetail \<Rightarrow> route_details" where
  "route_of_endpoint L ed =
     (let svc = ServiceSpec (EDService ed)
      in \<lparr>RDName = EDName ed, RDNamespace = EDNamespace ed, RDLabels = EDLabels ed,
          RDServiceName = SvcName svc,
          RDTargetPortName =
            (case SvcAnnotations svc (AnnotationIngressTargetPortNameKey L) of
               None \<Rightarrow> SvcName svc
             | Some name \<Rightarrow> if name \<noteq> [] then name else SvcName svc)\<rparr>)"

text \<open>
  Without TLS the route is created; with TLS it is created only when it does not exist yet, to
  learn its hostname.
\<close>

definition CreateRoute_host ::
  "lib \<Rightarrow> 'i env \<Rightarrow> EndpointDetail \<Rightarrow> ('i st, EndpointDetail flow) state" where
  "CreateRoute_host L E ed = do {
     got \<leftarrow> perform (GetRoute \<lparr>NName = EDName ed, NNamespace = EDNamespace ed\<rparr>) (OnGetRoute E);
     let tls = RouteTLSEnabled (RouteTLS (EDRoute ed));
     if \<not> tls \<or> (case got of Inl e \<Rightarrow> IsNotFound L (Some e) | Inr _ \<Rightarrow> False) then do {
       (ctrlResult, err, hostname) \<leftarrow> perform
         (ApplyRoute (route_of_endpoint L ed) [CustomLayer (RouteCustom (EDRoute ed))]) (OnApplyRoute E);
       if err \<noteq> None \<or> ctrlResult \<noteq> Result0 then return (Ret ctrlResult err)
       else return (Next (ed\<lparr>EDHostname := Some hostname\<rparr>))
     }
     else (case got of
         Inl err \<Rightarrow> return (Ret Result0 (Some err))
       | Inr host \<Rightarrow> return (Next (ed\<lparr>EDHostname := Some host\<rparr>)))
   }"

text \<open>The certificate secret the user named: it must exist and have the three entries.\<close>

definition route_cert_keys :: "string list" where
  "route_cert_keys = [''tls.crt'', ''tls.key'', ''ca.crt'']"

definition CreateRoute_cert ::
  "lib \<Rightarrow> 'i env \<Rightarrow> EndpointDetail \<Rightarrow> ('i st, secret flow) state" where
  "CreateRoute_cert L E ed =
     (case RouteTLSSecretName (RouteTLS (EDRoute ed)) of
        None \<Rightarrow> return (Next secret_zero)
      | Some name \<Rightarrow> do {
          got \<leftarrow> perform (GetSecret \<lparr>NName = name, NNamespace = EDNamespace ed\<rparr>) (OnGetSecret E);
          case got of
            Inl err \<Rightarrow>
              if IsNotFound L (Some err)
              then return (Ret Result0 (Some (WrapError (''certificate secret '' @ name @ '' not found'') err)))
              else return (Ret Result0 (Some err))
          | Inr certSecret \<Rightarrow>
              (case List.find (\<lambda>key. Data certSecret key = None) route_cert_keys of
                 Some key \<Rightarrow> return (Ret Result0
                   (Some (NewError (''certificate secret '' @ name @ '' does not provide '' @ key))))
               | None \<Rightarrow> return (Next certSecret))
        })"

definition edge_tls_config :: "lib \<Rightarrow> secret \<Rightarrow> tls_config" where
  "edge_tls_config L certSecret =
     \<lparr>Termination = TLSTerminationEdge,
      TLSCertificate = map_get (Data certSecret) (CertKey L),
      TLSKey = map_get (Data certSecret) (PrivateKey L),
      TLSCACertificate = map_get (Data certSecret) (CAKey L),
      DestinationCACertificate = [],
      RedirectInsecure = True\<rparr>"

text \<open>
  The TLS configuration of the route. When the pods use TLS too, the route re-encrypts and needs
  the internal CA bundle.
\<close>

definition CreateRoute_tls_config ::
  "lib \<Rightarrow> 'i env \<Rightarrow> EndpointDetail \<Rightarrow> secret \<Rightarrow> ('i st, tls_config flow) state" where
  "CreateRoute_tls_config L E ed certSecret =
     (let pods = ServiceTLS (EDService ed);
          tlsConfig = edge_tls_config L certSecret
      in if ServiceTLSEnabled pods \<and>
            (ServiceTLSSecretName pods \<noteq> None \<or> hasCertInOverrideSpec (RouteCustom (EDRoute ed)))
         then do {
           (bundle, ctrlResult, err) \<leftarrow> perform
             (GetDataFromSecret (ServiceTLSCaBundle pods) (InternalCABundleKey L)) (OnGetDataFromSecret E);
           if err \<noteq> None \<or> ctrlResult \<noteq> Result0 then return (Ret ctrlResult err)
           else return (Next (tlsConfig\<lparr>DestinationCACertificate := bundle,
                                        Termination := TLSTerminationReencrypt\<rparr>))
         }
         else return (Next tlsConfig))"

text \<open>The route again, with the TLS configuration over the first route and the custom override last.\<close>

definition CreateRoute_tls ::
  "lib \<Rightarrow> 'i env \<Rightarrow> EndpointDetail \<Rightarrow> ('i st, EndpointDetail flow) state" where
  "CreateRoute_tls L E ed =
     continue (CreateRoute_cert L E ed) (\<lambda>certSecret.
     continue (CreateRoute_tls_config L E ed certSecret) (\<lambda>tlsConfig. do {
       let custom = CustomLayer (RouteCustom (EDRoute ed));
       let layers = [custom, TLSLayer tlsConfig, custom];
       h \<leftarrow> State_Monad.get;
       case OnNewRoute E (trace h) (route_of_endpoint L ed) layers of
         Some err \<Rightarrow> return (Ret Result0 (Some err))
       | None \<Rightarrow> do {
           (ctrlResult, err, _) \<leftarrow> perform (ApplyRoute (route_of_endpoint L ed) layers) (OnApplyRoute E);
           if err \<noteq> None \<or> ctrlResult \<noteq> Result0 then return (Ret ctrlResult err)
           else return (Next (ed\<lparr>EDProto := ''https''\<rparr>))
         }
     }))"

definition with_url :: "EndpointDetail \<Rightarrow> string \<Rightarrow> EndpointDetail" where
  "with_url ed hostname = ed\<lparr>EDEndpointURL := EDProto ed @ ''://'' @ hostname\<rparr>"

definition CreateRoute ::
  "lib \<Rightarrow> 'i env \<Rightarrow> EndpointDetail \<Rightarrow> ('i st, EndpointDetail flow) state" where
  "CreateRoute L E ed = do {
     h \<leftarrow> State_Monad.get;
     case OnNewRoute E (trace h) (route_of_endpoint L ed) [CustomLayer (RouteCustom (EDRoute ed))] of
       Some err \<Rightarrow> return (Ret Result0 (Some err))
     | None \<Rightarrow>
         continue (CreateRoute_host L E ed) (\<lambda>ed.
         continue (if RouteTLSEnabled (RouteTLS (EDRoute ed)) then CreateRoute_tls L E ed
                   else return (Next (ed\<lparr>EDProto := ''http''\<rparr>))) (\<lambda>ed.
         call_go (return (deref (EDHostname ed))) (\<lambda>hostname.
         return (Next (with_url ed hostname)))))
   }"

section \<open>Ensuring the route of a service\<close>

text \<open>\<open>GetRoutesListWithLabel\<close>; the labels are printed in the error as \<open>fmt\<close> prints a map.\<close>

definition GetRoutesListWithLabel ::
  "'i env \<Rightarrow> string \<Rightarrow> string_map \<Rightarrow> ('i st, error + route list) state" where
  "GetRoutesListWithLabel E namespace labelSelectorMap = do {
     got \<leftarrow> perform (ListRoutes namespace labelSelectorMap) (OnListRoutes E);
     return (case got of
         Inl err \<Rightarrow> Inl (WrapError (''Error listing routes for '' @ fmt_map labelSelectorMap) err)
       | Inr routes \<Rightarrow> Inr routes)
   }"

text \<open>
  A route is deleted when the service no longer asks for one, it leads to the service and this
  Watcher controls it; its owner list is cut to this Watcher first.
\<close>

definition instance_ref :: "Watcher \<Rightarrow> owner_ref" where
  "instance_ref i = \<lparr>OwnerKind = Kind i, OwnerName = Name i, OwnerUID = UID i, OwnerIsController = True\<rparr>"

definition route_to_delete :: "lib \<Rightarrow> Watcher \<Rightarrow> service_obj \<Rightarrow> EndpointDetail \<Rightarrow> route \<Rightarrow> bool" where
  "route_to_delete L i svc ed rt \<longleftrightarrow>
     map_get (SvcAnnotations svc) (AnnotationIngressCreateKey L) = ''false'' \<and>
     RouteTo rt = EDName ed \<and>
     (case GetControllerOf L (RouteOwners rt) of None \<Rightarrow> False | Some owner \<Rightarrow> OwnerUID owner = UID i)"

fun delete_routes ::
  "lib \<Rightarrow> 'i env \<Rightarrow> Watcher \<Rightarrow> service_obj \<Rightarrow> EndpointDetail \<Rightarrow> route list \<Rightarrow> ('i st, EndpointDetail flow) state" where
  "delete_routes L E i svc ed [] = return (Next ed)"
| "delete_routes L E i svc ed (rt # rest) =
     (if route_to_delete L i svc ed rt then do {
        err \<leftarrow> perform (DeleteRoute (rt\<lparr>RouteOwners := [instance_ref i]\<rparr>)) (OnDeleteRoute E);
        if err \<noteq> None \<and> \<not> IsNotFound L err
        then return (Ret Result0 (Some (WrapError (''Error deleting route '' @ RouteName rt) (the err))))
        else delete_routes L E i svc
          (ed\<lparr>EDService := (EDService ed)\<lparr>ServiceOverrideSpec :=
             (ServiceOverrideSpec (EDService ed))\<lparr>OverrideEndpointURL := None\<rparr>\<rparr>\<rparr>) rest
      } else delete_routes L E i svc ed rest)"

definition with_embedded_labels :: "EndpointDetail \<Rightarrow> EndpointDetail" where
  "with_embedded_labels ed =
     (let ov = ServiceOverrideSpec (EDService ed)
      in case EmbeddedLabelsAnnotations ov of
           None \<Rightarrow> ed\<lparr>EDService := (EDService ed)\<lparr>ServiceOverrideSpec := ov\<lparr>EmbeddedLabelsAnnotations := Some []\<rparr>\<rparr>\<rparr>
         | Some _ \<Rightarrow> ed)"

definition ensureRoute ::
  "lib \<Rightarrow> Watcher env \<Rightarrow> Watcher \<Rightarrow> service_obj \<Rightarrow> EndpointDetail \<Rightarrow> (Watcher st, EndpointDetail flow) state" where
  "ensureRoute L E i svc ed = do {
     routes \<leftarrow> GetRoutesListWithLabel E (Namespace i) (getAPIServiceLabels L);
     case routes of
       Inl err \<Rightarrow> return (Ret Result0 (Some err))
     | Inr items \<Rightarrow>
         continue (delete_routes L E i svc ed items) (\<lambda>ed.
           if RouteCreate (EDRoute ed)
           then CreateRoute L E ((with_embedded_labels ed)\<lparr>EDLabels := getAPIServiceLabels L\<rparr>)
           else return (Next ed))
   }"

section \<open>Exposing the endpoints\<close>

definition hasIngressTLS :: "Watcher \<Rightarrow> bool" where
  "hasIngressTLS i \<longleftrightarrow>
     (case TLSOverride (APIOverride (Spec i)) of None \<Rightarrow> False | Some t \<Rightarrow> TLSSecretName t \<noteq> [])"

definition hasPublicServiceSecretName :: "Watcher \<Rightarrow> bool" where
  "hasPublicServiceSecretName i \<longleftrightarrow>
     (case PublicSecretName (TTLS (APIServiceTemplate (Spec i))) of None \<Rightarrow> False | Some n \<Rightarrow> n \<noteq> [])"

definition tls_mismatch_error :: error where
  "tls_mismatch_error = NewError (''TLS at ingress level is not configured, but at PodLevel is enabled, '' @
     ''please set a secret to enable TLS on ingress'')"

text \<open>The endpoint of a service, before anything is read of the cluster.\<close>

definition endpoint_of_service :: "lib \<Rightarrow> Watcher \<Rightarrow> service_obj \<Rightarrow> EndpointDetail" where
  "endpoint_of_service L i svc =
     (let typ = map_get (SvcAnnotations svc) (AnnotationEndpointKey L)
      in \<lparr>EDName = SvcName svc, EDNamespace = SvcNamespace svc, EDType = typ, EDLabels = Map.empty,
          EDService = \<lparr>ServiceSpec = svc,
            ServiceOverrideSpec = (case Service (TOverride (APIServiceTemplate (Spec i))) typ of
                None \<Rightarrow> RoutedOverrideSpec0 | Some ov \<Rightarrow> ov),
            ServiceTLS = \<lparr>ServiceTLSEnabled = False, ServiceTLSSecretName = None, ServiceTLSCaBundle = []\<rparr>\<rparr>,
          EDRoute = \<lparr>RouteCreate = False, RouteCustom = \<lparr>RouteOverrideSpec = None\<rparr>,
            RouteTLS = \<lparr>RouteTLSEnabled = False, RouteTLSSecretName = None, RouteTLSCertName = []\<rparr>\<rparr>,
          EDHostname = None, EDProto = [], EDEndpointURL = []\<rparr>)"

text \<open>The public endpoint: whether pods use TLS, whether to create a route, and its override.\<close>

definition public_endpoint :: "lib \<Rightarrow> Watcher \<Rightarrow> service_obj \<Rightarrow> EndpointDetail \<Rightarrow> EndpointDetail" where
  "public_endpoint L i svc ed =
     ed\<lparr>EDService := (EDService ed)\<lparr>ServiceTLS :=
          (ServiceTLS (EDService ed))\<lparr>ServiceTLSEnabled := hasPublicServiceSecretName i\<rparr>\<rparr>,
        EDRoute := (EDRoute ed)
          \<lparr>RouteCreate := map_get (SvcAnnotations svc) (AnnotationIngressCreateKey L) = ''true'' \<and>
              SvcType svc = ServiceTypeClusterIP,
           RouteCustom := (case RouteOverride (APIOverride (Spec i)) of
              None \<Rightarrow> RouteCustom (EDRoute ed) | Some ov \<Rightarrow> ov)\<rparr>\<rparr>"

text \<open>Validating a certificate secret: a missing one is waited for.\<close>

definition validate_cert ::
  "lib \<Rightarrow> Watcher env \<Rightarrow> Watcher \<Rightarrow> string option \<Rightarrow> (Watcher st, unit flow) state" where
  "validate_cert L E i name = do {
     err \<leftarrow> perform (ValidateCertSecret name (Namespace i)) (OnValidateCertSecret E);
     case err of
       None \<Rightarrow> return (Next ())
     | Some e \<Rightarrow>
         if IsNotFound L (Some e) then return (Ret \<lparr>Requeue = False, RequeueAfter = seconds 10\<rparr> None)
         else return (Ret Result0 (Some e))
   }"

definition ingress_tls ::
  "lib \<Rightarrow> Watcher env \<Rightarrow> Watcher \<Rightarrow> EndpointDetail \<Rightarrow> (Watcher st, EndpointDetail flow) state" where
  "ingress_tls L E i ed =
     (case TLSOverride (APIOverride (Spec i)) of
        None \<Rightarrow> return (Next ed)
      | Some t \<Rightarrow>
          if TLSSecretName t \<noteq> [] then
            continue (validate_cert L E i (Some (TLSSecretName t))) (\<lambda>_.
              return (Next (ed\<lparr>EDRoute := (EDRoute ed)\<lparr>RouteTLS :=
                \<lparr>RouteTLSEnabled = True, RouteTLSSecretName = Some (TLSSecretName t),
                 RouteTLSCertName = EDName ed @ ''-route''\<rparr>\<rparr>\<rparr>)))
          else return (Next ed))"

definition pod_tls ::
  "lib \<Rightarrow> Watcher env \<Rightarrow> Watcher \<Rightarrow> EndpointDetail \<Rightarrow> (Watcher st, EndpointDetail flow) state" where
  "pod_tls L E i ed =
     (let name = PublicSecretName (TTLS (APIServiceTemplate (Spec i)))
      in if ServiceTLSEnabled (ServiceTLS (EDService ed)) then
           continue (validate_cert L E i name) (\<lambda>_.
             return (Next (ed\<lparr>EDService := (EDService ed)\<lparr>ServiceTLS := (ServiceTLS (EDService ed))
               \<lparr>ServiceTLSCaBundle := CABundleSecret L, ServiceTLSSecretName := name\<rparr>\<rparr>\<rparr>)))
         else return (Next ed))"

text \<open>\<open>if err != nil || (ctrlResult != ctrl.Result{}) { return ctrlResult, err }\<close>\<close>

definition stop_on_result :: "'a flow \<Rightarrow> unit flow" where
  "stop_on_result r =
     (case r of
        Ret ctrlResult err \<Rightarrow> if err \<noteq> None \<or> ctrlResult \<noteq> Result0 then Ret ctrlResult err else Next ()
      | Crash p \<Rightarrow> Crash p
      | Next _ \<Rightarrow> Next ())"

definition expose_service ::
  "lib \<Rightarrow> Watcher env \<Rightarrow> Watcher \<Rightarrow> service_obj \<Rightarrow> (Watcher st, unit flow) state" where
  "expose_service L E i svc =
     (let ed = endpoint_of_service L i svc
      in if EDType ed = EndpointPublic then
           continue (ingress_tls L E i (public_endpoint L i svc ed)) (\<lambda>ed.
           continue (pod_tls L E i ed) (\<lambda>ed. do {
             r \<leftarrow> ensureRoute L E i svc ed;
             return (stop_on_result r)
           }))
         else return (Next ()))"

fun expose_services ::
  "lib \<Rightarrow> Watcher env \<Rightarrow> Watcher \<Rightarrow> service_obj list \<Rightarrow> (Watcher st, unit flow) state" where
  "expose_services L E i [] = return (Next ())"
| "expose_services L E i (svc # rest) =
     continue (expose_service L E i svc) (\<lambda>_. expose_services L E i rest)"

definition exposeEndpoints :: "lib \<Rightarrow> Watcher env \<Rightarrow> (Watcher st, unit flow) state" where
  "exposeEndpoints L E = do {
     i \<leftarrow> the_inst;
     svcs \<leftarrow> perform (GetServicesListWithLabel (Namespace i) (getAPIServiceLabels L)) (OnGetServices E);
     case svcs of
       Inl err \<Rightarrow> return (Ret Result0 (Some err))
     | Inr items \<Rightarrow>
         if hasPublicServiceSecretName i \<and> \<not> hasIngressTLS i then do {
           set_false L ExposeServiceReadyCondition ErrorReason SeverityWarning
             (LibMessage ''ExposeServiceReadyErrorMessage'') [err_text tls_mismatch_error];
           return (Ret Result0 (Some tls_mismatch_error))
         }
         else expose_services L E i items
   }"

section \<open>What happens to the routes\<close>

text \<open>What a service says of itself: that it is the public one, and whether it wants a route.\<close>

definition is_public :: "lib \<Rightarrow> service_obj \<Rightarrow> bool" where
  "is_public L svc \<longleftrightarrow> map_get (SvcAnnotations svc) (AnnotationEndpointKey L) = EndpointPublic"

definition wants_route :: "lib \<Rightarrow> service_obj \<Rightarrow> bool" where
  "wants_route L svc \<longleftrightarrow> is_public L svc \<and>
     map_get (SvcAnnotations svc) (AnnotationIngressCreateKey L) = ''true'' \<and> SvcType svc = ServiceTypeClusterIP"

definition declines_route :: "lib \<Rightarrow> service_obj \<Rightarrow> bool" where
  "declines_route L svc \<longleftrightarrow> is_public L svc \<and>
     map_get (SvcAnnotations svc) (AnnotationIngressCreateKey L) = ''false''"

text \<open>
  What the cluster says of a route: that this run, which began at history \<open>b\<close>, was told of it before
  history \<open>h\<close>, and that the Watcher controls it.
\<close>

definition listed_since :: "lib \<Rightarrow> Watcher env \<Rightarrow> Watcher \<Rightarrow> Watcher history \<Rightarrow> Watcher history \<Rightarrow> route \<Rightarrow> bool" where
  "listed_since L E i b h rt \<longleftrightarrow>
     (\<exists>g g' rts. h = b @ g @ ListRoutes (Namespace i) (getAPIServiceLabels L) # g' \<and>
        OnListRoutes E (b @ g @ [ListRoutes (Namespace i) (getAPIServiceLabels L)]) = Inr rts \<and> rt \<in> set rts)"

definition controls :: "lib \<Rightarrow> Watcher \<Rightarrow> route \<Rightarrow> bool" where
  "controls L i rt \<longleftrightarrow> (\<exists>owner. GetControllerOf L (RouteOwners rt) = Some owner \<and> OwnerUID owner = UID i)"

text \<open>
  The call \<open>exposeEndpoints\<close> may make at history \<open>h\<close> of a run that began at \<open>b\<close>, for a Watcher and the
  services it was told of.
\<close>

definition route_call ::
  "lib \<Rightarrow> Watcher env \<Rightarrow> Watcher \<Rightarrow> service_obj list \<Rightarrow> Watcher history \<Rightarrow> Watcher history \<Rightarrow> Watcher call \<Rightarrow> bool" where
  "route_call L E i items b h c \<longleftrightarrow>
     (case c of
        DeleteRoute rt \<Rightarrow> (\<exists>svc \<in> set items. declines_route L svc \<and>
          (\<exists>listed. listed_since L E i b h listed \<and> controls L i listed \<and> RouteTo listed = SvcName svc \<and>
            rt = listed\<lparr>RouteOwners := [instance_ref i]\<rparr>))
      | ApplyRoute rd layers \<Rightarrow> (\<exists>svc \<in> set items. wants_route L svc \<and> RDName rd = SvcName svc \<and>
          RDNamespace rd = SvcNamespace svc \<and> RDServiceName rd = SvcName svc \<and>
          RDLabels rd = getAPIServiceLabels L)
      | GetServicesListWithLabel ns ls \<Rightarrow> True
      | ListRoutes ns ls \<Rightarrow> True
      | GetRoute n \<Rightarrow> True
      | GetSecret n \<Rightarrow> True
      | ValidateCertSecret n ns \<Rightarrow> True
      | GetDataFromSecret n k \<Rightarrow> True
      | _ \<Rightarrow> False)"

text \<open>The kinds of these calls.\<close>

definition route_calls :: "Watcher call \<Rightarrow> bool" where
  "route_calls c \<longleftrightarrow>
     (case c of
        DeleteRoute rt \<Rightarrow> True | ApplyRoute rd layers \<Rightarrow> True | GetServicesListWithLabel ns ls \<Rightarrow> True
      | ListRoutes ns ls \<Rightarrow> True | GetRoute n \<Rightarrow> True | GetSecret n \<Rightarrow> True
      | ValidateCertSecret n ns \<Rightarrow> True | GetDataFromSecret n k \<Rightarrow> True | _ \<Rightarrow> False)"

lemma route_call_kind: "route_call L E i items b h c \<Longrightarrow> route_calls c"
  by (cases c) (simp_all add: route_call_def route_calls_def)

text \<open>Every new call is one that \<open>Q\<close> allows after the calls before it.\<close>

definition guarded :: "('i history \<Rightarrow> 'i call \<Rightarrow> bool) \<Rightarrow> 'i st \<Rightarrow> 'i st \<Rightarrow> bool" where
  "guarded Q s t \<longleftrightarrow> (\<exists>tr. trace t = trace s @ tr \<and> (\<forall>h c h'. tr = h @ c # h' \<longrightarrow> Q (trace s @ h) c))"

lemma guarded_refl: "guarded Q s s"
  by (simp add: guarded_def)

lemma guarded_trans:
  assumes "guarded Q s t" and "guarded Q t u"
  shows "guarded Q s u"
proof -
  from assms obtain tr tr' where t: "trace t = trace s @ tr" and u: "trace u = trace t @ tr'"
      and q: "\<And>h c h'. tr = h @ c # h' \<Longrightarrow> Q (trace s @ h) c"
      and q': "\<And>h c h'. tr' = h @ c # h' \<Longrightarrow> Q (trace s @ tr @ h) c"
    unfolding guarded_def by auto
  have "Q (trace s @ h) c" if eq: "tr @ tr' = h @ c # h'" for h c h'
  proof -
    from eq obtain us where us: "tr = h @ us \<and> us @ tr' = c # h' \<or> h = tr @ us \<and> tr' = us @ c # h'"
      by (auto simp: append_eq_append_conv2)
    show ?thesis
    proof (cases us)
      case Nil
      with us q' [of "[]" c h'] show ?thesis by auto
    next
      case (Cons d ds)
      with us q [of h c ds] q' [of us c h'] show ?thesis by auto
    qed
  qed
  then show ?thesis unfolding guarded_def t u by (intro exI [of _ "tr @ tr'"]) simp
qed

lemma extends_guarded:
  "extends P s t \<Longrightarrow> (\<And>h c. P c \<Longrightarrow> Q (trace s @ h) c) \<Longrightarrow> guarded Q s t"
  unfolding extends_def guarded_def by force

lemma guarded_extends:
  assumes "guarded Q s t" and "\<And>h c. Q h c \<Longrightarrow> P c"
  shows "extends P s t"
proof -
  from assms(1) obtain tr where t: "trace t = trace s @ tr"
      and q: "\<And>h c h'. tr = h @ c # h' \<Longrightarrow> Q (trace s @ h) c"
    unfolding guarded_def by blast
  have "P c" if "c \<in> set tr" for c
    using that assms(2) [OF q] by (auto dest: split_list)
  with t show ?thesis unfolding extends_def by blast
qed

lemma guarded_continue:
  assumes "\<And>x u. run_state m s = (x, u) \<Longrightarrow> guarded Q s u"
    and "\<And>x u. run_state m s = (Next x, u) \<Longrightarrow> guarded Q u (snd (run_state (f x) u))"
  shows "guarded Q s (snd (run_state (continue m f) s))"
proof -
  obtain r u where r: "run_state m s = (r, u)" by fastforce
  then show ?thesis
    using assms(1) [OF r] assms(2)
    by (cases r) (auto simp: run_continue intro: guarded_trans)
qed

text \<open>The part of an endpoint that stays as it is once it is made.\<close>

definition ed_core :: "EndpointDetail \<Rightarrow> string \<times> string \<times> service_obj \<times> bool \<times> route_override" where
  "ed_core ed = (EDName ed, EDNamespace ed, ServiceSpec (EDService ed), RouteCreate (EDRoute ed),
     RouteCustom (EDRoute ed))"

lemma ed_core_update [simp]:
  "ed_core (ed\<lparr>EDHostname := h\<rparr>) = ed_core ed" "ed_core (ed\<lparr>EDProto := p\<rparr>) = ed_core ed"
  "ed_core (ed\<lparr>EDLabels := l\<rparr>) = ed_core ed" "ed_core (ed\<lparr>EDEndpointURL := u\<rparr>) = ed_core ed"
  "ed_core (ed\<lparr>EDService := (EDService ed)\<lparr>ServiceOverrideSpec := ov\<rparr>\<rparr>) = ed_core ed"
  "ed_core (ed\<lparr>EDService := (EDService ed)\<lparr>ServiceTLS := t\<rparr>\<rparr>) = ed_core ed"
  "ed_core (ed\<lparr>EDRoute := (EDRoute ed)\<lparr>RouteTLS := rt\<rparr>\<rparr>) = ed_core ed"
  "ed_core (with_embedded_labels ed) = ed_core ed"
  by (simp_all add: ed_core_def with_embedded_labels_def Let_def split: option.split)

lemma route_of_endpoint_core:
  "ed_core ed = ed_core ed' \<Longrightarrow> EDLabels ed = EDLabels ed' \<Longrightarrow> route_of_endpoint L ed = route_of_endpoint L ed'"
  by (simp add: ed_core_def route_of_endpoint_def)

lemma validate_cert_calls:
  "(\<And>n ns. P (ValidateCertSecret n ns)) \<Longrightarrow> state_io_rel (extends P) (validate_cert L E i n)"
  unfolding validate_cert_def by (intro ext_rules; simp)

lemma ingress_tls_calls:
  "(\<And>n ns. P (ValidateCertSecret n ns)) \<Longrightarrow> state_io_rel (extends P) (ingress_tls L E i ed)"
  unfolding ingress_tls_def by (intro ext_rules validate_cert_calls; simp)

lemma pod_tls_calls:
  "(\<And>n ns. P (ValidateCertSecret n ns)) \<Longrightarrow> state_io_rel (extends P) (pod_tls L E i ed)"
  unfolding pod_tls_def by (intro ext_rules validate_cert_calls; simp)

lemma ingress_tls_core:
  "run_state (ingress_tls L E i ed) s = (Next ed', t) \<Longrightarrow> ed_core ed' = ed_core ed"
  by (auto simp: ingress_tls_def run_continue split: option.splits if_splits prod.splits flow.splits)

lemma pod_tls_core:
  "run_state (pod_tls L E i ed) s = (Next ed', t) \<Longrightarrow> ed_core ed' = ed_core ed"
  by (auto simp: pod_tls_def Let_def run_continue split: if_splits prod.splits flow.splits)

lemma delete_routes_core:
  "run_state (delete_routes L E i svc ed rts) s = (Next ed', t) \<Longrightarrow> ed_core ed' = ed_core ed"
  by (induction L E i svc ed rts arbitrary: s rule: delete_routes.induct) (auto split: if_splits)

lemma delete_routes_calls:
  assumes "\<And>rt. rt \<in> set rts \<Longrightarrow> map_get (SvcAnnotations svc) (AnnotationIngressCreateKey L) = ''false'' \<Longrightarrow>
      RouteTo rt = EDName ed \<Longrightarrow> controls L i rt \<Longrightarrow> P (DeleteRoute (rt\<lparr>RouteOwners := [instance_ref i]\<rparr>))"
  shows "state_io_rel (extends P) (delete_routes L E i svc ed rts)"
  using assms
proof (induction L E i svc ed rts rule: delete_routes.induct)
  case (2 L E i svc ed rt rest)
  show ?case
    unfolding delete_routes.simps
    by (intro ext_rules 2; (simp add: 2 route_to_delete_def controls_def split: option.splits)?)
qed (simp add: ext.rel_return)

lemma CreateRoute_tls_calls:
  assumes "\<And>n. P (GetSecret n)" "\<And>n k. P (GetDataFromSecret n k)"
    "\<And>layers. P (ApplyRoute (route_of_endpoint L ed) layers)"
  shows "state_io_rel (extends P) (CreateRoute_tls L E ed)"
  unfolding CreateRoute_tls_def CreateRoute_cert_def CreateRoute_tls_config_def
  by (intro ext_rules assms)

lemma route_of_endpoint_fields [simp]:
  "route_of_endpoint L (ed\<lparr>EDHostname := h\<rparr>) = route_of_endpoint L ed"
  "RDName (route_of_endpoint L ed) = EDName ed" "RDNamespace (route_of_endpoint L ed) = EDNamespace ed"
  "RDServiceName (route_of_endpoint L ed) = SvcName (ServiceSpec (EDService ed))"
  "RDLabels (route_of_endpoint L ed) = EDLabels ed"
  by (simp_all add: route_of_endpoint_def Let_def)

lemma CreateRoute_host_Next:
  "run_state (CreateRoute_host L E ed) s = (Next ed', t) \<Longrightarrow> \<exists>h. ed' = ed\<lparr>EDHostname := Some h\<rparr>"
  by (auto simp: CreateRoute_host_def Let_def split: prod.splits sum.splits if_splits)

lemma CreateRoute_tls_Next:
  "run_state (CreateRoute_tls L E ed) s = (Next ed', t) \<Longrightarrow> ed' = ed\<lparr>EDProto := ''https''\<rparr>"
  by (auto simp: CreateRoute_tls_def Let_def run_continue split: prod.splits flow.splits option.splits if_splits)

lemma CreateRoute_host_calls:
  assumes "\<And>n. P (GetRoute n)" "\<And>layers. P (ApplyRoute (route_of_endpoint L ed) layers)"
  shows "state_io_rel (extends P) (CreateRoute_host L E ed)"
  unfolding CreateRoute_host_def by (intro ext_rules assms)

lemma CreateRoute_calls:
  assumes "\<And>n. P (GetRoute n)" "\<And>n. P (GetSecret n)" "\<And>n k. P (GetDataFromSecret n k)"
    "\<And>layers. P (ApplyRoute (route_of_endpoint L ed) layers)"
  shows "extends P s (snd (run_state (CreateRoute L E ed) s))"
proof (cases "OnNewRoute E (trace s) (route_of_endpoint L ed) [CustomLayer (RouteCustom (EDRoute ed))]")
  case None
  have "extends P s (snd (run_state (continue (CreateRoute_host L E ed) (\<lambda>ed.
         continue (if RouteTLSEnabled (RouteTLS (EDRoute ed)) then CreateRoute_tls L E ed
                   else return (Next (ed\<lparr>EDProto := ''http''\<rparr>))) (\<lambda>ed.
         call_go (return (deref (EDHostname ed))) (\<lambda>hostname. return (Next (with_url ed hostname)))))) s))"
  proof (rule extends_continue)
    show "extends P s u" if "run_state (CreateRoute_host L E ed) s = (x, u)" for x u
      by (rule state_io_relD [OF CreateRoute_host_calls that]) (rule assms)+
    fix ed1 u
    assume "run_state (CreateRoute_host L E ed) s = (Next ed1, u)"
    then obtain h where ed1: "ed1 = ed\<lparr>EDHostname := Some h\<rparr>" using CreateRoute_host_Next by blast
    show "extends P u (snd (run_state (continue (if RouteTLSEnabled (RouteTLS (EDRoute ed1))
        then CreateRoute_tls L E ed1 else return (Next (ed1\<lparr>EDProto := ''http''\<rparr>))) (\<lambda>ed.
         call_go (return (deref (EDHostname ed))) (\<lambda>hostname. return (Next (with_url ed hostname))))) u))"
      by (rule ext.relD) (intro ext_rules CreateRoute_tls_calls assms; simp add: ed1 assms)
  qed
  then show ?thesis by (simp add: CreateRoute_def None)
qed (simp add: CreateRoute_def extends_refl)

text \<open>\<open>b\<close> is the history at which the run began, a prefix of the one at which a block begins.\<close>

lemma ensureRoute_calls:
  assumes "ed_core ed = (SvcName svc, SvcNamespace svc, svc, create, ov)" and "is_public L svc"
    and "create \<Longrightarrow> wants_route L svc" and "svc \<in> set items" and b: "trace s = b @ g"
  shows "guarded (route_call L E i items b) s (snd (run_state (ensureRoute L E i svc ed) s))"
proof -
  let ?Q = "route_call L E i items b" and ?list = "ListRoutes (Namespace i) (getAPIServiceLabels L)"
  let ?s1 = "s\<lparr>trace := trace s @ [?list]\<rparr>"
  have first: "guarded ?Q s ?s1"
    by (rule extends_guarded [of "\<lambda>c. c = ?list"]) (auto simp: extends_def route_call_def)
  have rest: "guarded ?Q ?s1 (snd (run_state (continue (delete_routes L E i svc ed rts) (\<lambda>ed.
           if RouteCreate (EDRoute ed)
           then CreateRoute L E ((with_embedded_labels ed)\<lparr>EDLabels := getAPIServiceLabels L\<rparr>)
           else return (Next ed))) ?s1))" if rts: "OnListRoutes E (trace ?s1) = Inr rts" for rts
  proof (rule guarded_continue)
    let ?P = "\<lambda>c. \<exists>rt \<in> set rts. map_get (SvcAnnotations svc) (AnnotationIngressCreateKey L) = ''false'' \<and>
        RouteTo rt = SvcName svc \<and> controls L i rt \<and> c = DeleteRoute (rt\<lparr>RouteOwners := [instance_ref i]\<rparr>)"
    have listed: "listed_since L E i b (trace ?s1 @ h) rt" if "rt \<in> set rts" for rt h
      using that rts b unfolding listed_since_def by (intro exI [of _ g] exI [of _ h] exI [of _ rts]) simp
    have name: "EDName ed = SvcName svc" using assms(1) by (simp add: ed_core_def)
    fix x u assume "run_state (delete_routes L E i svc ed rts) ?s1 = (x, u)"
    moreover have "state_io_rel (extends ?P) (delete_routes L E i svc ed rts)"
      by (rule delete_routes_calls) (use name in metis)
    ultimately have "extends ?P ?s1 u" by (rule state_io_relD [rotated])
    then show "guarded ?Q ?s1 u"
    proof (rule extends_guarded)
      show "?Q (trace ?s1 @ h) c" if "?P c" for h c
      proof -
        from that obtain rt where rt: "rt \<in> set rts" "RouteTo rt = SvcName svc" "controls L i rt"
            "c = DeleteRoute (rt\<lparr>RouteOwners := [instance_ref i]\<rparr>)" and "declines_route L svc"
          using assms(2) by (auto simp: declines_route_def)
        with listed [OF rt(1), of h] assms(4) show ?thesis unfolding route_call_def by auto
      qed
    qed
  next
    fix ed' u
    assume "run_state (delete_routes L E i svc ed rts) ?s1 = (Next ed', u)"
    then have same: "ed_core ed' = ed_core ed" by (rule delete_routes_core)
    let ?ed = "(with_embedded_labels ed')\<lparr>EDLabels := getAPIServiceLabels L\<rparr>"
    have core: "ed_core ?ed = (SvcName svc, SvcNamespace svc, svc, create, ov)" by (simp add: same assms(1))
    let ?P = "\<lambda>c. \<forall>h. ?Q h c"
    have "extends ?P u (snd (run_state (CreateRoute L E ?ed) u))" if "RouteCreate (EDRoute ed')"
      by (rule CreateRoute_calls)
        (use assms core same that in \<open>auto simp: route_call_def ed_core_def\<close>)
    then have "guarded ?Q u (snd (run_state (CreateRoute L E ?ed) u))" if "RouteCreate (EDRoute ed')"
      using that by (blast intro: extends_guarded)
    then show "guarded ?Q u (snd (run_state (if RouteCreate (EDRoute ed')
           then CreateRoute L E ?ed else return (Next ed')) u))"
      by (simp add: guarded_refl)
  qed
  show ?thesis
  proof (cases "OnListRoutes E (trace ?s1)")
    case (Inl e)
    with first show ?thesis by (simp add: ensureRoute_def GetRoutesListWithLabel_def)
  next
    case (Inr rts)
    from guarded_trans [OF first rest [OF Inr]] Inr show ?thesis
      by (simp add: ensureRoute_def GetRoutesListWithLabel_def)
  qed
qed

lemma expose_service_calls:
  assumes "svc \<in> set items" and b: "trace s = b @ g"
  shows "guarded (route_call L E i items b) s (snd (run_state (expose_service L E i svc) s))"
proof (cases "EDType (endpoint_of_service L i svc) = EndpointPublic")
  case True
  let ?Q = "route_call L E i items b" and ?ed = "public_endpoint L i svc (endpoint_of_service L i svc)"
  have pub: "is_public L svc" using True by (simp add: endpoint_of_service_def is_public_def Let_def)
  obtain create ov where core: "ed_core ?ed = (SvcName svc, SvcNamespace svc, svc, create, ov)"
      and wants: "create \<Longrightarrow> wants_route L svc"
    using pub by (simp add: ed_core_def public_endpoint_def endpoint_of_service_def Let_def wants_route_def)
  let ?P = "\<lambda>c. \<forall>h. ?Q h c"
  have P: "?P (ValidateCertSecret n ns)" for n ns by (simp add: route_call_def)
  have tls: "extends ?P v u" if "run_state (ingress_tls L E i ed) v = (x, u) \<or> run_state (pod_tls L E i ed) v = (x, u)"
    for ed v x u
    using that state_io_relD [OF ingress_tls_calls [of ?P L E i ed]] state_io_relD [OF pod_tls_calls [of ?P L E i ed]] P
    by blast
  have "guarded ?Q s (snd (run_state (continue (ingress_tls L E i ?ed) (\<lambda>ed.
           continue (pod_tls L E i ed) (\<lambda>ed. do {
             r \<leftarrow> ensureRoute L E i svc ed;
             return (stop_on_result r)
           }))) s))"
  proof (intro guarded_continue)
    fix ed1 u1 ed2 u2
    assume 1: "run_state (ingress_tls L E i ?ed) s = (Next ed1, u1)"
      and 2: "run_state (pod_tls L E i ed1) u1 = (Next ed2, u2)"
    have same: "ed_core ed2 = ed_core ?ed" using ingress_tls_core [OF 1] pod_tls_core [OF 2] by simp
    have "extends ?P s u2" by (rule extends_trans [OF tls [OF disjI1 [OF 1]] tls [OF disjI2 [OF 2]]])
    then obtain g' where "trace u2 = b @ g'" using b by (auto simp: extends_def)
    from ensureRoute_calls [OF same [unfolded core] pub wants assms(1) this]
    show "guarded ?Q u2 (snd (run_state (do {
             r \<leftarrow> ensureRoute L E i svc ed2;
             return (stop_on_result r)
           }) u2))"
      by (simp add: split_beta)
  qed (use tls in \<open>blast intro: extends_guarded\<close>)+
  then show ?thesis using True by (simp add: expose_service_def Let_def)
qed (simp add: expose_service_def Let_def guarded_refl)

lemma expose_services_calls:
  "set svcs \<subseteq> set items \<Longrightarrow> trace s = b @ g \<Longrightarrow>
   guarded (route_call L E i items b) s (snd (run_state (expose_services L E i svcs) s))"
proof (induction svcs arbitrary: s g)
  case (Cons svc rest)
  have e: "guarded (route_call L E i items b) s (snd (run_state (expose_service L E i svc) s))"
    by (rule expose_service_calls) (use Cons.prems in simp_all)
  show ?case
    unfolding expose_services.simps
  proof (rule guarded_continue)
    show "guarded (route_call L E i items b) s u" if "run_state (expose_service L E i svc) s = (x, u)" for x u
      using e that by simp
    fix x u assume "run_state (expose_service L E i svc) s = (Next x, u)"
    with e Cons.prems(2) obtain g' where "trace u = b @ g'" by (auto simp: guarded_def)
    then show "guarded (route_call L E i items b) u (snd (run_state (expose_services L E i rest) u))"
      using Cons by simp
  qed
qed (simp add: guarded_refl)

text \<open>The services the run was told of, if it was.\<close>

definition services_seen :: "lib \<Rightarrow> Watcher env \<Rightarrow> Watcher st \<Rightarrow> service_obj list" where
  "services_seen L E s =
     (case OnGetServices E (trace s @ [GetServicesListWithLabel (Namespace (inst s)) (getAPIServiceLabels L)]) of
        Inl _ \<Rightarrow> [] | Inr items \<Rightarrow> items)"

lemma exposeEndpoints_guarded:
  "guarded (route_call L E (inst s) (services_seen L E s) (trace s)) s (snd (run_state (exposeEndpoints L E) s))"
proof -
  let ?Q = "route_call L E (inst s) (services_seen L E s) (trace s)"
  let ?get = "GetServicesListWithLabel (Namespace (inst s)) (getAPIServiceLabels L)"
  let ?s1 = "s\<lparr>trace := trace s @ [?get]\<rparr>"
  have e: "guarded ?Q s ?s1"
    by (rule extends_guarded [of "\<lambda>c. c = ?get"]) (auto simp: extends_def route_call_def)
  have "trace ?s1 = trace s @ [?get]" by simp
  note loop = expose_services_calls [OF subset_refl this, of L E "inst s" "services_seen L E s"]
  show ?thesis
  proof (cases "OnGetServices E (trace ?s1)")
    case (Inl err)
    with e show ?thesis by (simp add: exposeEndpoints_def)
  next
    case (Inr items)
    with e guarded_trans [OF e loop] show ?thesis
      by (simp add: exposeEndpoints_def services_seen_def guarded_def)
  qed
qed

lemma exposeEndpoints_calls: "extends route_calls s (snd (run_state (exposeEndpoints L E) s))"
  by (rule guarded_extends [OF exposeEndpoints_guarded]) (rule route_call_kind)

text \<open>
  C20. Whatever the cluster answers: \<open>exposeEndpoints\<close> deletes a route only after the cluster has listed
  it in this very run, when this Watcher controls it and it leads to a public service that declines a
  route, and leaves this Watcher as its only owner; it applies none but the route of a public ClusterIP
  service that asks for one, under the service's name and namespace and the labels of the API; besides
  it only reads. Whether somebody else owns a route of that name is not looked at here: it is left to
  the library's create-or-patch.
\<close>

theorem exposeEndpoints_route_calls:
  assumes "trace (snd (run_state (exposeEndpoints L E) s)) = trace s @ h @ c # h'"
  shows "case c of
      DeleteRoute rt \<Rightarrow> (\<exists>svc \<in> set (services_seen L E s). declines_route L svc \<and>
        (\<exists>listed. listed_since L E (inst s) (trace s) (trace s @ h) listed \<and> controls L (inst s) listed \<and>
          RouteTo listed = SvcName svc \<and> rt = listed\<lparr>RouteOwners := [instance_ref (inst s)]\<rparr>))
    | ApplyRoute rd layers \<Rightarrow> (\<exists>svc \<in> set (services_seen L E s). wants_route L svc \<and> RDName rd = SvcName svc \<and>
        RDNamespace rd = SvcNamespace svc \<and> RDServiceName rd = SvcName svc \<and> RDLabels rd = getAPIServiceLabels L)
    | _ \<Rightarrow> route_calls c"
proof -
  have "route_call L E (inst s) (services_seen L E s) (trace s) (trace s @ h) c"
    using exposeEndpoints_guarded [of L E s] assms unfolding guarded_def by auto
  then show ?thesis by (cases c) (simp_all add: route_call_def route_calls_def)
qed

section \<open>When the exposure succeeds\<close>

text \<open>The TLS configuration carries the certificate of the secret, which was read with all its keys.\<close>

definition cert_layer ::
  "lib \<Rightarrow> 'i env \<Rightarrow> 'i st \<Rightarrow> 'i st \<Rightarrow> nsname \<Rightarrow> bool \<Rightarrow> route_layer list \<Rightarrow> bool" where
  "cert_layer L E s t n reencrypt layers \<longleftrightarrow>
     (\<exists>cfg sec. TLSLayer cfg \<in> set layers \<and> answered_since s t (GetSecret n) (OnGetSecret E) (Inr sec) \<and>
        (\<forall>key \<in> set route_cert_keys. Data sec key \<noteq> None) \<and>
        TLSCertificate cfg = map_get (Data sec) (CertKey L) \<and> TLSKey cfg = map_get (Data sec) (PrivateKey L) \<and>
        TLSCACertificate cfg = map_get (Data sec) (CAKey L) \<and> RedirectInsecure cfg \<and>
        (reencrypt \<longrightarrow> Termination cfg = TLSTerminationReencrypt))"

definition route_published ::
  "lib \<Rightarrow> Watcher env \<Rightarrow> Watcher st \<Rightarrow> Watcher st \<Rightarrow> Watcher \<Rightarrow> service_obj \<Rightarrow> bool" where
  "route_published L E s t i svc \<longleftrightarrow>
     (\<exists>rd layers host.
        answered_since s t (ApplyRoute rd layers) (OnApplyRoute E) (Result0, None, host) \<and>
        RDName rd = SvcName svc \<and> RDNamespace rd = SvcNamespace svc \<and> RDServiceName rd = SvcName svc \<and>
        RDLabels rd = getAPIServiceLabels L \<and>
        (\<forall>tls. TLSOverride (APIOverride (Spec i)) = Some tls \<and> TLSSecretName tls \<noteq> [] \<longrightarrow>
           cert_layer L E s t \<lparr>NName = TLSSecretName tls, NNamespace = SvcNamespace svc\<rparr>
             (hasPublicServiceSecretName i) layers))"

lemma find_None_all: "List.find P xs = None \<Longrightarrow> x \<in> set xs \<Longrightarrow> \<not> P x"
  by (auto simp: find_None_iff)

lemma CreateRoute_cert_Next:
  assumes "run_state (CreateRoute_cert L E ed) s = (Next sec, t)"
    and "RouteTLSSecretName (RouteTLS (EDRoute ed)) = Some name"
  shows "trace t = trace s @ [GetSecret \<lparr>NName = name, NNamespace = EDNamespace ed\<rparr>]"
    and "OnGetSecret E (trace t) = Inr sec"
    and "\<forall>key \<in> set route_cert_keys. Data sec key \<noteq> None"
proof -
  show "trace t = trace s @ [GetSecret \<lparr>NName = name, NNamespace = EDNamespace ed\<rparr>]"
    and "OnGetSecret E (trace t) = Inr sec"
    using assms by (auto simp: CreateRoute_cert_def split: sum.splits if_splits option.splits)
  have "List.find (\<lambda>key. Data sec key = None) route_cert_keys = None"
    using assms by (auto simp: CreateRoute_cert_def split: sum.splits if_splits option.splits)
  from find_None_all [OF this] show "\<forall>key \<in> set route_cert_keys. Data sec key \<noteq> None" by blast
qed

lemma CreateRoute_tls_config_Next:
  assumes "run_state (CreateRoute_tls_config L E ed sec) s = (Next cfg, t)"
  shows "TLSCertificate cfg = map_get (Data sec) (CertKey L) \<and> TLSKey cfg = map_get (Data sec) (PrivateKey L) \<and>
        TLSCACertificate cfg = map_get (Data sec) (CAKey L) \<and> RedirectInsecure cfg"
    and "ServiceTLSEnabled (ServiceTLS (EDService ed)) \<Longrightarrow> ServiceTLSSecretName (ServiceTLS (EDService ed)) \<noteq> None \<Longrightarrow>
      Termination cfg = TLSTerminationReencrypt"
    and "extends (\<lambda>_. True) s t"
  using assms
  by (auto simp: CreateRoute_tls_config_def edge_tls_config_def Let_def extends_def split: if_splits prod.splits)

lemma CreateRoute_tls_published:
  assumes run: "run_state (CreateRoute_tls L E ed) s = (Next ed', t)"
    and name: "RouteTLSSecretName (RouteTLS (EDRoute ed)) = Some name"
    and re: "re \<Longrightarrow> ServiceTLSEnabled (ServiceTLS (EDService ed)) \<and> ServiceTLSSecretName (ServiceTLS (EDService ed)) \<noteq> None"
  shows "\<exists>layers host. answered_since s t (ApplyRoute (route_of_endpoint L ed) layers) (OnApplyRoute E) (Result0, None, host) \<and>
    cert_layer L E s t \<lparr>NName = name, NNamespace = EDNamespace ed\<rparr> re layers"
proof -
  let ?custom = "CustomLayer (RouteCustom (EDRoute ed))"
  from run obtain sec s1 where 1: "run_state (CreateRoute_cert L E ed) s = (Next sec, s1)"
      and r1: "run_state (continue (CreateRoute_tls_config L E ed sec) (\<lambda>tlsConfig. do {
       h \<leftarrow> State_Monad.get;
       case OnNewRoute E (trace h) (route_of_endpoint L ed) [?custom, TLSLayer tlsConfig, ?custom] of
         Some err \<Rightarrow> return (Ret Result0 (Some err))
       | None \<Rightarrow> do {
           (ctrlResult, err, _) \<leftarrow> perform (ApplyRoute (route_of_endpoint L ed) [?custom, TLSLayer tlsConfig, ?custom]) (OnApplyRoute E);
           if err \<noteq> None \<or> ctrlResult \<noteq> Result0 then return (Ret ctrlResult err)
           else return (Next (ed\<lparr>EDProto := ''https''\<rparr>))
         }
     })) s1 = (Next ed', t)"
    unfolding CreateRoute_tls_def Let_def by (cases rule: continue_cases) auto
  from r1 obtain cfg s2 where 2: "run_state (CreateRoute_tls_config L E ed sec) s1 = (Next cfg, s2)"
      and t: "trace t = trace s2 @ [ApplyRoute (route_of_endpoint L ed) [?custom, TLSLayer cfg, ?custom]]"
      and ok: "\<exists>host. OnApplyRoute E (trace t) = (Result0, None, host)"
    by (cases rule: continue_cases) (auto split: option.splits prod.splits if_splits)
  note c = CreateRoute_cert_Next [OF 1 name] and g = CreateRoute_tls_config_Next [OF 2]
  have e1: "extends (\<lambda>_. True) s s2" using c(1) extends_trans [OF _ g(3)] by (simp add: extends_def)
  have "answered_since s s1 (GetSecret \<lparr>NName = name, NNamespace = EDNamespace ed\<rparr>) (OnGetSecret E) (Inr sec)"
    by (rule answered_since_perform [OF extends_refl c(1)]) (use c in simp)
  moreover have "extends (\<lambda>_. True) s2 t" by (simp add: t extends_def)
  note extends_trans [OF g(3) this]
  ultimately have sec: "answered_since s t (GetSecret \<lparr>NName = name, NNamespace = EDNamespace ed\<rparr>) (OnGetSecret E) (Inr sec)"
    by (rule answered_since_later)
  from ok obtain host where host: "OnApplyRoute E (trace t) = (Result0, None, host)" ..
  have "answered_since s t (ApplyRoute (route_of_endpoint L ed) [?custom, TLSLayer cfg, ?custom]) (OnApplyRoute E) (Result0, None, host)"
    by (rule answered_since_perform [OF e1 t]) (use host t in simp)
  moreover have "cert_layer L E s t \<lparr>NName = name, NNamespace = EDNamespace ed\<rparr> re [?custom, TLSLayer cfg, ?custom]"
    unfolding cert_layer_def
    by (rule exI [of _ cfg], rule exI [of _ sec], intro conjI sec c(3) impI)
      (use g(1,2) re in simp_all)
  ultimately show ?thesis by blast
qed


lemma cert_layer_since:
  "extends P s0 s \<Longrightarrow> cert_layer L E s t n re layers \<Longrightarrow> cert_layer L E s0 t n re layers"
  "cert_layer L E s t n re layers \<Longrightarrow> extends P t u \<Longrightarrow> cert_layer L E s u n re layers"
  unfolding cert_layer_def by (blast intro: answered_since_earlier, blast intro: answered_since_later)

lemma route_published_since:
  assumes "extends P s0 s" and "route_published L E s t i svc" and "extends Q t u"
  shows "route_published L E s0 u i svc"
  using assms(2) answered_since_earlier [OF assms(1) answered_since_later [OF _ assms(3)]]
    cert_layer_since(1) [OF assms(1) cert_layer_since(2) [OF _ assms(3)]]
  unfolding route_published_def by metis

lemma CreateRoute_host_published:
  "run_state (CreateRoute_host L E ed) s = (Next ed', t) \<Longrightarrow> \<not> RouteTLSEnabled (RouteTLS (EDRoute ed)) \<Longrightarrow>
   \<exists>layers host. answered_since s t (ApplyRoute (route_of_endpoint L ed) layers) (OnApplyRoute E) (Result0, None, host)"
proof -
  assume run: "run_state (CreateRoute_host L E ed) s = (Next ed', t)" and "\<not> RouteTLSEnabled (RouteTLS (EDRoute ed))"
  let ?get = "GetRoute \<lparr>NName = EDName ed, NNamespace = EDNamespace ed\<rparr>"
  let ?put = "ApplyRoute (route_of_endpoint L ed) [CustomLayer (RouteCustom (EDRoute ed))]"
  from run \<open>\<not> _\<close> obtain host where t: "trace t = trace (s\<lparr>trace := trace s @ [?get]\<rparr>) @ [?put]"
      and "OnApplyRoute E (trace t) = (Result0, None, host)"
    by (auto simp: CreateRoute_host_def split: prod.splits if_splits)
  then have "answered_since s t ?put (OnApplyRoute E) (Result0, None, host)"
    by (intro answered_since_perform [of "\<lambda>_. True" s "s\<lparr>trace := trace s @ [?get]\<rparr>"])
      (auto simp: extends_def)
  then show ?thesis by blast
qed

lemma CreateRoute_published:
  assumes run: "run_state (CreateRoute L E ed) s = (Next ed', t)"
    and tls: "\<And>name. cert = Some name \<Longrightarrow> RouteTLSEnabled (RouteTLS (EDRoute ed)) \<and>
        RouteTLSSecretName (RouteTLS (EDRoute ed)) = Some name \<and>
        (re \<longrightarrow> ServiceTLSEnabled (ServiceTLS (EDService ed)) \<and> ServiceTLSSecretName (ServiceTLS (EDService ed)) \<noteq> None)"
    and plain: "cert = None \<Longrightarrow> \<not> RouteTLSEnabled (RouteTLS (EDRoute ed))"
  shows "\<exists>layers host. answered_since s t (ApplyRoute (route_of_endpoint L ed) layers) (OnApplyRoute E) (Result0, None, host) \<and>
    (\<forall>name. cert = Some name \<longrightarrow> cert_layer L E s t \<lparr>NName = name, NNamespace = EDNamespace ed\<rparr> re layers)"
proof -
  from run obtain ed1 s1 where 1: "run_state (CreateRoute_host L E ed) s = (Next ed1, s1)"
      and r1: "run_state (continue (if RouteTLSEnabled (RouteTLS (EDRoute ed1)) then CreateRoute_tls L E ed1
             else return (Next (ed1\<lparr>EDProto := ''http''\<rparr>)))
           (\<lambda>ed. call_go (return (deref (EDHostname ed))) (\<lambda>hostname. return (Next (with_url ed hostname))))) s1 = (Next ed', t)"
    by (auto simp: CreateRoute_def split: option.splits elim: continue_cases)
  then obtain h where ed1: "ed1 = ed\<lparr>EDHostname := Some h\<rparr>" using CreateRoute_host_Next by blast
  from r1 obtain ed2 s2 where 2: "run_state (if RouteTLSEnabled (RouteTLS (EDRoute ed1)) then CreateRoute_tls L E ed1
             else return (Next (ed1\<lparr>EDProto := ''http''\<rparr>))) s1 = (Next ed2, s2)" and s2: "s2 = t"
    by (cases rule: continue_cases) (auto split: go.splits)
  have e1: "extends (\<lambda>_. True) s s1"
    by (rule state_io_relD [OF CreateRoute_host_calls 1]) simp_all
  show ?thesis
  proof (cases cert)
    case None
    from plain [OF this] have off: "\<not> RouteTLSEnabled (RouteTLS (EDRoute ed))" .
    with 2 ed1 s2 have "t = s1" by simp
    with CreateRoute_host_published [OF 1 off] None show ?thesis by simp
  next
    case (Some name)
    with tls 2 ed1 have "run_state (CreateRoute_tls L E ed1) s1 = (Next ed2, s2)" by simp
    from CreateRoute_tls_published [OF this, of name re] tls [OF Some]
    obtain layers host where "answered_since s1 t (ApplyRoute (route_of_endpoint L ed) layers) (OnApplyRoute E) (Result0, None, host)"
        and "cert_layer L E s1 t \<lparr>NName = name, NNamespace = EDNamespace ed\<rparr> re layers"
      by (auto simp: ed1 s2)
    from answered_since_earlier [OF e1 this(1)] cert_layer_since(1) [OF e1 this(2)] Some show ?thesis
      by (intro exI conjI) auto
  qed
qed

text \<open>A route that is not published ends the reconcile with an error or a result.\<close>

definition loud :: "('s, 'a flow) state \<Rightarrow> bool" where
  "loud m \<longleftrightarrow> (\<forall>s res err. fst (run_state m s) = Ret res err \<longrightarrow> err \<noteq> None \<or> res \<noteq> Result0)"

lemma loud_return:
  "loud (return (Next x))" "loud (return (Crash p))"
  "err \<noteq> None \<or> res \<noteq> Result0 \<Longrightarrow> loud (return (Ret res err))"
  by (simp_all add: loud_def)

lemma loud_bind: "(\<And>x. loud (f x)) \<Longrightarrow> loud (State_Monad.bind m f)"
  by (simp add: loud_def split: prod.split)

lemma loud_continue: "loud m \<Longrightarrow> (\<And>x. loud (f x)) \<Longrightarrow> loud (continue m f)"
proof -
  assume m: "loud m" and f: "\<And>x. loud (f x)"
  have "err \<noteq> None \<or> res \<noteq> Result0" if "run_state (continue m f) s = (Ret res err, t)" for s res err t
    using that
  proof (cases rule: continue_cases)
    case (goes_on x u)
    with f [of x] show ?thesis unfolding loud_def by (metis fst_conv)
  next
    case (returns res' err')
    with m show ?thesis unfolding loud_def by (metis fst_conv flow.inject(1))
  qed simp
  then show ?thesis unfolding loud_def by (metis prod.collapse)
qed

lemma loud_call_go: "(\<And>x. loud (f x)) \<Longrightarrow> loud (call_go m f)"
  by (auto simp: loud_def split: prod.splits go.splits)

lemma loud_cases:
  "(c \<Longrightarrow> loud m) \<Longrightarrow> (\<not> c \<Longrightarrow> loud n) \<Longrightarrow> loud (if c then m else n)"
  "(p = None \<Longrightarrow> loud m) \<Longrightarrow> (\<And>x. p = Some x \<Longrightarrow> loud (g x)) \<Longrightarrow> loud (case p of None \<Rightarrow> m | Some x \<Rightarrow> g x)"
  "(\<And>x. z = Inl x \<Longrightarrow> loud (h x)) \<Longrightarrow> (\<And>x. z = Inr x \<Longrightarrow> loud (k x)) \<Longrightarrow>
    loud (case z of Inl x \<Rightarrow> h x | Inr x \<Rightarrow> k x)"
  "(\<And>x y. q = (x, y) \<Longrightarrow> loud (l x y)) \<Longrightarrow> loud (case q of (x, y) \<Rightarrow> l x y)"
  "(\<And>x. loud (f x)) \<Longrightarrow> loud (Let v f)"
  by (simp_all add: split: option.split sum.split prod.split)

lemmas loud_rules = loud_return loud_bind loud_continue loud_call_go loud_cases

lemma CreateRoute_loud: "loud (CreateRoute L E ed)"
  unfolding CreateRoute_def CreateRoute_host_def CreateRoute_tls_def CreateRoute_cert_def CreateRoute_tls_config_def
  by (intro loud_rules; auto)

lemma delete_routes_loud: "loud (delete_routes L E i svc ed rts)"
proof (induction L E i svc ed rts rule: delete_routes.induct)
  case (2 L E i svc ed rt rest)
  show ?case unfolding delete_routes.simps by (intro loud_rules 2; simp)
qed (simp add: loud_def)

lemma ensureRoute_loud: "loud (ensureRoute L E i svc ed)"
  unfolding ensureRoute_def by (intro loud_rules CreateRoute_loud delete_routes_loud; simp)

lemma loud_stop: "loud m \<Longrightarrow> run_state m s = (r, t) \<Longrightarrow> stop_on_result r = Next u \<Longrightarrow> \<exists>x. r = Next x"
  unfolding loud_def by (cases r) (auto simp: stop_on_result_def split: if_splits dest: spec [of _ s])

lemma validate_cert_loud: "loud (validate_cert L E i name)"
  unfolding validate_cert_def by (intro loud_rules; simp add: Result0_def seconds_def)

lemma expose_service_loud: "loud (expose_service L E i svc)"
proof -
  have "loud (return (stop_on_result r))" for r :: "EndpointDetail flow"
    by (auto simp: loud_def stop_on_result_def split: flow.splits if_splits)
  then show ?thesis
    unfolding expose_service_def ingress_tls_def pod_tls_def
    by (intro loud_rules validate_cert_loud; simp)
qed

lemma exposeEndpoints_loud: "loud (exposeEndpoints L E)"
proof -
  have "loud (expose_services L E i svcs)" for i svcs
    by (induction svcs) (simp_all add: loud_return loud_continue expose_service_loud)
  then show ?thesis unfolding exposeEndpoints_def by (intro loud_rules; simp)
qed

text \<open>What the two TLS blocks leave in the endpoint.\<close>

lemma ingress_tls_Next:
  "run_state (ingress_tls L E i ed) s = (Next ed', t) \<Longrightarrow> \<not> RouteTLSEnabled (RouteTLS (EDRoute ed)) \<Longrightarrow>
   (case TLSOverride (APIOverride (Spec i)) of
      None \<Rightarrow> \<not> RouteTLSEnabled (RouteTLS (EDRoute ed'))
    | Some tls \<Rightarrow> RouteTLSEnabled (RouteTLS (EDRoute ed')) = (TLSSecretName tls \<noteq> []) \<and>
        (TLSSecretName tls \<noteq> [] \<longrightarrow> RouteTLSSecretName (RouteTLS (EDRoute ed')) = Some (TLSSecretName tls))) \<and>
   EDService ed' = EDService ed"
  by (auto simp: ingress_tls_def run_continue split: option.splits if_splits prod.splits flow.splits)

lemma pod_tls_Next:
  "run_state (pod_tls L E i ed) s = (Next ed', t) \<Longrightarrow>
   EDRoute ed' = EDRoute ed \<and> ServiceTLSEnabled (ServiceTLS (EDService ed')) = ServiceTLSEnabled (ServiceTLS (EDService ed)) \<and>
   (ServiceTLSEnabled (ServiceTLS (EDService ed)) \<longrightarrow>
      ServiceTLSSecretName (ServiceTLS (EDService ed')) = PublicSecretName (TTLS (APIServiceTemplate (Spec i))))"
  by (auto simp: pod_tls_def Let_def run_continue split: if_splits prod.splits flow.splits)

lemma delete_routes_Next:
  "run_state (delete_routes L E i svc ed rts) s = (Next ed', t) \<Longrightarrow>
   EDRoute ed' = EDRoute ed \<and> ServiceTLS (EDService ed') = ServiceTLS (EDService ed)"
  by (induction L E i svc ed rts arbitrary: s rule: delete_routes.induct) (auto split: if_splits)

lemma with_embedded_labels_fields [simp]:
  "EDRoute (with_embedded_labels ed) = EDRoute ed"
  "ServiceTLS (EDService (with_embedded_labels ed)) = ServiceTLS (EDService ed)"
  by (simp_all add: with_embedded_labels_def Let_def split: option.split)

lemma ensureRoute_published:
  assumes run: "run_state (ensureRoute L E i svc ed) s = (Next ed', t)"
    and core: "ed_core ed = (SvcName svc, SvcNamespace svc, svc, True, ov)"
    and tls: "case TLSOverride (APIOverride (Spec i)) of
      None \<Rightarrow> \<not> RouteTLSEnabled (RouteTLS (EDRoute ed))
    | Some tls \<Rightarrow> RouteTLSEnabled (RouteTLS (EDRoute ed)) = (TLSSecretName tls \<noteq> []) \<and>
        (TLSSecretName tls \<noteq> [] \<longrightarrow> RouteTLSSecretName (RouteTLS (EDRoute ed)) = Some (TLSSecretName tls))"
    and pod: "hasPublicServiceSecretName i \<Longrightarrow> ServiceTLSEnabled (ServiceTLS (EDService ed)) \<and>
        ServiceTLSSecretName (ServiceTLS (EDService ed)) \<noteq> None"
  shows "route_published L E s t i svc"
proof -
  let ?list = "ListRoutes (Namespace i) (getAPIServiceLabels L)"
  from run obtain rts ed1 s1 where del: "run_state (delete_routes L E i svc ed rts)
        (s\<lparr>trace := trace s @ [?list]\<rparr>) = (Next ed1, s1)"
      and r: "run_state (if RouteCreate (EDRoute ed1)
           then CreateRoute L E ((with_embedded_labels ed1)\<lparr>EDLabels := getAPIServiceLabels L\<rparr>)
           else return (Next ed1)) s1 = (Next ed', t)"
    by (auto simp: ensureRoute_def GetRoutesListWithLabel_def split: sum.splits elim: continue_cases)
  have core1: "ed_core ed1 = (SvcName svc, SvcNamespace svc, svc, True, ov)"
    using delete_routes_core [OF del] core by simp
  let ?ed = "(with_embedded_labels ed1)\<lparr>EDLabels := getAPIServiceLabels L\<rparr>"
  from r core1 have run1: "run_state (CreateRoute L E ?ed) s1 = (Next ed', t)" by (simp add: ed_core_def)
  have core2: "ed_core ?ed = (SvcName svc, SvcNamespace svc, svc, True, ov)" by (simp add: core1)
  have e: "extends (\<lambda>_. True) s s1"
    using state_io_relD [OF delete_routes_calls del, of "\<lambda>_. True"] by (auto simp: extends_def)
  define cert where "cert = (case TLSOverride (APIOverride (Spec i)) of None \<Rightarrow> None
     | Some tls \<Rightarrow> if TLSSecretName tls = [] then None else Some (TLSSecretName tls))"
  note same = delete_routes_Next [OF del]
  have on: "RouteTLSEnabled (RouteTLS (EDRoute ?ed)) \<and> RouteTLSSecretName (RouteTLS (EDRoute ?ed)) = Some name \<and>
      (hasPublicServiceSecretName i \<longrightarrow> ServiceTLSEnabled (ServiceTLS (EDService ?ed)) \<and>
        ServiceTLSSecretName (ServiceTLS (EDService ?ed)) \<noteq> None)" if "cert = Some name" for name
    using that same tls pod by (simp add: cert_def split: option.splits if_splits)
  have off: "\<not> RouteTLSEnabled (RouteTLS (EDRoute ?ed))" if "cert = None"
    using that same tls by (simp add: cert_def split: option.splits if_splits)
  from CreateRoute_published [OF run1 on off]
  obtain layers host where a: "answered_since s1 t (ApplyRoute (route_of_endpoint L ?ed) layers) (OnApplyRoute E) (Result0, None, host)"
      and c: "\<forall>name. cert = Some name \<longrightarrow> cert_layer L E s1 t \<lparr>NName = name, NNamespace = EDNamespace ?ed\<rparr>
        (hasPublicServiceSecretName i) layers"
    by blast
  have f: "EDName ?ed = SvcName svc" "EDNamespace ?ed = SvcNamespace svc" "ServiceSpec (EDService ?ed) = svc"
    using core2 by (simp_all add: ed_core_def)
  define rd where "rd = route_of_endpoint L ?ed"
  have rd: "RDName rd = SvcName svc" "RDNamespace rd = SvcNamespace svc" "RDServiceName rd = SvcName svc"
      "RDLabels rd = getAPIServiceLabels L"
    using f by (simp_all add: rd_def)
  have layer: "cert_layer L E s t \<lparr>NName = TLSSecretName tls, NNamespace = SvcNamespace svc\<rparr>
      (hasPublicServiceSecretName i) layers"
    if "TLSOverride (APIOverride (Spec i)) = Some tls \<and> TLSSecretName tls \<noteq> []" for tls
  proof -
    from that have "cert = Some (TLSSecretName tls)" by (simp add: cert_def)
    with c f(2) have "cert_layer L E s1 t \<lparr>NName = TLSSecretName tls, NNamespace = SvcNamespace svc\<rparr>
        (hasPublicServiceSecretName i) layers" by simp
    then show ?thesis by (rule cert_layer_since(1) [OF e])
  qed
  note applied = answered_since_earlier [OF e a, folded rd_def]
  show ?thesis
    unfolding route_published_def by (intro exI conjI allI impI, rule applied, (rule rd)+, rule layer)
qed

lemma expose_service_published:
  assumes run: "run_state (expose_service L E i svc) s = (Next u, t)" and "wants_route L svc"
  shows "route_published L E s t i svc"
proof -
  let ?raw = "endpoint_of_service L i svc" and ?ed = "public_endpoint L i svc (endpoint_of_service L i svc)"
  from assms(2) have pub: "EDType ?raw = EndpointPublic"
    by (simp add: wants_route_def is_public_def endpoint_of_service_def Let_def)
  obtain ov where core: "ed_core ?ed = (SvcName svc, SvcNamespace svc, svc, True, ov)"
    using assms(2) by (simp add: ed_core_def public_endpoint_def endpoint_of_service_def Let_def wants_route_def)
  have off: "\<not> RouteTLSEnabled (RouteTLS (EDRoute ?ed))"
    and pod: "ServiceTLSEnabled (ServiceTLS (EDService ?ed)) = hasPublicServiceSecretName i"
    by (simp_all add: public_endpoint_def endpoint_of_service_def Let_def)
  from run have "run_state (continue (ingress_tls L E i ?ed) (\<lambda>ed. continue (pod_tls L E i ed) (\<lambda>ed. do {
             r \<leftarrow> ensureRoute L E i svc ed;
             return (stop_on_result r)
           }))) s = (Next u, t)"
    using pub by (simp add: expose_service_def Let_def)
  then obtain ed1 s1 ed2 s2 r where 1: "run_state (ingress_tls L E i ?ed) s = (Next ed1, s1)"
      and 2: "run_state (pod_tls L E i ed1) s1 = (Next ed2, s2)"
      and 3: "run_state (ensureRoute L E i svc ed2) s2 = (r, t)" and stop: "stop_on_result r = Next u"
    by (auto split: prod.splits elim!: continue_cases)
  from loud_stop [OF ensureRoute_loud 3 stop] obtain ed' where r: "r = Next ed'" ..
  have "route_published L E s2 t i svc"
  proof (rule ensureRoute_published [OF 3 [unfolded r]])
    show "ed_core ed2 = (SvcName svc, SvcNamespace svc, svc, True, ov)"
      using ingress_tls_core [OF 1] pod_tls_core [OF 2] core by simp
  qed (use ingress_tls_Next [OF 1 off] pod_tls_Next [OF 2] pod in
    \<open>auto simp: hasPublicServiceSecretName_def split: option.splits\<close>)
  moreover have "extends (\<lambda>_. True) s s2"
    using extends_trans [OF state_io_relD [OF ingress_tls_calls 1] state_io_relD [OF pod_tls_calls 2], of "\<lambda>_. True"]
    by simp
  ultimately show ?thesis
    using route_published_since [OF _ _ extends_refl] by blast
qed


lemma expose_service_any: "state_io_rel (extends (\<lambda>_. True)) (expose_service L E i svc)"
proof -
  have "extends (\<lambda>_. True) s (snd (run_state (expose_service L E i svc) s))" for s
    by (rule guarded_extends [OF expose_service_calls [of svc "[svc]" s "trace s" "[]"]]) simp_all
  then show ?thesis by (simp add: state_io_rel_def)
qed

lemma expose_services_any: "state_io_rel (extends (\<lambda>_. True)) (expose_services L E i svcs)"
  by (induction svcs) (simp_all add: ext.rel_return ext.rel_continue expose_service_any)

lemma expose_services_published:
  "run_state (expose_services L E i svcs) s = (Next u, t) \<Longrightarrow> svc \<in> set svcs \<Longrightarrow> wants_route L svc \<Longrightarrow>
   route_published L E s t i svc"
proof (induction svcs arbitrary: s)
  case (Cons v rest)
  from Cons.prems(1) obtain s1 where 1: "run_state (expose_service L E i v) s = (Next (), s1)"
      and 2: "run_state (expose_services L E i rest) s1 = (Next u, t)"
    by (auto elim!: continue_cases)
  have e1: "extends (\<lambda>_. True) s s1" by (rule state_io_relD [OF expose_service_any 1])
  note e2 = state_io_relD [OF expose_services_any 2]
  from Cons.prems(2) show ?case
  proof (cases "svc = v")
    case True
    from expose_service_published [OF 1 [folded True] Cons.prems(3)]
    show ?thesis by (rule route_published_since [OF extends_refl _ e2])
  next
    case False
    with Cons.prems(2) have "svc \<in> set rest" by simp
    from Cons.IH [OF 2 this Cons.prems(3)]
    show ?thesis by (rule route_published_since [OF e1 _ extends_refl])
  qed
qed simp

lemma exposeEndpoints_Next:
  assumes "run_state (exposeEndpoints L E) s = (Next u, t)"
  shows "run_state (expose_services L E (inst s) (services_seen L E s))
    (s\<lparr>trace := trace s @ [GetServicesListWithLabel (Namespace (inst s)) (getAPIServiceLabels L)]\<rparr>) = (Next u, t)"
  using assms by (auto simp: exposeEndpoints_def services_seen_def split: sum.splits if_splits)

lemma exposeEndpoints_published:
  assumes "run_state (exposeEndpoints L E) s = (Next u, t)" and "svc \<in> set (services_seen L E s)"
    and "wants_route L svc"
  shows "route_published L E s t (inst s) svc"
proof -
  let ?s1 = "s\<lparr>trace := trace s @ [GetServicesListWithLabel (Namespace (inst s)) (getAPIServiceLabels L)]\<rparr>"
  have "extends (\<lambda>_. True) s ?s1" by (simp add: extends_def)
  from route_published_since [OF this expose_services_published [OF exposeEndpoints_Next [OF assms(1)] assms(2,3)]
      extends_refl]
  show ?thesis .
qed

text \<open>
  C19. When \<open>exposeEndpoints\<close> lets the reconcile go on, every public ClusterIP service that asks for a
  route has one: it was applied under the service's name and accepted, and when the Watcher sets an
  ingress certificate the route carries the certificate, key and CA of that secret, which was read
  and has them all; with TLS in the pods as well it re-encrypts.
\<close>

theorem exposeEndpoints_publishes:
  assumes "run_state (exposeEndpoints L E) s = (Next u, t)"
  shows "\<forall>svc \<in> set (services_seen L E s). wants_route L svc \<longrightarrow> route_published L E s t (inst s) svc"
  using exposeEndpoints_published [OF assms] by blast

text \<open>
  C30. TLS in the pods without TLS at the ingress is refused: nothing is called after the services
  were listed, the error says so and \<open>ExposeServiceReady\<close> is False.
\<close>

theorem exposeEndpoints_refuses_pod_tls_alone:
  assumes "cond_laws L" and "hasPublicServiceSecretName (inst s)" and "\<not> hasIngressTLS (inst s)"
    and "OnGetServices E (trace s @ [GetServicesListWithLabel (Namespace (inst s)) (getAPIServiceLabels L)]) = Inr items"
    and "run_state (exposeEndpoints L E) s = (r, t)"
  shows "r = Ret Result0 (Some tls_mismatch_error) \<and>
    trace t = trace s @ [GetServicesListWithLabel (Namespace (inst s)) (getAPIServiceLabels L)] \<and>
    cstate ExposeServiceReadyCondition (inst t) = Some CFalse"
  using assms(2-5) by (auto simp: exposeEndpoints_def cond_lawsD [OF assms(1)])

section \<open>When a route is no longer wanted\<close>

text \<open>The route was deleted, with this Watcher as its only owner, or it was gone already.\<close>

definition route_withdrawn :: "lib \<Rightarrow> 'i env \<Rightarrow> 'i st \<Rightarrow> 'i st \<Rightarrow> Watcher \<Rightarrow> route \<Rightarrow> bool" where
  "route_withdrawn L E s t i rt \<longleftrightarrow>
     (\<exists>err. answered_since s t (DeleteRoute (rt\<lparr>RouteOwners := [instance_ref i]\<rparr>)) (OnDeleteRoute E) err \<and>
        (err = None \<or> IsNotFound L err))"

lemma route_withdrawn_since:
  "extends P s0 s \<Longrightarrow> route_withdrawn L E s t i rt \<Longrightarrow> extends Q t u \<Longrightarrow> route_withdrawn L E s0 u i rt"
  unfolding route_withdrawn_def by (blast intro: answered_since_later answered_since_earlier)

lemma delete_routes_any: "state_io_rel (extends (\<lambda>_. True)) (delete_routes L E i svc ed rts)"
  by (rule delete_routes_calls) simp

lemma delete_routes_withdrawn:
  assumes "run_state (delete_routes L E i svc ed rts) s = (Next ed', t)" and "rt \<in> set rts"
    and "map_get (SvcAnnotations svc) (AnnotationIngressCreateKey L) = ''false''"
    and "RouteTo rt = EDName ed" and "controls L i rt"
  shows "route_withdrawn L E s t i rt"
  using assms
proof (induction L E i svc ed rts arbitrary: s rule: delete_routes.induct)
  case (2 L E i svc ed rt' rest)
  let ?del = "DeleteRoute (rt'\<lparr>RouteOwners := [instance_ref i]\<rparr>)"
  show ?case
  proof (cases "route_to_delete L i svc ed rt'")
    case True
    let ?s1 = "s\<lparr>trace := trace s @ [?del]\<rparr>"
    let ?ed = "ed\<lparr>EDService := (EDService ed)\<lparr>ServiceOverrideSpec :=
             (ServiceOverrideSpec (EDService ed))\<lparr>OverrideEndpointURL := None\<rparr>\<rparr>\<rparr>"
    from True 2(3) have ok: "OnDeleteRoute E (trace s @ [?del]) = None \<or> IsNotFound L (OnDeleteRoute E (trace s @ [?del]))"
        and r: "run_state (delete_routes L E i svc ?ed rest) ?s1 = (Next ed', t)"
      by (auto split: if_splits)
    have e: "extends (\<lambda>_. True) s ?s1" by (simp add: extends_def)
    note e1 = state_io_relD [OF delete_routes_any r]
    have here: "route_withdrawn L E s t i rt'"
      unfolding route_withdrawn_def
      by (rule exI, rule conjI, rule answered_since_later [OF _ e1],
          rule answered_since_perform [OF extends_refl, of ?s1 s], simp, rule refl) (rule ok)
    show ?thesis
    proof (cases "rt = rt'")
      case False
      with 2(4) have "rt \<in> set rest" by simp
      from 2(1) [OF True _ r this] 2(5-7) ok have "route_withdrawn L E ?s1 t i rt" by auto
      then show ?thesis by (rule route_withdrawn_since [OF e _ extends_refl])
    qed (use here in simp)
  next
    case False
    with 2(5-7) have "rt \<noteq> rt'" by (auto simp: route_to_delete_def controls_def)
    with 2 False show ?thesis by auto
  qed
qed simp

text \<open>The routes that lead to a service were withdrawn, all those of a list this run was given.\<close>

definition routes_withdrawn ::
  "lib \<Rightarrow> Watcher env \<Rightarrow> Watcher st \<Rightarrow> Watcher st \<Rightarrow> Watcher \<Rightarrow> service_obj \<Rightarrow> bool" where
  "routes_withdrawn L E s t i svc \<longleftrightarrow>
     (\<exists>rts. answered_since s t (ListRoutes (Namespace i) (getAPIServiceLabels L)) (OnListRoutes E) (Inr rts) \<and>
        (\<forall>rt \<in> set rts. RouteTo rt = SvcName svc \<and> controls L i rt \<longrightarrow> route_withdrawn L E s t i rt))"

lemma routes_withdrawn_since:
  "extends P s0 s \<Longrightarrow> routes_withdrawn L E s t i svc \<Longrightarrow> extends Q t u \<Longrightarrow> routes_withdrawn L E s0 u i svc"
  unfolding routes_withdrawn_def by (blast intro: answered_since_later answered_since_earlier route_withdrawn_since)

lemma CreateRoute_any: "state_io_rel (extends (\<lambda>_. True)) (CreateRoute L E ed)"
  unfolding state_io_rel_def by (intro allI CreateRoute_calls TrueI)

lemma ensureRoute_withdrawn:
  assumes run: "run_state (ensureRoute L E i svc ed) s = (Next ed', t)"
    and "map_get (SvcAnnotations svc) (AnnotationIngressCreateKey L) = ''false''" and "EDName ed = SvcName svc"
  shows "routes_withdrawn L E s t i svc"
proof -
  let ?list = "ListRoutes (Namespace i) (getAPIServiceLabels L)"
  let ?s1 = "s\<lparr>trace := trace s @ [?list]\<rparr>"
  from run obtain rts ed1 s1 where rts: "OnListRoutes E (trace s @ [?list]) = Inr rts"
      and del: "run_state (delete_routes L E i svc ed rts) ?s1 = (Next ed1, s1)"
      and r: "run_state (if RouteCreate (EDRoute ed1)
           then CreateRoute L E ((with_embedded_labels ed1)\<lparr>EDLabels := getAPIServiceLabels L\<rparr>)
           else return (Next ed1)) s1 = (Next ed', t)"
    by (auto simp: ensureRoute_def GetRoutesListWithLabel_def split: sum.splits elim: continue_cases)
  have e: "extends (\<lambda>_. True) s ?s1" by (simp add: extends_def)
  have e1: "extends (\<lambda>_. True) s1 t"
    using r state_io_relD [OF CreateRoute_any] by (auto simp: extends_refl split: if_splits)
  note e2 = extends_trans [OF state_io_relD [OF delete_routes_any del] e1]
  have "answered_since s ?s1 ?list (OnListRoutes E) (Inr rts)"
    by (rule answered_since_perform [OF extends_refl]) (simp_all add: rts)
  note listed = answered_since_later [OF this e2]
  have "route_withdrawn L E s t i rt" if "rt \<in> set rts" "RouteTo rt = SvcName svc" "controls L i rt" for rt
    using delete_routes_withdrawn [OF del that(1) assms(2) _ that(3)] that(2) assms(3)
    by (intro route_withdrawn_since [OF e _ e1]) simp
  with listed show ?thesis unfolding routes_withdrawn_def by blast
qed

lemma expose_service_withdrawn:
  assumes run: "run_state (expose_service L E i svc) s = (Next u, t)" and "declines_route L svc"
  shows "routes_withdrawn L E s t i svc"
proof -
  let ?ed = "public_endpoint L i svc (endpoint_of_service L i svc)"
  from assms(2) have pub: "EDType (endpoint_of_service L i svc) = EndpointPublic"
      and f: "map_get (SvcAnnotations svc) (AnnotationIngressCreateKey L) = ''false''"
    by (simp_all add: declines_route_def is_public_def endpoint_of_service_def Let_def)
  have name: "EDName ?ed = SvcName svc"
    by (simp add: public_endpoint_def endpoint_of_service_def Let_def)
  from run have "run_state (continue (ingress_tls L E i ?ed) (\<lambda>ed. continue (pod_tls L E i ed) (\<lambda>ed. do {
             r \<leftarrow> ensureRoute L E i svc ed;
             return (stop_on_result r)
           }))) s = (Next u, t)"
    using pub by (simp add: expose_service_def Let_def)
  then obtain ed1 s1 ed2 s2 r where 1: "run_state (ingress_tls L E i ?ed) s = (Next ed1, s1)"
      and 2: "run_state (pod_tls L E i ed1) s1 = (Next ed2, s2)"
      and 3: "run_state (ensureRoute L E i svc ed2) s2 = (r, t)" and stop: "stop_on_result r = Next u"
    by (auto split: prod.splits elim!: continue_cases)
  from loud_stop [OF ensureRoute_loud 3 stop] obtain ed' where r: "r = Next ed'" ..
  have "EDName ed2 = SvcName svc"
    using ingress_tls_core [OF 1] pod_tls_core [OF 2] name by (simp add: ed_core_def)
  from ensureRoute_withdrawn [OF 3 [unfolded r] f this] have w: "routes_withdrawn L E s2 t i svc" .
  have "extends (\<lambda>_. True) s s2"
    using extends_trans [OF state_io_relD [OF ingress_tls_calls 1] state_io_relD [OF pod_tls_calls 2], of "\<lambda>_. True"]
    by simp
  then show ?thesis by (rule routes_withdrawn_since [OF _ w extends_refl])
qed

lemma expose_services_withdrawn:
  "run_state (expose_services L E i svcs) s = (Next u, t) \<Longrightarrow> svc \<in> set svcs \<Longrightarrow> declines_route L svc \<Longrightarrow>
   routes_withdrawn L E s t i svc"
proof (induction svcs arbitrary: s)
  case (Cons v rest)
  from Cons.prems(1) obtain s1 where 1: "run_state (expose_service L E i v) s = (Next (), s1)"
      and 2: "run_state (expose_services L E i rest) s1 = (Next u, t)"
    by (auto elim!: continue_cases)
  note e1 = state_io_relD [OF expose_service_any 1] and e2 = state_io_relD [OF expose_services_any 2]
  show ?case
  proof (cases "svc = v")
    case True
    from expose_service_withdrawn [OF 1 [folded True] Cons.prems(3)]
    show ?thesis by (rule routes_withdrawn_since [OF extends_refl _ e2])
  next
    case False
    with Cons.prems(2) have "svc \<in> set rest" by simp
    from Cons.IH [OF 2 this Cons.prems(3)]
    show ?thesis by (rule routes_withdrawn_since [OF e1 _ extends_refl])
  qed
qed simp

lemma exposeEndpoints_withdrawn:
  assumes "run_state (exposeEndpoints L E) s = (Next u, t)" and "svc \<in> set (services_seen L E s)"
    and "declines_route L svc"
  shows "routes_withdrawn L E s t (inst s) svc"
proof -
  let ?s1 = "s\<lparr>trace := trace s @ [GetServicesListWithLabel (Namespace (inst s)) (getAPIServiceLabels L)]\<rparr>"
  have "extends (\<lambda>_. True) s ?s1" by (simp add: extends_def)
  from routes_withdrawn_since [OF this expose_services_withdrawn [OF exposeEndpoints_Next [OF assms(1)] assms(2,3)]
      extends_refl]
  show ?thesis .
qed

text \<open>
  The services of the API were listed in this run, and every one of them has the route it asks for,
  or had the routes withdrawn that it declines.
\<close>

definition routes_settled :: "lib \<Rightarrow> Watcher env \<Rightarrow> Watcher \<Rightarrow> Watcher st \<Rightarrow> Watcher st \<Rightarrow> bool" where
  "routes_settled L E i s t \<longleftrightarrow>
     (\<exists>items. answered_since s t (GetServicesListWithLabel (Namespace i) (getAPIServiceLabels L))
          (OnGetServices E) (Inr items) \<and>
        (\<forall>svc \<in> set items. (wants_route L svc \<longrightarrow> route_published L E s t i svc) \<and>
           (declines_route L svc \<longrightarrow> routes_withdrawn L E s t i svc)))"

lemma routes_settled_since:
  assumes "extends P s0 s" and "routes_settled L E i s t" and "extends Q t u"
  shows "routes_settled L E i s0 u"
  using assms(2) answered_since_earlier [OF assms(1) answered_since_later [OF _ assms(3)]]
    route_published_since [OF assms(1) _ assms(3)] routes_withdrawn_since [OF assms(1) _ assms(3)]
  unfolding routes_settled_def by metis

lemma exposeEndpoints_settled:
  assumes run: "run_state (exposeEndpoints L E) s = (r, t)" and stop: "stop_on_result r = Next u"
  shows "routes_settled L E (inst s) s t"
proof -
  obtain v where r: "r = Next v" using loud_stop [OF exposeEndpoints_loud run stop] by blast
  note goes = run [unfolded r]
  let ?get = "GetServicesListWithLabel (Namespace (inst s)) (getAPIServiceLabels L)"
  let ?s1 = "s\<lparr>trace := trace s @ [?get]\<rparr>"
  have "OnGetServices E (trace s @ [?get]) = Inr (services_seen L E s)"
    using goes by (auto simp: exposeEndpoints_def services_seen_def split: sum.splits)
  then have "answered_since s ?s1 ?get (OnGetServices E) (Inr (services_seen L E s))"
    by (intro answered_since_perform [OF extends_refl]) simp_all
  from answered_since_later [OF this state_io_relD [OF expose_services_any exposeEndpoints_Next [OF goes]]]
  show ?thesis
    using exposeEndpoints_published [OF goes] exposeEndpoints_withdrawn [OF goes]
    unfolding routes_settled_def by blast
qed

text \<open>
  C24. When \<open>exposeEndpoints\<close> lets the reconcile go on, no public service that declines a route keeps
  one of ours: the routes of the API were listed in this run, and each of them that leads to the service
  and that this Watcher controls was deleted, or was gone when it was to be deleted.
\<close>

theorem exposeEndpoints_withdraws:
  assumes "run_state (exposeEndpoints L E) s = (Next u, t)"
  shows "\<forall>svc \<in> set (services_seen L E s). declines_route L svc \<longrightarrow>
    (\<exists>rts. answered_since s t (ListRoutes (Namespace (inst s)) (getAPIServiceLabels L)) (OnListRoutes E) (Inr rts) \<and>
      (\<forall>rt \<in> set rts. RouteTo rt = SvcName svc \<and> controls L (inst s) rt \<longrightarrow>
        route_withdrawn L E s t (inst s) rt))"
proof (intro ballI impI)
  fix svc assume "svc \<in> set (services_seen L E s)" and "declines_route L svc"
  from exposeEndpoints_withdrawn [OF assms this]
  show "\<exists>rts. answered_since s t (ListRoutes (Namespace (inst s)) (getAPIServiceLabels L)) (OnListRoutes E) (Inr rts) \<and>
      (\<forall>rt \<in> set rts. RouteTo rt = SvcName svc \<and> controls L (inst s) rt \<longrightarrow> route_withdrawn L E s t (inst s) rt)"
    by (simp only: routes_withdrawn_def)
qed

end
