(* ===== verification/WatcherController.thy ===== *)
theory WatcherController
  imports Endpoints
begin

text \<open>
  \<open>controllers/watcher_controller.go\<close>: the reconcile of a Watcher. It creates the database, the
  message bus URL and the Keystone service, writes the secret its sub-resources read, runs the
  database job, and only then applies the WatcherAPI, WatcherDecisionEngine and WatcherApplier, whose
  readiness it mirrors. \<open>Reconcile\<close> is cut at its early returns into blocks, in the order of the
  source.
\<close>

section \<open>Status\<close>

definition watcher_init_conditions :: "lib \<Rightarrow> condition list" where
  "watcher_init_conditions L =
     [UnknownCondition L ReadyCondition InitReason (LibMessage ''ReadyInitMessage''),
      UnknownCondition L DBReadyCondition InitReason (LibMessage ''DBReadyInitMessage''),
      UnknownCondition L WatcherRabbitMQTransportURLReadyCondition InitReason
        (LibMessage ''RabbitMqTransportURLReadyInitMessage''),
      UnknownCondition L InputReadyCondition InitReason (LibMessage ''InputReadyInitMessage''),
      UnknownCondition L KeystoneServiceReadyCondition InitReason (Text ''Service registration not started''),
      UnknownCondition L ServiceAccountReadyCondition InitReason (LibMessage ''ServiceAccountReadyInitMessage''),
      UnknownCondition L RoleReadyCondition InitReason (LibMessage ''RoleReadyInitMessage''),
      UnknownCondition L RoleBindingReadyCondition InitReason (LibMessage ''RoleBindingReadyInitMessage''),
      UnknownCondition L ServiceConfigReadyCondition InitReason (LibMessage ''ServiceConfigReadyInitMessage''),
      UnknownCondition L DBSyncReadyCondition InitReason (LibMessage ''DBSyncReadyInitMessage''),
      UnknownCondition L WatcherAPIReadyCondition InitReason WatcherAPIReadyInitMessage,
      UnknownCondition L WatcherApplierReadyCondition InitReason WatcherApplierReadyInitMessage,
      UnknownCondition L WatcherDecisionEngineReadyCondition InitReason WatcherDecisionEngineReadyInitMessage,
      UnknownCondition L CronJobReadyCondition InitReason (LibMessage ''CronJobReadyInitMessage''),
      UnknownCondition L ExposeServiceReadyCondition InitReason (LibMessage ''ExposeServiceReadyInitMessage'')]"

definition watcher_initConditions :: "lib \<Rightarrow> Watcher \<Rightarrow> Watcher" where
  "watcher_initConditions L i =
     (let i = (case Conditions i of None \<Rightarrow> i\<lparr>Conditions := Some []\<rparr> | Some _ \<Rightarrow> i)
      in i\<lparr>Conditions := CInit L (watcher_init_conditions L) (Conditions i)\<rparr>)"

definition watcher_initStatus :: "lib \<Rightarrow> Watcher \<Rightarrow> Watcher" where
  "watcher_initStatus L i =
     (let i = watcher_initConditions L i
      in i\<lparr>ObservedGeneration := Generation i,
           Hash := (case Hash i of None \<Rightarrow> Some Map.empty | Some m \<Rightarrow> Some m)\<rparr>)"

section \<open>Prerequisites\<close>

definition serviceLabels :: "lib \<Rightarrow> string_map" where
  "serviceLabels L = [AppSelector L \<mapsto> ServiceName]"

definition rbacRules :: "policy_rule list" where
  "rbacRules =
     [\<lparr>APIGroups = [''security.openshift.io''], ResourceNames = [''anyuid''],
       PolicyResources = [''securitycontextconstraints''], Verbs = [''use'']\<rparr>,
      \<lparr>APIGroups = [''''], ResourceNames = [], PolicyResources = [''pods''],
       Verbs = [''create'', ''get'', ''list'', ''watch'', ''update'', ''patch'', ''delete'']\<rparr>]"

text \<open>
  \<open>RbacConditionsSet\<close> has a value receiver: \<open>Set\<close> works on a copy of the slice header. A condition
  that is listed is replaced in the shared array; a new one is appended to the copy and lost.
\<close>

definition RbacConditionsSet :: "lib \<Rightarrow> condition \<Rightarrow> Watcher \<Rightarrow> Watcher" where
  "RbacConditionsSet L c i =
     (if cstate (Type c) i = None then i else i\<lparr>Conditions := CSet L (Some c) (Conditions i)\<rparr>)"

definition watcher_ensureRbac :: "lib \<Rightarrow> Watcher env \<Rightarrow> (Watcher st, unit flow) state" where
  "watcher_ensureRbac L E = do {
     (rbacResult, err, conds) \<leftarrow> perform (ReconcileRbac rbacRules) (OnReconcileRbac E);
     modify_inst (fold (RbacConditionsSet L) conds);
     if err \<noteq> None then return (Ret Result0 err) else return (Next ())
   }"

text \<open>The database the code asks for; the pointer to the MariaDB instance is dereferenced.\<close>

definition watcher_database_request :: "Watcher \<Rightarrow> database_request go" where
  "watcher_database_request i =
     (case deref (DatabaseInstance (Spec i)) of
        Panic p \<Rightarrow> Panic p
      | Val target \<Rightarrow> Val \<lparr>DBInstance = target, DBName = DatabaseName, DBCRName = DatabaseCRName,
          DBAccount = DatabaseAccountName (Spec i), DBNamespace = Namespace i\<rparr>)"

definition db_error :: "lib \<Rightarrow> error \<Rightarrow> (Watcher st, unit) state" where
  "db_error L err = set_false L DBReadyCondition ErrorReason SeverityWarning
     (LibMessage ''DBReadyErrorMessage'') [err_text err]"

definition db_running :: "lib \<Rightarrow> (Watcher st, unit) state" where
  "db_running L = set_false L DBReadyCondition RequestedReason SeverityInfo
     (LibMessage ''DBReadyRunningMessage'') []"

text \<open>
  \<open>ensureDB\<close> gives an error, or the database and a result to return when it is not the zero one.
\<close>

definition watcher_create_database ::
  "lib \<Rightarrow> Watcher env \<Rightarrow> database_request \<Rightarrow> (Watcher st, error + database \<times> result) state" where
  "watcher_create_database L E req = do {
     (ctrlResult, err, db) \<leftarrow> perform (ApplyDatabase req) (OnApplyDatabase E);
     case err of
       Some e \<Rightarrow> do { db_error L e; return (Inl e) }
     | None \<Rightarrow>
         if ctrlResult \<noteq> Result0 then do { db_running L; return (Inr (db, ctrlResult)) }
         else do {
           (ctrlResult, err) \<leftarrow> perform (WaitForDBCreated req) (OnWaitForDBCreated E);
           case err of
             Some e \<Rightarrow> do { db_error L e; return (Inl e) }
           | None \<Rightarrow>
               if ctrlResult \<noteq> Result0 then do { db_running L; return (Inr (db, ctrlResult)) }
               else do {
                 mark_true L DBReadyCondition (LibMessage ''DBReadyMessage'');
                 return (Inr (db, Result0))
               }
         }
   }"

definition watcher_ensureDB ::
  "lib \<Rightarrow> Watcher env \<Rightarrow> (Watcher st, (error + database \<times> result) go) state" where
  "watcher_ensureDB L E = do {
     i \<leftarrow> the_inst;
     err \<leftarrow> perform (EnsureMariaDBAccount (DatabaseAccountName (Spec i)) (Namespace i) DatabaseUsernamePrefix)
       (OnEnsureMariaDBAccount E);
     case err of
       Some e \<Rightarrow> do {
         set_false L MariaDBAccountReadyCondition ErrorReason SeverityWarning
           (LibMessage ''MariaDBAccountNotReadyMessage'') [err_text e];
         return (Val (Inl e))
       }
     | None \<Rightarrow> do {
         mark_true L MariaDBAccountReadyCondition (LibMessage ''MariaDBAccountReadyMessage'');
         case watcher_database_request i of
           Panic p \<Rightarrow> return (Panic p)
         | Val req \<Rightarrow> do {
             r \<leftarrow> watcher_create_database L E req;
             return (Val r)
           }
       }
   }"

text \<open>
  \<open>ensureMQ\<close>: the name of the URL's secret when the URL is ready, else nothing or an error. The
  pointer to the cluster name is dereferenced by the function that \<open>CreateOrUpdate\<close> calls once it has
  read the object: without a cluster name the call ends with the error of that read, or panics.
\<close>

definition watcher_ensureMQ ::
  "lib \<Rightarrow> Watcher env \<Rightarrow> (Watcher st, (error + string option) go) state" where
  "watcher_ensureMQ L E = do {
     i \<leftarrow> the_inst;
     (err, transportURL) \<leftarrow> perform
       (ApplyTransportURL \<lparr>NName = Name i @ ''-watcher-transport'', NNamespace = Namespace i\<rparr>
          (serviceLabels L) (RabbitMqClusterName (Spec i))) (OnApplyTransportURL E);
     if err \<noteq> None \<and> \<not> IsNotFound L err then
       return (Val (Inl (WrapErrorForObject L
         (''Error create or update TransportURL object '' @ Name i @ ''-watcher-transport'') (the err))))
     else (case deref (RabbitMqClusterName (Spec i)) of
       Panic p \<Rightarrow> return (Panic p)
     | Val cluster \<Rightarrow>
         if \<not> TransportReady transportURL \<or> TransportSecretName transportURL = [] then
           return (Val (Inr None))
         else do {
           got \<leftarrow> perform (GetSecret \<lparr>NName = TransportSecretName transportURL, NNamespace = Namespace i\<rparr>)
             (OnGetSecret E);
           case got of
             Inl err \<Rightarrow> return (Val (Inl err))
           | Inr sec \<Rightarrow>
               if Data sec TransportURLSelector = None then
                 return (Val (Inl (NewError (''the TransportURL secret '' @
                   TransportSecretName transportURL @ '' does not have 'transport_url' field''))))
               else do {
                 mark_true L WatcherRabbitMQTransportURLReadyCondition WatcherRabbitMQTransportURLReadyMessage;
                 return (Val (Inr (Some (TransportSecretName transportURL))))
               }
         })
   }"

text \<open>\<open>ensureKeystoneSvc\<close>\<close>

definition watcher_keystone_service :: "lib \<Rightarrow> Watcher \<Rightarrow> keystone_service" where
  "watcher_keystone_service L i =
     \<lparr>KSServiceType = ServiceType, KSServiceName = ServiceName, KSServiceDescription = ''Watcher Service'',
      KSEnabled = True, KSServiceUser = ServiceUser (Spec i), KSSecret = Secret (Spec i),
      KSPasswordSelector = ServiceSelector (PasswordSelectors (Spec i)),
      KSNamespace = Namespace i, KSLabels = serviceLabels L\<rparr>"

definition watcher_ensureKeystoneSvc ::
  "lib \<Rightarrow> Watcher env \<Rightarrow> (Watcher st, result \<times> error option) state" where
  "watcher_ensureKeystoneSvc L E = do {
     i \<leftarrow> the_inst;
     (ctrlResult, err, conds, serviceID) \<leftarrow> perform (ApplyKeystoneService (watcher_keystone_service L i))
       (OnApplyKeystoneService E);
     case err of
       Some e \<Rightarrow> do {
         set_false L KeystoneServiceReadyCondition CreationFailedReason SeverityError
           (Text ''Error while creating Keystone Service for Watcher'') [];
         return (ctrlResult, err)
       }
     | None \<Rightarrow> do {
         (case CMirror L KeystoneServiceReadyCondition conds of
            Some c \<Rightarrow> cond_set L (Some c) | None \<Rightarrow> return ());
         (if ctrlResult = Result0 then modify_inst (\<lambda>i. i\<lparr>ServiceID := serviceID\<rparr>) else return ());
         return (ctrlResult, None)
       }
   }"

section \<open>Configuration and the database job\<close>

definition watcher_labels :: "lib \<Rightarrow> Watcher \<Rightarrow> string_map" where
  "watcher_labels L i = GetLabels L \<lparr>NName = Name i, NNamespace = Namespace i\<rparr> ServiceName"

definition watcher_customData :: "Watcher \<Rightarrow> database \<Rightarrow> string_map" where
  "watcher_customData i db =
     [GlobalCustomConfigFileName \<mapsto> CustomServiceConfig (Spec i),
      ''my.cnf'' \<mapsto> ClientConfig db (CaBundleSecretName (TTLS (APIServiceTemplate (Spec i))) \<noteq> [])]"

definition watcher_templateParameters :: "Watcher \<Rightarrow> database \<Rightarrow> secret \<Rightarrow> (string \<times> param) list" where
  "watcher_templateParameters i db transporturlSecret =
     [(''DatabaseConnection'', PStr (database_connection (AccountUserName db) (DBSecretPassword db)
         (DatabaseHostname db))),
      (''TransportURL'', PStr (map_get (Data transporturlSecret) TransportURLSelector)),
      (''LogFile'', PStr (WatcherLogPath @ Name i @ ''.log'')),
      (''APIPublicPort'', PStr (itoa WatcherPublicPort))]"

definition watcher_generateServiceConfigDBJobs ::
  "lib \<Rightarrow> Watcher env \<Rightarrow> database \<Rightarrow> secret \<Rightarrow> env_vars \<Rightarrow> (Watcher st, env_vars \<times> error option) state" where
  "watcher_generateServiceConfigDBJobs L E db transporturlSecret envVars = do {
     i \<leftarrow> the_inst;
     GenerateConfigsGeneric E i envVars (watcher_templateParameters i db transporturlSecret)
       (watcher_customData i db) (watcher_labels L i) True
   }"

definition watcher_dbsync_request :: "lib \<Rightarrow> Watcher \<Rightarrow> job_request" where
  "watcher_dbsync_request L i =
     \<lparr>JobDef = DbSyncJob L i (serviceLabels L) Map.empty, JobHashType = DbSyncHash,
      JobPreserve = PreserveJobs (Spec i), JobBeforeHash = map_get (hash_map (Hash i)) DbSyncHash\<rparr>"

text \<open>The answer of the job is its result, its error, and its hash when that has changed.\<close>

definition watcher_ensureDBSync :: "lib \<Rightarrow> Watcher env \<Rightarrow> (Watcher st, result \<times> error option) state" where
  "watcher_ensureDBSync L E = do {
     i \<leftarrow> the_inst;
     (ctrlResult, err, hash) \<leftarrow> perform (DoJob (watcher_dbsync_request L i)) (OnDoJob E);
     if ctrlResult \<noteq> Result0 then do {
       set_false L DBSyncReadyCondition RequestedReason SeverityInfo (LibMessage ''DBSyncReadyRunningMessage'') [];
       return (ctrlResult, None)
     }
     else (case err of
         Some e \<Rightarrow> do {
           set_false L DBSyncReadyCondition ErrorReason SeverityWarning
             (LibMessage ''DBSyncReadyErrorMessage'') [err_text e];
           return (Result0, err)
         }
       | None \<Rightarrow> do {
           (case hash of
              Some h \<Rightarrow> modify_inst (\<lambda>i. i\<lparr>Hash := Some ((hash_map (Hash i))(DbSyncHash \<mapsto> h))\<rparr>)
            | None \<Rightarrow> return ());
           mark_true L DBSyncReadyCondition (LibMessage ''DBSyncReadyMessage'');
           return (ctrlResult, None)
         })
   }"

text \<open>The secret the sub-resources read: its data, and the call that stores it.\<close>

definition sub_level_data :: "Watcher \<Rightarrow> secret \<Rightarrow> secret \<Rightarrow> database \<Rightarrow> string_map" where
  "sub_level_data i transportURLSecret inputSecret db =
     (let selector = ServiceSelector (PasswordSelectors (Spec i))
      in [selector \<mapsto> map_get (Data inputSecret) selector,
          TransportURLSelector \<mapsto> map_get (Data transportURLSecret) TransportURLSelector,
          DatabaseAccount \<mapsto> AccountName db,
          DatabaseUsername \<mapsto> AccountUserName db,
          DatabasePassword \<mapsto> DBSecretPassword db,
          DatabaseHostnameKey \<mapsto> DatabaseHostname db,
          GlobalCustomConfigFileName \<mapsto> CustomServiceConfig (Spec i)])"

definition sub_level_template :: "lib \<Rightarrow> Watcher \<Rightarrow> secret \<Rightarrow> secret \<Rightarrow> database \<Rightarrow> template" where
  "sub_level_template L i transportURLSecret inputSecret db =
     \<lparr>TplName = Name i, TplNamespace = Namespace i, TplType = TemplateTypeNone, InstanceType = Kind i,
      ConfigOptions = [], CustomData = sub_level_data i transportURLSecret inputSecret db,
      TplLabels = watcher_labels L i, AdditionalTemplate = Map.empty\<rparr>"

definition watcher_createSubLevelSecret ::
  "lib \<Rightarrow> Watcher env \<Rightarrow> secret \<Rightarrow> secret \<Rightarrow> database \<Rightarrow> (Watcher st, string \<times> error option) state" where
  "watcher_createSubLevelSecret L E transportURLSecret inputSecret db = do {
     i \<leftarrow> the_inst;
     (_, err) \<leftarrow> perform (EnsureSecrets [sub_level_template L i transportURLSecret inputSecret db])
       (OnEnsureSecrets E);
     return (Name i, err)
   }"

definition watcher_ensureDBPurgeCronJob ::
  "lib \<Rightarrow> Watcher env \<Rightarrow> (Watcher st, (error option) go) state" where
  "watcher_ensureDBPurgeCronJob L E = do {
     i \<leftarrow> the_inst;
     case DBPurgeCronJob L i (serviceLabels L) Map.empty of
       Panic p \<Rightarrow> return (Panic p)
     | Val cronDef \<Rightarrow> do {
         (_, err) \<leftarrow> perform (ApplyCronJob cronDef) (OnApplyCronJob E);
         case err of
           Some e \<Rightarrow> do {
             set_false L CronJobReadyCondition ErrorReason SeverityWarning
               (LibMessage ''CronJobReadyErrorMessage'') [err_text e];
             return (Val err)
           }
         | None \<Rightarrow> do {
             mark_true L CronJobReadyCondition (LibMessage ''CronJobReadyMessage'');
             return (Val None)
           }
       }
   }"

section \<open>The sub-resources\<close>

text \<open>
  The specs of the three sub-resources. A service template without a node selector inherits the
  Watcher's. The applier's spec does not name the Prometheus secret.
\<close>

definition inherit_node_selector :: "string_map option \<Rightarrow> string_map option \<Rightarrow> string_map option" where
  "inherit_node_selector own top_level = (case own of None \<Rightarrow> top_level | Some m \<Rightarrow> Some m)"

definition watcher_api_spec :: "Watcher \<Rightarrow> string \<Rightarrow> WatcherAPISpec" where
  "watcher_api_spec i secretName =
     (let tpl = APIServiceTemplate (Spec i)
      in \<lparr>ServiceUser = ServiceUser (Spec i), PasswordSelectors = PasswordSelectors (Spec i),
          MemcachedInstance = MemcachedInstance (Spec i), PreserveJobs = PreserveJobs (Spec i),
          NodeSelector = inherit_node_selector (TNodeSelector tpl) (NodeSelector (Spec i)),
          CustomServiceConfig = TCustomServiceConfig tpl, PrometheusSecret = PrometheusSecret (Spec i),
          Secret = secretName, ContainerImage = APIContainerImageURL (Images (Spec i)),
          Resources = TResources tpl, ServiceAccount = ''watcher-'' @ Name i, Replicas = TReplicas tpl,
          Override = TOverride tpl, TLS = TTLS tpl\<rparr>)"

definition watcher_applier_spec :: "Watcher \<Rightarrow> string \<Rightarrow> WatcherApplierSpec" where
  "watcher_applier_spec i secretName =
     (let tpl = ApplierServiceTemplate (Spec i)
      in \<lparr>ServiceUser = ServiceUser (Spec i), PasswordSelectors = PasswordSelectors (Spec i),
          MemcachedInstance = MemcachedInstance (Spec i), PreserveJobs = PreserveJobs (Spec i),
          NodeSelector = inherit_node_selector (TNodeSelector tpl) (NodeSelector (Spec i)),
          CustomServiceConfig = TCustomServiceConfig tpl, PrometheusSecret = [],
          Secret = secretName, ContainerImage = ApplierContainerImageURL (Images (Spec i)),
          Resources = TResources tpl, ServiceAccount = ''watcher-'' @ Name i, Replicas = TReplicas tpl,
          TLSCa = tls_Ca.truncate (TTLS (APIServiceTemplate (Spec i)))\<rparr>)"

definition watcher_de_spec :: "Watcher \<Rightarrow> string \<Rightarrow> WatcherDecisionEngineSpec" where
  "watcher_de_spec i secretName =
     (let tpl = DecisionEngineServiceTemplate (Spec i)
      in \<lparr>ServiceUser = ServiceUser (Spec i), PasswordSelectors = PasswordSelectors (Spec i),
          MemcachedInstance = MemcachedInstance (Spec i), PreserveJobs = PreserveJobs (Spec i),
          NodeSelector = inherit_node_selector (TNodeSelector tpl) (NodeSelector (Spec i)),
          CustomServiceConfig = TCustomServiceConfig tpl, PrometheusSecret = PrometheusSecret (Spec i),
          Secret = secretName, ContainerImage = DecisionEngineContainerImageURL (Images (Spec i)),
          Resources = TResources tpl, ServiceAccount = ''watcher-'' @ Name i, Replicas = TReplicas tpl,
          DETLSCa = tls_Ca.truncate (TTLS (APIServiceTemplate (Spec i)))\<rparr>)"

text \<open>
  What the three \<open>ensure\<close> functions do with the answer: a False condition for an error, else, once the
  sub-resource's controller has seen its spec, a mirror of its conditions and its ready count.
\<close>

definition sub_failed :: "lib \<Rightarrow> ctype \<Rightarrow> cmsg \<Rightarrow> error \<Rightarrow> (Watcher st, error option) state" where
  "sub_failed L t msg err = do {
     set_false L t ErrorReason SeverityError msg [err_text err];
     return (Some err)
   }"

definition mirror_sub ::
  "lib \<Rightarrow> ctype \<Rightarrow> 'spec sub_cr \<Rightarrow> (int \<Rightarrow> Watcher \<Rightarrow> Watcher) \<Rightarrow> (Watcher st, error option) state" where
  "mirror_sub L t sub set_count = do {
     (if Generation sub = ObservedGeneration sub then do {
        (case CMirror L t (Conditions sub) of Some c \<Rightarrow> cond_set L (Some c) | None \<Rightarrow> return ());
        modify_inst (set_count (ReadyCount sub))
      } else return ());
     return None
   }"

definition watcher_ensureAPI :: "lib \<Rightarrow> Watcher env \<Rightarrow> string \<Rightarrow> (Watcher st, error option) state" where
  "watcher_ensureAPI L E secretName = do {
     i \<leftarrow> the_inst;
     got \<leftarrow> perform (ApplyWatcherAPI \<lparr>NName = Name i @ ''-api'', NNamespace = Namespace i\<rparr>
       (watcher_api_spec i secretName)) (OnApplyWatcherAPI E);
     case got of
       Inl err \<Rightarrow> sub_failed L WatcherAPIReadyCondition WatcherAPIReadyErrorMessage err
     | Inr sub \<Rightarrow> mirror_sub L WatcherAPIReadyCondition sub (\<lambda>n i. i\<lparr>APIServiceReadyCount := n\<rparr>)
   }"

definition watcher_ensureApplier :: "lib \<Rightarrow> Watcher env \<Rightarrow> string \<Rightarrow> (Watcher st, error option) state" where
  "watcher_ensureApplier L E secretName = do {
     i \<leftarrow> the_inst;
     got \<leftarrow> perform (ApplyWatcherApplier \<lparr>NName = Name i @ ''-applier'', NNamespace = Namespace i\<rparr>
       (watcher_applier_spec i secretName)) (OnApplyWatcherApplier E);
     case got of
       Inl err \<Rightarrow> sub_failed L WatcherApplierReadyCondition WatcherApplierReadyErrorMessage err
     | Inr sub \<Rightarrow> mirror_sub L WatcherApplierReadyCondition sub (\<lambda>n i. i\<lparr>ApplierServiceReadyCount := n\<rparr>)
   }"

definition watcher_ensureDecisionEngine ::
  "lib \<Rightarrow> Watcher env \<Rightarrow> string \<Rightarrow> (Watcher st, error option) state" where
  "watcher_ensureDecisionEngine L E secretName = do {
     i \<leftarrow> the_inst;
     got \<leftarrow> perform (ApplyWatcherDecisionEngine \<lparr>NName = Name i @ ''-decision-engine'', NNamespace = Namespace i\<rparr>
       (watcher_de_spec i secretName)) (OnApplyWatcherDecisionEngine E);
     case got of
       Inl err \<Rightarrow> sub_failed L WatcherDecisionEngineReadyCondition WatcherDecisionEngineReadyErrorMessage err
     | Inr sub \<Rightarrow> mirror_sub L WatcherDecisionEngineReadyCondition sub
         (\<lambda>n i. i\<lparr>DecisionEngineServiceReadyCount := n\<rparr>)
   }"

section \<open>Deletion\<close>

definition watcher_release_database :: "lib \<Rightarrow> Watcher env \<Rightarrow> (Watcher st, unit flow) state" where
  "watcher_release_database L E = do {
     i \<leftarrow> the_inst;
     got \<leftarrow> perform (GetDatabaseByNameAndAccount DatabaseCRName (DatabaseAccountName (Spec i)) (Namespace i))
       (OnGetDatabase E);
     case got of
       Inl err \<Rightarrow> if \<not> IsNotFound L (Some err) then return (Ret Result0 (Some err)) else return (Next ())
     | Inr db \<Rightarrow> do {
         err \<leftarrow> perform (DeleteDatabaseFinalizer db) (OnDeleteDatabaseFinalizer E);
         case err of Some e \<Rightarrow> return (Ret Result0 (Some e)) | None \<Rightarrow> return (Next ())
       }
   }"

definition watcher_release_keystone :: "lib \<Rightarrow> Watcher env \<Rightarrow> (Watcher st, unit flow) state" where
  "watcher_release_keystone L E = do {
     i \<leftarrow> the_inst;
     got \<leftarrow> perform (GetKeystoneServiceWithName ServiceName (Namespace i)) (OnGetKeystoneService E);
     case got of
       Inl err \<Rightarrow> if \<not> IsNotFound L (Some err) then return (Ret Result0 (Some err)) else return (Next ())
     | Inr finalizers \<Rightarrow>
         (case RemoveFinalizer L (GetFinalizer L (Kind i)) finalizers of
            (fs, removed) \<Rightarrow>
              if removed then do {
                err \<leftarrow> perform (UpdateKeystoneService fs) (OnUpdateKeystoneService E);
                if err \<noteq> None \<and> \<not> IsNotFound L err then return (Ret Result0 err) else return (Next ())
              } else return (Next ()))
   }"

text \<open>An error of the read is not looked at: the secret may then keep the finalizer.\<close>

definition watcher_release_prometheus :: "lib \<Rightarrow> Watcher env \<Rightarrow> (Watcher st, unit flow) state" where
  "watcher_release_prometheus L E = do {
     i \<leftarrow> the_inst;
     got \<leftarrow> perform (GetSecret \<lparr>NName = PrometheusSecret (Spec i), NNamespace = Namespace i\<rparr>) (OnGetSecret E);
     case got of
       Inl err \<Rightarrow> return (Next ())
     | Inr sec \<Rightarrow>
         (case RemoveFinalizer L (GetFinalizer L (Kind i)) (SecretFinalizers sec) of
            (fs, removed) \<Rightarrow>
              if removed then do {
                err \<leftarrow> perform (UpdateSecret (sec\<lparr>SecretFinalizers := fs\<rparr>)) (OnUpdateSecret E);
                if err \<noteq> None \<and> \<not> IsNotFound L err then return (Ret Result0 err) else return (Next ())
              } else return (Next ()))
   }"

definition watcher_reconcileDelete :: "lib \<Rightarrow> Watcher env \<Rightarrow> (Watcher st, unit flow) state" where
  "watcher_reconcileDelete L E =
     continue (watcher_release_database L E) (\<lambda>_.
     continue (watcher_release_keystone L E) (\<lambda>_.
     continue (watcher_release_prometheus L E) (\<lambda>_. do {
       drop_own_finalizer L;
       return (Ret Result0 None)
     })))"

section \<open>Reconcile\<close>

definition watcher_database :: "lib \<Rightarrow> Watcher env \<Rightarrow> (Watcher st, database flow) state" where
  "watcher_database L E =
     call_go (watcher_ensureDB L E) (\<lambda>r.
       case r of
         Inl err \<Rightarrow> return (Ret Result0 (Some err))
       | Inr p \<Rightarrow> if snd p \<noteq> Result0 then return (Ret (snd p) None) else return (Next (fst p)))"

definition watcher_transport :: "lib \<Rightarrow> Watcher env \<Rightarrow> (Watcher st, string flow) state" where
  "watcher_transport L E =
     call_go (watcher_ensureMQ L E) (\<lambda>r.
       case r of
         Inl err \<Rightarrow> do {
           set_false L WatcherRabbitMQTransportURLReadyCondition ErrorReason SeverityWarning
             WatcherRabbitMQTransportURLReadyErrorMessage [err_text err];
           return (Ret Result0 (Some err))
         }
       | Inr transportURL \<Rightarrow>
           (case transportURL of
              None \<Rightarrow> do {
                set_false L WatcherRabbitMQTransportURLReadyCondition RequestedReason SeverityWarning
                  WatcherRabbitMQTransportURLReadyRunningMessage [];
                return (Ret \<lparr>Requeue = False, RequeueAfter = seconds 10\<rparr> None)
              }
            | Some secretName \<Rightarrow> return (Next secretName)))"

text \<open>
  Reading a secret in this reconcile: an error and an empty hash both end it with an error of its
  own, whose text names the secret.
\<close>

definition watcher_secret ::
  "lib \<Rightarrow> Watcher env \<Rightarrow> string \<Rightarrow> string list \<Rightarrow> string \<Rightarrow> (Watcher st, secret flow) state" where
  "watcher_secret L E name expectedFields failure = do {
     i \<leftarrow> the_inst;
     (hash, _, sec, err) \<leftarrow> ensureSecret L E (\<lambda>c. cond_set L (Some c))
       \<lparr>NName = name, NNamespace = Namespace i\<rparr> expectedFields;
     if err \<noteq> None \<or> hash = [] then return (Ret Result0 (Some (NewError failure)))
     else return (Next sec)
   }"

definition watcher_input_secrets ::
  "lib \<Rightarrow> Watcher env \<Rightarrow> string \<Rightarrow> (Watcher st, (secret \<times> secret) flow) state" where
  "watcher_input_secrets L E transportSecretName = do {
     i \<leftarrow> the_inst;
     continue (watcher_secret L E (Secret (Spec i)) [ServiceSelector (PasswordSelectors (Spec i))]
       ''error retrieving required data from secret'') (\<lambda>inputSecret.
     continue (watcher_secret L E transportSecretName [TransportURLSelector]
       ''error retrieving required data from transporturl secret'') (\<lambda>transporturlSecret.
     return (Next (inputSecret, transporturlSecret))))
   }"

text \<open>The Prometheus secret, which gets the finalizer so that it is not deleted while in use.\<close>

definition watcher_prometheus :: "lib \<Rightarrow> Watcher env \<Rightarrow> (Watcher st, unit flow) state" where
  "watcher_prometheus L E = do {
     i \<leftarrow> the_inst;
     (hashPrometheus, _, sec, err) \<leftarrow> ensureSecret L E (\<lambda>c. cond_set L (Some c))
       \<lparr>NName = PrometheusSecret (Spec i), NNamespace = Namespace i\<rparr> [PrometheusHost, PrometheusPort];
     if err \<noteq> None \<or> hashPrometheus = [] then do {
       set_false L InputReadyCondition RequestedReason SeverityWarning WatcherPrometheusSecretErrorMessage [];
       return (Ret Result0 (Some (NewError ''error retrieving required data from prometheus secret'')))
     }
     else (case AddFinalizer L (GetFinalizer L (Kind i)) (SecretFinalizers sec) of
         (fs, added) \<Rightarrow>
           if added then do {
             err \<leftarrow> perform (UpdateSecret (sec\<lparr>SecretFinalizers := fs\<rparr>)) (OnUpdateSecret E);
             case err of
               Some e \<Rightarrow> do {
                 set_false L InputReadyCondition RequestedReason SeverityWarning WatcherPrometheusSecretErrorMessage [];
                 return (Ret Result0 (Some e))
               }
             | None \<Rightarrow> return (Next ())
           } else return (Next ()))
   }"

text \<open>An error here ends the reconcile without an error.\<close>

definition watcher_sub_level_secret ::
  "lib \<Rightarrow> Watcher env \<Rightarrow> secret \<Rightarrow> secret \<Rightarrow> database \<Rightarrow> (Watcher st, string flow) state" where
  "watcher_sub_level_secret L E transporturlSecret inputSecret db = do {
     (subLevelSecretName, err) \<leftarrow> watcher_createSubLevelSecret L E transporturlSecret inputSecret db;
     if err \<noteq> None then return (Ret Result0 None)
     else do {
       mark_true L InputReadyCondition (LibMessage ''InputReadyMessage'');
       return (Next subLevelSecretName)
     }
   }"

definition watcher_keystone :: "lib \<Rightarrow> Watcher env \<Rightarrow> (Watcher st, unit flow) state" where
  "watcher_keystone L E = do {
     (_, err) \<leftarrow> watcher_ensureKeystoneSvc L E;
     if err \<noteq> None then return (Ret Result0 err) else return (Next ())
   }"

definition watcher_config ::
  "lib \<Rightarrow> Watcher env \<Rightarrow> database \<Rightarrow> secret \<Rightarrow> (Watcher st, unit flow) state" where
  "watcher_config L E db transporturlSecret = do {
     (_, err) \<leftarrow> watcher_generateServiceConfigDBJobs L E db transporturlSecret [];
     case err of
       Some e \<Rightarrow> do {
         set_false L ServiceConfigReadyCondition ErrorReason SeverityWarning
           (LibMessage ''ServiceConfigReadyErrorMessage'') [err_text e];
         return (Ret Result0 err)
       }
     | None \<Rightarrow> do {
         mark_true L ServiceConfigReadyCondition (LibMessage ''ServiceConfigReadyMessage'');
         return (Next ())
       }
   }"

definition watcher_dbsync :: "lib \<Rightarrow> Watcher env \<Rightarrow> (Watcher st, unit flow) state" where
  "watcher_dbsync L E = do {
     (ctrlResult, err) \<leftarrow> watcher_ensureDBSync L E;
     if err \<noteq> None then return (Ret Result0 err)
     else if ctrlResult \<noteq> Result0 then return (Ret ctrlResult None)
     else return (Next ())
   }"

definition watcher_cronjob :: "lib \<Rightarrow> Watcher env \<Rightarrow> (Watcher st, unit flow) state" where
  "watcher_cronjob L E =
     call_go (watcher_ensureDBPurgeCronJob L E) (\<lambda>err.
       if err \<noteq> None then return (Ret Result0 err) else return (Next ()))"

text \<open>\<open>if err != nil { return ctrl.Result{}, err }\<close>\<close>

definition stop_on_error :: "('s, error option) state \<Rightarrow> ('s, unit flow) state" where
  "stop_on_error m = do { err \<leftarrow> m; if err \<noteq> None then return (Ret Result0 err) else return (Next ()) }"

definition watcher_expose :: "lib \<Rightarrow> Watcher env \<Rightarrow> (Watcher st, unit flow) state" where
  "watcher_expose L E = do {
     r \<leftarrow> exposeEndpoints L E;
     case stop_on_result r of
       Crash p \<Rightarrow> return (Crash p)
     | Ret ctrlResult err \<Rightarrow>
         (case err of
            Some e \<Rightarrow> do {
              set_false L ExposeServiceReadyCondition ErrorReason SeverityWarning
                (LibMessage ''ExposeServiceReadyErrorMessage'') [err_text e];
              return (Ret ctrlResult err)
            }
          | None \<Rightarrow> do {
              set_false L ExposeServiceReadyCondition RequestedReason SeverityInfo
                (LibMessage ''ExposeServiceReadyRunningMessage'') [];
              return (Ret ctrlResult None)
            })
     | Next _ \<Rightarrow> do {
         mark_true L ExposeServiceReadyCondition (LibMessage ''ExposeServiceReadyMessage'');
         return (Next ())
       }
   }"

definition watcher_unused_accounts :: "lib \<Rightarrow> Watcher env \<Rightarrow> (Watcher st, unit flow) state" where
  "watcher_unused_accounts L E = do {
     i \<leftarrow> the_inst;
     err \<leftarrow> perform (DeleteUnusedMariaDBAccountFinalizers DatabaseCRName (DatabaseAccountName (Spec i)) (Namespace i))
       (OnDeleteUnusedFinalizers E);
     if err \<noteq> None then return (Ret Result0 err) else return (Next ())
   }"

text \<open>The second half of the normal reconcile: what runs once the database is synced.\<close>

definition watcher_services :: "lib \<Rightarrow> Watcher env \<Rightarrow> string \<Rightarrow> (Watcher st, unit flow) state" where
  "watcher_services L E subLevelSecretName =
     continue (stop_on_error (watcher_ensureAPI L E subLevelSecretName)) (\<lambda>_.
     continue (watcher_expose L E) (\<lambda>_.
     continue (stop_on_error (watcher_ensureDecisionEngine L E subLevelSecretName)) (\<lambda>_.
     continue (stop_on_error (watcher_ensureApplier L E subLevelSecretName)) (\<lambda>_.
     continue (watcher_unused_accounts L E) (\<lambda>_.
     finish_reconcile L)))))"

definition watcher_normal :: "lib \<Rightarrow> Watcher env \<Rightarrow> (Watcher st, unit flow) state" where
  "watcher_normal L E =
     continue (watcher_database L E) (\<lambda>db.
     continue (watcher_transport L E) (\<lambda>transportSecretName.
     continue (watcher_input_secrets L E transportSecretName) (\<lambda>(inputSecret, transporturlSecret).
     continue (watcher_prometheus L E) (\<lambda>_.
     continue (watcher_sub_level_secret L E transporturlSecret inputSecret db) (\<lambda>subLevelSecretName.
     continue (watcher_keystone L E) (\<lambda>_.
     continue (watcher_config L E db transporturlSecret) (\<lambda>_.
     continue (watcher_dbsync L E) (\<lambda>_.
     continue (watcher_cronjob L E) (\<lambda>_.
     watcher_services L E subLevelSecretName)))))))))"

definition watcher_body :: "lib \<Rightarrow> Watcher env \<Rightarrow> bool \<Rightarrow> (Watcher st, unit flow) state" where
  "watcher_body L E isNewInstance = do {
     modify_inst (watcher_initStatus L);
     continue (watcher_ensureRbac L E) (\<lambda>_.
       finalizer_gate L isNewInstance (watcher_reconcileDelete L E) (watcher_normal L E))
   }"

definition watcher_Reconcile ::
  "lib \<Rightarrow> Watcher env \<Rightarrow> nsname \<Rightarrow> (Watcher st, (result \<times> error option) go) state" where
  "watcher_Reconcile L E req = do {
     got \<leftarrow> perform (GetInstance req) (OnGetInstance E);
     case got of
       Inl err \<Rightarrow> return (Val (Result0, if IsNotFound L (Some err) then None else Some err))
     | Inr i \<Rightarrow> do {
         modify_inst (\<lambda>_. i);
         case NewHelper E of
           Some err \<Rightarrow> return (Val (Result0, Some err))
         | None \<Rightarrow> patch_on_exit L E (Conditions i) (outcome (watcher_body L E (Conditions i = None)))
       }
   }"

section \<open>Frames\<close>

text \<open>
  The relations that tell what a run may change of a Watcher all have the same shape: calls do not
  matter, the counters, the service ID and the job hash do not either, and conditions may change for
  the types the relation is open to. One walk over the blocks serves them all.
\<close>

locale watcher_frame = step_relation R for R :: "Watcher st \<Rightarrow> Watcher st \<Rightarrow> bool" +
  fixes L :: lib and open_to :: "ctype \<Rightarrow> bool"
  assumes frame_call: "R s (s\<lparr>trace := h\<rparr>)"
    and frame_false: "open_to t \<Longrightarrow> state_io_rel R (set_false L t rs sv m args)"
    and frame_true: "open_to t \<Longrightarrow> state_io_rel R (mark_true L t m)"
    and frame_mirror: "open_to t \<Longrightarrow> CMirror L t cs = Some c \<Longrightarrow> state_io_rel R (cond_set L (Some c))"
    and frame_fields: "state_io_rel R (modify_inst (\<lambda>i. i\<lparr>ServiceID := x\<rparr>))"
      "state_io_rel R (modify_inst (\<lambda>i. i\<lparr>APIServiceReadyCount := n\<rparr>))"
      "state_io_rel R (modify_inst (\<lambda>i. i\<lparr>ApplierServiceReadyCount := n\<rparr>))"
      "state_io_rel R (modify_inst (\<lambda>i. i\<lparr>DecisionEngineServiceReadyCount := n\<rparr>))"
      "state_io_rel R (modify_inst (\<lambda>i. i\<lparr>Hash := Some ((hash_map (Hash i))(DbSyncHash \<mapsto> y))\<rparr>))"
begin

lemma frame_perform: "state_io_rel R (perform c answer)" "state_io_rel R the_inst"
  using frame_call by (auto simp: state_io_rel_def R_refl)

lemmas frame_rules = flow_rules frame_perform frame_false frame_true frame_mirror frame_fields

lemma frame_secrets:
  assumes "open_to InputReadyCondition"
  shows "state_io_rel R (watcher_input_secrets L E n)" "state_io_rel R (watcher_prometheus L E)"
  unfolding watcher_input_secrets_def watcher_secret_def watcher_prometheus_def ensureSecret_def
    set_false_def [symmetric]
  by (intro frame_rules assms)+

lemma frame_expose:
  assumes "open_to ExposeServiceReadyCondition"
  shows "state_io_rel R (watcher_expose L E)"
proof -
  have del: "state_io_rel R (delete_routes L E i svc ed rts)" for i svc ed rts
  proof (induction rts arbitrary: ed)
    case (Cons rt rest)
    then show ?case unfolding delete_routes.simps by (intro flow_rules frame_perform; blast)
  qed (simp add: rel_return)
  have svc: "state_io_rel R (expose_service L E i svc)" for i svc
    unfolding expose_service_def ingress_tls_def pod_tls_def validate_cert_def ensureRoute_def
      GetRoutesListWithLabel_def CreateRoute_def CreateRoute_host_def CreateRoute_tls_def
      CreateRoute_cert_def CreateRoute_tls_config_def
    by (intro flow_rules frame_perform del)
  have "state_io_rel R (expose_services L E i svcs)" for i svcs
  proof (induction svcs)
    case (Cons v rest)
    then show ?case unfolding expose_services.simps by (intro rel_continue svc)
  qed (simp add: rel_return)
  then show ?thesis
    unfolding watcher_expose_def exposeEndpoints_def by (intro frame_rules assms)
qed

lemma frame_blocks:
  "open_to MariaDBAccountReadyCondition \<Longrightarrow> open_to DBReadyCondition \<Longrightarrow> state_io_rel R (watcher_database L E)"
  "open_to WatcherRabbitMQTransportURLReadyCondition \<Longrightarrow> state_io_rel R (watcher_transport L E)"
  "open_to InputReadyCondition \<Longrightarrow> state_io_rel R (watcher_sub_level_secret L E tsec isec db)"
  "open_to KeystoneServiceReadyCondition \<Longrightarrow> state_io_rel R (watcher_keystone L E)"
  "open_to ServiceConfigReadyCondition \<Longrightarrow> state_io_rel R (watcher_config L E db tsec)"
  "open_to DBSyncReadyCondition \<Longrightarrow> state_io_rel R (watcher_dbsync L E)"
  "open_to CronJobReadyCondition \<Longrightarrow> state_io_rel R (watcher_cronjob L E)"
  "open_to WatcherAPIReadyCondition \<Longrightarrow> state_io_rel R (stop_on_error (watcher_ensureAPI L E n))"
  "open_to WatcherDecisionEngineReadyCondition \<Longrightarrow> state_io_rel R (stop_on_error (watcher_ensureDecisionEngine L E n))"
  "open_to WatcherApplierReadyCondition \<Longrightarrow> state_io_rel R (stop_on_error (watcher_ensureApplier L E n))"
  "state_io_rel R (watcher_unused_accounts L E)"
  "open_to ReadyCondition \<Longrightarrow> state_io_rel R (finish_reconcile L)"
  unfolding watcher_database_def watcher_ensureDB_def watcher_create_database_def db_error_def db_running_def
    watcher_transport_def watcher_ensureMQ_def watcher_sub_level_secret_def watcher_createSubLevelSecret_def
    watcher_keystone_def watcher_ensureKeystoneSvc_def watcher_config_def watcher_generateServiceConfigDBJobs_def
    GenerateConfigsGeneric_def watcher_dbsync_def watcher_ensureDBSync_def watcher_cronjob_def
    watcher_ensureDBPurgeCronJob_def stop_on_error_def watcher_ensureAPI_def watcher_ensureDecisionEngine_def
    watcher_ensureApplier_def sub_failed_def mirror_sub_def watcher_unused_accounts_def finish_reconcile_def
  by (intro frame_rules; assumption)+

lemma frame_normal:
  assumes "\<And>t. open_to t"
  shows "state_io_rel R (watcher_normal L E)"
  unfolding watcher_normal_def watcher_services_def
  by (intro flow_rules frame_blocks frame_secrets frame_expose assms)

end

text \<open>A relation that the end of a deletion, where the finalizer is dropped, keeps to as well.\<close>

locale watcher_delete_frame = watcher_frame R L open_to
  for R :: "Watcher st \<Rightarrow> Watcher st \<Rightarrow> bool" and L open_to +
  assumes frame_drop: "state_io_rel R (drop_own_finalizer L)"
begin

lemma frame_delete: "state_io_rel R (watcher_reconcileDelete L E)"
  unfolding watcher_reconcileDelete_def watcher_release_database_def watcher_release_keystone_def
    watcher_release_prometheus_def
  by (intro frame_rules frame_drop)

end

lemma identity_watcher_fields [simp]:
  "identity ((i :: Watcher)\<lparr>ServiceID := x\<rparr>) = identity i"
  "identity (i\<lparr>APIServiceReadyCount := n\<rparr>) = identity i"
  "identity (i\<lparr>ApplierServiceReadyCount := n\<rparr>) = identity i"
  "identity (i\<lparr>DecisionEngineServiceReadyCount := n\<rparr>) = identity i"
  by (simp_all add: identity_def)

lemma cstate_watcher_fields [simp]:
  "cstate t ((i :: Watcher)\<lparr>ServiceID := x\<rparr>) = cstate t i"
  "cstate t (i\<lparr>APIServiceReadyCount := n\<rparr>) = cstate t i"
  "cstate t (i\<lparr>ApplierServiceReadyCount := n\<rparr>) = cstate t i"
  "cstate t (i\<lparr>DecisionEngineServiceReadyCount := n\<rparr>) = cstate t i"
  by (simp_all add: cstate_def)

interpretation id_frame: watcher_delete_frame "keeps identity" L "\<lambda>_. True" for L
  by unfold_locales (auto simp: keeps_def identity_ops keeps_modify drop_own_finalizer_rules)

interpretation cs_frame: watcher_delete_frame "keeps (cstate u)" L "\<lambda>t. cond_laws L \<and> t \<noteq> u" for u L
  by unfold_locales
    (auto simp: keeps_def keeps_cstate keeps_modify drop_own_finalizer_rules, metis keeps_cstate_Some mirror_type)

interpretation cd_frame: watcher_delete_frame "conds L" L "\<lambda>_. True" for L
  by unfold_locales (auto simp: conds_def conds_ops conds_modify drop_own_finalizer_rules intro: cond_steps.same)


section \<open>The calls\<close>

text \<open>Every block makes calls of its own kinds only.\<close>

lemma watcher_calls:
  "(\<And>a n p. P (EnsureMariaDBAccount a n p)) \<Longrightarrow> (\<And>r. P (ApplyDatabase r)) \<Longrightarrow> (\<And>r. P (WaitForDBCreated r)) \<Longrightarrow>
   state_io_rel (extends P) (watcher_database L E)"
  "(\<And>n l c. P (ApplyTransportURL n l c)) \<Longrightarrow> (\<And>n. P (GetSecret n)) \<Longrightarrow> state_io_rel (extends P) (watcher_transport L E)"
  "(\<And>n. P (GetSecret n)) \<Longrightarrow> state_io_rel (extends P) (watcher_input_secrets L E n)"
  "(\<And>n. P (GetSecret n)) \<Longrightarrow> (\<And>x. P (UpdateSecret x)) \<Longrightarrow> state_io_rel (extends P) (watcher_prometheus L E)"
  "(\<And>cms. P (EnsureSecrets cms)) \<Longrightarrow> state_io_rel (extends P) (watcher_sub_level_secret L E tsec isec db)"
  "(\<And>k. P (ApplyKeystoneService k)) \<Longrightarrow> state_io_rel (extends P) (watcher_keystone L E)"
  "(\<And>cms. P (EnsureSecrets cms)) \<Longrightarrow> state_io_rel (extends P) (watcher_config L E db tsec)"
  "(\<And>j. P (DoJob j)) \<Longrightarrow> state_io_rel (extends P) (watcher_dbsync L E)"
  "(\<And>j. P (ApplyCronJob j)) \<Longrightarrow> state_io_rel (extends P) (watcher_cronjob L E)"
  "(\<And>c a n. P (DeleteUnusedMariaDBAccountFinalizers c a n)) \<Longrightarrow> state_io_rel (extends P) (watcher_unused_accounts L E)"
  "(\<And>r. P (ReconcileRbac r)) \<Longrightarrow> state_io_rel (extends P) (watcher_ensureRbac L E)"
  "state_io_rel (extends P) (finish_reconcile L)"
  unfolding watcher_database_def watcher_ensureDB_def watcher_create_database_def db_error_def db_running_def
    watcher_transport_def watcher_ensureMQ_def watcher_sub_level_secret_def watcher_createSubLevelSecret_def
    watcher_keystone_def watcher_ensureKeystoneSvc_def watcher_config_def watcher_generateServiceConfigDBJobs_def
    GenerateConfigsGeneric_def watcher_dbsync_def watcher_ensureDBSync_def watcher_cronjob_def
    watcher_ensureDBPurgeCronJob_def watcher_unused_accounts_def watcher_input_secrets_def watcher_secret_def
    watcher_prometheus_def ensureSecret_def watcher_ensureRbac_def finish_reconcile_def
  by (intro ext_rules; assumption | simp)+

lemma watcher_delete_calls:
  assumes "\<And>d a n. P (GetDatabaseByNameAndAccount d a n)" "\<And>d. P (DeleteDatabaseFinalizer d)"
    "\<And>k n. P (GetKeystoneServiceWithName k n)" "\<And>fs. P (UpdateKeystoneService fs)"
    "\<And>n. P (GetSecret n)" "\<And>x. P (UpdateSecret x)"
  shows "state_io_rel (extends P) (watcher_release_database L E)"
    "state_io_rel (extends P) (watcher_release_keystone L E)"
    "state_io_rel (extends P) (watcher_release_prometheus L E)"
    "state_io_rel (extends P) (watcher_reconcileDelete L E)"
  unfolding watcher_reconcileDelete_def watcher_release_database_def watcher_release_keystone_def
    watcher_release_prometheus_def
  by (intro ext_rules drop_own_finalizer_rules assms)+

definition sub_call :: "Watcher call \<Rightarrow> bool" where
  "sub_call c \<longleftrightarrow> (case c of ApplyWatcherAPI n x \<Rightarrow> True | ApplyWatcherApplier n x \<Rightarrow> True
     | ApplyWatcherDecisionEngine n x \<Rightarrow> True | _ \<Rightarrow> False)"

lemma ensure_sub_calls:
  "(\<And>n x. P (ApplyWatcherAPI n x)) \<Longrightarrow> state_io_rel (extends P) (stop_on_error (watcher_ensureAPI L E name))"
  "(\<And>n x. P (ApplyWatcherDecisionEngine n x)) \<Longrightarrow>
    state_io_rel (extends P) (stop_on_error (watcher_ensureDecisionEngine L E name))"
  "(\<And>n x. P (ApplyWatcherApplier n x)) \<Longrightarrow> state_io_rel (extends P) (stop_on_error (watcher_ensureApplier L E name))"
  unfolding stop_on_error_def watcher_ensureAPI_def watcher_ensureDecisionEngine_def watcher_ensureApplier_def
    sub_failed_def mirror_sub_def
  by (intro ext_rules; simp)+

lemma expose_calls:
  assumes "\<And>c. route_calls c \<Longrightarrow> P c"
  shows "state_io_rel (extends P) (watcher_expose L E)"
proof -
  have "extends P s (snd (run_state (exposeEndpoints L E) s))" for s
    by (rule extends_mono [OF exposeEndpoints_calls]) (rule assms)
  then have "state_io_rel (extends P) (exposeEndpoints L E)" by (simp add: state_io_rel_def)
  then show ?thesis unfolding watcher_expose_def by (intro ext_rules)
qed

lemma route_calls_no_patch: "route_calls c \<Longrightarrow> no_patch c"
  by (cases c) (simp_all add: route_calls_def no_patch_def)


section \<open>The controller\<close>

lemma watcher_init_unknown:
  assumes "cond_laws L" and "t \<in> Type ` set (watcher_init_conditions L)"
  shows "cstate t (watcher_initStatus L i) = Some CUnknown"
proof -
  have "distinct (map Type (watcher_init_conditions L))"
    and "\<forall>c \<in> set (watcher_init_conditions L). Status c = CUnknown"
    by (simp_all add: watcher_init_conditions_def cond_lawsD [OF assms(1)])
  then show ?thesis
    using assms status_of_init_unknown
    by (simp add: watcher_initStatus_def watcher_initConditions_def Let_def)
qed

lemma watcher_init_fields:
  "identity (watcher_initStatus L i) = identity i"
  "hash_map (Hash (watcher_initStatus L i)) = hash_map (Hash i)"
  "Finalizers (watcher_initStatus L i) = Finalizers i"
  by (simp_all add: watcher_initStatus_def watcher_initConditions_def Let_def identity_def hash_map_def
      split: option.splits)

lemma RbacConditionsSet_fields:
  "identity (RbacConditionsSet L c i) = identity i" "Finalizers (RbacConditionsSet L c i) = Finalizers i"
  "cond_laws L \<Longrightarrow> t \<noteq> Type c \<Longrightarrow> cstate t (RbacConditionsSet L c i) = cstate t i"
  by (auto simp: RbacConditionsSet_def cond_lawsD cstate_def)

lemma rbac_fold:
  "identity (fold (RbacConditionsSet L) cs i) = identity i"
  "Finalizers (fold (RbacConditionsSet L) cs i) = Finalizers i"
  "cond_laws L \<Longrightarrow> t \<notin> Type ` set cs \<Longrightarrow> cstate t (fold (RbacConditionsSet L) cs i) = cstate t i"
  by (induction cs arbitrary: i) (simp_all add: RbacConditionsSet_fields)

lemma rbac_fold_conds: "cond_steps L (Conditions i) (Conditions (fold (RbacConditionsSet L) cs i))"
proof (induction cs arbitrary: i)
  case (Cons c cs)
  show ?case
    using cond_steps_trans [OF Cons.IH [of "RbacConditionsSet L c i"]]
    by (simp add: RbacConditionsSet_def cond_steps.intros)
qed (simp add: cond_steps.same)

lemma rbac_frames:
  "state_io_rel (keeps identity) (watcher_ensureRbac L E)"
  "state_io_rel (keeps Finalizers) (watcher_ensureRbac L E)"
  "state_io_rel (conds L) (watcher_ensureRbac L E)"
proof -
  show "state_io_rel (keeps identity) (watcher_ensureRbac L E)"
    and "state_io_rel (keeps Finalizers) (watcher_ensureRbac L E)"
    unfolding watcher_ensureRbac_def by (intro keep_rules rbac_fold)+
  have "state_io_rel (conds L) (modify_inst (fold (RbacConditionsSet L) cs))" for cs
    by (auto simp: state_io_rel_def conds_def rbac_fold_conds)
  then show "state_io_rel (conds L) (watcher_ensureRbac L E)"
    unfolding watcher_ensureRbac_def by (intro cd.flow_rules conds_effects)
qed

text \<open>Reconciling the RBAC objects reports three conditions; they are all listed when it is called.\<close>

definition rbac_types :: "ctype set" where
  "rbac_types = {ServiceAccountReadyCondition, RoleReadyCondition, RoleBindingReadyCondition}"

definition rbac_law :: "Watcher env \<Rightarrow> bool" where
  "rbac_law E \<longleftrightarrow> (\<forall>h. \<forall>c \<in> set (snd (snd (OnReconcileRbac E h))). Type c \<in> rbac_types)"

lemma rbac_cstate:
  assumes "cond_laws L" and "rbac_law E" and "t \<notin> rbac_types"
  shows "state_io_rel (keeps (cstate t)) (watcher_ensureRbac L E)"
proof -
  have "cstate t (fold (RbacConditionsSet L) (snd (snd (OnReconcileRbac E h))) i) = cstate t i" for h i
    by (rule rbac_fold(3) [OF assms(1)]) (use assms(2,3) in \<open>auto simp: rbac_law_def\<close>)
  then show ?thesis
    by (auto simp: watcher_ensureRbac_def state_io_rel_def keeps_def split: prod.split) (metis snd_conv)+
qed

lemma watcher_shape: "watcher_Reconcile L E req = reconcile_shape L (\<lambda>i. i) (watcher_body L) E req"
  by (simp add: watcher_Reconcile_def reconcile_shape_def cong: option.case_cong sum.case_cong)

lemma watcher_normal_calls:
  assumes "\<And>c. P c \<or> c \<in> range PatchInstance"
  shows "state_io_rel (extends P) (watcher_normal L E)" "state_io_rel (extends P) (watcher_reconcileDelete L E)"
proof -
  have P: "no_patch c \<Longrightarrow> P c" for c using assms [of c] by (auto simp: no_patch_def)
  show "state_io_rel (extends P) (watcher_normal L E)" "state_io_rel (extends P) (watcher_reconcileDelete L E)"
    unfolding watcher_normal_def watcher_services_def
    by (intro ext_rules watcher_calls ensure_sub_calls expose_calls watcher_delete_calls;
      (rule P, erule route_calls_no_patch | rule P, simp add: no_patch_def))+
qed

lemma watcher_body_frames:
  "state_io_rel (keeps identity) (watcher_body L E new)"
  "state_io_rel (extends no_patch) (watcher_body L E new)"
proof -
  show "state_io_rel (keeps identity) (watcher_body L E new)"
    unfolding watcher_body_def
    by (intro kp.flow_rules keeps_modify gate_keeps rbac_frames id_frame.frame_normal id_frame.frame_delete;
      simp add: watcher_init_fields)
  have "no_patch c \<or> c \<in> range PatchInstance" for c :: "Watcher call" by (auto simp: no_patch_def)
  then show "state_io_rel (extends no_patch) (watcher_body L E new)"
    unfolding watcher_body_def
    by (intro ext_rules gate_extends watcher_normal_calls watcher_calls; simp add: no_patch_def)
qed

lemma watcher_listed:
  assumes L: "cond_laws L" and "t \<in> Type ` set (watcher_init_conditions L)"
  shows "cstate t (inst (snd (run_state (watcher_body L E new) s))) \<noteq> None"
  unfolding watcher_body_def
  by (rule listed_after_init [OF L])
    (use assms in \<open>auto intro!: cd.rel_continue rbac_frames gate_conds cd_frame.frame_normal cd_frame.frame_delete
      simp: watcher_init_unknown\<close>)

interpretation watcher: reconciler L "\<lambda>i. i" "watcher_body L" "watcher_Reconcile L" for L
  by unfold_locales
    (simp_all add: watcher_shape watcher_body_frames watcher_listed watcher_init_conditions_def cond_lawsD)

end
