(* ===== verification/APIController.thy ===== *)
theory APIController
  imports ServiceCommon
begin

text \<open>
  \<open>controllers/watcherapi_controller.go\<close>: the reconcile of a WatcherAPI. Over the other two services
  it validates the TLS inputs, and once the deployment is ready it exposes the service and registers
  it in Keystone.
\<close>

section \<open>Status and deletion\<close>

definition api_init_conditions :: "lib \<Rightarrow> condition list" where
  "api_init_conditions L =
     [UnknownCondition L ReadyCondition InitReason (LibMessage ''ReadyInitMessage''),
      UnknownCondition L InputReadyCondition InitReason (LibMessage ''InputReadyInitMessage''),
      UnknownCondition L TLSInputReadyCondition InitReason (LibMessage ''InputReadyInitMessage''),
      UnknownCondition L ServiceConfigReadyCondition InitReason (LibMessage ''ServiceConfigReadyInitMessage''),
      UnknownCondition L MemcachedReadyCondition InitReason (LibMessage ''MemcachedReadyInitMessage''),
      UnknownCondition L DeploymentReadyCondition InitReason (LibMessage ''DeploymentReadyInitMessage''),
      UnknownCondition L CreateServiceReadyCondition InitReason (LibMessage ''CreateServiceReadyInitMessage''),
      UnknownCondition L KeystoneEndpointReadyCondition InitReason (Text ''KeystoneEndpoint not created'')]"

definition api_initStatus :: "lib \<Rightarrow> WatcherAPI \<Rightarrow> WatcherAPI" where
  "api_initStatus L i =
     i\<lparr>Conditions := CInit L (api_init_conditions L) (Conditions i),
       ObservedGeneration := Generation i,
       Hash := (case Hash i of None \<Rightarrow> Some Map.empty | Some m \<Rightarrow> Some m)\<rparr>"

definition api_ensureKeystoneEndpointDeletion ::
  "lib \<Rightarrow> WatcherAPI env \<Rightarrow> (WatcherAPI st, error option) state" where
  "api_ensureKeystoneEndpointDeletion L E = do {
     i \<leftarrow> the_inst;
     got \<leftarrow> perform (GetKeystoneEndpointWithName ServiceName (Namespace i)) (OnGetKeystoneEndpoint E);
     case got of
       Inl err \<Rightarrow> return (if IsNotFound L (Some err) then None else Some err)
     | Inr endpoint \<Rightarrow>
         (case RemoveFinalizer L (GetFinalizer L (Kind i)) endpoint of
            (fs, updated) \<Rightarrow>
              if \<not> updated then return None
              else do {
                err \<leftarrow> perform (UpdateKeystoneEndpoint fs) (OnUpdateKeystoneEndpoint E);
                return (if err \<noteq> None \<and> \<not> IsNotFound L err then err else None)
              })
   }"

definition api_reconcileDelete :: "lib \<Rightarrow> WatcherAPI env \<Rightarrow> (WatcherAPI st, unit flow) state" where
  "api_reconcileDelete L E = do {
     err \<leftarrow> api_ensureKeystoneEndpointDeletion L E;
     if err \<noteq> None then return (Ret Result0 err)
     else continue (release_memcached L E) (\<lambda>_. do {
       drop_own_finalizer L;
       return (Ret Result0 None)
     })
   }"

section \<open>Configuration\<close>

definition api_vhost :: "lib \<Rightarrow> WatcherAPI \<Rightarrow> string \<Rightarrow> (string \<times> param) list" where
  "api_vhost L i endpt =
     [(''ServerName'', PStr (ServiceName @ ''-'' @ endpt @ ''.'' @ Namespace i @ ''.svc'')),
      (''TLS'', PBool (APIEnabled L (TLS (Spec i)) endpt))] @
     (if APIEnabled L (TLS (Spec i)) endpt then
        [(''SSLCertificateFile'', PStr (''/etc/pki/tls/certs/'' @ endpt @ ''.crt'')),
         (''SSLCertificateKeyFile'', PStr (''/etc/pki/tls/private/'' @ endpt @ ''.key''))]
      else []) @
     [(''Port'', PStr (itoa WatcherPublicPort))]"

definition api_templateParameters ::
  "lib \<Rightarrow> WatcherAPI \<Rightarrow> secret \<Rightarrow> secret \<Rightarrow> memcached \<Rightarrow> string \<Rightarrow> (string \<times> param) list" where
  "api_templateParameters L i sec prometheusSecret memcached keystoneInternalURL =
     service_parameters L i sec memcached keystoneInternalURL (CaBundleSecretName (TLS (Spec i))) @
     [(''LogFile'', PStr (WatcherLogPath @ Name i @ ''.log''))] @
     prometheus_parameters prometheusSecret @
     [(''VHosts'', PMap (map (\<lambda>endpt. (endpt, PMap (api_vhost L i endpt))) [EndpointInternal, EndpointPublic]))]"

definition api_generateServiceConfigs ::
  "lib \<Rightarrow> WatcherAPI env \<Rightarrow> secret \<Rightarrow> secret \<Rightarrow> memcached \<Rightarrow> env_vars \<Rightarrow>
   (WatcherAPI st, env_vars \<times> error option) state" where
  "api_generateServiceConfigs L E sec prometheusSecret memcached envVars = do {
     i \<leftarrow> the_inst;
     let labels = GetLabels L \<lparr>NName = Name i, NNamespace = Namespace i\<rparr> WatcherAPILabelPrefix;
     sources \<leftarrow> config_sources L E sec;
     case sources of
       Inl err \<Rightarrow> return (envVars, Some err)
     | Inr (keystoneInternalURL, db) \<Rightarrow>
         GenerateConfigsGeneric E i envVars
           (api_templateParameters L i sec prometheusSecret memcached keystoneInternalURL)
           (service_customData i sec db (CaBundleSecretName (TLS (Spec i)))) labels False
   }"

definition api_createHashOfInputHashes ::
  "lib \<Rightarrow> env_vars \<Rightarrow> (WatcherAPI st, string \<times> bool \<times> error option) state" where
  "api_createHashOfInputHashes L envVars = input_hash L envVars"

section \<open>Deployment\<close>

definition api_ensureDeployment ::
  "lib \<Rightarrow> WatcherAPI env \<Rightarrow> secret \<Rightarrow> string \<Rightarrow> (WatcherAPI st, (result \<times> error option) go) state" where
  "api_ensureDeployment L E prometheusSecret configHash = do {
     i \<leftarrow> the_inst;
     case api_StatefulSet L i configHash (prometheus_ca_of prometheusSecret) (getAPIServiceLabels L) of
       Inl err \<Rightarrow> do {
         set_false L DeploymentReadyCondition ErrorReason SeverityWarning
           (LibMessage ''DeploymentReadyErrorMessage'') [err_text err];
         return (Val (Result0, Some err))
       }
     | Inr statefulSetDef \<Rightarrow> do {
         (ctrlResult, errorResult, ss) \<leftarrow> perform (ApplyStatefulSet statefulSetDef) (OnApplyStatefulSet E);
         case errorResult of
           Some e \<Rightarrow> do {
             set_false L DeploymentReadyCondition ErrorReason SeverityWarning
               (LibMessage ''DeploymentReadyErrorMessage'') [err_text e];
             return (Val (ctrlResult, errorResult))
           }
         | None \<Rightarrow>
             if ctrlResult \<noteq> Result0 then do {
               set_false L DeploymentReadyCondition RequestedReason SeverityInfo
                 (LibMessage ''DeploymentReadyRunningMessage'') [];
               return (Val (ctrlResult, None))
             } else observe_statefulset L ss
       }
   }"

section \<open>Exposing the service\<close>

text \<open>The Service of one endpoint: what it is made from, and its annotations.\<close>

definition api_service_def :: "lib \<Rightarrow> WatcherAPI \<Rightarrow> string \<Rightarrow> service_details" where
  "api_service_def L i endpointType =
     \<lparr>SvcName = ServiceName @ ''-'' @ endpointType, SvcNamespace = Namespace i,
      SvcLabels = MergeStringMaps L (getAPIServiceLabels L) [AnnotationEndpointKey L \<mapsto> endpointType],
      SvcSelector = getAPIServiceLabels L, SvcPort = WatcherPublicPort\<rparr>"

definition api_service_override :: "WatcherAPI \<Rightarrow> string \<Rightarrow> RoutedOverrideSpec" where
  "api_service_override i endpointType =
     (let svcOverride = (case Service (Override (Spec i)) endpointType of
            None \<Rightarrow> RoutedOverrideSpec0 | Some ov \<Rightarrow> ov)
      in case EmbeddedLabelsAnnotations svcOverride of
           None \<Rightarrow> svcOverride\<lparr>EmbeddedLabelsAnnotations := Some []\<rparr> | Some _ \<Rightarrow> svcOverride)"

definition api_annotate_service ::
  "lib \<Rightarrow> WatcherAPI env \<Rightarrow> string \<Rightarrow> service_obj \<Rightarrow> service_obj" where
  "api_annotate_service L E endpointType svc =
     (let add = (\<lambda>m svc. svc\<lparr>SvcAnnotations := AddAnnotation L (SvcAnnotations svc) m\<rparr>);
          svc = add [AnnotationEndpointKey L \<mapsto> endpointType] svc
      in if endpointType = EndpointPublic \<and> SvcType svc = ServiceTypeClusterIP
         then add [AnnotationIngressCreateKey L \<mapsto> ''true''] svc
         else (let svc = add [AnnotationIngressCreateKey L \<mapsto> ''false''] svc
               in if SvcType svc = ServiceTypeLoadBalancer
                  then add [AnnotationHostnameKey L \<mapsto> ServiceHostname E svc] svc else svc))"

text \<open>One turn of the loop: the endpoint's URL, or the result and error to return.\<close>

definition api_expose_endpoint ::
  "lib \<Rightarrow> WatcherAPI env \<Rightarrow> string \<Rightarrow> (WatcherAPI st, (result \<times> error option) + string) state" where
  "api_expose_endpoint L E endpointType = do {
     i \<leftarrow> the_inst;
     h \<leftarrow> State_Monad.get;
     case OnNewService E (trace h) (api_service_def L i endpointType) (api_service_override i endpointType) of
       Inl err \<Rightarrow> do {
         set_false L CreateServiceReadyCondition ErrorReason SeverityWarning
           (LibMessage ''CreateServiceReadyErrorMessage'') [err_text err];
         return (Inl (Result0, Some err))
       }
     | Inr svc \<Rightarrow> do {
         let svc = api_annotate_service L E endpointType svc;
         (ctrlResult, err) \<leftarrow> perform (ApplyService svc) (OnApplyService E);
         case err of
           Some e \<Rightarrow> do {
             set_false L CreateServiceReadyCondition ErrorReason SeverityWarning
               (LibMessage ''CreateServiceReadyErrorMessage'') [err_text e];
             return (Inl (ctrlResult, Some e))
           }
         | None \<Rightarrow>
             if ctrlResult \<noteq> Result0 then do {
               set_false L CreateServiceReadyCondition RequestedReason SeverityInfo
                 (LibMessage ''CreateServiceReadyRunningMessage'') [];
               return (Inl (ctrlResult, None))
             }
             else (case APIEndpoint E svc (OverrideEndpointURL (api_service_override i endpointType))
                     (if APIEnabled L (TLS (Spec i)) endpointType then Some ''https'' else None) of
                 Inl err \<Rightarrow> return (Inl (Result0, Some err))
               | Inr url \<Rightarrow> return (Inr url))
       }
   }"

fun api_expose_loop ::
  "lib \<Rightarrow> WatcherAPI env \<Rightarrow> string list \<Rightarrow> string_map \<Rightarrow>
   (WatcherAPI st, (result \<times> error option) + string_map) state" where
  "api_expose_loop L E [] apiEndpoints = return (Inr apiEndpoints)"
| "api_expose_loop L E (endpointType # rest) apiEndpoints = do {
     r \<leftarrow> api_expose_endpoint L E endpointType;
     case r of
       Inl stop \<Rightarrow> return (Inl stop)
     | Inr url \<Rightarrow> api_expose_loop L E rest (apiEndpoints(endpointType \<mapsto> url))
   }"

text \<open>The loop ranges over a map with two keys, in an order the runtime picks.\<close>

definition api_ensureServiceExposed ::
  "lib \<Rightarrow> WatcherAPI env \<Rightarrow> (WatcherAPI st, (result \<times> error option) + string_map) state" where
  "api_ensureServiceExposed L E = do {
     s \<leftarrow> State_Monad.get;
     r \<leftarrow> api_expose_loop L E
       (if PortsOrder E (trace s) then [EndpointPublic, EndpointInternal]
        else [EndpointInternal, EndpointPublic]) Map.empty;
     case r of
       Inl stop \<Rightarrow> return (Inl stop)
     | Inr apiEndpoints \<Rightarrow> do {
         mark_true L CreateServiceReadyCondition (LibMessage ''CreateServiceReadyMessage'');
         return (Inr apiEndpoints)
       }
   }"

definition api_ensureKeystoneEndpoint ::
  "lib \<Rightarrow> WatcherAPI env \<Rightarrow> string_map \<Rightarrow> (WatcherAPI st, result \<times> error option) state" where
  "api_ensureKeystoneEndpoint L E apiEndpoints = do {
     i \<leftarrow> the_inst;
     (ctrlResult, err, conds) \<leftarrow> perform (ApplyKeystoneEndpoint
         \<lparr>KEName = ServiceName, KENamespace = Namespace i, KEEndpoints = apiEndpoints,
          KELabels = getAPIServiceLabels L\<rparr>) (OnApplyKeystoneEndpoint E);
     case err of
       Some e \<Rightarrow> return (ctrlResult, err)
     | None \<Rightarrow> do {
         (case CMirror L KeystoneEndpointReadyCondition conds of
            Some c \<Rightarrow> cond_set L (Some c) | None \<Rightarrow> return ());
         return (ctrlResult, None)
       }
   }"

section \<open>Reconcile\<close>

definition api_inputs ::
  "lib \<Rightarrow> WatcherAPI env \<Rightarrow> (WatcherAPI st, (secret \<times> secret \<times> env_vars) flow) state" where
  "api_inputs L E =
     continue (service_secret L E) (\<lambda>(sec, configVars).
     continue (prometheus_secret L E configVars) (\<lambda>(prometheusSecret, configVars). do {
       mark_true L InputReadyCondition (LibMessage ''InputReadyMessage'');
       return (Next (sec, prometheusSecret, configVars))
     }))"

definition api_memcached :: "lib \<Rightarrow> WatcherAPI env \<Rightarrow> (WatcherAPI st, memcached flow) state" where
  "api_memcached L E = claim_memcached L E"

definition api_config ::
  "lib \<Rightarrow> WatcherAPI env \<Rightarrow> secret \<Rightarrow> secret \<Rightarrow> env_vars \<Rightarrow> memcached \<Rightarrow> (WatcherAPI st, env_vars flow) state" where
  "api_config L E sec prometheusSecret configVars memcached = do {
     (configVars, err) \<leftarrow> api_generateServiceConfigs L E sec prometheusSecret memcached configVars;
     case err of
       Some e \<Rightarrow> return (Ret Result0 err)
     | None \<Rightarrow> return (Next configVars)
   }"

text \<open>The CA bundle, when the spec names one, then the certificate secrets of both endpoints.\<close>

definition api_validate_ca ::
  "lib \<Rightarrow> WatcherAPI env \<Rightarrow> env_vars \<Rightarrow> (WatcherAPI st, env_vars flow) state" where
  "api_validate_ca L E configVars = do {
     i \<leftarrow> the_inst;
     if CaBundleSecretName (TLS (Spec i)) = [] then return (Next configVars)
     else do {
       got \<leftarrow> perform (ValidateCACertSecret
           \<lparr>NName = CaBundleSecretName (TLS (Spec i)), NNamespace = Namespace i\<rparr>) (OnValidateCACertSecret E);
       case got of
         Inl err \<Rightarrow>
           if IsNotFound L (Some err) then do {
             set_false L TLSInputReadyCondition RequestedReason SeverityInfo
               (Sprintf (LibMessage ''TLSInputReadyWaitingMessage'') [CaBundleSecretName (TLS (Spec i))]) [];
             return (Ret Result0 None)
           } else do {
             set_false L TLSInputReadyCondition ErrorReason SeverityWarning
               (LibMessage ''TLSInputErrorMessage'') [err_text err];
             return (Ret Result0 (Some err))
           }
       | Inr hash \<Rightarrow>
           return (Next (if hash \<noteq> [] then (CABundleKey L, SetValue hash) # configVars else configVars))
     }
   }"

definition api_validate_certs ::
  "lib \<Rightarrow> WatcherAPI env \<Rightarrow> env_vars \<Rightarrow> (WatcherAPI st, env_vars flow) state" where
  "api_validate_certs L E configVars = do {
     i \<leftarrow> the_inst;
     got \<leftarrow> perform (ValidateCertSecrets (TLS (Spec i)) (Namespace i)) (OnValidateCertSecrets E);
     case got of
       Inl err \<Rightarrow>
         if IsNotFound L (Some err) then do {
           set_false L TLSInputReadyCondition RequestedReason SeverityInfo
             (Sprintf (LibMessage ''TLSInputReadyWaitingMessage'') [err_text err]) [];
           return (Ret Result0 None)
         } else do {
           set_false L TLSInputReadyCondition ErrorReason SeverityWarning
             (LibMessage ''TLSInputErrorMessage'') [err_text err];
           return (Ret Result0 (Some err))
         }
     | Inr certsHash \<Rightarrow> do {
         mark_true L TLSInputReadyCondition (LibMessage ''InputReadyMessage'');
         return (Next ((TLSHashName L, SetValue certsHash) # configVars))
       }
   }"

definition api_hash :: "lib \<Rightarrow> env_vars \<Rightarrow> (WatcherAPI st, string flow) state" where
  "api_hash L configVars = settle_input_hash L (api_createHashOfInputHashes L configVars)"

definition api_deploy ::
  "lib \<Rightarrow> WatcherAPI env \<Rightarrow> secret \<Rightarrow> string \<Rightarrow> (WatcherAPI st, unit flow) state" where
  "api_deploy L E prometheusSecret inputHash =
     call_go (api_ensureDeployment L E prometheusSecret inputHash) (\<lambda>(res, err).
       if err \<noteq> None \<or> res \<noteq> Result0 then return (Ret res err)
       else do {
         i \<leftarrow> the_inst;
         if \<not> CIsTrue L DeploymentReadyCondition (Conditions i) then return (Ret Result0 None)
         else return (Next ())
       })"

definition api_expose :: "lib \<Rightarrow> WatcherAPI env \<Rightarrow> (WatcherAPI st, unit flow) state" where
  "api_expose L E = do {
     r \<leftarrow> api_ensureServiceExposed L E;
     case r of
       Inl (res, err) \<Rightarrow> return (Ret Result0 err)
     | Inr apiEndpoints \<Rightarrow> do {
         (res, err) \<leftarrow> api_ensureKeystoneEndpoint L E apiEndpoints;
         if err \<noteq> None \<or> res \<noteq> Result0 then return (Ret res err) else return (Next ())
       }
   }"

definition api_normal :: "lib \<Rightarrow> WatcherAPI env \<Rightarrow> (WatcherAPI st, unit flow) state" where
  "api_normal L E =
     continue (api_inputs L E) (\<lambda>(sec, prometheusSecret, configVars).
     continue (api_memcached L E) (\<lambda>memcached.
     continue (api_config L E sec prometheusSecret configVars memcached) (\<lambda>configVars.
     continue (api_validate_ca L E configVars) (\<lambda>configVars.
     continue (api_validate_certs L E configVars) (\<lambda>configVars.
     continue (api_hash L configVars) (\<lambda>inputHash.
     continue (api_deploy L E prometheusSecret inputHash) (\<lambda>_.
     continue (api_expose L E) (\<lambda>_.
     finish_reconcile L))))))))"

definition api_body :: "lib \<Rightarrow> WatcherAPI env \<Rightarrow> bool \<Rightarrow> (WatcherAPI st, unit flow) state" where
  "api_body L E isNewInstance = do {
     modify_inst (api_initStatus L);
     finalizer_gate L isNewInstance (api_reconcileDelete L E) (api_normal L E)
   }"

definition api_Reconcile ::
  "lib \<Rightarrow> WatcherAPI env \<Rightarrow> nsname \<Rightarrow> (WatcherAPI st, (result \<times> error option) go) state" where
  "api_Reconcile L E req = do {
     got \<leftarrow> perform (GetInstance req) (OnGetInstance E);
     case got of
       Inl err \<Rightarrow> return (Val (Result0, if IsNotFound L (Some err) then None else Some err))
     | Inr i \<Rightarrow> do {
         modify_inst (\<lambda>_. i);
         case NewHelper E of
           Some err \<Rightarrow> return (Val (Result0, Some err))
         | None \<Rightarrow> patch_on_exit L E (Conditions i) (outcome (api_body L E (Conditions i = None)))
       }
   }"

section \<open>The blocks\<close>

lemmas api_defs = api_inputs_def api_memcached_def api_config_def api_validate_ca_def
  api_validate_certs_def api_hash_def api_deploy_def api_generateServiceConfigs_def
  api_createHashOfInputHashes_def api_ensureDeployment_def api_expose_def
  api_ensureServiceExposed_def api_ensureKeystoneEndpoint_def api_expose_endpoint_def
  api_reconcileDelete_def api_ensureKeystoneEndpointDeletion_def

lemma endpoint_identity: "state_io_rel (keeps identity) (api_expose_endpoint L E ep)"
  unfolding api_expose_endpoint_def by (intro keep_rules identity_ops)

lemma endpoint_calls: "(\<And>svc. P (ApplyService svc)) \<Longrightarrow> state_io_rel (extends P) (api_expose_endpoint L E ep)"
  unfolding api_expose_endpoint_def by (intro ext_rules; simp)

lemma endpoint_Hash: "state_io_rel (keeps Hash) (api_expose_endpoint L E ep)"
  unfolding api_expose_endpoint_def by (intro keep_rules blocks_Hash)

lemma endpoint_cstate: "cond_laws L \<Longrightarrow> u \<noteq> CreateServiceReadyCondition \<Longrightarrow>
    state_io_rel (keeps (cstate u)) (api_expose_endpoint L E ep)"
  unfolding api_expose_endpoint_def by (intro cstate_rules; simp)

lemma endpoint_conds: "state_io_rel (conds L) (api_expose_endpoint L E ep)"
  unfolding api_expose_endpoint_def by (intro cond_rules; simp)

lemma loop_identity: "state_io_rel (keeps identity) (api_expose_loop L E eps m)"
  by (induction eps arbitrary: m; simp only: api_expose_loop.simps)
    ((intro keep_rules endpoint_identity; blast)+)

lemma loop_calls: "(\<And>svc. P (ApplyService svc)) \<Longrightarrow> state_io_rel (extends P) (api_expose_loop L E eps m)"
  by (induction eps arbitrary: m; simp only: api_expose_loop.simps)
    ((intro ext_rules endpoint_calls; blast)+)

lemma loop_Hash: "state_io_rel (keeps Hash) (api_expose_loop L E eps m)"
  by (induction eps arbitrary: m; simp only: api_expose_loop.simps)
    ((intro keep_rules endpoint_Hash; blast)+)

lemma loop_cstate: "cond_laws L \<Longrightarrow> u \<noteq> CreateServiceReadyCondition \<Longrightarrow>
    state_io_rel (keeps (cstate u)) (api_expose_loop L E eps m)"
  by (induction eps arbitrary: m; simp only: api_expose_loop.simps)
    ((intro cstate_rules endpoint_cstate; blast)+)

lemma loop_conds: "state_io_rel (conds L) (api_expose_loop L E eps m)"
  by (induction eps arbitrary: m; simp only: api_expose_loop.simps)
    ((intro cond_rules endpoint_conds; blast)+)

lemma api_identity_frames:
  "state_io_rel (keeps identity) (api_inputs L E)"
  "state_io_rel (keeps identity) (api_memcached L E)"
  "state_io_rel (keeps identity) (api_config L E sec psec vars mc)"
  "state_io_rel (keeps identity) (api_validate_ca L E vars)"
  "state_io_rel (keeps identity) (api_validate_certs L E vars)"
  "state_io_rel (keeps identity) (api_hash L vars)"
  "state_io_rel (keeps identity) (api_deploy L E psec h)"
  "state_io_rel (keeps identity) (api_expose L E)"
  "state_io_rel (keeps identity) (api_reconcileDelete L E)"
  unfolding api_defs
  by (intro keep_rules blocks_identity identity_ops loop_identity [unfolded api_defs])+

definition api_call_ok :: "(WatcherAPI call \<Rightarrow> bool) \<Rightarrow> bool" where
  "api_call_ok P \<longleftrightarrow> (\<forall>n. P (GetSecret n)) \<and> (\<forall>m n. P (GetMemcachedByName m n)) \<and>
     (\<forall>m. P (UpdateMemcached m)) \<and> (\<forall>n. P (GetKeystoneAPI n)) \<and>
     (\<forall>d a n. P (GetDatabaseByNameAndAccount d a n)) \<and> (\<forall>cms. P (EnsureSecrets cms)) \<and>
     (\<forall>n. P (ValidateCACertSecret n)) \<and> (\<forall>x n. P (ValidateCertSecrets x n)) \<and>
     (\<forall>svc. P (ApplyService svc)) \<and> (\<forall>e. P (ApplyKeystoneEndpoint e)) \<and>
     (\<forall>x n. P (GetKeystoneEndpointWithName x n)) \<and> (\<forall>fs. P (UpdateKeystoneEndpoint fs))"

lemma api_calls_frames:
  assumes "api_call_ok P"
  shows "state_io_rel (extends P) (api_inputs L E)"
    "state_io_rel (extends P) (api_memcached L E)"
    "state_io_rel (extends P) (api_config L E sec psec vars mc)"
    "state_io_rel (extends P) (api_validate_ca L E vars)"
    "state_io_rel (extends P) (api_validate_certs L E vars)"
    "state_io_rel (extends P) (api_hash L vars)"
    "state_io_rel (extends P) (api_expose L E)"
    "state_io_rel (extends P) (api_reconcileDelete L E)"
    "(\<And>ss. P (ApplyStatefulSet ss)) \<Longrightarrow> state_io_rel (extends P) (api_deploy L E psec h)"
  using assms unfolding api_defs api_call_ok_def
  by (intro ext_rules blocks_calls blocks_calls_deploy drop_own_finalizer_rules
      loop_calls [unfolded api_defs]; simp)+

lemma api_Hash_frames:
  "state_io_rel (keeps Hash) (api_inputs L E)"
  "state_io_rel (keeps Hash) (api_memcached L E)"
  "state_io_rel (keeps Hash) (api_config L E sec psec vars mc)"
  "state_io_rel (keeps Hash) (api_validate_ca L E vars)"
  "state_io_rel (keeps Hash) (api_validate_certs L E vars)"
  unfolding api_defs by (intro keep_rules blocks_Hash)+

lemma api_cstate_frames:
  assumes "cond_laws L"
  shows "u \<noteq> InputReadyCondition \<Longrightarrow> state_io_rel (keeps (cstate u)) (api_inputs L E)"
    "u \<noteq> MemcachedReadyCondition \<Longrightarrow> state_io_rel (keeps (cstate u)) (api_memcached L E)"
    "u \<noteq> ServiceConfigReadyCondition \<Longrightarrow> state_io_rel (keeps (cstate u)) (api_config L E sec psec vars mc)"
    "u \<noteq> TLSInputReadyCondition \<Longrightarrow> state_io_rel (keeps (cstate u)) (api_validate_ca L E vars)"
    "u \<noteq> TLSInputReadyCondition \<Longrightarrow> state_io_rel (keeps (cstate u)) (api_validate_certs L E vars)"
    "u \<noteq> ServiceConfigReadyCondition \<Longrightarrow> state_io_rel (keeps (cstate u)) (api_hash L vars)"
    "u \<noteq> DeploymentReadyCondition \<Longrightarrow> state_io_rel (keeps (cstate u)) (api_deploy L E psec h)"
    "state_io_rel (keeps (cstate u)) (api_reconcileDelete L E)"
  unfolding api_defs
  by (intro kp.flow_rules keeps_effects blocks_cstate generate_frames keeps_cstate
      assms; simp)+

lemma keeps_cstate_endpoint:
  assumes "cond_laws L" and "u \<noteq> KeystoneEndpointReadyCondition"
  shows "state_io_rel (keeps (cstate u)) (api_ensureKeystoneEndpoint L E eps)"
  unfolding api_ensureKeystoneEndpoint_def
  by (intro kp.flow_rules keeps_effects keeps_cstate_Some [OF assms(1)])
    (use assms mirror_type in blast)

lemma api_expose_cstate:
  assumes "cond_laws L" and "u \<noteq> CreateServiceReadyCondition" and "u \<noteq> KeystoneEndpointReadyCondition"
  shows "state_io_rel (keeps (cstate u)) (api_expose L E)"
  unfolding api_expose_def api_ensureServiceExposed_def
  by (intro kp.flow_rules keeps_effects keeps_cstate keeps_cstate_endpoint loop_cstate assms;
      use assms in simp)

lemma api_conds_frames:
  "state_io_rel (conds L) (api_reconcileDelete L E)" "state_io_rel (conds L) (api_normal L E)"
  unfolding api_normal_def api_defs
  by (intro cd.flow_rules conds_effects conds_ops blocks_conds generate_frames
      loop_conds [unfolded api_defs])+

lemma api_init_unknown:
  assumes "cond_laws L" and "t \<in> Type ` set (api_init_conditions L)"
  shows "cstate t (api_initStatus L i) = Some CUnknown"
proof -
  have "distinct (map Type (api_init_conditions L))"
    and "\<forall>c \<in> set (api_init_conditions L). Status c = CUnknown"
    by (simp_all add: api_init_conditions_def cond_lawsD [OF assms(1)])
  then show ?thesis
    using assms status_of_init_unknown by (simp add: api_initStatus_def)
qed

lemma api_init_fields:
  "identity (api_initStatus L i) = identity i"
  "hash_map (Hash (api_initStatus L i)) = hash_map (Hash i)"
  "Finalizers (api_initStatus L i) = Finalizers i"
  by (simp_all add: api_initStatus_def identity_def hash_map_def split: option.splits)

lemma api_shape: "api_Reconcile L E req = reconcile_shape L (\<lambda>i. i) (api_body L) E req"
  by (simp add: api_Reconcile_def reconcile_shape_def cong: option.case_cong sum.case_cong)

lemma api_body_frames:
  "state_io_rel (keeps identity) (api_body L E new)"
  "state_io_rel (extends no_patch) (api_body L E new)"
  unfolding api_body_def api_normal_def
  by (intro keep_rules gate_keeps api_identity_frames blocks_identity; simp add: api_init_fields)
    (intro ext_rules gate_extends api_calls_frames blocks_calls; simp add: no_patch_def api_call_ok_def)

lemma api_Ready_listed:
  assumes "cond_laws L"
  shows "cstate ReadyCondition (inst (snd (run_state (api_body L E new) s))) \<noteq> None"
  unfolding api_body_def
  by (rule listed_after_init)
    (use assms in \<open>auto intro: gate_conds api_conds_frames
      simp: api_init_unknown api_init_conditions_def cond_lawsD\<close>)

interpretation api: service_reconciler L "\<lambda>i. i" "api_body L" "api_Reconcile L"
    "api_initStatus L" "api_reconcileDelete L" "api_normal L"
    "Type ` set (api_init_conditions L) \<union> {ReadyCondition}" for L
  by (unfold_locales; (rule api_body_frames api_conds_frames api_Ready_listed; assumption?)?)
    (auto simp: api_shape api_body_def api_init_fields api_init_unknown
      api_init_conditions_def cond_lawsD api_cstate_frames)

section \<open>What a Ready API stands for\<close>

text \<open>The configuration secret that \<open>generateServiceConfigs\<close> asks for, from what it has read.\<close>

definition api_templates ::
  "lib \<Rightarrow> WatcherAPI \<Rightarrow> secret \<Rightarrow> secret \<Rightarrow> memcached \<Rightarrow> string \<Rightarrow> database \<Rightarrow> template list" where
  "api_templates L i sec psec mc keystoneInternalURL db =
     config_templates i (api_templateParameters L i sec psec mc keystoneInternalURL)
       (service_customData i sec db (CaBundleSecretName (TLS (Spec i))))
       (GetLabels L \<lparr>NName = Name i, NNamespace = Namespace i\<rparr> WatcherAPILabelPrefix) False"

lemma api_same:
  assumes "identity i = identity (j :: WatcherAPI)"
  shows "api_StatefulSet L i h ca labels = api_StatefulSet L j h ca labels"
    and "service_expected_fields i = service_expected_fields j"
    and "api_service_def L i ep = api_service_def L j ep"
    and "api_service_override i ep = api_service_override j ep"
    and "Spec i = Spec j" "Name i = Name j" "Namespace i = Namespace j" "Kind i = Kind j"
    and "api_templates L i = api_templates L j"
proof -
  have f: "Spec i = Spec j" "Name i = Name j" "Namespace i = Namespace j" "Kind i = Kind j"
    using assms by (simp_all add: identity_def)
  then show "Spec i = Spec j" "Name i = Name j" "Namespace i = Namespace j" "Kind i = Kind j" by simp_all
  show "api_templates L i = api_templates L j"
    by (intro ext) (simp add: f api_templates_def config_templates_def service_parameters_def
        service_customData_def api_templateParameters_def api_vhost_def)
  have "api_volumes L i ca = api_volumes L j ca" and "api_volume_mounts L i ca = api_volume_mounts L j ca"
    and "\<And>m. api_containers L i h m = api_containers L j h m"
    by (simp_all add: f api_volumes_def api_volume_mounts_def api_containers_def api_http_get_def
        api_startup_probe_def api_liveness_probe_def api_readiness_probe_def)
  then show "api_StatefulSet L i h ca labels = api_StatefulSet L j h ca labels"
    by (simp only: api_StatefulSet_def f)
  show "service_expected_fields i = service_expected_fields j"
    and "api_service_def L i ep = api_service_def L j ep"
    and "api_service_override i ep = api_service_override j ep"
    by (simp_all add: f service_expected_fields_def api_service_def_def api_service_override_def)
qed

text \<open>The Service of an endpoint was applied, as the spec and its override make it.\<close>

definition api_exposed ::
  "lib \<Rightarrow> WatcherAPI env \<Rightarrow> WatcherAPI st \<Rightarrow> WatcherAPI st \<Rightarrow> WatcherAPI \<Rightarrow> string \<Rightarrow> bool" where
  "api_exposed L E s t i ep \<longleftrightarrow>
     (\<exists>h svc. OnNewService E h (api_service_def L i ep) (api_service_override i ep) = Inr svc \<and>
        answered_since s t (ApplyService (api_annotate_service L E ep svc)) (OnApplyService E) (Result0, None))"

lemma api_exposed_later: "api_exposed L E s t i ep \<Longrightarrow> extends P t u \<Longrightarrow> api_exposed L E s u i ep"
  unfolding api_exposed_def by (blast intro: answered_since_later)

lemma api_exposed_earlier: "extends P s0 s \<Longrightarrow> api_exposed L E s t i ep \<Longrightarrow> api_exposed L E s0 t i ep"
  unfolding api_exposed_def by (blast intro: answered_since_earlier)

lemma api_expose_endpoint_Inr:
  assumes "run_state (api_expose_endpoint L E ep) s = (Inr url, t)"
  shows "api_exposed L E s t (inst s) ep"
proof -
  from assms obtain svc where svc: "OnNewService E (trace s) (api_service_def L (inst s) ep)
        (api_service_override (inst s) ep) = Inr svc"
    by (auto simp: api_expose_endpoint_def split: sum.splits)
  let ?c = "ApplyService (api_annotate_service L E ep svc)"
  have t: "t = s\<lparr>trace := trace s @ [?c]\<rparr>" and ok: "OnApplyService E (trace s @ [?c]) = (Result0, None)"
    using assms svc
    by (auto simp: api_expose_endpoint_def Let_def split: prod.splits option.splits if_splits sum.splits)
  have "answered_since s t ?c (OnApplyService E) (Result0, None)"
    by (rule answered_since_perform [OF extends_refl]) (simp_all add: t ok)
  with svc show ?thesis unfolding api_exposed_def by blast
qed

lemma api_expose_loop_Inr:
  assumes "run_state (api_expose_loop L E eps m) s = (Inr m', t)" and "identity (inst s) = identity i"
  shows "dom m' = dom m \<union> set eps" and "\<forall>ep \<in> set eps. api_exposed L E s t i ep"
proof -
  have "dom m' = dom m \<union> set eps \<and> (\<forall>ep \<in> set eps. api_exposed L E s t i ep)"
    using assms
  proof (induction eps arbitrary: m s)
    case (Cons ep eps)
    then obtain url s1 where 1: "run_state (api_expose_endpoint L E ep) s = (Inr url, s1)"
        and 2: "run_state (api_expose_loop L E eps (m(ep \<mapsto> url))) s1 = (Inr m', t)"
      by (auto split: prod.splits sum.splits)
    have i1: "identity (inst s1) = identity i"
      using state_io_relD [OF endpoint_identity 1] Cons.prems(2) by (simp add: keeps_def)
    note IH = Cons.IH [OF 2 i1]
    note calls = endpoint_calls [where P = "\<lambda>_. True", simplified] loop_calls [where P = "\<lambda>_. True", simplified]
    have "api_exposed L E s t i ep"
      using api_exposed_later [OF api_expose_endpoint_Inr [OF 1] state_io_relD [OF calls(2) 2]]
        api_same(3,4) [OF Cons.prems(2)]
      by (simp add: api_exposed_def)
    moreover have "\<forall>ep \<in> set eps. api_exposed L E s t i ep"
      using IH api_exposed_earlier [OF state_io_relD [OF calls(1) 1]] by blast
    ultimately show ?case using IH by auto
  qed auto
  then show "dom m' = dom m \<union> set eps" and "\<forall>ep \<in> set eps. api_exposed L E s t i ep" by blast+
qed

text \<open>Registered in Keystone: an endpoint for both interfaces was applied and reports itself ready.\<close>

definition api_registered ::
  "lib \<Rightarrow> WatcherAPI env \<Rightarrow> WatcherAPI st \<Rightarrow> WatcherAPI st \<Rightarrow> WatcherAPI \<Rightarrow> bool" where
  "api_registered L E s t i \<longleftrightarrow>
     (\<exists>eps conds. dom eps = {EndpointPublic, EndpointInternal} \<and>
        answered_since s t (ApplyKeystoneEndpoint \<lparr>KEName = ServiceName, KENamespace = Namespace i,
           KEEndpoints = eps, KELabels = getAPIServiceLabels L\<rparr>) (OnApplyKeystoneEndpoint E)
           (Result0, None, conds) \<and>
        (\<forall>d \<in> set (cond_list conds). Status d = CTrue))"

lemma api_registered_later: "api_registered L E s t i \<Longrightarrow> extends P t u \<Longrightarrow> api_registered L E s u i"
  unfolding api_registered_def by (elim exE conjE, intro exI conjI, assumption, erule (1) answered_since_later)

lemma api_registered_earlier: "extends P s0 s \<Longrightarrow> api_registered L E s t i \<Longrightarrow> api_registered L E s0 t i"
  unfolding api_registered_def by (elim exE conjE, intro exI conjI, assumption, erule (1) answered_since_earlier)

lemma api_ensureKeystoneEndpoint_ready:
  assumes L: "cond_laws L"
    and run: "run_state (api_ensureKeystoneEndpoint L E eps) s = ((Result0, None), t)"
    and eps: "dom eps = {EndpointPublic, EndpointInternal}"
    and before: "cstate KeystoneEndpointReadyCondition (inst s) \<noteq> Some CTrue"
    and after: "cstate KeystoneEndpointReadyCondition (inst t) = Some CTrue"
  shows "api_registered L E s t (inst s)"
proof -
  let ?c = "ApplyKeystoneEndpoint \<lparr>KEName = ServiceName, KENamespace = Namespace (inst s),
           KEEndpoints = eps, KELabels = getAPIServiceLabels L\<rparr>"
  obtain res err conds where a: "OnApplyKeystoneEndpoint E (trace s @ [?c]) = (res, err, conds)" by (metis surj_pair)
  with run have ok: "res = Result0" "err = None"
    by (auto simp: api_ensureKeystoneEndpoint_def split: option.splits)
  obtain c where c: "CMirror L KeystoneEndpointReadyCondition conds = Some c"
    using run a ok before after by (auto simp: api_ensureKeystoneEndpoint_def split: option.splits)
  have t: "trace t = trace s @ [?c]" and st: "Status c = CTrue"
    using run a ok c after mirror_type [OF L c]
    by (auto simp: api_ensureKeystoneEndpoint_def cstate_def cond_lawsD [OF L])
  have "\<forall>d \<in> set (cond_list conds). Status d = CTrue"
    using L c st unfolding cond_laws_def query_laws_def by blast
  moreover have "answered_since s t ?c (OnApplyKeystoneEndpoint E) (Result0, None, conds)"
    by (rule answered_since_perform [OF extends_refl]) (use t a ok in simp_all)
  ultimately show ?thesis unfolding api_registered_def using eps by (intro exI conjI)
qed

lemma api_expose_Next:
  assumes L: "cond_laws L" and run: "run_state (api_expose L E) s = (Next x, t)"
    and before: "cstate KeystoneEndpointReadyCondition (inst s) = Some CUnknown"
    and after: "cstate KeystoneEndpointReadyCondition (inst t) \<in> {None, Some CTrue}"
    and i: "identity (inst s) = identity i"
  shows "api_registered L E s t i" and "api_exposed L E s t i EndpointPublic"
    and "api_exposed L E s t i EndpointInternal"
proof -
  let ?order = "if PortsOrder E (trace s) then [EndpointPublic, EndpointInternal]
      else [EndpointInternal, EndpointPublic]"
  obtain r s1 where 1: "run_state (api_expose_loop L E ?order Map.empty) s = (r, s1)" by fastforce
  let ?s2 = "s1\<lparr>inst := (inst s1)\<lparr>Conditions := CMarkTrue L CreateServiceReadyCondition
      (LibMessage ''CreateServiceReadyMessage'') (Conditions (inst s1))\<rparr>\<rparr>"
  from run 1 obtain eps where eps: "r = Inr eps"
      and 2: "run_state (api_ensureKeystoneEndpoint L E eps) ?s2 = ((Result0, None), t)"
    by (auto simp: api_expose_def api_ensureServiceExposed_def split: sum.splits prod.splits if_splits)
  note loop = api_expose_loop_Inr [OF 1 [unfolded eps] i]
  have keep: "cstate KeystoneEndpointReadyCondition (inst ?s2) = Some CUnknown"
    using state_io_relD [OF loop_cstate [OF L, of KeystoneEndpointReadyCondition] 1] before
    by (simp add: keeps_def cond_lawsD [OF L] cstate_def)
  have i2: "identity (inst ?s2) = identity i"
    using state_io_relD [OF loop_identity 1] i by (simp add: keeps_def)
  have e1: "extends (\<lambda>_. True) s ?s2"
    using state_io_relD [OF loop_calls [where P = "\<lambda>_. True"] 1] by (simp add: extends_def)
  have e2: "extends (\<lambda>_. True) ?s2 t"
    using 2 by (auto simp: api_ensureKeystoneEndpoint_def extends_def split: prod.splits option.splits)
  have e12: "extends (\<lambda>_. True) s1 t" using e2 by (simp add: extends_def)
  have dom: "dom eps = {EndpointPublic, EndpointInternal}" using loop(1) by auto
  have "state_io_rel (conds L) (api_ensureKeystoneEndpoint L E eps)"
    unfolding api_ensureKeystoneEndpoint_def by (intro cond_rules)
  from conds_listed [OF L this 2] keep have "cstate KeystoneEndpointReadyCondition (inst t) \<noteq> None"
    by simp
  with after have "cstate KeystoneEndpointReadyCondition (inst t) = Some CTrue" by blast
  from api_ensureKeystoneEndpoint_ready [OF L 2 dom _ this] keep
  have "api_registered L E ?s2 t (inst ?s2)" by simp
  then have "api_registered L E ?s2 t i"
    unfolding api_registered_def using api_same(7) [OF i2] by simp
  then show "api_registered L E s t i" by (rule api_registered_earlier [OF e1])
  have "EndpointPublic \<in> set ?order" and "EndpointInternal \<in> set ?order" by simp_all
  with loop(2) have "api_exposed L E s s1 i EndpointPublic" and "api_exposed L E s s1 i EndpointInternal"
    by blast+
  then show "api_exposed L E s t i EndpointPublic" and "api_exposed L E s t i EndpointInternal"
    using api_exposed_later [OF _ e12] by blast+
qed

lemma api_inputs_Next:
  assumes "cond_laws L" and "RequeueTimeout E \<noteq> 0"
    and "run_state (api_inputs L E) s = (Next (sec, psec, vars), t)"
  shows "\<exists>h. secret_read L E s t \<lparr>NName = Secret (Spec (inst s)), NNamespace = Namespace (inst s)\<rparr>
      (service_expected_fields (inst s)) h sec"
    and "\<exists>h. secret_read L E s t \<lparr>NName = PrometheusSecret (Spec (inst s)), NNamespace = Namespace (inst s)\<rparr>
      [PrometheusHost, PrometheusPort] h psec"
proof -
  from assms(3) obtain v s1 s2 where 1: "run_state (service_secret L E) s = (Next (sec, v), s1)"
      and 2: "run_state (prometheus_secret L E v) s1 = (Next (psec, vars), s2)"
      and e: "extends no_patch s2 t"
    by (auto simp: api_inputs_def run_continue extends_same_trace split: prod.splits flow.splits)
  note frames = blocks_calls [where P = "\<lambda>_. True", simplified]
  note e1 = state_io_relD [OF frames(1) 1] and e2 = state_io_relD [OF frames(2) 2]
  obtain h where h: "secret_read L E s s1 \<lparr>NName = Secret (Spec (inst s)), NNamespace = Namespace (inst s)\<rparr>
      (service_expected_fields (inst s)) h sec" and s1: "inst s1 = inst s"
    by (rule service_secret_Next [OF assms(1,2) 1])
  obtain g where g: "secret_read L E s1 s2 \<lparr>NName = PrometheusSecret (Spec (inst s)), NNamespace = Namespace (inst s)\<rparr>
      [PrometheusHost, PrometheusPort] g psec"
    by (rule prometheus_secret_Next [OF assms(1) 2]) (simp add: s1)
  from secret_read_later [OF secret_read_later [OF h e2] e]
  show "\<exists>h. secret_read L E s t \<lparr>NName = Secret (Spec (inst s)), NNamespace = Namespace (inst s)\<rparr>
      (service_expected_fields (inst s)) h sec" ..
  from secret_read_later [OF secret_read_earlier [OF e1 g] e]
  show "\<exists>h. secret_read L E s t \<lparr>NName = PrometheusSecret (Spec (inst s)), NNamespace = Namespace (inst s)\<rparr>
      [PrometheusHost, PrometheusPort] h psec" ..
qed

lemma api_config_Next:
  assumes "run_state (api_config L E sec psec vars mc) s = (Next vars', t)"
  obtains added where "set added \<subseteq> set vars'"
    and "config_written E s t (inst s) sec (api_templates L (inst s) sec psec mc) added"
proof -
  have g: "run_state (api_generateServiceConfigs L E sec psec mc vars) s = ((vars', None), t)"
    using assms by (auto simp: api_config_def split: prod.splits option.splits)
  obtain added where "vars' = added @ vars"
      and w: "config_written E s t (inst s) sec (api_templates L (inst s) sec psec mc) added"
    unfolding api_templates_def
    by (rule generate_service_configs) (rule g [unfolded api_generateServiceConfigs_def Let_def, simplified])
  from this(1) have "set added \<subseteq> set vars'" by simp
  from that [OF this w] show ?thesis .
qed

text \<open>The TLS inputs the spec names were validated; their hashes come after the variables so far.\<close>

definition api_ca_valid :: "WatcherAPI env \<Rightarrow> WatcherAPI st \<Rightarrow> WatcherAPI st \<Rightarrow> WatcherAPI \<Rightarrow> bool" where
  "api_ca_valid E s t i \<longleftrightarrow> CaBundleSecretName (TLS (Spec i)) = [] \<or>
     (\<exists>h. answered_since s t (ValidateCACertSecret
        \<lparr>NName = CaBundleSecretName (TLS (Spec i)), NNamespace = Namespace i\<rparr>) (OnValidateCACertSecret E) (Inr h))"

definition api_certs_valid :: "WatcherAPI env \<Rightarrow> WatcherAPI st \<Rightarrow> WatcherAPI st \<Rightarrow> WatcherAPI \<Rightarrow> bool" where
  "api_certs_valid E s t i \<longleftrightarrow>
     (\<exists>h. answered_since s t (ValidateCertSecrets (TLS (Spec i)) (Namespace i)) (OnValidateCertSecrets E) (Inr h))"

lemma api_valid_mono:
  "extends P t u \<Longrightarrow> api_ca_valid E s t i \<Longrightarrow> api_ca_valid E s u i"
  "extends P t u \<Longrightarrow> api_certs_valid E s t i \<Longrightarrow> api_certs_valid E s u i"
  "extends P s0 s \<Longrightarrow> api_ca_valid E s t i \<Longrightarrow> api_ca_valid E s0 t i"
  "extends P s0 s \<Longrightarrow> api_certs_valid E s t i \<Longrightarrow> api_certs_valid E s0 t i"
  unfolding api_ca_valid_def api_certs_valid_def
  by (blast intro: answered_since_later answered_since_earlier)+

lemma api_validate_ca_Next:
  assumes "run_state (api_validate_ca L E vars) s = (Next vars', t)"
  shows "api_ca_valid E s t (inst s)" and "set vars \<subseteq> set vars'"
proof -
  show "set vars \<subseteq> set vars'"
    using assms by (auto simp: api_validate_ca_def split: sum.splits if_splits)
  show "api_ca_valid E s t (inst s)"
  proof (cases "CaBundleSecretName (TLS (Spec (inst s))) = []")
    case False
    let ?c = "ValidateCACertSecret \<lparr>NName = CaBundleSecretName (TLS (Spec (inst s))), NNamespace = Namespace (inst s)\<rparr>"
    from assms False obtain h where "OnValidateCACertSecret E (trace s @ [?c]) = Inr h" and "trace t = trace s @ [?c]"
      by (auto simp: api_validate_ca_def split: sum.splits if_splits)
    then have "answered_since s t ?c (OnValidateCACertSecret E) (Inr h)"
      by (intro answered_since_perform [OF extends_refl])
    then show ?thesis by (auto simp: api_ca_valid_def)
  qed (simp add: api_ca_valid_def)
qed

lemma api_validate_certs_Next:
  assumes "run_state (api_validate_certs L E vars) s = (Next vars', t)"
  shows "api_certs_valid E s t (inst s)" and "set vars \<subseteq> set vars'"
proof -
  show "set vars \<subseteq> set vars'"
    using assms by (auto simp: api_validate_certs_def split: sum.splits if_splits)
  let ?c = "ValidateCertSecrets (TLS (Spec (inst s))) (Namespace (inst s))"
  from assms obtain h where "OnValidateCertSecrets E (trace s @ [?c]) = Inr h" and "trace t = trace s @ [?c]"
    by (auto simp: api_validate_certs_def split: sum.splits if_splits)
  then have "answered_since s t ?c (OnValidateCertSecrets E) (Inr h)"
    by (intro answered_since_perform [OF extends_refl])
  then show "api_certs_valid E s t (inst s)" by (auto simp: api_certs_valid_def)
qed

lemma api_deploy_Next:
  assumes L: "cond_laws L" and run: "run_state (api_deploy L E psec h) s = (Next x, t)"
  obtains ssd where "api_StatefulSet L (inst s) h (prometheus_ca_of psec) (getAPIServiceLabels L) = Inr ssd"
    and "deployed E s t ssd (Replicas (Spec (inst s)))"
proof -
  obtain ssd where ssd: "api_StatefulSet L (inst s) h (prometheus_ca_of psec) (getAPIServiceLabels L) = Inr ssd"
    using run by (auto simp: api_deploy_def api_ensureDeployment_def split: sum.splits prod.splits go.splits if_splits)
  let ?c = "ApplyStatefulSet ssd" and ?s1 = "s\<lparr>trace := trace s @ [ApplyStatefulSet ssd]\<rparr>"
  obtain res err st where a: "OnApplyStatefulSet E (trace s @ [?c]) = (res, err, st)" by (metis surj_pair)
  have ok: "err = None" "res = Result0" and o: "run_state (observe_statefulset L st) ?s1 = (Val (Result0, None), t)"
    and d: "cstate DeploymentReadyCondition (inst t) = Some CTrue"
    using run ssd a
    by (auto simp: api_deploy_def api_ensureDeployment_def cstate_def cond_lawsD [OF L]
        split: option.splits if_splits go.splits prod.splits)
  note r = observe_statefulset_ready [OF L o] d
  have "answered_since s t ?c (OnApplyStatefulSet E) (Result0, None, st)"
    by (rule answered_since_perform [OF extends_refl]) (use a ok r in simp_all)
  with r have "deployed E s t ssd (Replicas (Spec (inst s)))" unfolding deployed_def by auto
  with ssd that show ?thesis by blast
qed

lemmas api_frames_Ready = api_cstate_frames [where u = ReadyCondition, simplified]
  api_expose_cstate [where u = ReadyCondition, simplified]

text \<open>The eight blocks of a run that ends Ready, with the states between them.\<close>

lemma api_normal_chain:
  assumes L: "cond_laws L" and run: "run_state (api_normal L E) s = (r, t)"
    and before: "cstate ReadyCondition (inst s) \<noteq> Some CTrue"
    and after: "cstate ReadyCondition (inst t) = Some CTrue"
  obtains sec psec v1 s1 mc s2 v2 s3 v3 s4 v4 s5 h s6 x7 s7 x8 s8
  where "run_state (api_inputs L E) s = (Next (sec, psec, v1), s1)"
    and "run_state (api_memcached L E) s1 = (Next mc, s2)"
    and "run_state (api_config L E sec psec v1 mc) s2 = (Next v2, s3)"
    and "run_state (api_validate_ca L E v2) s3 = (Next v3, s4)"
    and "run_state (api_validate_certs L E v3) s4 = (Next v4, s5)"
    and "run_state (api_hash L v4) s5 = (Next h, s6)"
    and "run_state (api_deploy L E psec h) s6 = (Next x7, s7)"
    and "run_state (api_expose L E) s7 = (Next x8, s8)"
    and "run_state (finish_reconcile L) s8 = (r, t)"
    and "cstate ReadyCondition (inst s8) \<noteq> Some CTrue"
proof -
  note keep = api_frames_Ready [OF L]
  from run obtain x1 s1 where 1: "run_state (api_inputs L E) s = (Next x1, s1)"
      and r1: "run_state (case x1 of (sec, psec, v1) \<Rightarrow> continue (api_memcached L E) (\<lambda>mc.
        continue (api_config L E sec psec v1 mc) (\<lambda>v2. continue (api_validate_ca L E v2) (\<lambda>v3.
        continue (api_validate_certs L E v3) (\<lambda>v4. continue (api_hash L v4) (\<lambda>h.
        continue (api_deploy L E psec h) (\<lambda>_. continue (api_expose L E) (\<lambda>_. finish_reconcile L)))))))) s1 = (r, t)"
      and b1: "cstate ReadyCondition (inst s1) \<noteq> Some CTrue"
    unfolding api_normal_def by (rule continue_True [OF _ keep(1) before after]) auto
  obtain sec psec v1 where x1: "x1 = (sec, psec, v1)" by (cases x1) auto
  from r1 obtain mc s2 where 2: "run_state (api_memcached L E) s1 = (Next mc, s2)"
      and r2: "run_state (continue (api_config L E sec psec v1 mc) (\<lambda>v2. continue (api_validate_ca L E v2) (\<lambda>v3.
        continue (api_validate_certs L E v3) (\<lambda>v4. continue (api_hash L v4) (\<lambda>h.
        continue (api_deploy L E psec h) (\<lambda>_. continue (api_expose L E) (\<lambda>_. finish_reconcile L))))))) s2 = (r, t)"
      and b2: "cstate ReadyCondition (inst s2) \<noteq> Some CTrue"
    unfolding x1 prod.case by (rule continue_True [OF _ keep(2) b1 after])
  from r2 obtain v2 s3 where 3: "run_state (api_config L E sec psec v1 mc) s2 = (Next v2, s3)"
      and r3: "run_state (continue (api_validate_ca L E v2) (\<lambda>v3.
        continue (api_validate_certs L E v3) (\<lambda>v4. continue (api_hash L v4) (\<lambda>h.
        continue (api_deploy L E psec h) (\<lambda>_. continue (api_expose L E) (\<lambda>_. finish_reconcile L)))))) s3 = (r, t)"
      and b3: "cstate ReadyCondition (inst s3) \<noteq> Some CTrue"
    by (rule continue_True [OF _ keep(3) b2 after])
  from r3 obtain v3 s4 where 4: "run_state (api_validate_ca L E v2) s3 = (Next v3, s4)"
      and r4: "run_state (continue (api_validate_certs L E v3) (\<lambda>v4. continue (api_hash L v4) (\<lambda>h.
        continue (api_deploy L E psec h) (\<lambda>_. continue (api_expose L E) (\<lambda>_. finish_reconcile L))))) s4 = (r, t)"
      and b4: "cstate ReadyCondition (inst s4) \<noteq> Some CTrue"
    by (rule continue_True [OF _ keep(4) b3 after])
  from r4 obtain v4 s5 where 5: "run_state (api_validate_certs L E v3) s4 = (Next v4, s5)"
      and r5: "run_state (continue (api_hash L v4) (\<lambda>h. continue (api_deploy L E psec h) (\<lambda>_.
        continue (api_expose L E) (\<lambda>_. finish_reconcile L)))) s5 = (r, t)"
      and b5: "cstate ReadyCondition (inst s5) \<noteq> Some CTrue"
    by (rule continue_True [OF _ keep(5) b4 after])
  from r5 obtain h s6 where 6: "run_state (api_hash L v4) s5 = (Next h, s6)"
      and r6: "run_state (continue (api_deploy L E psec h) (\<lambda>_.
        continue (api_expose L E) (\<lambda>_. finish_reconcile L))) s6 = (r, t)"
      and b6: "cstate ReadyCondition (inst s6) \<noteq> Some CTrue"
    by (rule continue_True [OF _ keep(6) b5 after])
  from r6 obtain x7 s7 where 7: "run_state (api_deploy L E psec h) s6 = (Next x7, s7)"
      and r7: "run_state (continue (api_expose L E) (\<lambda>_. finish_reconcile L)) s7 = (r, t)"
      and b7: "cstate ReadyCondition (inst s7) \<noteq> Some CTrue"
    by (rule continue_True [OF _ keep(7) b6 after])
  from r7 obtain x8 s8 where 8: "run_state (api_expose L E) s7 = (Next x8, s8)"
      and r8: "run_state (finish_reconcile L) s8 = (r, t)"
      and b8: "cstate ReadyCondition (inst s8) \<noteq> Some CTrue"
    by (rule continue_True [OF _ keep(9) b7 after])
  show ?thesis by (rule that [OF 1 [unfolded x1] 2 3 4 5 6 7 8 r8 b8])
qed

text \<open>
  What one run of the \<open>normal\<close> branch from \<open>s\<close> to \<open>t\<close> has achieved for a Ready resource \<open>i\<close>; \<open>h\<close> is
  the input hash the resource records, and the one the StatefulSet is built with.
\<close>

definition api_done :: "lib \<Rightarrow> WatcherAPI env \<Rightarrow> WatcherAPI st \<Rightarrow> WatcherAPI st \<Rightarrow> WatcherAPI \<Rightarrow> bool" where
  "api_done L E s t i \<longleftrightarrow>
     (\<exists>h hs sec hp psec ssd.
        secret_read L E s t \<lparr>NName = Secret (Spec i), NNamespace = Namespace i\<rparr>
          (service_expected_fields i) hs sec \<and>
        secret_read L E s t \<lparr>NName = PrometheusSecret (Spec i), NNamespace = Namespace i\<rparr>
          [PrometheusHost, PrometheusPort] hp psec \<and>
        memcached_claimed E s t (MemcachedInstance (Spec i)) (Namespace i) (GetFinalizer L (Kind i)) \<and>
        config_rendered L E s t i sec (api_templates L i sec psec) h \<and>
        api_ca_valid E s t i \<and> api_certs_valid E s t i \<and>
        hash_map (Hash i) (InputHashName L) = Some h \<and>
        api_StatefulSet L i h (prometheus_ca_of psec) (getAPIServiceLabels L) = Inr ssd \<and>
        deployed E s t ssd (Replicas (Spec i)) \<and>
        api_exposed L E s t i EndpointPublic \<and> api_exposed L E s t i EndpointInternal \<and>
        api_registered L E s t i)"

lemma api_normal_Ready:
  assumes L: "cond_laws L" "finalizer_laws L" "hash_laws L" "RequeueTimeout E \<noteq> 0"
    and run: "run_state (api_normal L E) s = (r, t)"
    and start: "cstate ReadyCondition (inst s) \<noteq> Some CTrue"
      "cstate KeystoneEndpointReadyCondition (inst s) = Some CUnknown"
    and after: "cstate ReadyCondition (inst t) = Some CTrue"
    and i: "identity (inst s) = identity i" "hash_map (Hash (inst s)) = hash_map (Hash i)"
  shows "api_done L E s t i"
proof -
  obtain sec psec v1 s1 mc s2 v2 s3 v3 s4 v4 s5 h s6 x7 s7 x8 s8
  where 1: "run_state (api_inputs L E) s = (Next (sec, psec, v1), s1)"
    and 2: "run_state (api_memcached L E) s1 = (Next mc, s2)"
    and 3: "run_state (api_config L E sec psec v1 mc) s2 = (Next v2, s3)"
    and 4: "run_state (api_validate_ca L E v2) s3 = (Next v3, s4)"
    and 5: "run_state (api_validate_certs L E v3) s4 = (Next v4, s5)"
    and 6: "run_state (api_hash L v4) s5 = (Next h, s6)"
    and 7: "run_state (api_deploy L E psec h) s6 = (Next x7, s7)"
    and 8: "run_state (api_expose L E) s7 = (Next x8, s8)"
    and 9: "run_state (finish_reconcile L) s8 = (r, t)"
    and b8: "cstate ReadyCondition (inst s8) \<noteq> Some CTrue"
    by (rule api_normal_chain [OF L(1) run start(1) after])
  note fin = finish_Ready [OF L(1) 9 b8 after]
  have ok: "api_call_ok (\<lambda>_. True)" by (simp add: api_call_ok_def)
  note calls = api_calls_frames [OF ok, simplified]
  note e1 = state_io_relD [OF calls(1) 1] and e2 = state_io_relD [OF calls(2) 2]
    and e3 = state_io_relD [OF calls(3) 3] and e4 = state_io_relD [OF calls(4) 4]
    and e5 = state_io_relD [OF calls(5) 5] and e6 = state_io_relD [OF calls(6) 6]
    and e7 = state_io_relD [OF calls(9) 7] and e8 = state_io_relD [OF calls(7) 8]
  have f8: "extends (\<lambda>_. True) s8 t" using fin(1) by (rule extends_same_trace)
  note f7 = extends_trans [OF e8 f8] note f6 = extends_trans [OF e7 f7] note f5 = extends_trans [OF e6 f6]
  note f4 = extends_trans [OF e5 f5] note f3 = extends_trans [OF e4 f4] note f2 = extends_trans [OF e3 f3]
  note f1 = extends_trans [OF e2 f2]
  note g2 = extends_trans [OF e1 e2] note g3 = extends_trans [OF g2 e3] note g4 = extends_trans [OF g3 e4]
  note g5 = extends_trans [OF g4 e5] note g6 = extends_trans [OF g5 e6] note g7 = extends_trans [OF g6 e7]
  note ids = api_identity_frames [THEN state_io_relD, unfolded keeps_def]
  note i1 = ids(1) [OF 1, unfolded i] note i2 = ids(2) [OF 2, unfolded i1]
  note i3 = ids(3) [OF 3, unfolded i2] note i4 = ids(4) [OF 4, unfolded i3]
  note i5 = ids(5) [OF 5, unfolded i4] note i6 = ids(6) [OF 6, unfolded i5]
  note i7 = ids(7) [OF 7, unfolded i6]
  note hashes = api_Hash_frames [THEN state_io_relD, unfolded keeps_def]
  have hash5: "hash_map (Hash (inst s5)) = hash_map (Hash i)"
    using hashes(1) [OF 1] hashes(2) [OF 2] hashes(3) [OF 3] hashes(4) [OF 4] hashes(5) [OF 5] i(2) by simp
  note ks = api_cstate_frames [OF L(1), where u = KeystoneEndpointReadyCondition, simplified,
      THEN state_io_relD, unfolded keeps_def]
  have ks7: "cstate KeystoneEndpointReadyCondition (inst s7) = Some CUnknown"
    using ks(1) [OF 1] ks(2) [OF 2] ks(3) [OF 3] ks(4) [OF 4] ks(5) [OF 5] ks(6) [OF 6] ks(7) [OF 7] start(2)
    by simp
  obtain hs where sec: "secret_read L E s s1 \<lparr>NName = Secret (Spec (inst s)), NNamespace = Namespace (inst s)\<rparr>
      (service_expected_fields (inst s)) hs sec"
    using api_inputs_Next(1) [OF L(1,4) 1] by blast
  obtain hp where psec: "secret_read L E s s1 \<lparr>NName = PrometheusSecret (Spec (inst s)), NNamespace = Namespace (inst s)\<rparr>
      [PrometheusHost, PrometheusPort] hp psec"
    using api_inputs_Next(2) [OF L(1,4) 1] by blast
  obtain ssd where ssd: "api_StatefulSet L (inst s6) h (prometheus_ca_of psec) (getAPIServiceLabels L) = Inr ssd"
    and dep: "deployed E s6 s7 ssd (Replicas (Spec (inst s6)))"
    by (rule api_deploy_Next [OF L(1) 7])
  have "cstate KeystoneEndpointReadyCondition (inst s8) \<in> {None, Some CTrue}" by (rule fin(3)) simp
  note ex = api_expose_Next [OF L(1) 8 ks7 this i7]
  note claim = claim_memcached_Next [OF L(1,2) 2 [unfolded api_memcached_def]]
  note claimed = memcached_claimed_later [OF memcached_claimed_earlier [OF e1 claim(1)] f2]
    memcached_read_later [OF memcached_read_earlier [OF e1 claim(2)] f2]
  obtain added where sub: "set added \<subseteq> set v2"
      and w: "config_written E s2 s3 (inst s2) sec (api_templates L (inst s2) sec psec mc) added"
    by (rule api_config_Next [OF 3])
  have written: "config_written E s t i sec (api_templates L i sec psec mc) added"
    using config_written_later [OF config_written_earlier [OF g2 w] f3]
    by (simp only: config_written_def api_same [OF i2])
  note valid = api_valid_mono(1) [OF f4 api_valid_mono(3) [OF g3 api_validate_ca_Next(1) [OF 4]]]
    api_valid_mono(2) [OF f5 api_valid_mono(4) [OF g4 api_validate_certs_Next(1) [OF 5]]]
  note settled = settle_input_hash_Next [OF L(3) 6 [unfolded api_hash_def api_createHashOfInputHashes_def]]
  have h: "hash_map (Hash i) (InputHashName L) = Some h" using settled(1) hash5 by simp
  have vars: "set added \<subseteq> set v4"
    using sub api_validate_ca_Next(2) [OF 4] api_validate_certs_Next(2) [OF 5] by blast
  have mc: "memcached_read E s t (MemcachedInstance (Spec i)) (Namespace i) mc"
    using claimed(2) by (simp only: api_same [OF i1])
  show ?thesis
    unfolding api_done_def
  proof (intro exI conjI)
    show "hash_map (Hash i) (InputHashName L) = Some h" by (rule h)
    show "secret_read L E s t \<lparr>NName = Secret (Spec i), NNamespace = Namespace i\<rparr> (service_expected_fields i) hs sec"
      using secret_read_later [OF sec f1] by (simp only: api_same [OF i(1)])
    show "secret_read L E s t \<lparr>NName = PrometheusSecret (Spec i), NNamespace = Namespace i\<rparr>
        [PrometheusHost, PrometheusPort] hp psec"
      using secret_read_later [OF psec f1] by (simp only: api_same [OF i(1)])
    show "memcached_claimed E s t (MemcachedInstance (Spec i)) (Namespace i) (GetFinalizer L (Kind i))"
      using claimed(1) by (simp only: api_same [OF i1])
    show "config_rendered L E s t i sec (api_templates L i sec psec) h"
      unfolding config_rendered_def using mc written vars settled(2) by blast
    show "api_ca_valid E s t i" and "api_certs_valid E s t i"
      using valid by (simp_all only: api_ca_valid_def api_certs_valid_def api_same [OF i3] api_same [OF i4])
    show "api_StatefulSet L i h (prometheus_ca_of psec) (getAPIServiceLabels L) = Inr ssd"
      using ssd by (simp only: api_same [OF i6])
    show "deployed E s t ssd (Replicas (Spec i))"
      using deployed_later [OF deployed_earlier [OF g6 dep] f7] by (simp only: api_same [OF i6])
    show "api_exposed L E s t i EndpointPublic" and "api_exposed L E s t i EndpointInternal"
      using api_exposed_later [OF api_exposed_earlier [OF g7 ex(2)] f8]
        api_exposed_later [OF api_exposed_earlier [OF g7 ex(3)] f8] .
    show "api_registered L E s t i"
      using api_registered_later [OF api_registered_earlier [OF g7 ex(1)] f8] .
  qed
qed

lemma api_normal_subs:
  assumes L: "cond_laws L" and run: "run_state (api_normal L E) s = (r, t)"
    and "cstate ReadyCondition (inst s) \<noteq> Some CTrue" and after: "cstate ReadyCondition (inst t) = Some CTrue"
    and u: "u \<noteq> ReadyCondition"
  shows "cstate u (inst t) \<in> {None, Some CTrue}"
proof (rule api_normal_chain [OF assms(1-4)])
  fix s8
  assume "run_state (finish_reconcile L) s8 = (r, t)" "cstate ReadyCondition (inst s8) \<noteq> Some CTrue"
  note fin = finish_Ready [OF L this after]
  show ?thesis using fin(2,3) [OF u] by simp
qed

lemma api_done_mono:
  assumes "extends P s0 s" and "extends Q t u" and "api_done L E s t i"
  shows "api_done L E s0 u i"
proof -
  from assms(3) obtain h hs sec hp psec ssd where
    f: "secret_read L E s t \<lparr>NName = Secret (Spec i), NNamespace = Namespace i\<rparr>
          (service_expected_fields i) hs sec"
      "secret_read L E s t \<lparr>NName = PrometheusSecret (Spec i), NNamespace = Namespace i\<rparr>
          [PrometheusHost, PrometheusPort] hp psec"
      "memcached_claimed E s t (MemcachedInstance (Spec i)) (Namespace i) (GetFinalizer L (Kind i))"
      "config_rendered L E s t i sec (api_templates L i sec psec) h"
      "api_ca_valid E s t i" "api_certs_valid E s t i" "hash_map (Hash i) (InputHashName L) = Some h"
      "api_StatefulSet L i h (prometheus_ca_of psec) (getAPIServiceLabels L) = Inr ssd"
      "deployed E s t ssd (Replicas (Spec i))" "api_exposed L E s t i EndpointPublic"
      "api_exposed L E s t i EndpointInternal" "api_registered L E s t i"
    unfolding api_done_def by (elim exE conjE)
  note e = assms(1,2)
  note g = secret_read_later [OF secret_read_earlier [OF e(1) f(1)] e(2)]
    secret_read_later [OF secret_read_earlier [OF e(1) f(2)] e(2)]
    memcached_claimed_later [OF memcached_claimed_earlier [OF e(1) f(3)] e(2)]
    config_rendered_later [OF config_rendered_earlier [OF e(1) f(4)] e(2)]
    api_valid_mono(1) [OF e(2) api_valid_mono(3) [OF e(1) f(5)]]
    api_valid_mono(2) [OF e(2) api_valid_mono(4) [OF e(1) f(6)]] f(7,8)
    deployed_later [OF deployed_earlier [OF e(1) f(9)] e(2)]
    api_exposed_later [OF api_exposed_earlier [OF e(1) f(10)] e(2)]
    api_exposed_later [OF api_exposed_earlier [OF e(1) f(11)] e(2)]
    api_registered_later [OF api_registered_earlier [OF e(1) f(12)] e(2)]
  show ?thesis unfolding api_done_def by (intro exI conjI; rule g)
qed

lemma api_Ready:
  assumes "cond_laws L" "finalizer_laws L" "hash_laws L" "RequeueTimeout E \<noteq> 0"
    and "OnGetInstance E (trace s @ [GetInstance req]) = Inr i" and "NewHelper E = None"
    and "run_state (api_Reconcile L E req) s = (r, t)"
    and "cstate ReadyCondition (inst t) = Some CTrue"
  shows "DeletionTimestamp i = None \<and> GetFinalizer L (Kind i) \<in> set (Finalizers i) \<and> api_done L E s t i \<and>
    (\<forall>u \<in> Type ` set (api_init_conditions L). cstate u (inst t) = Some CTrue)"
proof -
  obtain b s1 s2 where n: "run_state (api_normal L E) s2 = (b, s1)"
      and start: "\<forall>u \<in> Type ` set (api_init_conditions L) \<union> {ReadyCondition}. cstate u (inst s2) = Some CUnknown"
      and ready: "cstate ReadyCondition (inst s1) = Some CTrue"
      and e: "extends (\<lambda>_. True) s s2" "extends (\<lambda>_. True) s1 t"
      and i: "identity (inst s2) = identity i" "hash_map (Hash (inst s2)) = hash_map (Hash i)"
      and rest: "DeletionTimestamp i = None" "GetFinalizer L (Kind i) \<in> set (Finalizers i)"
      "\<forall>u \<in> Type ` set (api_init_conditions L) \<union> {ReadyCondition}. cstate u (inst t) = Some CTrue"
    by (rule api.reconcile_Ready [OF assms(1,2,5-8) api_normal_subs [OF assms(1)]])
  have "cstate ReadyCondition (inst s2) \<noteq> Some CTrue" and "cstate KeystoneEndpointReadyCondition (inst s2) = Some CUnknown"
    using start by (simp_all add: api_init_conditions_def cond_lawsD [OF assms(1)])
  from api_done_mono [OF e api_normal_Ready [OF assms(1-4) n this ready i]] rest show ?thesis by simp
qed

text \<open>
  C10. A WatcherAPI stored with \<open>Ready\<close> True: in that very run both secrets were read with every
  field the configuration needs, memcached was ready and carries the operator's finalizer, the
  configuration was rendered from these secrets, the memcached instance, Keystone's internal URL and
  the database the secret names, and stored without an error, the TLS secrets the spec names were
  validated, the StatefulSet built from the spec and from the input hash the resource records, a hash
  over that of the stored configuration, is rolled out with all its replicas ready, the Services of
  both endpoints were applied, and a Keystone endpoint with both URLs reports itself ready. Every other
  condition the controller reports is True too, and the resource was live and had the finalizer.
\<close>

theorem api_ready_sound:
  assumes "cond_laws L" "finalizer_laws L" "hash_laws L" "RequeueTimeout E \<noteq> 0"
    and "OnGetInstance E (trace s @ [GetInstance req]) = Inr i" and "NewHelper E = None"
    and "run_state (api_Reconcile L E req) s = (r, t)"
    and "cstate ReadyCondition (inst t) = Some CTrue"
  shows "DeletionTimestamp i = None \<and> GetFinalizer L (Kind i) \<in> set (Finalizers i) \<and>
    (\<exists>h hs sec hp psec ssd.
      secret_read L E s t \<lparr>NName = Secret (Spec i), NNamespace = Namespace i\<rparr>
        (service_expected_fields i) hs sec \<and>
      secret_read L E s t \<lparr>NName = PrometheusSecret (Spec i), NNamespace = Namespace i\<rparr>
        [PrometheusHost, PrometheusPort] hp psec \<and>
      memcached_claimed E s t (MemcachedInstance (Spec i)) (Namespace i) (GetFinalizer L (Kind i)) \<and>
      config_rendered L E s t i sec (api_templates L i sec psec) h \<and>
      api_ca_valid E s t i \<and> api_certs_valid E s t i \<and>
      hash_map (Hash i) (InputHashName L) = Some h \<and>
      api_StatefulSet L i h (prometheus_ca_of psec) (getAPIServiceLabels L) = Inr ssd \<and>
      deployed E s t ssd (Replicas (Spec i)) \<and>
      api_exposed L E s t i EndpointPublic \<and> api_exposed L E s t i EndpointInternal \<and>
      api_registered L E s t i) \<and>
    (\<forall>u \<in> Type ` set (api_init_conditions L). cstate u (inst t) = Some CTrue)"
  by (rule api_Ready [OF assms, unfolded api_done_def])

section \<open>What the reconcile deploys, and what a deletion does first\<close>

text \<open>Built from the hash and from a Prometheus secret the cluster returned.\<close>

definition api_built :: "lib \<Rightarrow> WatcherAPI env \<Rightarrow> WatcherAPI \<Rightarrow> string \<Rightarrow> statefulset \<Rightarrow> bool" where
  "api_built L E i h ss \<longleftrightarrow> (\<exists>psec g. OnGetSecret E g = Inr psec \<and>
     api_StatefulSet L i h (prometheus_ca_of psec) (getAPIServiceLabels L) = Inr ss)"

lemma api_deploy_calls:
  assumes "OnGetSecret E g = Inr psec" and "identity (inst s) = identity i"
    and "hash_map (Hash i) (InputHashName L) = Some h"
  shows "extends (deploys_only L i (api_built L E i)) s (snd (run_state (api_deploy L E psec h) s))"
proof (cases "api_StatefulSet L i h (prometheus_ca_of psec) (getAPIServiceLabels L)")
  case (Inl e)
  then show ?thesis
    unfolding api_same(1) [OF assms(2), symmetric]
    by (auto simp: api_deploy_def api_ensureDeployment_def extends_def)
next
  case (Inr ss)
  have ok: "deploys_only L i (api_built L E i) (ApplyStatefulSet ss)"
    using assms(1,3) Inr unfolding deploys_only_def api_built_def by blast
  have eq: "api_StatefulSet L (inst s) h (prometheus_ca_of psec) (getAPIServiceLabels L) = Inr ss"
    using Inr api_same(1) [OF assms(2)] by simp
  let ?m = "do {
      (ctrlResult, errorResult, st) \<leftarrow> perform (ApplyStatefulSet ss) (OnApplyStatefulSet E);
      case errorResult of
        Some e \<Rightarrow> do {
          set_false L DeploymentReadyCondition ErrorReason SeverityWarning
            (LibMessage ''DeploymentReadyErrorMessage'') [err_text e];
          return (Val (ctrlResult, errorResult))
        }
      | None \<Rightarrow>
          if ctrlResult \<noteq> Result0 then do {
            set_false L DeploymentReadyCondition RequestedReason SeverityInfo
              (LibMessage ''DeploymentReadyRunningMessage'') [];
            return (Val (ctrlResult, None))
          } else observe_statefulset L st
    }"
  have "state_io_rel (extends (deploys_only L i (api_built L E i))) (call_go ?m (\<lambda>(res, err).
       if err \<noteq> None \<or> res \<noteq> Result0 then return (Ret res err)
       else do {
         i \<leftarrow> the_inst;
         if \<not> CIsTrue L DeploymentReadyCondition (Conditions i) then return (Ret Result0 None)
         else return (Next ())
       }))"
    by (intro ext_rules blocks_calls_deploy ok)
  from ext.relD [OF this, of s] show ?thesis
    by (simp add: api_deploy_def api_ensureDeployment_def eq)
qed

lemma api_no_deploy:
  "state_io_rel (extends no_deploy) (api_inputs L E)"
  "state_io_rel (extends no_deploy) (api_memcached L E)"
  "state_io_rel (extends no_deploy) (api_config L E sec psec vars mc)"
  "state_io_rel (extends no_deploy) (api_validate_ca L E vars)"
  "state_io_rel (extends no_deploy) (api_validate_certs L E vars)"
  "state_io_rel (extends no_deploy) (api_hash L vars)"
  "state_io_rel (extends no_deploy) (api_expose L E)"
  by (rule api_calls_frames; simp add: no_deploy_def api_call_ok_def)+

lemma api_normal_calls:
  assumes L: "hash_laws L" "cond_laws L" "RequeueTimeout E \<noteq> 0" and i: "identity (inst s) = identity i"
    and h: "hash_map (Hash (inst s)) = hash_map (Hash i)"
  shows "extends (deploys_only L i (api_built L E i)) s (snd (run_state (api_normal L E) s))"
  unfolding api_normal_def split_def
proof (intro extends_continue no_deploy_run_snd finish_no_deploy;
    (erule no_deploy_run [rotated], rule api_no_deploy)?)
  fix x1 s1 mc s2 v2 s3 v3 s4 v4 s5 g s6 x s7
  assume 1: "run_state (api_inputs L E) s = (Next x1, s1)"
    and 2: "run_state (api_memcached L E) s1 = (Next mc, s2)"
    and 3: "run_state (api_config L E (fst x1) (fst (snd x1)) (snd (snd x1)) mc) s2 = (Next v2, s3)"
    and 4: "run_state (api_validate_ca L E v2) s3 = (Next v3, s4)"
    and 5: "run_state (api_validate_certs L E v3) s4 = (Next v4, s5)"
    and 6: "run_state (api_hash L v4) s5 = (Next g, s6)"
    and 7: "run_state (api_deploy L E (fst (snd x1)) g) s6 = (x, s7)"
  note ids = api_identity_frames [THEN state_io_relD, unfolded keeps_def]
  note i1 = ids(1) [OF 1, unfolded i] note i2 = ids(2) [OF 2, unfolded i1]
  note i3 = ids(3) [OF 3, unfolded i2] note i4 = ids(4) [OF 4, unfolded i3]
  note i5 = ids(5) [OF 5, unfolded i4] note i6 = ids(6) [OF 6, unfolded i5]
  note hashes = api_Hash_frames [THEN state_io_relD, unfolded keeps_def]
  have "hash_map (Hash (inst s5)) = hash_map (Hash i)"
    using hashes(1) [OF 1] hashes(2) [OF 2] hashes(3) [OF 3] hashes(4) [OF 4] hashes(5) [OF 5] h by simp
  then have hash: "hash_map (Hash i) (InputHashName L) = Some g"
    using settle_input_hash_Next(1) [OF L(1) 6 [unfolded api_hash_def api_createHashOfInputHashes_def]] by simp
  obtain k where "OnGetSecret E k = Inr (fst (snd x1))"
    using api_inputs_Next(2) [OF L(2,3), of s "fst x1" "fst (snd x1)" "snd (snd x1)" s1] 1
    by (auto simp: secret_read_def answered_since_def)
  from api_deploy_calls [OF this i6 hash] 7
  show "extends (deploys_only L i (api_built L E i)) s6 s7" by simp
qed

text \<open>
  Whatever the cluster answers, a reconcile of a WatcherAPI applies no StatefulSet but one built
  from its spec, a Prometheus secret the cluster returned and the input hash its status already
  records: pods never run with a configuration the status does not account for.
\<close>

lemma api_deploys_recorded_hash:
  assumes "hash_laws L" "cond_laws L" "RequeueTimeout E \<noteq> 0"
    and "OnGetInstance E (trace s @ [GetInstance req]) = Inr i" and "NewHelper E = None"
    and "run_state (api_Reconcile L E req) s = (r, t)"
  shows "extends (deploys_only L i (api_built L E i)) s t"
proof (rule api.reconcile_calls [OF assms(4-6)])
  show "state_io_rel (extends (deploys_only L i (api_built L E i))) (api_reconcileDelete L E)"
    by (rule api_calls_frames) (simp_all add: deploys_only_def api_call_ok_def)
qed (simp_all add: deploys_only_def api_normal_calls [OF assms(1-3)])

text \<open>The Keystone endpoint is gone, never carried our finalizer, or had it taken off.\<close>

definition endpoint_released ::
  "lib \<Rightarrow> WatcherAPI env \<Rightarrow> WatcherAPI st \<Rightarrow> WatcherAPI st \<Rightarrow> string \<Rightarrow> string \<Rightarrow> bool" where
  "endpoint_released L E s t ns key \<longleftrightarrow>
     (\<exists>err. answered_since s t (GetKeystoneEndpointWithName ServiceName ns) (OnGetKeystoneEndpoint E) (Inl err) \<and>
        IsNotFound L (Some err)) \<or>
     (\<exists>fs. answered_since s t (GetKeystoneEndpointWithName ServiceName ns) (OnGetKeystoneEndpoint E) (Inr fs) \<and>
        (key \<notin> set fs \<or>
         (\<exists>fs' err. key \<notin> set fs' \<and>
            answered_since s t (UpdateKeystoneEndpoint fs') (OnUpdateKeystoneEndpoint E) err \<and>
            (err = None \<or> IsNotFound L err))))"

lemma endpoint_released_later:
  "endpoint_released L E s t ns key \<Longrightarrow> extends P t u \<Longrightarrow> endpoint_released L E s u ns key"
  unfolding endpoint_released_def by (blast intro: answered_since_later)

lemma endpoint_released_earlier:
  "extends P s0 s \<Longrightarrow> endpoint_released L E s t ns key \<Longrightarrow> endpoint_released L E s0 t ns key"
  unfolding endpoint_released_def by (blast intro: answered_since_earlier)

lemma endpoint_deletion_ok:
  assumes "finalizer_laws L" and run: "run_state (api_ensureKeystoneEndpointDeletion L E) s = (None, t)"
  shows "endpoint_released L E s t (Namespace (inst s)) (GetFinalizer L (Kind (inst s)))" and "inst t = inst s"
proof -
  let ?key = "GetFinalizer L (Kind (inst s))"
  let ?get = "GetKeystoneEndpointWithName ServiceName (Namespace (inst s))"
  let ?s1 = "s\<lparr>trace := trace s @ [?get]\<rparr>"
  have got: "answered_since s ?s1 ?get (OnGetKeystoneEndpoint E) (OnGetKeystoneEndpoint E (trace s @ [?get]))"
    by (rule answered_since_perform [OF extends_refl]) simp_all
  show "inst t = inst s"
    using run by (auto simp: api_ensureKeystoneEndpointDeletion_def split: sum.splits prod.splits if_splits)
  show "endpoint_released L E s t (Namespace (inst s)) ?key"
  proof (cases "OnGetKeystoneEndpoint E (trace s @ [?get])")
    case (Inl e)
    with run have "IsNotFound L (Some e)" and "t = ?s1"
      by (auto simp: api_ensureKeystoneEndpointDeletion_def split: if_splits)
    with got Inl show ?thesis unfolding endpoint_released_def by metis
  next
    case (Inr old)
    obtain fs updated where rf: "RemoveFinalizer L ?key old = (fs, updated)" by fastforce
    with assms(1) have fs: "?key \<notin> set fs" "updated \<longleftrightarrow> ?key \<in> set old"
      unfolding finalizer_laws_def by (metis (mono_tags, lifting) fst_conv mem_Collect_eq set_filter,
        metis snd_conv)
    show ?thesis
    proof (cases updated)
      case False
      with run Inr rf have "t = ?s1" by (auto simp: api_ensureKeystoneEndpointDeletion_def)
      with got Inr fs False show ?thesis unfolding endpoint_released_def by metis
    next
      case True
      let ?up = "UpdateKeystoneEndpoint fs"
      from True run Inr rf have t: "trace t = trace s @ [?get, ?up]"
        and up: "OnUpdateKeystoneEndpoint E (trace s @ [?get] @ [?up]) = None \<or>
          IsNotFound L (OnUpdateKeystoneEndpoint E (trace s @ [?get] @ [?up]))"
        by (auto simp: api_ensureKeystoneEndpointDeletion_def split: if_splits)
      have "answered_since s t ?up (OnUpdateKeystoneEndpoint E) (OnUpdateKeystoneEndpoint E (trace s @ [?get] @ [?up]))"
        by (rule answered_since_perform [of "\<lambda>_. True" s ?s1]) (use t in \<open>simp_all add: extends_def\<close>)
      moreover have "answered_since s t ?get (OnGetKeystoneEndpoint E) (Inr old)"
        by (rule answered_since_later [of _ ?s1 _ _ _ "\<lambda>_. True"]) (use got Inr t in \<open>simp_all add: extends_def\<close>)
      ultimately show ?thesis using up fs unfolding endpoint_released_def by blast
    qed
  qed
qed

lemma api_delete_released:
  assumes L: "finalizer_laws L" and run: "run_state (api_reconcileDelete L E) s = (d, t)"
    and changed: "Finalizers (inst t) \<noteq> Finalizers (inst s)"
  shows "memcached_released L E s t (MemcachedInstance (Spec (inst s))) (Namespace (inst s))
      (GetFinalizer L (Kind (inst s)))"
    and "endpoint_released L E s t (Namespace (inst s)) (GetFinalizer L (Kind (inst s)))"
proof -
  obtain err s1 where 1: "run_state (api_ensureKeystoneEndpointDeletion L E) s = (err, s1)" by fastforce
  have "state_io_rel (keeps Finalizers) (api_ensureKeystoneEndpointDeletion L E)"
    unfolding api_ensureKeystoneEndpointDeletion_def by (intro keep_rules)
  from state_io_relD [OF this 1] have f1: "Finalizers (inst s1) = Finalizers (inst s)" by (simp add: keeps_def)
  with run 1 changed have err: "err = None"
    by (cases err) (auto simp: api_reconcileDelete_def)
  note del = endpoint_deletion_ok [OF L 1 [unfolded err]]
  obtain r s2 where 2: "run_state (release_memcached L E) s1 = (r, s2)" by fastforce
  have "state_io_rel (keeps Finalizers) (release_memcached L E)"
    unfolding service_blocks by (intro keep_rules)
  from state_io_relD [OF this 2] have "Finalizers (inst s2) = Finalizers (inst s1)" by (simp add: keeps_def)
  with run 1 2 err changed f1 have n: "r = Next ()" and e: "extends no_patch s2 t"
    by (auto simp: api_reconcileDelete_def run_continue drop_own_finalizer_def extends_same_trace
        split: flow.splits)
  have e1: "extends (\<lambda>_. True) s s1"
    using 1 by (auto simp: api_ensureKeystoneEndpointDeletion_def extends_def split: sum.splits prod.splits if_splits)
  have e2: "extends (\<lambda>_. True) s1 s2"
    using state_io_relD [OF blocks_calls(4) [where P = "\<lambda>_. True"] 2] by simp
  have e1t: "extends (\<lambda>_. True) s1 t" using e2 e by (auto simp: extends_def)
  from memcached_released_earlier [OF e1 memcached_released_later [OF release_memcached_Next [OF L 2 [unfolded n]] e]]
  show "memcached_released L E s t (MemcachedInstance (Spec (inst s))) (Namespace (inst s))
      (GetFinalizer L (Kind (inst s)))" by (simp add: del(2))
  from endpoint_released_later [OF del(1) e1t]
  show "endpoint_released L E s t (Namespace (inst s)) (GetFinalizer L (Kind (inst s)))" .
qed

text \<open>
  C17. A deleted WatcherAPI loses the operator's finalizer only in a run in which both the Keystone
  endpoint and memcached were gone, did not carry the operator's finalizer, or had it taken off.
\<close>

theorem api_delete_releases:
  assumes "finalizer_laws L"
    and "OnGetInstance E (trace s @ [GetInstance req]) = Inr i" and "NewHelper E = None"
    and "run_state (api_Reconcile L E req) s = (r, t)"
    and "DeletionTimestamp i \<noteq> None" and "Finalizers (inst t) \<noteq> Finalizers i"
  shows "memcached_released L E s t (MemcachedInstance (Spec i)) (Namespace i) (GetFinalizer L (Kind i)) \<and>
    endpoint_released L E s t (Namespace i) (GetFinalizer L (Kind i))"
proof (cases rule: api.reconcile_delete [OF assms(2-5), case_names new old])
  case new
  with assms(6) show ?thesis by simp
next
  case (old s1 u d)
  have e: "extends (\<lambda>_. True) s s1" "extends (\<lambda>_. True) u t" using old by (auto simp: extends_def)
  have "memcached_released L E s1 u (MemcachedInstance (Spec i)) (Namespace i) (GetFinalizer L (Kind i))"
    and "endpoint_released L E s1 u (Namespace i) (GetFinalizer L (Kind i))"
    using api_delete_released [OF assms(1) old(1)] old assms(6) api_same [OF old(4)] by simp_all
  with memcached_released_earlier [OF e(1) memcached_released_later [OF _ e(2)]]
    endpoint_released_earlier [OF e(1) endpoint_released_later [OF _ e(2)]] show ?thesis by blast
qed

end
