(* ===== verification/ApplierController.thy ===== *)
theory ApplierController
  imports ServiceCommon
begin

text \<open>
  \<open>controllers/watcherapplier_controller.go\<close>: the reconcile of a WatcherApplier. \<open>Reconcile\<close> is
  cut at its early returns into blocks, in the order of the source, each ending with a \<open>flow\<close>.
\<close>

definition getApplierServiceLabels :: "lib \<Rightarrow> string_map" where
  "getApplierServiceLabels L = [AppSelector L \<mapsto> WatcherApplierLabelPrefix]"

section \<open>Operations\<close>

definition applier_init_conditions :: "lib \<Rightarrow> condition list" where
  "applier_init_conditions L =
     [UnknownCondition L ReadyCondition InitReason (LibMessage ''ReadyInitMessage''),
      UnknownCondition L InputReadyCondition InitReason (LibMessage ''InputReadyInitMessage''),
      UnknownCondition L ServiceConfigReadyCondition InitReason (LibMessage ''ServiceConfigReadyInitMessage''),
      UnknownCondition L MemcachedReadyCondition InitReason (LibMessage ''MemcachedReadyInitMessage''),
      UnknownCondition L DeploymentReadyCondition InitReason (LibMessage ''DeploymentReadyInitMessage'')]"

definition applier_initStatus :: "lib \<Rightarrow> WatcherApplier \<Rightarrow> WatcherApplier" where
  "applier_initStatus L i =
     i\<lparr>Conditions := CInit L (applier_init_conditions L) (Conditions i),
       ObservedGeneration := Generation i,
       Hash := (case Hash i of None \<Rightarrow> Some Map.empty | Some m \<Rightarrow> Some m)\<rparr>"

definition applier_reconcileDelete ::
  "lib \<Rightarrow> WatcherApplier env \<Rightarrow> (WatcherApplier st, unit flow) state" where
  "applier_reconcileDelete L E =
     continue (release_memcached L E) (\<lambda>_. do {
       drop_own_finalizer L;
       return (Ret Result0 None)
     })"

definition applier_generateServiceConfigs ::
  "lib \<Rightarrow> WatcherApplier env \<Rightarrow> secret \<Rightarrow> memcached \<Rightarrow> env_vars \<Rightarrow>
   (WatcherApplier st, env_vars \<times> error option) state" where
  "applier_generateServiceConfigs L E sec memcached envVars = do {
     i \<leftarrow> the_inst;
     let labels = GetLabels L \<lparr>NName = Name i, NNamespace = Namespace i\<rparr> WatcherApplierLabelPrefix;
     let caBundle = CaBundleSecretName (TLSCa (Spec i));
     sources \<leftarrow> config_sources L E sec;
     case sources of
       Inl err \<Rightarrow> return (envVars, Some err)
     | Inr (keystoneInternalURL, db) \<Rightarrow>
         GenerateConfigsGeneric E i envVars
           (service_parameters L i sec memcached keystoneInternalURL caBundle)
           (service_customData i sec db caBundle) labels False
   }"

definition applier_createHashOfInputHashes ::
  "lib \<Rightarrow> env_vars \<Rightarrow> (WatcherApplier st, string \<times> bool \<times> error option) state" where
  "applier_createHashOfInputHashes L envVars = input_hash L envVars"

definition applier_ensureDeployment ::
  "lib \<Rightarrow> WatcherApplier env \<Rightarrow> string \<Rightarrow> (WatcherApplier st, (result \<times> error option) go) state" where
  "applier_ensureDeployment L E inputHash = do {
     i \<leftarrow> the_inst;
     apply_statefulset L E (applier_StatefulSet L i inputHash (getApplierServiceLabels L))
   }"

section \<open>Reconcile\<close>

definition applier_inputs ::
  "lib \<Rightarrow> WatcherApplier env \<Rightarrow> (WatcherApplier st, (secret \<times> env_vars) flow) state" where
  "applier_inputs L E =
     continue (service_secret L E) (\<lambda>(sec, configVars). do {
       mark_true L InputReadyCondition (LibMessage ''InputReadyMessage'');
       return (Next (sec, configVars))
     })"

definition applier_memcached ::
  "lib \<Rightarrow> WatcherApplier env \<Rightarrow> (WatcherApplier st, memcached flow) state" where
  "applier_memcached L E = claim_memcached L E"

definition applier_config ::
  "lib \<Rightarrow> WatcherApplier env \<Rightarrow> secret \<Rightarrow> env_vars \<Rightarrow> memcached \<Rightarrow> (WatcherApplier st, string flow) state" where
  "applier_config L E sec configVars memcached = do {
     (configVars, err) \<leftarrow> applier_generateServiceConfigs L E sec memcached configVars;
     case err of
       Some e \<Rightarrow> return (Ret Result0 err)
     | None \<Rightarrow> settle_input_hash L (applier_createHashOfInputHashes L configVars)
   }"

definition applier_deploy :: "lib \<Rightarrow> WatcherApplier env \<Rightarrow> string \<Rightarrow> (WatcherApplier st, unit flow) state" where
  "applier_deploy L E inputHash =
     call_go (applier_ensureDeployment L E inputHash) (\<lambda>(res, err).
       if err \<noteq> None then return (Ret res err) else return (Next ()))"

definition applier_normal :: "lib \<Rightarrow> WatcherApplier env \<Rightarrow> (WatcherApplier st, unit flow) state" where
  "applier_normal L E =
     continue (applier_inputs L E) (\<lambda>(sec, configVars).
     continue (applier_memcached L E) (\<lambda>memcached.
     continue (applier_config L E sec configVars memcached) (\<lambda>inputHash.
     continue (applier_deploy L E inputHash) (\<lambda>_.
     finish_reconcile L))))"

text \<open>The body after the deferred function is installed: status, finalizer, deletion, the rest.\<close>

definition applier_body ::
  "lib \<Rightarrow> WatcherApplier env \<Rightarrow> bool \<Rightarrow> (WatcherApplier st, unit flow) state" where
  "applier_body L E isNewInstance = do {
     modify_inst (applier_initStatus L);
     finalizer_gate L isNewInstance (applier_reconcileDelete L E) (applier_normal L E)
   }"

definition applier_Reconcile ::
  "lib \<Rightarrow> WatcherApplier env \<Rightarrow> nsname \<Rightarrow> (WatcherApplier st, (result \<times> error option) go) state" where
  "applier_Reconcile L E req = do {
     got \<leftarrow> perform (GetInstance req) (OnGetInstance E);
     case got of
       Inl err \<Rightarrow> return (Val (Result0, if IsNotFound L (Some err) then None else Some err))
     | Inr i \<Rightarrow> do {
         modify_inst (\<lambda>_. i);
         case NewHelper E of
           Some err \<Rightarrow> return (Val (Result0, Some err))
         | None \<Rightarrow> patch_on_exit L E (Conditions i) (outcome (applier_body L E (Conditions i = None)))
       }
   }"

section \<open>The blocks\<close>

lemmas applier_defs = applier_inputs_def applier_memcached_def applier_config_def applier_deploy_def
  applier_generateServiceConfigs_def applier_createHashOfInputHashes_def applier_ensureDeployment_def

lemma applier_identity_frames:
  "state_io_rel (keeps identity) (applier_inputs L E)"
  "state_io_rel (keeps identity) (applier_memcached L E)"
  "state_io_rel (keeps identity) (applier_config L E sec vars mc)"
  "state_io_rel (keeps identity) (applier_deploy L E h)"
  "state_io_rel (keeps identity) (applier_reconcileDelete L E)"
  unfolding applier_defs applier_reconcileDelete_def
  by (intro keep_rules blocks_identity identity_ops)+

lemma applier_calls_frames:
  assumes "\<And>n. P (GetSecret n)" "\<And>m n. P (GetMemcachedByName m n)" "\<And>m. P (UpdateMemcached m)"
    "\<And>n. P (GetKeystoneAPI n)" "\<And>d a n. P (GetDatabaseByNameAndAccount d a n)"
    "\<And>cms. P (EnsureSecrets cms)"
  shows "state_io_rel (extends P) (applier_inputs L E)"
    "state_io_rel (extends P) (applier_memcached L E)"
    "state_io_rel (extends P) (applier_config L E sec vars mc)"
    "state_io_rel (extends P) (applier_reconcileDelete L E)"
    "(\<And>ss. P (ApplyStatefulSet ss)) \<Longrightarrow> state_io_rel (extends P) (applier_deploy L E h)"
  unfolding applier_defs applier_reconcileDelete_def
  by (intro ext_rules blocks_calls blocks_calls_deploy drop_own_finalizer_rules assms; simp)+

lemma applier_Hash_frames:
  "state_io_rel (keeps Hash) (applier_inputs L E)"
  "state_io_rel (keeps Hash) (applier_memcached L E)"
  "state_io_rel (keeps Hash) (applier_generateServiceConfigs L E sec mc vars)"
  unfolding applier_defs by (intro keep_rules blocks_Hash)+

lemma applier_cstate_frames:
  assumes "cond_laws L"
  shows "u \<noteq> InputReadyCondition \<Longrightarrow> state_io_rel (keeps (cstate u)) (applier_inputs L E)"
    "u \<noteq> MemcachedReadyCondition \<Longrightarrow> state_io_rel (keeps (cstate u)) (applier_memcached L E)"
    "u \<noteq> ServiceConfigReadyCondition \<Longrightarrow> state_io_rel (keeps (cstate u)) (applier_config L E sec vars mc)"
    "u \<noteq> DeploymentReadyCondition \<Longrightarrow> state_io_rel (keeps (cstate u)) (applier_deploy L E h)"
    "state_io_rel (keeps (cstate u)) (applier_reconcileDelete L E)"
  unfolding applier_defs applier_reconcileDelete_def
  by (intro kp.flow_rules keeps_effects blocks_cstate generate_frames keeps_cstate assms; simp)+

lemma applier_conds_frames:
  "state_io_rel (conds L) (applier_reconcileDelete L E)" "state_io_rel (conds L) (applier_normal L E)"
  unfolding applier_normal_def applier_defs applier_reconcileDelete_def
  by (intro cd.flow_rules conds_effects conds_ops blocks_conds generate_frames)+

lemma applier_init_unknown:
  assumes "cond_laws L" and "t \<in> Type ` set (applier_init_conditions L)"
  shows "cstate t (applier_initStatus L i) = Some CUnknown"
proof -
  have "distinct (map Type (applier_init_conditions L))"
    and "\<forall>c \<in> set (applier_init_conditions L). Status c = CUnknown"
    by (simp_all add: applier_init_conditions_def cond_lawsD [OF assms(1)])
  then show ?thesis
    using assms status_of_init_unknown by (simp add: applier_initStatus_def)
qed

lemma applier_init_fields:
  "identity (applier_initStatus L i) = identity i"
  "hash_map (Hash (applier_initStatus L i)) = hash_map (Hash i)"
  "Finalizers (applier_initStatus L i) = Finalizers i"
  by (simp_all add: applier_initStatus_def identity_def hash_map_def split: option.splits)

lemma applier_shape: "applier_Reconcile L E req = reconcile_shape L (\<lambda>i. i) (applier_body L) E req"
  by (simp add: applier_Reconcile_def reconcile_shape_def cong: option.case_cong sum.case_cong)

lemma applier_body_frames:
  "state_io_rel (keeps identity) (applier_body L E new)"
  "state_io_rel (extends no_patch) (applier_body L E new)"
  unfolding applier_body_def applier_normal_def
  by (intro keep_rules gate_keeps applier_identity_frames blocks_identity; simp add: applier_init_fields)
    (intro ext_rules gate_extends applier_calls_frames blocks_calls; simp add: no_patch_def)

lemma applier_Ready_listed:
  assumes "cond_laws L"
  shows "cstate ReadyCondition (inst (snd (run_state (applier_body L E new) s))) \<noteq> None"
  unfolding applier_body_def
  by (rule listed_after_init)
    (use assms in \<open>auto intro: gate_conds applier_conds_frames
      simp: applier_init_unknown applier_init_conditions_def cond_lawsD\<close>)

interpretation applier: service_reconciler L "\<lambda>i. i" "applier_body L" "applier_Reconcile L"
    "applier_initStatus L" "applier_reconcileDelete L" "applier_normal L"
    "Type ` set (applier_init_conditions L) \<union> {ReadyCondition}" for L
  by (unfold_locales; (rule applier_body_frames applier_conds_frames applier_Ready_listed; assumption?)?)
    (auto simp: applier_shape applier_body_def applier_init_fields applier_init_unknown
      applier_init_conditions_def cond_lawsD applier_cstate_frames)

section \<open>What a Ready applier stands for\<close>

text \<open>The configuration secret that \<open>generateServiceConfigs\<close> asks for, from what it has read.\<close>

definition applier_templates ::
  "lib \<Rightarrow> WatcherApplier \<Rightarrow> secret \<Rightarrow> memcached \<Rightarrow> string \<Rightarrow> database \<Rightarrow> template list" where
  "applier_templates L i sec mc keystoneInternalURL db =
     config_templates i
       (service_parameters L i sec mc keystoneInternalURL (CaBundleSecretName (TLSCa (Spec i))))
       (service_customData i sec db (CaBundleSecretName (TLSCa (Spec i))))
       (GetLabels L \<lparr>NName = Name i, NNamespace = Namespace i\<rparr> WatcherApplierLabelPrefix) False"

text \<open>
  What a run that leaves the resource Ready has done: \<open>h\<close> is the input hash the resource records, and
  the one the StatefulSet is built with.
\<close>

definition applier_done ::
  "lib \<Rightarrow> WatcherApplier env \<Rightarrow> WatcherApplier st \<Rightarrow> WatcherApplier st \<Rightarrow> WatcherApplier \<Rightarrow> bool" where
  "applier_done L E s t i \<longleftrightarrow>
     (\<exists>h hs sec.
        secret_read L E s t \<lparr>NName = Secret (Spec i), NNamespace = Namespace i\<rparr>
          (service_expected_fields i) hs sec \<and>
        memcached_claimed E s t (MemcachedInstance (Spec i)) (Namespace i) (GetFinalizer L (Kind i)) \<and>
        config_rendered L E s t i sec (applier_templates L i sec) h \<and>
        hash_map (Hash i) (InputHashName L) = Some h \<and>
        deployed E s t (applier_StatefulSet L i h (getApplierServiceLabels L)) (Replicas (Spec i)))"

lemma applier_done_mono:
  assumes "extends P s0 s" and "extends Q t u" and "applier_done L E s t i"
  shows "applier_done L E s0 u i"
proof -
  note e = assms(1,2)
  from assms(3) obtain h hs sec where
    f: "secret_read L E s t \<lparr>NName = Secret (Spec i), NNamespace = Namespace i\<rparr> (service_expected_fields i) hs sec"
      "memcached_claimed E s t (MemcachedInstance (Spec i)) (Namespace i) (GetFinalizer L (Kind i))"
      "config_rendered L E s t i sec (applier_templates L i sec) h" "hash_map (Hash i) (InputHashName L) = Some h"
      "deployed E s t (applier_StatefulSet L i h (getApplierServiceLabels L)) (Replicas (Spec i))"
    unfolding applier_done_def by (elim exE conjE)
  note g = secret_read_later [OF secret_read_earlier [OF e(1) f(1)] e(2)]
    memcached_claimed_later [OF memcached_claimed_earlier [OF e(1) f(2)] e(2)]
    config_rendered_later [OF config_rendered_earlier [OF e(1) f(3)] e(2)] f(4)
    deployed_later [OF deployed_earlier [OF e(1) f(5)] e(2)]
  show ?thesis unfolding applier_done_def by (intro exI conjI; rule g)
qed

text \<open>Everything the definitions of the workload and of the inputs read is part of the identity.\<close>

lemma applier_same:
  assumes "identity i = identity (j :: WatcherApplier)"
  shows "applier_StatefulSet L i h labels = applier_StatefulSet L j h labels"
    and "service_expected_fields i = service_expected_fields j"
    and "Spec i = Spec j" "Name i = Name j" "Namespace i = Namespace j" "Kind i = Kind j"
    and "applier_templates L i = applier_templates L j"
    and "hash_map (Hash i) = hash_map (Hash j) \<Longrightarrow> applier_done L E s t i = applier_done L E s t j"
proof -
  show one: "applier_StatefulSet L i h labels = applier_StatefulSet L j h labels"
    and two: "service_expected_fields i = service_expected_fields j"
    and eqs: "Spec i = Spec j" "Name i = Name j" "Namespace i = Namespace j" "Kind i = Kind j"
    for h labels
    using assms by (simp_all add: identity_def applier_StatefulSet_def service_expected_fields_def)
  show three: "applier_templates L i = applier_templates L j"
    using eqs by (intro ext) (simp add: applier_templates_def config_templates_def service_parameters_def
        service_customData_def)
  show "applier_done L E s t i = applier_done L E s t j" if "hash_map (Hash i) = hash_map (Hash j)"
    using that by (simp only: applier_done_def config_rendered_def config_written_def one two three eqs)
qed

lemma applier_inputs_Next:
  assumes "cond_laws L" and "RequeueTimeout E \<noteq> 0"
    and "run_state (applier_inputs L E) s = (Next (sec, vars), t)"
  shows "\<exists>h. secret_read L E s t \<lparr>NName = Secret (Spec (inst s)), NNamespace = Namespace (inst s)\<rparr>
      (service_expected_fields (inst s)) h sec"
proof -
  from assms(3) obtain s1 where r: "run_state (service_secret L E) s = (Next (sec, vars), s1)"
      and e: "extends no_patch s1 t"
    by (auto simp: applier_inputs_def run_continue extends_same_trace split: prod.splits flow.splits)
  obtain h where "secret_read L E s s1 \<lparr>NName = Secret (Spec (inst s)), NNamespace = Namespace (inst s)\<rparr>
      (service_expected_fields (inst s)) h sec"
    by (rule service_secret_Next [OF assms(1,2) r])
  from secret_read_later [OF this e] show ?thesis ..
qed

lemma applier_config_Next:
  assumes "hash_laws L" and "run_state (applier_config L E sec vars mc) s = (Next h, t)"
  shows "hash_map (Hash (inst s)) (InputHashName L) = Some h"
    and "\<exists>added vars'. config_written E s t (inst s) sec (applier_templates L (inst s) sec mc) added \<and>
      set added \<subseteq> set vars' \<and> HashEnvs L (MergeEnvs L [] vars') = (h, None)"
proof -
  from assms(2) obtain vars' s1 where g: "run_state (applier_generateServiceConfigs L E sec mc vars) s = ((vars', None), s1)"
      and h: "run_state (settle_input_hash L (input_hash L vars')) s1 = (Next h, t)"
    by (auto simp: applier_config_def applier_createHashOfInputHashes_def split: prod.splits option.splits)
  note settled = settle_input_hash_Next [OF assms(1) h]
  from settled(1) state_io_relD [OF applier_Hash_frames(3) g]
  show "hash_map (Hash (inst s)) (InputHashName L) = Some h" by (simp add: keeps_def)
  obtain added where "vars' = added @ vars" and w: "config_written E s s1 (inst s) sec (applier_templates L (inst s) sec mc) added"
    unfolding applier_templates_def
    by (rule generate_service_configs) (rule g [unfolded applier_generateServiceConfigs_def Let_def, simplified])
  then have sub: "set added \<subseteq> set vars'" by simp
  have "extends (\<lambda>_. True) s1 t"
    by (rule state_io_relD [OF _ h]) (rule blocks_calls(7); simp)
  from config_written_later [OF w this] sub settled(2)
  show "\<exists>added vars'. config_written E s t (inst s) sec (applier_templates L (inst s) sec mc) added \<and>
      set added \<subseteq> set vars' \<and> HashEnvs L (MergeEnvs L [] vars') = (h, None)" by blast
qed

lemma applier_deploy_Next:
  assumes "cond_laws L" and "notfound_law L"
    and "run_state (applier_deploy L E h) s = (Next x, t)"
    and "cstate DeploymentReadyCondition (inst t) \<noteq> Some CFalse"
  shows "deployed E s t (applier_StatefulSet L (inst s) h (getApplierServiceLabels L)) (Replicas (Spec (inst s)))"
  using assms(3,4) apply_statefulset_ready [OF assms(1,2)]
  by (auto simp: applier_deploy_def applier_ensureDeployment_def split: prod.splits go.splits if_splits)

lemma applier_normal_Ready:
  assumes L: "cond_laws L" "finalizer_laws L" "hash_laws L" "notfound_law L" "RequeueTimeout E \<noteq> 0"
    and run: "run_state (applier_normal L E) s = (r, t)"
    and before: "cstate ReadyCondition (inst s) \<noteq> Some CTrue"
    and after: "cstate ReadyCondition (inst t) = Some CTrue"
  shows "applier_done L E s t (inst s)"
    and "u \<noteq> ReadyCondition \<Longrightarrow> cstate u (inst t) \<in> {None, Some CTrue}"
proof -
  note keep = applier_cstate_frames [OF L(1), where u = ReadyCondition, simplified]
  from run obtain sec vars s1 where 1: "run_state (applier_inputs L E) s = (Next (sec, vars), s1)"
      and r1: "run_state (continue (applier_memcached L E) (\<lambda>mc. continue (applier_config L E sec vars mc)
        (\<lambda>h. continue (applier_deploy L E h) (\<lambda>_. finish_reconcile L)))) s1 = (r, t)"
      and b1: "cstate ReadyCondition (inst s1) \<noteq> Some CTrue"
    unfolding applier_normal_def by (rule continue_True [OF _ keep(1) before after]) auto
  from r1 obtain mc s2 where 2: "run_state (applier_memcached L E) s1 = (Next mc, s2)"
      and r2: "run_state (continue (applier_config L E sec vars mc)
        (\<lambda>h. continue (applier_deploy L E h) (\<lambda>_. finish_reconcile L))) s2 = (r, t)"
      and b2: "cstate ReadyCondition (inst s2) \<noteq> Some CTrue"
    by (rule continue_True [OF _ keep(2) b1 after]) auto
  from r2 obtain h s3 where 3: "run_state (applier_config L E sec vars mc) s2 = (Next h, s3)"
      and r3: "run_state (continue (applier_deploy L E h) (\<lambda>_. finish_reconcile L)) s3 = (r, t)"
      and b3: "cstate ReadyCondition (inst s3) \<noteq> Some CTrue"
    by (rule continue_True [OF _ keep(3) b2 after]) auto
  from r3 obtain x s4 where 4: "run_state (applier_deploy L E h) s3 = (Next x, s4)"
      and r4: "run_state (finish_reconcile L) s4 = (r, t)"
      and b4: "cstate ReadyCondition (inst s4) \<noteq> Some CTrue"
    by (rule continue_True [OF _ keep(4) b3 after]) auto
  note fin = finish_Ready [OF L(1) r4 b4 after]
  note calls = applier_calls_frames [where P = "\<lambda>_. True", simplified]
  note e1 = state_io_relD [OF calls(1) 1] and e2 = state_io_relD [OF calls(2) 2]
    and e3 = state_io_relD [OF calls(3) 3] and e4 = state_io_relD [OF calls(5) 4]
  have e5: "extends (\<lambda>_. True) s4 t" using fin(1) by (simp add: extends_def)
  note e3t = extends_trans [OF e4 e5] note e2t = extends_trans [OF e3 e3t] note e1t = extends_trans [OF e2 e2t]
  note e02 = extends_trans [OF e1 e2] note e03 = extends_trans [OF e02 e3]
  note i1 = state_io_relD [OF applier_identity_frames(1) 1, unfolded keeps_def]
  note i2 = state_io_relD [OF applier_identity_frames(2) 2, unfolded keeps_def i1]
  note i3 = state_io_relD [OF applier_identity_frames(3) 3, unfolded keeps_def i2]
  note hash = state_io_relD [OF applier_Hash_frames(1) 1, unfolded keeps_def]
    state_io_relD [OF applier_Hash_frames(2) 2, unfolded keeps_def]
  obtain hs where "secret_read L E s s1 \<lparr>NName = Secret (Spec (inst s)), NNamespace = Namespace (inst s)\<rparr>
      (service_expected_fields (inst s)) hs sec"
    using applier_inputs_Next [OF L(1) L(5) 1] by blast
  note read = secret_read_later [OF this e1t]
  note claim = claim_memcached_Next [OF L(1,2) 2 [unfolded applier_memcached_def]]
  note config = applier_config_Next [OF L(3) 3]
  have "memcached_claimed E s t (MemcachedInstance (Spec (inst s))) (Namespace (inst s)) (GetFinalizer L (Kind (inst s)))"
    and mc: "memcached_read E s t (MemcachedInstance (Spec (inst s))) (Namespace (inst s)) mc"
    using memcached_claimed_later [OF memcached_claimed_earlier [OF e1 claim(1)] e2t]
      memcached_read_later [OF memcached_read_earlier [OF e1 claim(2)] e2t]
    by (simp_all add: applier_same [OF i1])
  moreover obtain added vars' where w: "config_written E s2 s3 (inst s2) sec (applier_templates L (inst s2) sec mc) added"
      and vars': "set added \<subseteq> set vars'" "HashEnvs L (MergeEnvs L [] vars') = (h, None)"
    using config(2) by blast
  have "config_written E s t (inst s) sec (applier_templates L (inst s) sec mc) added"
    using config_written_later [OF config_written_earlier [OF e02 w] e3t]
    by (simp only: config_written_def applier_same [OF i2])
  with mc vars' have "config_rendered L E s t (inst s) sec (applier_templates L (inst s) sec) h"
    unfolding config_rendered_def by blast
  moreover have "hash_map (Hash (inst s)) (InputHashName L) = Some h" using config(1) hash by simp
  moreover have "cstate DeploymentReadyCondition (inst s4) \<noteq> Some CFalse"
    using fin(3) [of DeploymentReadyCondition] by auto
  then have "deployed E s t (applier_StatefulSet L (inst s) h (getApplierServiceLabels L)) (Replicas (Spec (inst s)))"
    using deployed_later [OF deployed_earlier [OF e03 applier_deploy_Next [OF L(1,4) 4]] e5]
    by (simp add: applier_same [OF i3])
  ultimately show "applier_done L E s t (inst s)" using read unfolding applier_done_def by blast
  show "u \<noteq> ReadyCondition \<Longrightarrow> cstate u (inst t) \<in> {None, Some CTrue}"
    using fin(2,3) by simp
qed

lemma applier_Ready:
  assumes "cond_laws L" "finalizer_laws L" "hash_laws L" "notfound_law L" "RequeueTimeout E \<noteq> 0"
    and "OnGetInstance E (trace s @ [GetInstance req]) = Inr i" and "NewHelper E = None"
    and "run_state (applier_Reconcile L E req) s = (r, t)"
    and "cstate ReadyCondition (inst t) = Some CTrue"
  shows "DeletionTimestamp i = None \<and> GetFinalizer L (Kind i) \<in> set (Finalizers i) \<and> applier_done L E s t i \<and>
    (\<forall>u \<in> Type ` set (applier_init_conditions L). cstate u (inst t) = Some CTrue)"
proof -
  obtain b s1 s2 where n: "run_state (applier_normal L E) s2 = (b, s1)"
      and start: "\<forall>u \<in> Type ` set (applier_init_conditions L) \<union> {ReadyCondition}. cstate u (inst s2) = Some CUnknown"
      and ready: "cstate ReadyCondition (inst s1) = Some CTrue"
      and e: "extends (\<lambda>_. True) s s2" "extends (\<lambda>_. True) s1 t"
      and i: "identity (inst s2) = identity i" "hash_map (Hash (inst s2)) = hash_map (Hash i)"
      and rest: "DeletionTimestamp i = None" "GetFinalizer L (Kind i) \<in> set (Finalizers i)"
      "\<forall>u \<in> Type ` set (applier_init_conditions L) \<union> {ReadyCondition}. cstate u (inst t) = Some CTrue"
    by (rule applier.reconcile_Ready [OF assms(1,2,6-9) applier_normal_Ready(2) [OF assms(1-5)]])
  have before: "cstate ReadyCondition (inst s2) \<noteq> Some CTrue" using start by simp
  from applier_done_mono [OF e applier_normal_Ready(1) [OF assms(1-5) n before ready]]
  have "applier_done L E s t i" by (simp only: applier_same(8) [OF i])
  with rest show ?thesis by simp
qed

text \<open>
  C11. A WatcherApplier stored with \<open>Ready\<close> True: in that very run the secret was read with every
  field the configuration needs, memcached was ready and carries the operator's finalizer, the
  configuration was rendered from this secret, the memcached instance, Keystone's internal URL and
  the database the secret names, and stored without an error, and the StatefulSet built from the spec
  and from the input hash the resource records, a hash over that of the stored configuration, was
  applied, its controller has seen it and as many replicas as the spec asks for are ready. Every other
  condition the controller reports is True too, and the resource was live and had the finalizer.
\<close>

theorem applier_ready_sound:
  assumes "cond_laws L" "finalizer_laws L" "hash_laws L" "notfound_law L" "RequeueTimeout E \<noteq> 0"
    and "OnGetInstance E (trace s @ [GetInstance req]) = Inr i" and "NewHelper E = None"
    and "run_state (applier_Reconcile L E req) s = (r, t)"
    and "cstate ReadyCondition (inst t) = Some CTrue"
  shows "DeletionTimestamp i = None \<and> GetFinalizer L (Kind i) \<in> set (Finalizers i) \<and>
    (\<exists>h hs sec.
      secret_read L E s t \<lparr>NName = Secret (Spec i), NNamespace = Namespace i\<rparr>
        (service_expected_fields i) hs sec \<and>
      memcached_claimed E s t (MemcachedInstance (Spec i)) (Namespace i) (GetFinalizer L (Kind i)) \<and>
      config_rendered L E s t i sec (applier_templates L i sec) h \<and>
      hash_map (Hash i) (InputHashName L) = Some h \<and>
      deployed E s t (applier_StatefulSet L i h (getApplierServiceLabels L)) (Replicas (Spec i))) \<and>
    (\<forall>u \<in> Type ` set (applier_init_conditions L). cstate u (inst t) = Some CTrue)"
  using applier_Ready [OF assms] by (simp add: applier_done_def)

section \<open>What the reconcile deploys, and what a deletion does first\<close>

lemma applier_deploy_calls:
  assumes "identity (inst s) = identity i" and "hash_map (Hash i) (InputHashName L) = Some h"
  shows "extends (deploys_only L i (\<lambda>h ss. ss = applier_StatefulSet L i h (getApplierServiceLabels L)))
    s (snd (run_state (applier_deploy L E h) s))"
proof -
  have "state_io_rel (extends (deploys_only L i (\<lambda>h ss. ss = applier_StatefulSet L i h (getApplierServiceLabels L))))
      (apply_statefulset L E (applier_StatefulSet L i h (getApplierServiceLabels L)))"
    by (rule blocks_calls_deploy) (use assms(2) in \<open>simp add: deploys_only_def\<close>)
  then show ?thesis
    unfolding applier_deploy_def run_then_check
    by (simp add: applier_ensureDeployment_def applier_same(1) [OF assms(1)] ext.relD)
qed

lemma applier_no_deploy:
  "state_io_rel (extends no_deploy) (applier_inputs L E)"
  "state_io_rel (extends no_deploy) (applier_memcached L E)"
  "state_io_rel (extends no_deploy) (applier_config L E sec vars mc)"
  by (rule applier_calls_frames; simp add: no_deploy_def)+

lemma applier_normal_calls:
  assumes "hash_laws L" and i: "identity (inst s) = identity i"
    and h: "hash_map (Hash (inst s)) = hash_map (Hash i)"
  shows "extends (deploys_only L i (\<lambda>h ss. ss = applier_StatefulSet L i h (getApplierServiceLabels L)))
    s (snd (run_state (applier_normal L E) s))"
  unfolding applier_normal_def split_def
proof (intro extends_continue no_deploy_run_snd finish_no_deploy;
    (erule no_deploy_run [rotated], rule applier_no_deploy)?)
  fix x1 s1 mc s2 g s3 x s4
  assume 1: "run_state (applier_inputs L E) s = (Next x1, s1)"
    and 2: "run_state (applier_memcached L E) s1 = (Next mc, s2)"
    and 3: "run_state (applier_config L E (fst x1) (snd x1) mc) s2 = (Next g, s3)"
    and 4: "run_state (applier_deploy L E g) s3 = (x, s4)"
  note same = state_io_relD [OF applier_identity_frames(1) 1, unfolded keeps_def]
    state_io_relD [OF applier_identity_frames(2) 2, unfolded keeps_def]
    state_io_relD [OF applier_identity_frames(3) 3, unfolded keeps_def]
    state_io_relD [OF applier_Hash_frames(1) 1, unfolded keeps_def]
    state_io_relD [OF applier_Hash_frames(2) 2, unfolded keeps_def]
  have "hash_map (Hash i) (InputHashName L) = Some g"
    using applier_config_Next [OF assms(1) 3] same h by simp
  from applier_deploy_calls [OF _ this, of s3 E] 4 same i
  show "extends (deploys_only L i (\<lambda>h ss. ss = applier_StatefulSet L i h (getApplierServiceLabels L))) s3 s4" by simp
qed

text \<open>
  Whatever the cluster answers, a reconcile of a WatcherApplier applies no StatefulSet but the one
  built from its spec and from the input hash its status already records: pods never run with a
  configuration the status does not account for.
\<close>

lemma applier_deploys_recorded_hash:
  assumes "hash_laws L"
    and "OnGetInstance E (trace s @ [GetInstance req]) = Inr i" and "NewHelper E = None"
    and "run_state (applier_Reconcile L E req) s = (r, t)"
  shows "extends (deploys_only L i (\<lambda>h ss. ss = applier_StatefulSet L i h (getApplierServiceLabels L))) s t"
proof (rule applier.reconcile_calls [OF assms(2-4)])
  show "state_io_rel (extends (deploys_only L i (\<lambda>h ss. ss = applier_StatefulSet L i h (getApplierServiceLabels L))))
      (applier_reconcileDelete L E)"
    by (rule applier_calls_frames) (simp_all add: deploys_only_def)
qed (simp_all add: deploys_only_def applier_normal_calls [OF assms(1)])

lemma applier_delete_released:
  assumes L: "finalizer_laws L" and run: "run_state (applier_reconcileDelete L E) s = (d, t)"
    and changed: "Finalizers (inst t) \<noteq> Finalizers (inst s)"
  shows "memcached_released L E s t (MemcachedInstance (Spec (inst s))) (Namespace (inst s))
      (GetFinalizer L (Kind (inst s)))"
proof -
  obtain r s1 where r: "run_state (release_memcached L E) s = (r, s1)" by fastforce
  have "state_io_rel (keeps Finalizers) (release_memcached L E)"
    unfolding service_blocks by (intro keep_rules)
  from state_io_relD [OF this r] have "Finalizers (inst s1) = Finalizers (inst s)" by (simp add: keeps_def)
  with run r changed have n: "r = Next ()" and e: "extends no_patch s1 t"
    by (auto simp: applier_reconcileDelete_def run_continue drop_own_finalizer_def extends_same_trace
        split: flow.splits)
  from memcached_released_later [OF release_memcached_Next [OF L r [unfolded n]] e] show ?thesis .
qed

text \<open>
  A deleted WatcherApplier loses the operator's finalizer only in a run in which memcached was
  gone, did not carry the operator's finalizer, or had it taken off.
\<close>

lemma applier_delete_releases_memcached:
  assumes "finalizer_laws L"
    and "OnGetInstance E (trace s @ [GetInstance req]) = Inr i" and "NewHelper E = None"
    and "run_state (applier_Reconcile L E req) s = (r, t)"
    and "DeletionTimestamp i \<noteq> None" and "Finalizers (inst t) \<noteq> Finalizers i"
  shows "memcached_released L E s t (MemcachedInstance (Spec i)) (Namespace i) (GetFinalizer L (Kind i))"
proof (cases rule: applier.reconcile_delete [OF assms(2-5), case_names new old])
  case new
  with assms(6) show ?thesis by simp
next
  case (old s1 u d)
  have e: "extends (\<lambda>_. True) s s1" "extends (\<lambda>_. True) u t" using old by (auto simp: extends_def)
  have "memcached_released L E s1 u (MemcachedInstance (Spec i)) (Namespace i) (GetFinalizer L (Kind i))"
    using applier_delete_released [OF assms(1) old(1)] old assms(6) applier_same [OF old(4)] by simp
  from memcached_released_earlier [OF e(1) memcached_released_later [OF this e(2)]] show ?thesis .
qed

end
