(* ===== verification/DecisionEngineController.thy ===== *)
theory DecisionEngineController
  imports ServiceCommon
begin

text \<open>
  \<open>controllers/watcherdecisionengine_controller.go\<close>: the reconcile of a WatcherDecisionEngine, which
  also needs the Prometheus secret. \<open>Reconcile\<close> is cut at its early returns into blocks, in the order
  of the source, each ending with a \<open>flow\<close>.
\<close>

definition getDecisionEngineServiceLabels :: "lib \<Rightarrow> string_map" where
  "getDecisionEngineServiceLabels L = [AppSelector L \<mapsto> WatcherDecisionEngineLabelPrefix]"

section \<open>Operations\<close>

definition de_init_conditions :: "lib \<Rightarrow> condition list" where
  "de_init_conditions L =
     [UnknownCondition L ReadyCondition InitReason (LibMessage ''ReadyInitMessage''),
      UnknownCondition L InputReadyCondition InitReason (LibMessage ''InputReadyInitMessage''),
      UnknownCondition L ServiceConfigReadyCondition InitReason (LibMessage ''ServiceConfigReadyInitMessage''),
      UnknownCondition L MemcachedReadyCondition InitReason (LibMessage ''MemcachedReadyInitMessage''),
      UnknownCondition L DeploymentReadyCondition InitReason (LibMessage ''DeploymentReadyInitMessage'')]"

definition de_initStatus :: "lib \<Rightarrow> WatcherDecisionEngine \<Rightarrow> WatcherDecisionEngine" where
  "de_initStatus L i =
     i\<lparr>Conditions := CInit L (de_init_conditions L) (Conditions i),
       ObservedGeneration := Generation i,
       Hash := (case Hash i of None \<Rightarrow> Some Map.empty | Some m \<Rightarrow> Some m)\<rparr>"

definition de_reconcileDelete ::
  "lib \<Rightarrow> WatcherDecisionEngine env \<Rightarrow> (WatcherDecisionEngine st, unit flow) state" where
  "de_reconcileDelete L E =
     continue (release_memcached L E) (\<lambda>_. do {
       drop_own_finalizer L;
       return (Ret Result0 None)
     })"

definition de_generateServiceConfigs ::
  "lib \<Rightarrow> WatcherDecisionEngine env \<Rightarrow> secret \<Rightarrow> secret \<Rightarrow> memcached \<Rightarrow> env_vars \<Rightarrow>
   (WatcherDecisionEngine st, env_vars \<times> error option) state" where
  "de_generateServiceConfigs L E sec prometheusSecret memcached envVars = do {
     i \<leftarrow> the_inst;
     let labels = GetLabels L \<lparr>NName = Name i, NNamespace = Namespace i\<rparr> WatcherDecisionEngineLabelPrefix;
     let caBundle = CaBundleSecretName (DETLSCa (Spec i));
     sources \<leftarrow> config_sources L E sec;
     case sources of
       Inl err \<Rightarrow> return (envVars, Some err)
     | Inr (keystoneInternalURL, db) \<Rightarrow>
         GenerateConfigsGeneric E i envVars
           (service_parameters L i sec memcached keystoneInternalURL caBundle @
              prometheus_parameters prometheusSecret)
           (service_customData i sec db caBundle) labels False
   }"

definition de_createHashOfInputHashes ::
  "lib \<Rightarrow> env_vars \<Rightarrow> (WatcherDecisionEngine st, string \<times> bool \<times> error option) state" where
  "de_createHashOfInputHashes L envVars = input_hash L envVars"

definition de_ensureDeployment ::
  "lib \<Rightarrow> WatcherDecisionEngine env \<Rightarrow> secret \<Rightarrow> string \<Rightarrow>
   (WatcherDecisionEngine st, (result \<times> error option) go) state" where
  "de_ensureDeployment L E prometheusSecret inputHash = do {
     i \<leftarrow> the_inst;
     apply_statefulset L E (de_StatefulSet L i inputHash (prometheus_ca_of prometheusSecret)
       (getDecisionEngineServiceLabels L))
   }"

section \<open>Reconcile\<close>

definition de_inputs ::
  "lib \<Rightarrow> WatcherDecisionEngine env \<Rightarrow> (WatcherDecisionEngine st, (secret \<times> secret \<times> env_vars) flow) state" where
  "de_inputs L E =
     continue (service_secret L E) (\<lambda>(sec, configVars).
     continue (prometheus_secret L E configVars) (\<lambda>(prometheusSecret, configVars). do {
       mark_true L InputReadyCondition (LibMessage ''InputReadyMessage'');
       return (Next (sec, prometheusSecret, configVars))
     }))"

definition de_memcached ::
  "lib \<Rightarrow> WatcherDecisionEngine env \<Rightarrow> (WatcherDecisionEngine st, memcached flow) state" where
  "de_memcached L E = claim_memcached L E"

definition de_config ::
  "lib \<Rightarrow> WatcherDecisionEngine env \<Rightarrow> secret \<Rightarrow> secret \<Rightarrow> env_vars \<Rightarrow> memcached \<Rightarrow>
   (WatcherDecisionEngine st, string flow) state" where
  "de_config L E sec prometheusSecret configVars memcached = do {
     (configVars, err) \<leftarrow> de_generateServiceConfigs L E sec prometheusSecret memcached configVars;
     case err of
       Some e \<Rightarrow> return (Ret Result0 err)
     | None \<Rightarrow> settle_input_hash L (de_createHashOfInputHashes L configVars)
   }"

definition de_deploy ::
  "lib \<Rightarrow> WatcherDecisionEngine env \<Rightarrow> secret \<Rightarrow> string \<Rightarrow> (WatcherDecisionEngine st, unit flow) state" where
  "de_deploy L E prometheusSecret inputHash =
     call_go (de_ensureDeployment L E prometheusSecret inputHash) (\<lambda>(res, err).
       if err \<noteq> None then return (Ret res err) else return (Next ()))"

definition de_normal :: "lib \<Rightarrow> WatcherDecisionEngine env \<Rightarrow> (WatcherDecisionEngine st, unit flow) state" where
  "de_normal L E =
     continue (de_inputs L E) (\<lambda>(sec, prometheusSecret, configVars).
     continue (de_memcached L E) (\<lambda>memcached.
     continue (de_config L E sec prometheusSecret configVars memcached) (\<lambda>inputHash.
     continue (de_deploy L E prometheusSecret inputHash) (\<lambda>_.
     finish_reconcile L))))"

text \<open>The body after the deferred function is installed: status, finalizer, deletion, the rest.\<close>

definition de_body ::
  "lib \<Rightarrow> WatcherDecisionEngine env \<Rightarrow> bool \<Rightarrow> (WatcherDecisionEngine st, unit flow) state" where
  "de_body L E isNewInstance = do {
     modify_inst (de_initStatus L);
     finalizer_gate L isNewInstance (de_reconcileDelete L E) (de_normal L E)
   }"

text \<open>A new resource gets an empty list of conditions before the copy is saved.\<close>

definition de_prep :: "WatcherDecisionEngine \<Rightarrow> WatcherDecisionEngine" where
  "de_prep i = (if Conditions i = None then i\<lparr>Conditions := Some []\<rparr> else i)"

definition de_Reconcile ::
  "lib \<Rightarrow> WatcherDecisionEngine env \<Rightarrow> nsname \<Rightarrow> (WatcherDecisionEngine st, (result \<times> error option) go) state" where
  "de_Reconcile L E req = do {
     got \<leftarrow> perform (GetInstance req) (OnGetInstance E);
     case got of
       Inl err \<Rightarrow> return (Val (Result0, if IsNotFound L (Some err) then None else Some err))
     | Inr i \<Rightarrow> do {
         modify_inst (\<lambda>_. i);
         case NewHelper E of
           Some err \<Rightarrow> return (Val (Result0, Some err))
         | None \<Rightarrow> do {
             modify_inst de_prep;
             patch_on_exit L E (Conditions (de_prep i)) (outcome (de_body L E (Conditions i = None)))
           }
       }
   }"

section \<open>The blocks\<close>

lemmas de_defs = de_inputs_def de_memcached_def de_config_def de_deploy_def
  de_generateServiceConfigs_def de_createHashOfInputHashes_def de_ensureDeployment_def

lemma de_identity_frames:
  "state_io_rel (keeps identity) (de_inputs L E)"
  "state_io_rel (keeps identity) (de_memcached L E)"
  "state_io_rel (keeps identity) (de_config L E sec psec vars mc)"
  "state_io_rel (keeps identity) (de_deploy L E psec h)"
  "state_io_rel (keeps identity) (de_reconcileDelete L E)"
  unfolding de_defs de_reconcileDelete_def
  by (intro keep_rules blocks_identity identity_ops)+

lemma de_calls_frames:
  assumes "\<And>n. P (GetSecret n)" "\<And>m n. P (GetMemcachedByName m n)" "\<And>m. P (UpdateMemcached m)"
    "\<And>n. P (GetKeystoneAPI n)" "\<And>d a n. P (GetDatabaseByNameAndAccount d a n)"
    "\<And>cms. P (EnsureSecrets cms)"
  shows "state_io_rel (extends P) (de_inputs L E)"
    "state_io_rel (extends P) (de_memcached L E)"
    "state_io_rel (extends P) (de_config L E sec psec vars mc)"
    "state_io_rel (extends P) (de_reconcileDelete L E)"
    "(\<And>ss. P (ApplyStatefulSet ss)) \<Longrightarrow> state_io_rel (extends P) (de_deploy L E psec h)"
  unfolding de_defs de_reconcileDelete_def
  by (intro ext_rules blocks_calls blocks_calls_deploy drop_own_finalizer_rules assms; simp)+

lemma de_Hash_frames:
  "state_io_rel (keeps Hash) (de_inputs L E)"
  "state_io_rel (keeps Hash) (de_memcached L E)"
  "state_io_rel (keeps Hash) (de_generateServiceConfigs L E sec psec mc vars)"
  unfolding de_defs by (intro keep_rules blocks_Hash)+

lemma de_cstate_frames:
  assumes "cond_laws L"
  shows "u \<noteq> InputReadyCondition \<Longrightarrow> state_io_rel (keeps (cstate u)) (de_inputs L E)"
    "u \<noteq> MemcachedReadyCondition \<Longrightarrow> state_io_rel (keeps (cstate u)) (de_memcached L E)"
    "u \<noteq> ServiceConfigReadyCondition \<Longrightarrow> state_io_rel (keeps (cstate u)) (de_config L E sec psec vars mc)"
    "u \<noteq> DeploymentReadyCondition \<Longrightarrow> state_io_rel (keeps (cstate u)) (de_deploy L E psec h)"
    "state_io_rel (keeps (cstate u)) (de_reconcileDelete L E)"
  unfolding de_defs de_reconcileDelete_def
  by (intro kp.flow_rules keeps_effects blocks_cstate generate_frames keeps_cstate assms; simp)+

lemma de_conds_frames:
  "state_io_rel (conds L) (de_reconcileDelete L E)" "state_io_rel (conds L) (de_normal L E)"
  unfolding de_normal_def de_defs de_reconcileDelete_def
  by (intro cd.flow_rules conds_effects conds_ops blocks_conds generate_frames)+

lemma de_init_unknown:
  assumes "cond_laws L" and "t \<in> Type ` set (de_init_conditions L)"
  shows "cstate t (de_initStatus L i) = Some CUnknown"
proof -
  have "distinct (map Type (de_init_conditions L))"
    and "\<forall>c \<in> set (de_init_conditions L). Status c = CUnknown"
    by (simp_all add: de_init_conditions_def cond_lawsD [OF assms(1)])
  then show ?thesis
    using assms status_of_init_unknown by (simp add: de_initStatus_def)
qed

lemma de_init_fields:
  "identity (de_initStatus L i) = identity i"
  "hash_map (Hash (de_initStatus L i)) = hash_map (Hash i)"
  "Finalizers (de_initStatus L i) = Finalizers i"
  by (simp_all add: de_initStatus_def identity_def hash_map_def split: option.splits)

lemma de_prep_fields:
  "identity (de_prep i) = identity i" "Finalizers (de_prep i) = Finalizers i" "Hash (de_prep i) = Hash i"
  by (simp_all add: de_prep_def)

lemma de_shape: "de_Reconcile L E req = reconcile_shape L de_prep (de_body L) E req"
  by (simp add: de_Reconcile_def reconcile_shape_def cong: option.case_cong sum.case_cong)

lemma de_body_frames:
  "state_io_rel (keeps identity) (de_body L E new)"
  "state_io_rel (extends no_patch) (de_body L E new)"
  unfolding de_body_def de_normal_def
  by (intro keep_rules gate_keeps de_identity_frames blocks_identity; simp add: de_init_fields)
    (intro ext_rules gate_extends de_calls_frames blocks_calls; simp add: no_patch_def)

lemma de_Ready_listed:
  assumes "cond_laws L"
  shows "cstate ReadyCondition (inst (snd (run_state (de_body L E new) s))) \<noteq> None"
  unfolding de_body_def
  by (rule listed_after_init)
    (use assms in \<open>auto intro: gate_conds de_conds_frames
      simp: de_init_unknown de_init_conditions_def cond_lawsD\<close>)

interpretation de: service_reconciler L de_prep "de_body L" "de_Reconcile L"
    "de_initStatus L" "de_reconcileDelete L" "de_normal L"
    "Type ` set (de_init_conditions L) \<union> {ReadyCondition}" for L
  by (unfold_locales; (rule de_body_frames de_conds_frames de_Ready_listed; assumption?)?)
    (auto simp: de_shape de_prep_fields de_body_def de_init_fields de_init_unknown
      de_init_conditions_def cond_lawsD de_cstate_frames)

section \<open>What a Ready decision engine stands for\<close>

text \<open>The configuration secret that \<open>generateServiceConfigs\<close> asks for, from what it has read.\<close>

definition de_templates ::
  "lib \<Rightarrow> WatcherDecisionEngine \<Rightarrow> secret \<Rightarrow> secret \<Rightarrow> memcached \<Rightarrow> string \<Rightarrow> database \<Rightarrow> template list" where
  "de_templates L i sec psec mc keystoneInternalURL db =
     config_templates i
       (service_parameters L i sec mc keystoneInternalURL (CaBundleSecretName (DETLSCa (Spec i))) @
          prometheus_parameters psec)
       (service_customData i sec db (CaBundleSecretName (DETLSCa (Spec i))))
       (GetLabels L \<lparr>NName = Name i, NNamespace = Namespace i\<rparr> WatcherDecisionEngineLabelPrefix) False"

text \<open>
  What a run that leaves the resource Ready has done: \<open>h\<close> is the input hash the resource records, and
  the one the StatefulSet is built with.
\<close>

definition de_done ::
  "lib \<Rightarrow> WatcherDecisionEngine env \<Rightarrow> WatcherDecisionEngine st \<Rightarrow> WatcherDecisionEngine st \<Rightarrow>
   WatcherDecisionEngine \<Rightarrow> bool" where
  "de_done L E s t i \<longleftrightarrow>
    (\<exists>h hs sec hp psec.
      secret_read L E s t \<lparr>NName = Secret (Spec i), NNamespace = Namespace i\<rparr>
        (service_expected_fields i) hs sec \<and>
      secret_read L E s t \<lparr>NName = PrometheusSecret (Spec i), NNamespace = Namespace i\<rparr>
        [PrometheusHost, PrometheusPort] hp psec \<and>
      memcached_claimed E s t (MemcachedInstance (Spec i)) (Namespace i) (GetFinalizer L (Kind i)) \<and>
      config_rendered L E s t i sec (de_templates L i sec psec) h \<and>
      hash_map (Hash i) (InputHashName L) = Some h \<and>
      deployed E s t (de_StatefulSet L i h (prometheus_ca_of psec) (getDecisionEngineServiceLabels L))
        (Replicas (Spec i)))"

lemma de_done_mono:
  assumes "extends P s0 s" and "extends Q t u" and "de_done L E s t i"
  shows "de_done L E s0 u i"
proof -
  note e = assms(1,2)
  from assms(3) obtain h hs sec hp psec where
    f: "secret_read L E s t \<lparr>NName = Secret (Spec i), NNamespace = Namespace i\<rparr> (service_expected_fields i) hs sec"
      "secret_read L E s t \<lparr>NName = PrometheusSecret (Spec i), NNamespace = Namespace i\<rparr>
        [PrometheusHost, PrometheusPort] hp psec"
      "memcached_claimed E s t (MemcachedInstance (Spec i)) (Namespace i) (GetFinalizer L (Kind i))"
      "config_rendered L E s t i sec (de_templates L i sec psec) h" "hash_map (Hash i) (InputHashName L) = Some h"
      "deployed E s t (de_StatefulSet L i h (prometheus_ca_of psec) (getDecisionEngineServiceLabels L)) (Replicas (Spec i))"
    unfolding de_done_def by (elim exE conjE)
  note g = secret_read_later [OF secret_read_earlier [OF e(1) f(1)] e(2)]
    secret_read_later [OF secret_read_earlier [OF e(1) f(2)] e(2)]
    memcached_claimed_later [OF memcached_claimed_earlier [OF e(1) f(3)] e(2)]
    config_rendered_later [OF config_rendered_earlier [OF e(1) f(4)] e(2)] f(5)
    deployed_later [OF deployed_earlier [OF e(1) f(6)] e(2)]
  show ?thesis unfolding de_done_def by (intro exI conjI; rule g)
qed

text \<open>Everything the definitions of the workload and of the inputs read is part of the identity.\<close>

lemma de_same:
  assumes "identity i = identity (j :: WatcherDecisionEngine)"
  shows "de_StatefulSet L i h ca labels = de_StatefulSet L j h ca labels"
    and "service_expected_fields i = service_expected_fields j"
    and "Spec i = Spec j" "Name i = Name j" "Namespace i = Namespace j" "Kind i = Kind j"
    and "de_templates L i = de_templates L j"
    and "hash_map (Hash i) = hash_map (Hash j) \<Longrightarrow> de_done L E s t i = de_done L E s t j"
proof -
  show one: "de_StatefulSet L i h ca labels = de_StatefulSet L j h ca labels"
    and two: "service_expected_fields i = service_expected_fields j"
    and eqs: "Spec i = Spec j" "Name i = Name j" "Namespace i = Namespace j" "Kind i = Kind j"
    for h ca labels
    using assms by (simp_all add: identity_def de_StatefulSet_def de_volumes_def
      de_volume_mounts_def service_expected_fields_def)
  show three: "de_templates L i = de_templates L j"
    using eqs by (intro ext) (simp add: de_templates_def config_templates_def service_parameters_def
        service_customData_def)
  show "de_done L E s t i = de_done L E s t j" if "hash_map (Hash i) = hash_map (Hash j)"
    using that by (simp only: de_done_def config_rendered_def config_written_def one two three eqs)
qed

lemma de_inputs_Next:
  assumes "cond_laws L" and "RequeueTimeout E \<noteq> 0"
    and "run_state (de_inputs L E) s = (Next (sec, psec, vars), t)"
  shows "\<exists>h. secret_read L E s t \<lparr>NName = Secret (Spec (inst s)), NNamespace = Namespace (inst s)\<rparr>
      (service_expected_fields (inst s)) h sec"
    and "\<exists>h. secret_read L E s t \<lparr>NName = PrometheusSecret (Spec (inst s)), NNamespace = Namespace (inst s)\<rparr>
      [PrometheusHost, PrometheusPort] h psec"
proof -
  from assms(3) obtain v s1 s2 where 1: "run_state (service_secret L E) s = (Next (sec, v), s1)"
      and 2: "run_state (prometheus_secret L E v) s1 = (Next (psec, vars), s2)"
      and e: "extends no_patch s2 t"
    by (auto simp: de_inputs_def run_continue extends_same_trace split: prod.splits flow.splits)
  note frames = blocks_calls [where P = "\<lambda>_. True", simplified]
  note e1 = state_io_relD [OF frames(1) 1] and e2 = state_io_relD [OF frames(2) 2]
  obtain h where h: "secret_read L E s s1 \<lparr>NName = Secret (Spec (inst s)), NNamespace = Namespace (inst s)\<rparr>
      (service_expected_fields (inst s)) h sec" and s1: "inst s1 = inst s"
    by (rule service_secret_Next [OF assms(1,2) 1])
  obtain g where g: "secret_read L E s1 s2 \<lparr>NName = PrometheusSecret (Spec (inst s)), NNamespace = Namespace (inst s)\<rparr>
      [PrometheusHost, PrometheusPort] g psec"
    by (rule prometheus_secret_Next [OF assms(1) 2]) (simp add: s1)
  from secret_read_later [OF secret_read_later [OF h e2] e]
  show "\<exists>h. secret_read L E s t \<lparr>NName = Secret (Spec (inst s)), NNamespace = Namespace (inst s)\<rparr>
      (service_expected_fields (inst s)) h sec" ..
  from secret_read_later [OF secret_read_earlier [OF e1 g] e]
  show "\<exists>h. secret_read L E s t \<lparr>NName = PrometheusSecret (Spec (inst s)), NNamespace = Namespace (inst s)\<rparr>
      [PrometheusHost, PrometheusPort] h psec" ..
qed

lemma de_config_Next:
  assumes "hash_laws L" and "run_state (de_config L E sec psec vars mc) s = (Next h, t)"
  shows "hash_map (Hash (inst s)) (InputHashName L) = Some h"
    and "\<exists>added vars'. config_written E s t (inst s) sec (de_templates L (inst s) sec psec mc) added \<and>
      set added \<subseteq> set vars' \<and> HashEnvs L (MergeEnvs L [] vars') = (h, None)"
proof -
  from assms(2) obtain vars' s1 where g: "run_state (de_generateServiceConfigs L E sec psec mc vars) s = ((vars', None), s1)"
      and h: "run_state (settle_input_hash L (input_hash L vars')) s1 = (Next h, t)"
    by (auto simp: de_config_def de_createHashOfInputHashes_def split: prod.splits option.splits)
  note settled = settle_input_hash_Next [OF assms(1) h]
  from settled(1) state_io_relD [OF de_Hash_frames(3) g]
  show "hash_map (Hash (inst s)) (InputHashName L) = Some h" by (simp add: keeps_def)
  obtain added where "vars' = added @ vars"
      and w: "config_written E s s1 (inst s) sec (de_templates L (inst s) sec psec mc) added"
    unfolding de_templates_def
    by (rule generate_service_configs) (rule g [unfolded de_generateServiceConfigs_def Let_def, simplified])
  then have sub: "set added \<subseteq> set vars'" by simp
  have "extends (\<lambda>_. True) s1 t"
    by (rule state_io_relD [OF _ h]) (rule blocks_calls(7); simp)
  from config_written_later [OF w this] sub settled(2)
  show "\<exists>added vars'. config_written E s t (inst s) sec (de_templates L (inst s) sec psec mc) added \<and>
      set added \<subseteq> set vars' \<and> HashEnvs L (MergeEnvs L [] vars') = (h, None)" by blast
qed

lemma de_deploy_Next:
  assumes "cond_laws L" and "notfound_law L"
    and "run_state (de_deploy L E psec h) s = (Next x, t)"
    and "cstate DeploymentReadyCondition (inst t) \<noteq> Some CFalse"
  shows "deployed E s t (de_StatefulSet L (inst s) h (prometheus_ca_of psec) (getDecisionEngineServiceLabels L)) (Replicas (Spec (inst s)))"
  using assms(3,4) apply_statefulset_ready [OF assms(1,2)]
  by (auto simp: de_deploy_def de_ensureDeployment_def split: prod.splits go.splits if_splits)

lemma de_normal_Ready:
  assumes L: "cond_laws L" "finalizer_laws L" "hash_laws L" "notfound_law L" "RequeueTimeout E \<noteq> 0"
    and run: "run_state (de_normal L E) s = (r, t)"
    and before: "cstate ReadyCondition (inst s) \<noteq> Some CTrue"
    and after: "cstate ReadyCondition (inst t) = Some CTrue"
  shows "de_done L E s t (inst s)"
    and "u \<noteq> ReadyCondition \<Longrightarrow> cstate u (inst t) \<in> {None, Some CTrue}"
proof -
  note keep = de_cstate_frames [OF L(1), where u = ReadyCondition, simplified]
  from run obtain sec psec vars s1 where 1: "run_state (de_inputs L E) s = (Next (sec, psec, vars), s1)"
      and r1: "run_state (continue (de_memcached L E) (\<lambda>mc. continue (de_config L E sec psec vars mc)
        (\<lambda>h. continue (de_deploy L E psec h) (\<lambda>_. finish_reconcile L)))) s1 = (r, t)"
      and b1: "cstate ReadyCondition (inst s1) \<noteq> Some CTrue"
    unfolding de_normal_def by (rule continue_True [OF _ keep(1) before after]) auto
  from r1 obtain mc s2 where 2: "run_state (de_memcached L E) s1 = (Next mc, s2)"
      and r2: "run_state (continue (de_config L E sec psec vars mc)
        (\<lambda>h. continue (de_deploy L E psec h) (\<lambda>_. finish_reconcile L))) s2 = (r, t)"
      and b2: "cstate ReadyCondition (inst s2) \<noteq> Some CTrue"
    by (rule continue_True [OF _ keep(2) b1 after]) auto
  from r2 obtain h s3 where 3: "run_state (de_config L E sec psec vars mc) s2 = (Next h, s3)"
      and r3: "run_state (continue (de_deploy L E psec h) (\<lambda>_. finish_reconcile L)) s3 = (r, t)"
      and b3: "cstate ReadyCondition (inst s3) \<noteq> Some CTrue"
    by (rule continue_True [OF _ keep(3) b2 after]) auto
  from r3 obtain x s4 where 4: "run_state (de_deploy L E psec h) s3 = (Next x, s4)"
      and r4: "run_state (finish_reconcile L) s4 = (r, t)"
      and b4: "cstate ReadyCondition (inst s4) \<noteq> Some CTrue"
    by (rule continue_True [OF _ keep(4) b3 after]) auto
  note fin = finish_Ready [OF L(1) r4 b4 after]
  note calls = de_calls_frames [where P = "\<lambda>_. True", simplified]
  note e1 = state_io_relD [OF calls(1) 1] and e2 = state_io_relD [OF calls(2) 2]
    and e3 = state_io_relD [OF calls(3) 3] and e4 = state_io_relD [OF calls(5) 4]
  have e5: "extends (\<lambda>_. True) s4 t" using fin(1) by (simp add: extends_def)
  note e3t = extends_trans [OF e4 e5] note e2t = extends_trans [OF e3 e3t] note e1t = extends_trans [OF e2 e2t]
  note e02 = extends_trans [OF e1 e2] note e03 = extends_trans [OF e02 e3]
  note i1 = state_io_relD [OF de_identity_frames(1) 1, unfolded keeps_def]
  note i2 = state_io_relD [OF de_identity_frames(2) 2, unfolded keeps_def i1]
  note i3 = state_io_relD [OF de_identity_frames(3) 3, unfolded keeps_def i2]
  note hash = state_io_relD [OF de_Hash_frames(1) 1, unfolded keeps_def]
    state_io_relD [OF de_Hash_frames(2) 2, unfolded keeps_def]
  obtain hs where sec: "secret_read L E s s1 \<lparr>NName = Secret (Spec (inst s)), NNamespace = Namespace (inst s)\<rparr>
      (service_expected_fields (inst s)) hs sec"
    using de_inputs_Next(1) [OF L(1) L(5) 1] by blast
  obtain hp where psec: "secret_read L E s s1 \<lparr>NName = PrometheusSecret (Spec (inst s)), NNamespace = Namespace (inst s)\<rparr>
      [PrometheusHost, PrometheusPort] hp psec"
    using de_inputs_Next(2) [OF L(1) L(5) 1] by blast
  note read = secret_read_later [OF sec e1t] secret_read_later [OF psec e1t]
  note claim = claim_memcached_Next [OF L(1,2) 2 [unfolded de_memcached_def]]
  note config = de_config_Next [OF L(3) 3]
  have "memcached_claimed E s t (MemcachedInstance (Spec (inst s))) (Namespace (inst s)) (GetFinalizer L (Kind (inst s)))"
    and mc: "memcached_read E s t (MemcachedInstance (Spec (inst s))) (Namespace (inst s)) mc"
    using memcached_claimed_later [OF memcached_claimed_earlier [OF e1 claim(1)] e2t]
      memcached_read_later [OF memcached_read_earlier [OF e1 claim(2)] e2t]
    by (simp_all add: de_same [OF i1])
  moreover obtain added vars' where w: "config_written E s2 s3 (inst s2) sec (de_templates L (inst s2) sec psec mc) added"
      and vars': "set added \<subseteq> set vars'" "HashEnvs L (MergeEnvs L [] vars') = (h, None)"
    using config(2) by blast
  have "config_written E s t (inst s) sec (de_templates L (inst s) sec psec mc) added"
    using config_written_later [OF config_written_earlier [OF e02 w] e3t]
    by (simp only: config_written_def de_same [OF i2])
  with mc vars' have "config_rendered L E s t (inst s) sec (de_templates L (inst s) sec psec) h"
    unfolding config_rendered_def by blast
  moreover have "hash_map (Hash (inst s)) (InputHashName L) = Some h" using config(1) hash by simp
  moreover have "cstate DeploymentReadyCondition (inst s4) \<noteq> Some CFalse"
    using fin(3) [of DeploymentReadyCondition] by auto
  then have "deployed E s t (de_StatefulSet L (inst s) h (prometheus_ca_of psec) (getDecisionEngineServiceLabels L)) (Replicas (Spec (inst s)))"
    using deployed_later [OF deployed_earlier [OF e03 de_deploy_Next [OF L(1,4) 4]] e5]
    by (simp add: de_same [OF i3])
  ultimately show "de_done L E s t (inst s)" using read unfolding de_done_def by blast
  show "u \<noteq> ReadyCondition \<Longrightarrow> cstate u (inst t) \<in> {None, Some CTrue}"
    using fin(2,3) by simp
qed

lemma de_Ready:
  assumes "cond_laws L" "finalizer_laws L" "hash_laws L" "notfound_law L" "RequeueTimeout E \<noteq> 0"
    and "OnGetInstance E (trace s @ [GetInstance req]) = Inr i" and "NewHelper E = None"
    and "run_state (de_Reconcile L E req) s = (r, t)"
    and "cstate ReadyCondition (inst t) = Some CTrue"
  shows "DeletionTimestamp i = None \<and> GetFinalizer L (Kind i) \<in> set (Finalizers i) \<and>
    de_done L E s t i \<and>
    (\<forall>u \<in> Type ` set (de_init_conditions L). cstate u (inst t) = Some CTrue)"
proof -
  obtain b s1 s2 where n: "run_state (de_normal L E) s2 = (b, s1)"
      and start: "\<forall>u \<in> Type ` set (de_init_conditions L) \<union> {ReadyCondition}. cstate u (inst s2) = Some CUnknown"
      and ready: "cstate ReadyCondition (inst s1) = Some CTrue"
      and e: "extends (\<lambda>_. True) s s2" "extends (\<lambda>_. True) s1 t"
      and i: "identity (inst s2) = identity i" "hash_map (Hash (inst s2)) = hash_map (Hash i)"
      and rest: "DeletionTimestamp i = None" "GetFinalizer L (Kind i) \<in> set (Finalizers i)"
      "\<forall>u \<in> Type ` set (de_init_conditions L) \<union> {ReadyCondition}. cstate u (inst t) = Some CTrue"
    by (rule de.reconcile_Ready [OF assms(1,2,6-9) de_normal_Ready(2) [OF assms(1-5)]])
  have before: "cstate ReadyCondition (inst s2) \<noteq> Some CTrue" using start by simp
  from de_done_mono [OF e de_normal_Ready(1) [OF assms(1-5) n before ready]]
  have "de_done L E s t i" by (simp only: de_same(8) [OF i])
  with rest show ?thesis by simp
qed

text \<open>
  C12. A WatcherDecisionEngine stored with \<open>Ready\<close> True: in that very run the secret was read with
  every field the configuration needs and the Prometheus secret with its host and port, memcached was
  ready and carries the operator's finalizer, the configuration was rendered from these secrets, the
  memcached instance, Keystone's internal URL and the database the secret names, and stored without an
  error, and the StatefulSet built from the spec and from the input hash the resource records, a hash
  over that of the stored configuration, was applied, its controller has seen it and as many replicas
  as the spec asks for are ready. Every other condition the controller reports is True too, and the
  resource was live and had the finalizer.
\<close>

theorem de_ready_sound:
  assumes "cond_laws L" "finalizer_laws L" "hash_laws L" "notfound_law L" "RequeueTimeout E \<noteq> 0"
    and "OnGetInstance E (trace s @ [GetInstance req]) = Inr i" and "NewHelper E = None"
    and "run_state (de_Reconcile L E req) s = (r, t)"
    and "cstate ReadyCondition (inst t) = Some CTrue"
  shows "DeletionTimestamp i = None \<and> GetFinalizer L (Kind i) \<in> set (Finalizers i) \<and>
    (\<exists>h hs sec hp psec.
      secret_read L E s t \<lparr>NName = Secret (Spec i), NNamespace = Namespace i\<rparr>
        (service_expected_fields i) hs sec \<and>
      secret_read L E s t \<lparr>NName = PrometheusSecret (Spec i), NNamespace = Namespace i\<rparr>
        [PrometheusHost, PrometheusPort] hp psec \<and>
      memcached_claimed E s t (MemcachedInstance (Spec i)) (Namespace i) (GetFinalizer L (Kind i)) \<and>
      config_rendered L E s t i sec (de_templates L i sec psec) h \<and>
      hash_map (Hash i) (InputHashName L) = Some h \<and>
      deployed E s t (de_StatefulSet L i h (prometheus_ca_of psec) (getDecisionEngineServiceLabels L))
        (Replicas (Spec i))) \<and>
    (\<forall>u \<in> Type ` set (de_init_conditions L). cstate u (inst t) = Some CTrue)"
  using de_Ready [OF assms] by (simp add: de_done_def)

section \<open>What the reconcile deploys, and what a deletion does first\<close>

text \<open>Built from the hash and from a Prometheus secret the cluster returned.\<close>

definition de_built ::
  "lib \<Rightarrow> WatcherDecisionEngine env \<Rightarrow> WatcherDecisionEngine \<Rightarrow> string \<Rightarrow> statefulset \<Rightarrow> bool" where
  "de_built L E i h ss \<longleftrightarrow> (\<exists>psec g. OnGetSecret E g = Inr psec \<and>
     ss = de_StatefulSet L i h (prometheus_ca_of psec) (getDecisionEngineServiceLabels L))"

lemma de_deploy_calls:
  assumes "OnGetSecret E g = Inr psec" and "identity (inst s) = identity i" and "hash_map (Hash i) (InputHashName L) = Some h"
  shows "extends (deploys_only L i (de_built L E i))
    s (snd (run_state (de_deploy L E psec h) s))"
proof -
  have "state_io_rel (extends (deploys_only L i (de_built L E i)))
      (apply_statefulset L E (de_StatefulSet L i h (prometheus_ca_of psec) (getDecisionEngineServiceLabels L)))"
    by (rule blocks_calls_deploy) (use assms(1,3) in \<open>auto simp: deploys_only_def de_built_def\<close>)
  then show ?thesis
    unfolding de_deploy_def run_then_check
    by (simp add: de_ensureDeployment_def de_same(1) [OF assms(2)] ext.relD)
qed

lemma de_no_deploy:
  "state_io_rel (extends no_deploy) (de_inputs L E)"
  "state_io_rel (extends no_deploy) (de_memcached L E)"
  "state_io_rel (extends no_deploy) (de_config L E sec psec vars mc)"
  by (rule de_calls_frames; simp add: no_deploy_def)+

lemma de_normal_calls:
  assumes L: "hash_laws L" "cond_laws L" "RequeueTimeout E \<noteq> 0" and i: "identity (inst s) = identity i"
    and h: "hash_map (Hash (inst s)) = hash_map (Hash i)"
  shows "extends (deploys_only L i (de_built L E i)) s (snd (run_state (de_normal L E) s))"
  unfolding de_normal_def split_def
proof (intro extends_continue no_deploy_run_snd finish_no_deploy;
    (erule no_deploy_run [rotated], rule de_no_deploy)?)
  fix x1 s1 mc s2 g s3 x s4
  assume 1: "run_state (de_inputs L E) s = (Next x1, s1)"
    and 2: "run_state (de_memcached L E) s1 = (Next mc, s2)"
    and 3: "run_state (de_config L E (fst x1) (fst (snd x1)) (snd (snd x1)) mc) s2 = (Next g, s3)"
    and 4: "run_state (de_deploy L E (fst (snd x1)) g) s3 = (x, s4)"
  note same = state_io_relD [OF de_identity_frames(1) 1, unfolded keeps_def]
    state_io_relD [OF de_identity_frames(2) 2, unfolded keeps_def]
    state_io_relD [OF de_identity_frames(3) 3, unfolded keeps_def]
    state_io_relD [OF de_Hash_frames(1) 1, unfolded keeps_def]
    state_io_relD [OF de_Hash_frames(2) 2, unfolded keeps_def]
  have hash: "hash_map (Hash i) (InputHashName L) = Some g"
    using de_config_Next [OF L(1) 3] same h by simp
  obtain k where "OnGetSecret E k = Inr (fst (snd x1))"
    using de_inputs_Next(2) [OF L(2,3), of s "fst x1" "fst (snd x1)" "snd (snd x1)" s1] 1
    by (auto simp: secret_read_def answered_since_def)
  from de_deploy_calls [OF this _ hash, of s3] 4 same i
  show "extends (deploys_only L i (de_built L E i)) s3 s4" by simp
qed

text \<open>
  Whatever the cluster answers, a reconcile of a WatcherDecisionEngine applies no StatefulSet but
  one built from its spec, a Prometheus secret the cluster returned and the input hash its status
  already records: pods never run with a configuration the status does not account for.
\<close>

lemma de_deploys_recorded_hash:
  assumes "hash_laws L" "cond_laws L" "RequeueTimeout E \<noteq> 0"
    and "OnGetInstance E (trace s @ [GetInstance req]) = Inr i" and "NewHelper E = None"
    and "run_state (de_Reconcile L E req) s = (r, t)"
  shows "extends (deploys_only L i (de_built L E i)) s t"
proof (rule de.reconcile_calls [OF assms(4-6)])
  show "state_io_rel (extends (deploys_only L i (de_built L E i))) (de_reconcileDelete L E)"
    by (rule de_calls_frames) (simp_all add: deploys_only_def)
qed (simp_all add: deploys_only_def de_normal_calls [OF assms(1-3)])

lemma de_delete_released:
  assumes L: "finalizer_laws L" and run: "run_state (de_reconcileDelete L E) s = (d, t)"
    and changed: "Finalizers (inst t) \<noteq> Finalizers (inst s)"
  shows "memcached_released L E s t (MemcachedInstance (Spec (inst s))) (Namespace (inst s))
      (GetFinalizer L (Kind (inst s)))"
proof -
  obtain r s1 where r: "run_state (release_memcached L E) s = (r, s1)" by fastforce
  have "state_io_rel (keeps Finalizers) (release_memcached L E)"
    unfolding service_blocks by (intro keep_rules)
  from state_io_relD [OF this r] have "Finalizers (inst s1) = Finalizers (inst s)" by (simp add: keeps_def)
  with run r changed have n: "r = Next ()" and e: "extends no_patch s1 t"
    by (auto simp: de_reconcileDelete_def run_continue drop_own_finalizer_def extends_same_trace
        split: flow.splits)
  from memcached_released_later [OF release_memcached_Next [OF L r [unfolded n]] e] show ?thesis .
qed

text \<open>
  A deleted WatcherDecisionEngine loses the operator's finalizer only in a run in which memcached was
  gone, did not carry the operator's finalizer, or had it taken off.
\<close>

lemma de_delete_releases_memcached:
  assumes "finalizer_laws L"
    and "OnGetInstance E (trace s @ [GetInstance req]) = Inr i" and "NewHelper E = None"
    and "run_state (de_Reconcile L E req) s = (r, t)"
    and "DeletionTimestamp i \<noteq> None" and "Finalizers (inst t) \<noteq> Finalizers i"
  shows "memcached_released L E s t (MemcachedInstance (Spec i)) (Namespace i) (GetFinalizer L (Kind i))"
proof (cases rule: de.reconcile_delete [OF assms(2-5), case_names new old])
  case new
  with assms(6) show ?thesis by simp
next
  case (old s1 u d)
  have e: "extends (\<lambda>_. True) s s1" "extends (\<lambda>_. True) u t" using old by (auto simp: extends_def)
  have "memcached_released L E s1 u (MemcachedInstance (Spec i)) (Namespace i) (GetFinalizer L (Kind i))"
    using de_delete_released [OF assms(1) old(1)] old assms(6) de_same [OF old(4)] by simp
  from memcached_released_earlier [OF e(1) memcached_released_later [OF this e(2)]] show ?thesis .
qed

section \<open>Spreading the pods\<close>

text \<open>
  An anti-affinity rule keeps two pods apart when it selects both: its values must include the value the
  pods carry for its label.
\<close>

definition spreads :: "statefulset \<Rightarrow> bool" where
  "spreads ss \<longleftrightarrow> (case Affinity (SSPod ss) of
     None \<Rightarrow> False
   | Some (DistributePods key vals topology) \<Rightarrow> (\<exists>v \<in> set vals. TemplateLabels ss key = Some v))"

text \<open>
  C40. The anti-affinity rule of the API selects the API's own pods. That of the decision engine does not:
  it looks for the service name, which the pods do not carry, so their replicas are not kept apart.
\<close>

theorem anti_affinity_selects:
  "(case api_StatefulSet L i h ca (getAPIServiceLabels L) of Inl err \<Rightarrow> True | Inr ss \<Rightarrow> spreads ss) \<and>
   \<not> spreads (de_StatefulSet L d h ca (getDecisionEngineServiceLabels L))"
  by (auto simp: spreads_def api_StatefulSet_def de_StatefulSet_def getAPIServiceLabels_def map_get_def
      getDecisionEngineServiceLabels_def ServiceName_def WatcherDecisionEngineLabelPrefix_def split: sum.splits)

end
