(* ===== verification/SampleCluster.thy ===== *)
theory SampleCluster
  imports Sample WatcherController APIController ApplierController DecisionEngineController
begin

text \<open>
  A concrete cluster in which everything succeeds, and one resource of each kind. The witnesses of
  the properties run the controllers in it.
\<close>

section \<open>The cluster\<close>

definition sample_secret :: secret where
  "sample_secret = \<lparr>SecretName = ''osp'', Data = (\<lambda>k. Some k), SecretFinalizers = []\<rparr>"

definition sample_memcached :: memcached where
  "sample_memcached = \<lparr>MemcachedFinalizers = [], MemcachedReady = True, ServerListString = ''m:11211'',
     ServerListWithInetString = ''inet:m:11211'', MemcachedTLSSupport = False\<rparr>"

definition sample_database :: database where
  "sample_database = \<lparr>AccountName = ''watcher'', AccountUserName = ''watcher_1'', DBSecretPassword = ''pw'',
     DatabaseHostname = ''db'', ClientConfig = (\<lambda>tls. ''[client]'')\<rparr>"

definition sample_status :: statefulset_status where
  "sample_status = \<lparr>SSGeneration = 1, SSObservedGeneration = 1, ReadyReplicas = 1\<rparr>"

definition ready_list :: conditions where
  "ready_list = Some [sample_cond ReadyCondition CTrue InitReason SeverityNone]"

section \<open>A Watcher and its parts\<close>

definition sample_watcher_spec :: WatcherSpec where
  "sample_watcher_spec =
     \<lparr>ServiceUser = ''watcher'', PasswordSelectors = \<lparr>ServiceSelector = ''WatcherPassword''\<rparr>,
      MemcachedInstance = ''memcached'', PreserveJobs = False, NodeSelector = Some [''zone'' \<mapsto> ''a''],
      CustomServiceConfig = [], PrometheusSecret = ''prom'', Secret = ''osp'',
      RabbitMqClusterName = Some ''rabbitmq'', DatabaseInstance = Some ''openstack'',
      DatabaseAccountName = ''watcher'',
      APIServiceTemplate = \<lparr>TResources = [], TNodeSelector = None, TCustomServiceConfig = [], TReplicas = Some 1,
        TOverride = \<lparr>Service = Map.empty\<rparr>,
        TTLS = \<lparr>CaBundleSecretName = [], PublicSecretName = None, InternalSecretName = None\<rparr>\<rparr>,
      ApplierServiceTemplate = \<lparr>TResources = [], TNodeSelector = None, TCustomServiceConfig = [], TReplicas = Some 1\<rparr>,
      DecisionEngineServiceTemplate =
        \<lparr>TResources = [], TNodeSelector = None, TCustomServiceConfig = [], TReplicas = Some 1\<rparr>,
      APIOverride = \<lparr>RouteOverride = None, TLSOverride = None\<rparr>,
      DBPurge = \<lparr>Schedule = Some ''0 1 * * *'', PurgeAge = Some 90\<rparr>,
      Images = \<lparr>APIContainerImageURL = ''api'', DecisionEngineContainerImageURL = ''de'',
        ApplierContainerImageURL = ''applier''\<rparr>\<rparr>"

definition sample_watcher :: Watcher where
  "sample_watcher =
     \<lparr>Kind = ''Watcher'', Name = ''watcher'', Namespace = ''openstack'', UID = ''u1'', Generation = 1,
      DeletionTimestamp = None, Finalizers = [GetFinalizer sample_lib ''Watcher''], Spec = sample_watcher_spec,
      Conditions = ready_list, Hash = None, ObservedGeneration = 1,
      ServiceID = [], APIServiceReadyCount = 0, ApplierServiceReadyCount = 0, DecisionEngineServiceReadyCount = 0\<rparr>"

definition sample_sub :: "string \<Rightarrow> 'spec \<Rightarrow> 'spec sub_cr" where
  "sample_sub kind spec =
     \<lparr>Kind = kind, Name = ''watcher'', Namespace = ''openstack'', UID = ''u1'', Generation = 1,
      DeletionTimestamp = None, Finalizers = [GetFinalizer sample_lib kind], Spec = spec,
      Conditions = ready_list, Hash = Some [InputHashName sample_lib \<mapsto> ''h''], ObservedGeneration = 1,
      ReadyCount = 1\<rparr>"

definition sample_api :: WatcherAPI where
  "sample_api = sample_sub ''WatcherAPI'' (watcher_api_spec sample_watcher ''watcher'')"

definition sample_applier :: WatcherApplier where
  "sample_applier = sample_sub ''WatcherApplier'' (watcher_applier_spec sample_watcher ''watcher'')"

definition sample_de :: WatcherDecisionEngine where
  "sample_de = sample_sub ''WatcherDecisionEngine'' (watcher_de_spec sample_watcher ''watcher'')"

definition sample_service :: service_obj where
  "sample_service = \<lparr>SvcName = ''watcher-public'', SvcNamespace = ''openstack'', SvcLabels = Map.empty,
     SvcSelector = Map.empty, SvcPort = 9322, SvcType = ServiceTypeClusterIP,
     SvcAnnotations = [AnnotationEndpointKey sample_lib \<mapsto> EndpointPublic,
                       AnnotationIngressCreateKey sample_lib \<mapsto> ''true'']\<rparr>"

section \<open>A cluster in which every call succeeds\<close>

definition sample_env :: "'i \<Rightarrow> 'i env" where
  "sample_env i =
     \<lparr>RequeueTimeout = NewReconcilerBase_RequeueTimeout,
      NewHelper = None,
      PortsOrder = (\<lambda>_. True),
      OnGetInstance = (\<lambda>_. Inr i),
      OnPatchInstance = (\<lambda>_. None),
      OnGetSecret = (\<lambda>_. Inr sample_secret),
      OnUpdateSecret = (\<lambda>_. None),
      OnEnsureSecrets = (\<lambda>_. ([(''config'', SetValue ''c'')], None)),
      OnGetMemcached = (\<lambda>_. Inr sample_memcached),
      OnUpdateMemcached = (\<lambda>_. None),
      OnGetKeystoneAPI = (\<lambda>_. Inr \<lparr>GetEndpoint = (\<lambda>_. Inr ''http://keystone'')\<rparr>),
      OnGetDatabase = (\<lambda>_. Inr sample_database),
      OnApplyStatefulSet = (\<lambda>_. (Result0, None, sample_status)),
      OnValidateCACertSecret = (\<lambda>_. Inr ''ca''),
      OnValidateCertSecrets = (\<lambda>_. Inr ''certs''),
      OnNewService = (\<lambda>_ d ov. Inr (service_details.extend d
        \<lparr>SvcType = ServiceTypeClusterIP, SvcAnnotations = Map.empty\<rparr>)),
      ServiceHostname = SvcName,
      APIEndpoint = (\<lambda>svc url proto. Inr (''http://'' @ SvcName svc)),
      OnApplyService = (\<lambda>_. (Result0, None)),
      OnApplyKeystoneEndpoint = (\<lambda>_. (Result0, None, ready_list)),
      OnGetKeystoneEndpoint = (\<lambda>_. Inr []),
      OnUpdateKeystoneEndpoint = (\<lambda>_. None),
      OnReconcileRbac = (\<lambda>_. (Result0, None, map (\<lambda>t. sample_cond t CTrue InitReason SeverityNone)
        [ServiceAccountReadyCondition, RoleReadyCondition, RoleBindingReadyCondition])),
      OnEnsureMariaDBAccount = (\<lambda>_. None),
      OnApplyDatabase = (\<lambda>_. (Result0, None, sample_database)),
      OnWaitForDBCreated = (\<lambda>_. (Result0, None)),
      OnApplyTransportURL = (\<lambda>_. (None, \<lparr>TransportReady = True, TransportSecretName = ''url''\<rparr>)),
      OnApplyKeystoneService = (\<lambda>_. (Result0, None, ready_list, ''id'')),
      OnDoJob = (\<lambda>_. (Result0, None, Some ''j'')),
      OnApplyCronJob = (\<lambda>_. (Result0, None)),
      OnApplyWatcherAPI = (\<lambda>_. Inr sample_api),
      OnApplyWatcherApplier = (\<lambda>_. Inr sample_applier),
      OnApplyWatcherDecisionEngine = (\<lambda>_. Inr sample_de),
      OnDeleteUnusedFinalizers = (\<lambda>_. None),
      OnDeleteDatabaseFinalizer = (\<lambda>_. None),
      OnGetKeystoneService = (\<lambda>_. Inr []),
      OnUpdateKeystoneService = (\<lambda>_. None),
      OnGetServices = (\<lambda>_. Inr [sample_service]),
      OnValidateCertSecret = (\<lambda>_. None),
      OnListRoutes = (\<lambda>_. Inr []),
      OnDeleteRoute = (\<lambda>_. None),
      OnGetRoute = (\<lambda>_. Inr ''host''),
      OnNewRoute = (\<lambda>_ _ _. None),
      OnApplyRoute = (\<lambda>_. (Result0, None, ''host'')),
      OnGetDataFromSecret = (\<lambda>_. (''bundle'', Result0, None))\<rparr>"

definition start :: "'i \<Rightarrow> 'i st" where
  "start i = \<lparr>inst = i, trace = []\<rparr>"

definition request :: nsname where
  "request = \<lparr>NName = ''watcher'', NNamespace = ''openstack''\<rparr>"

text \<open>The state a run ends in, and a resource that is being deleted.\<close>

definition after :: "('i st, 'a) state \<Rightarrow> 'i \<Rightarrow> 'i st" where
  "after m i = snd (run_state m (start i))"

definition gone :: "('spec, 'm) cr_scheme \<Rightarrow> ('spec, 'm) cr_scheme" where
  "gone i = i\<lparr>DeletionTimestamp := Some ''now''\<rparr>"

section \<open>Evaluation\<close>

lemma sample_lib_ops [simp]:
  "UnknownCondition sample_lib t rs m = sample_cond t CUnknown rs SeverityNone"
  "FalseCondition sample_lib t rs sv m args = sample_cond t CFalse rs sv"
  "CSet sample_lib = sample_set"
  "CMarkTrue sample_lib t m = sample_set (Some (sample_cond t CTrue (OtherReason []) SeverityNone))"
  "CInit sample_lib = sample_init"
  "CIsTrue sample_lib t cs = (status_of t cs = Some CTrue)"
  "CIsUnknown sample_lib t cs = (status_of t cs = None \<or> status_of t cs = Some CUnknown)"
  "CAllSubTrue sample_lib cs = list_all (\<lambda>c. Type c \<noteq> ReadyCondition \<longrightarrow> Status c = CTrue) (cond_list cs)"
  "CMirror sample_lib = sample_mirror" "CRestore sample_lib saved cs = cs"
  "AddFinalizer sample_lib f fs = (if f \<in> set fs then (fs, False) else (fs @ [f], True))"
  "RemoveFinalizer sample_lib f fs = (filter (\<lambda>x. x \<noteq> f) fs, f \<in> set fs)"
  "IsNotFound sample_lib None = False"
  "HashValues sample_lib vs = (''h'' @ concat vs, None)" "HashEnvs sample_lib es = (''h'', None)"
  "SetHash sample_lib mp k v = (if map_get mp k = v then (mp, False) else (mp(k \<mapsto> v), True))"
  by (simp_all add: sample_lib_def)

lemma sample_env_answers [simp]:
  "RequeueTimeout (sample_env i) = NewReconcilerBase_RequeueTimeout" "NewHelper (sample_env i) = None"
  "PortsOrder (sample_env i) h = True"
  "OnGetInstance (sample_env i) h = Inr i" "OnPatchInstance (sample_env i) h = None"
  "OnGetSecret (sample_env i) h = Inr sample_secret" "OnUpdateSecret (sample_env i) h = None"
  "OnEnsureSecrets (sample_env i) h = ([(''config'', SetValue ''c'')], None)"
  "OnGetMemcached (sample_env i) h = Inr sample_memcached" "OnUpdateMemcached (sample_env i) h = None"
  "OnGetKeystoneAPI (sample_env i) h = Inr \<lparr>GetEndpoint = (\<lambda>_. Inr ''http://keystone'')\<rparr>"
  "OnGetDatabase (sample_env i) h = Inr sample_database"
  "OnApplyStatefulSet (sample_env i) h = (Result0, None, sample_status)"
  "OnValidateCACertSecret (sample_env i) h = Inr ''ca''" "OnValidateCertSecrets (sample_env i) h = Inr ''certs''"
  "OnNewService (sample_env i) h d ov =
     Inr (service_details.extend d \<lparr>SvcType = ServiceTypeClusterIP, SvcAnnotations = Map.empty\<rparr>)"
  "APIEndpoint (sample_env i) svc url proto = Inr (''http://'' @ SvcName svc)"
  "OnApplyService (sample_env i) h = (Result0, None)"
  "OnApplyKeystoneEndpoint (sample_env i) h = (Result0, None, ready_list)"
  "OnGetKeystoneEndpoint (sample_env i) h = Inr []" "OnUpdateKeystoneEndpoint (sample_env i) h = None"
  "OnReconcileRbac (sample_env i) h = (Result0, None, map (\<lambda>t. sample_cond t CTrue InitReason SeverityNone)
     [ServiceAccountReadyCondition, RoleReadyCondition, RoleBindingReadyCondition])"
  by (simp_all add: sample_env_def)

lemma sample_env_answers_watcher [simp]:
  "OnEnsureMariaDBAccount (sample_env i) h = None"
  "OnApplyDatabase (sample_env i) h = (Result0, None, sample_database)"
  "OnWaitForDBCreated (sample_env i) h = (Result0, None)"
  "OnApplyTransportURL (sample_env i) h = (None, \<lparr>TransportReady = True, TransportSecretName = ''url''\<rparr>)"
  "OnApplyKeystoneService (sample_env i) h = (Result0, None, ready_list, ''id'')"
  "OnDoJob (sample_env i) h = (Result0, None, Some ''j'')" "OnApplyCronJob (sample_env i) h = (Result0, None)"
  "OnApplyWatcherAPI (sample_env i) h = Inr sample_api"
  "OnApplyWatcherApplier (sample_env i) h = Inr sample_applier"
  "OnApplyWatcherDecisionEngine (sample_env i) h = Inr sample_de"
  "OnDeleteUnusedFinalizers (sample_env i) h = None" "OnDeleteDatabaseFinalizer (sample_env i) h = None"
  "OnGetKeystoneService (sample_env i) h = Inr []" "OnUpdateKeystoneService (sample_env i) h = None"
  "OnGetServices (sample_env i) h = Inr [sample_service]" "OnValidateCertSecret (sample_env i) h = None"
  "OnListRoutes (sample_env i) h = Inr []" "OnDeleteRoute (sample_env i) h = None"
  "OnGetRoute (sample_env i) h = Inr ''host''" "OnNewRoute (sample_env i) h rd ls = None"
  "OnApplyRoute (sample_env i) h = (Result0, None, ''host'')"
  "OnGetDataFromSecret (sample_env i) h = (''bundle'', Result0, None)"
  by (simp_all add: sample_env_def)

lemma sample_secret_fields [simp]: "Data sample_secret k = Some k" "SecretFinalizers sample_secret = []"
  by (simp_all add: sample_secret_def)

lemma sample_memcached_fields [simp]: "MemcachedReady sample_memcached" "MemcachedFinalizers sample_memcached = []"
  by (simp_all add: sample_memcached_def)

lemma sample_sub_fields [simp]:
  "Conditions (sample_sub k sp) = ready_list" "Finalizers (sample_sub k sp) = [GetFinalizer sample_lib k]"
  "Kind (sample_sub k sp) = k" "DeletionTimestamp (sample_sub k sp) = None" "Spec (sample_sub k sp) = sp"
  "Hash (sample_sub k sp) = Some [InputHashName sample_lib \<mapsto> ''h'']" "Generation (sample_sub k sp) = 1"
  "ObservedGeneration (sample_sub k sp) = 1" "ReadyCount (sample_sub k sp) = 1"
  by (simp_all add: sample_sub_def)

lemma sample_status_fields [simp]:
  "SSGeneration sample_status = 1" "SSObservedGeneration sample_status = 1" "ReadyReplicas sample_status = 1"
  by (simp_all add: sample_status_def)

lemma sample_cond_fields [simp]: "Type (sample_cond t st rs sv) = t" "Status (sample_cond t st rs sv) = st"
  by (simp_all add: sample_cond_def)

lemma sample_conditions [simp]:
  "sample_set None cs = cs" "sample_set (Some c) cs = Some (sample_put c (cond_list cs))"
  "sample_init l cs = Some (fold sample_put l (cond_list cs))" "cond_list (Some l) = l"
  by (simp_all add: sample_set_def sample_init_def cond_list_def)

lemma status_of_Some_simps [simp]:
  "status_of t (Some (c # cs)) = (if Type c = t then Some (Status c) else status_of t (Some cs))"
  by (simp add: status_of_def cond_list_def)

lemma ready_list_Some [simp]: "ready_list = Some [sample_cond ReadyCondition CTrue InitReason SeverityNone]"
  by (simp add: ready_list_def)

lemma sample_replicas [simp]: "Replicas (watcher_applier_spec sample_watcher n) = Some 1"
  "Replicas (watcher_de_spec sample_watcher n) = Some 1" "Replicas (watcher_api_spec sample_watcher n) = Some 1"
  by (simp_all add: watcher_applier_spec_def watcher_de_spec_def watcher_api_spec_def sample_watcher_def sample_watcher_spec_def Let_def)

lemma timeout_pos [simp]: "NewReconcilerBase_RequeueTimeout \<noteq> 0"
  by (simp add: NewReconcilerBase_RequeueTimeout_def seconds_def)

lemma hash_map_Some [simp]: "hash_map (Some m) = m"
  by (simp add: hash_map_def)

lemma sample_api_fields [simp]:
  "CaBundleSecretName (TLS (watcher_api_spec sample_watcher n)) = []"
  by (simp_all add: watcher_api_spec_def sample_watcher_def sample_watcher_spec_def Let_def)

lemma prometheus_ca_of_sample [simp]:
  "prometheus_ca_of sample_secret = [(''casecret_key'', PrometheusCaCertKey), (''casecret_name'', PrometheusCaCertSecret)]"
  by (simp add: prometheus_ca_of_def map_get_def PrometheusCaCertKey_def PrometheusCaCertSecret_def)

lemma mirror_ready [simp]:
  "sample_mirror t (Some [sample_cond ReadyCondition CTrue InitReason SeverityNone]) =
   Some (sample_cond t CTrue InitReason SeverityNone)"
  by (simp add: sample_mirror_def sample_cond_def cond_list_def)

lemmas run_simps = patch_on_exit_def run_outcome run_continue run_finalizer_gate service_blocks start_def Let_def

lemma map_get_single [simp]: "map_get [k \<mapsto> v] k = v"
  by (simp add: map_get_def)

lemma sample_applier_Ready:
  "cstate ReadyCondition (inst (snd (run_state (applier_Reconcile sample_lib (sample_env sample_applier) request)
     (start sample_applier)))) = Some CTrue"
  by (simp add: applier_Reconcile_def applier_body_def applier_normal_def applier_defs run_simps sample_applier_def
      applier_initStatus_def applier_init_conditions_def service_expected_fields_def)

lemma sample_de_Ready:
  "cstate ReadyCondition (inst (snd (run_state (de_Reconcile sample_lib (sample_env sample_de) request)
     (start sample_de)))) = Some CTrue"
  by (simp add: de_Reconcile_def de_body_def de_normal_def de_defs run_simps sample_de_def de_prep_def
      de_initStatus_def de_init_conditions_def service_expected_fields_def)

lemma sample_api_tls [simp]: "\<not> APIEnabled sample_lib (TLS (watcher_api_spec sample_watcher n)) e"
  by (simp add: sample_lib_def watcher_api_spec_def sample_watcher_def sample_watcher_spec_def Let_def)

definition sample_api_set :: "WatcherAPI \<Rightarrow> string \<Rightarrow> prometheus_ca \<Rightarrow> (string \<rightharpoonup> string) \<Rightarrow> statefulset" where
  "sample_api_set i h ca labels = projr (api_StatefulSet sample_lib i h ca labels)"

lemma sample_api_StatefulSet [simp]:
  "Spec i = watcher_api_spec sample_watcher n \<Longrightarrow>
   api_StatefulSet sample_lib i h ca labels = Inr (sample_api_set i h ca labels)"
  by (simp add: api_StatefulSet_def sample_api_set_def split: prod.split)

lemma sample_api_Ready:
  "cstate ReadyCondition (inst (snd (run_state (api_Reconcile sample_lib (sample_env sample_api) request)
     (start sample_api)))) = Some CTrue"
  by (simp add: api_Reconcile_def api_body_def api_normal_def api_defs run_simps sample_api_def
      api_initStatus_def api_init_conditions_def service_expected_fields_def)


lemma sample_watcher_fields [simp]:
  "Spec sample_watcher = sample_watcher_spec" "Conditions sample_watcher = ready_list" "Hash sample_watcher = None"
  "DeletionTimestamp sample_watcher = None" "Finalizers sample_watcher = [GetFinalizer sample_lib ''Watcher'']"
  "Kind sample_watcher = ''Watcher''" "Generation sample_watcher = 1"
  by (simp_all add: sample_watcher_def)

lemma sample_watcher_spec_fields [simp]:
  "DatabaseInstance sample_watcher_spec = Some ''openstack''" "RabbitMqClusterName sample_watcher_spec = Some ''rabbitmq''"
  "DBPurge sample_watcher_spec = \<lparr>Schedule = Some ''0 1 * * *'', PurgeAge = Some 90\<rparr>"
  "APIOverride sample_watcher_spec = \<lparr>RouteOverride = None, TLSOverride = None\<rparr>"
  "PublicSecretName (TTLS (APIServiceTemplate sample_watcher_spec)) = None"
  by (simp_all add: sample_watcher_spec_def)

lemma sample_parts [simp]:
  "Conditions sample_api = ready_list" "Generation sample_api = 1" "ObservedGeneration sample_api = 1"
  "Conditions sample_applier = ready_list" "Generation sample_applier = 1" "ObservedGeneration sample_applier = 1"
  "Conditions sample_de = ready_list" "Generation sample_de = 1" "ObservedGeneration sample_de = 1"
  by (simp_all add: sample_api_def sample_applier_def sample_de_def)

lemma sample_public_secret [simp]: "Spec i = sample_watcher_spec \<Longrightarrow> \<not> hasPublicServiceSecretName i"
  by (simp add: hasPublicServiceSecretName_def)

definition sample_cronjob :: "Watcher \<Rightarrow> (string \<rightharpoonup> string) \<Rightarrow> (string \<rightharpoonup> string) \<Rightarrow> cronjob" where
  "sample_cronjob i labels ann =
     (case DBPurgeCronJob sample_lib i labels ann of Val c \<Rightarrow> c)"

lemma sample_DBPurgeCronJob [simp]:
  "Spec i = sample_watcher_spec \<Longrightarrow>
   DBPurgeCronJob sample_lib i labels ann = Val (sample_cronjob i labels ann)"
  by (simp add: DBPurgeCronJob_def sample_cronjob_def)

definition sample_expose_calls :: "Watcher \<Rightarrow> Watcher st \<Rightarrow> Watcher call list" where
  "sample_expose_calls i s =
     trace (snd (run_state (expose_services sample_lib (sample_env sample_watcher) i [sample_service]) s))"

lemma sample_expose [simp]:
  "Spec i = sample_watcher_spec \<Longrightarrow>
   run_state (expose_services sample_lib (sample_env sample_watcher) i [sample_service]) s =
   (Next (), s\<lparr>trace := sample_expose_calls i s\<rparr>)"
  by (simp add: sample_expose_calls_def expose_service_def endpoint_of_service_def public_endpoint_def
      sample_service_def map_get_def ingress_tls_def pod_tls_def hasPublicServiceSecretName_def
      ensureRoute_def GetRoutesListWithLabel_def CreateRoute_def CreateRoute_host_def run_outcome run_continue
      stop_on_result_def Let_def with_embedded_labels_def RoutedOverrideSpec0_def
      split: option.splits)

lemma sample_watcher_Ready:
  "cstate ReadyCondition (inst (snd (run_state (watcher_Reconcile sample_lib (sample_env sample_watcher) request)
     (start sample_watcher)))) = Some CTrue"
  by (simp add: watcher_Reconcile_def watcher_body_def watcher_normal_def watcher_services_def run_simps
      watcher_initStatus_def watcher_initConditions_def watcher_init_conditions_def
      watcher_database_def watcher_ensureDB_def watcher_create_database_def db_error_def db_running_def
    watcher_transport_def watcher_ensureMQ_def watcher_sub_level_secret_def watcher_createSubLevelSecret_def
    watcher_keystone_def watcher_ensureKeystoneSvc_def watcher_config_def watcher_generateServiceConfigDBJobs_def
    watcher_dbsync_def watcher_ensureDBSync_def watcher_cronjob_def
    watcher_ensureDBPurgeCronJob_def stop_on_error_def watcher_ensureAPI_def watcher_ensureDecisionEngine_def
    watcher_ensureApplier_def sub_failed_def mirror_sub_def watcher_unused_accounts_def watcher_input_secrets_def watcher_secret_def
    watcher_prometheus_def watcher_ensureRbac_def RbacConditionsSet_def watcher_database_request_def
    watcher_expose_def exposeEndpoints_def stop_on_result_def
    del: expose_services.simps)


end
