(* ===== verification/WatcherProperties.thy ===== *)
theory WatcherProperties
  imports WatcherController
begin

text \<open>
  What the runs of a Watcher's reconcile stand for: the steps that precede the sub-resources, what a
  Ready Watcher guarantees, and what its deletion has released.
\<close>

section \<open>Facts that outlive a run\<close>

text \<open>A fact about the calls between two states stays true when the run is longer at either end.\<close>

definition grows :: "('i st \<Rightarrow> 'i st \<Rightarrow> bool) \<Rightarrow> bool" where
  "grows Q \<longleftrightarrow> (\<forall>s0 s t u. extends (\<lambda>_. True) s0 s \<longrightarrow> Q s t \<longrightarrow> extends (\<lambda>_. True) t u \<longrightarrow> Q s0 u)"

lemma growsD: "grows Q \<Longrightarrow> Q s t \<Longrightarrow> extends (\<lambda>_. True) s0 s \<Longrightarrow> extends (\<lambda>_. True) t u \<Longrightarrow> Q s0 u"
  unfolding grows_def by blast

lemma grows_answered: "grows (\<lambda>s t. answered_since s t c f v)"
  unfolding grows_def by (blast intro: answered_since_later answered_since_earlier)

lemma grows_const: "grows (\<lambda>_ _. p)"
  by (simp add: grows_def)

lemma grows_conj: "grows P \<Longrightarrow> grows Q \<Longrightarrow> grows (\<lambda>s t. P s t \<and> Q s t)"
  unfolding grows_def by blast

lemma grows_disj: "grows P \<Longrightarrow> grows Q \<Longrightarrow> grows (\<lambda>s t. P s t \<or> Q s t)"
  unfolding grows_def by blast

lemma grows_ex: "(\<And>x. grows (P x)) \<Longrightarrow> grows (\<lambda>s t. \<exists>x. P x s t)"
  unfolding grows_def by blast

lemma grows_secret_read: "grows (\<lambda>s t. secret_read L E s t n fs h sec)"
  unfolding secret_read_def by (intro grows_conj grows_answered grows_const)

lemmas grow_rules = grows_answered grows_secret_read grows_conj grows_disj grows_ex grows_const

section \<open>The steps before the sub-resources\<close>

text \<open>The database and its account were created, and MariaDB reports the database created.\<close>

definition database_ready :: "Watcher env \<Rightarrow> Watcher \<Rightarrow> database \<Rightarrow> Watcher st \<Rightarrow> Watcher st \<Rightarrow> bool" where
  "database_ready E i db s t \<longleftrightarrow>
     (\<exists>req. watcher_database_request i = Val req \<and>
        answered_since s t (ApplyDatabase req) (OnApplyDatabase E) (Result0, None, db) \<and>
        answered_since s t (WaitForDBCreated req) (OnWaitForDBCreated E) (Result0, None))"

text \<open>The message bus URL is ready and names its secret.\<close>

definition transport_ready :: "lib \<Rightarrow> Watcher env \<Rightarrow> Watcher \<Rightarrow> string \<Rightarrow> Watcher st \<Rightarrow> Watcher st \<Rightarrow> bool" where
  "transport_ready L E i name s t \<longleftrightarrow>
     (\<exists>cluster url. RabbitMqClusterName (Spec i) = Some cluster \<and>
        answered_since s t (ApplyTransportURL \<lparr>NName = Name i @ ''-watcher-transport'', NNamespace = Namespace i\<rparr>
          (serviceLabels L) (Some cluster)) (\<lambda>h. snd (OnApplyTransportURL E h)) url \<and>
        TransportReady url \<and> TransportSecretName url = name \<and> name \<noteq> [])"

text \<open>The user's secret, the transport secret, and the sub-level secret made from them and the database.\<close>

definition secrets_stored ::
  "lib \<Rightarrow> Watcher env \<Rightarrow> Watcher \<Rightarrow> string \<Rightarrow> secret \<Rightarrow> database \<Rightarrow> Watcher st \<Rightarrow> Watcher st \<Rightarrow> bool" where
  "secrets_stored L E i transportSecretName tsec db s t \<longleftrightarrow>
     (\<exists>hi isec ht.
        secret_read L E s t \<lparr>NName = Secret (Spec i), NNamespace = Namespace i\<rparr>
          [ServiceSelector (PasswordSelectors (Spec i))] hi isec \<and>
        secret_read L E s t \<lparr>NName = transportSecretName, NNamespace = Namespace i\<rparr>
          [TransportURLSelector] ht tsec \<and>
        answered_since s t (EnsureSecrets [sub_level_template L i tsec isec db])
          (\<lambda>h. snd (OnEnsureSecrets E h)) None)"

text \<open>
  The configuration of the database jobs and their scripts were rendered from the database and the
  transport secret, and stored without an error.
\<close>

definition config_stored ::
  "lib \<Rightarrow> Watcher env \<Rightarrow> Watcher \<Rightarrow> secret \<Rightarrow> database \<Rightarrow> Watcher st \<Rightarrow> Watcher st \<Rightarrow> bool" where
  "config_stored L E i tsec db s t \<longleftrightarrow>
     answered_since s t (EnsureSecrets (config_templates i (watcher_templateParameters i db tsec)
       (watcher_customData i db) (watcher_labels L i) True)) (\<lambda>h. snd (OnEnsureSecrets E h)) None"

text \<open>The Prometheus secret was read and carries the Watcher's finalizer.\<close>

definition prometheus_claimed :: "lib \<Rightarrow> Watcher env \<Rightarrow> Watcher \<Rightarrow> Watcher st \<Rightarrow> Watcher st \<Rightarrow> bool" where
  "prometheus_claimed L E i s t \<longleftrightarrow>
     (\<exists>h sec.
        secret_read L E s t \<lparr>NName = PrometheusSecret (Spec i), NNamespace = Namespace i\<rparr>
          [PrometheusHost, PrometheusPort] h sec \<and>
        (GetFinalizer L (Kind i) \<in> set (SecretFinalizers sec) \<or>
         (\<exists>sec'. GetFinalizer L (Kind i) \<in> set (SecretFinalizers sec') \<and>
            answered_since s t (UpdateSecret sec') (OnUpdateSecret E) None)))"

text \<open>The Keystone service, the database job and the purge job.\<close>

definition jobs_done :: "lib \<Rightarrow> Watcher env \<Rightarrow> Watcher \<Rightarrow> Watcher st \<Rightarrow> Watcher st \<Rightarrow> bool" where
  "jobs_done L E i s t \<longleftrightarrow>
     answered_since s t (ApplyKeystoneService (watcher_keystone_service L i))
       (\<lambda>h. fst (snd (OnApplyKeystoneService E h))) None \<and>
     (\<exists>job. JobDef job = DbSyncJob L i (serviceLabels L) Map.empty \<and>
        answered_since s t (DoJob job) (\<lambda>h. (fst (OnDoJob E h), fst (snd (OnDoJob E h)))) (Result0, None)) \<and>
     (\<exists>cj. DBPurgeCronJob L i (serviceLabels L) Map.empty = Val cj \<and>
        answered_since s t (ApplyCronJob cj) (\<lambda>h. snd (OnApplyCronJob E h)) None)"

definition watcher_prepared :: "lib \<Rightarrow> Watcher env \<Rightarrow> Watcher \<Rightarrow> Watcher st \<Rightarrow> Watcher st \<Rightarrow> bool" where
  "watcher_prepared L E i s t \<longleftrightarrow>
     (\<exists>name tsec db. database_ready E i db s t \<and> transport_ready L E i name s t \<and>
        secrets_stored L E i name tsec db s t \<and> config_stored L E i tsec db s t) \<and>
     prometheus_claimed L E i s t \<and> jobs_done L E i s t"

lemma grows_prepared:
  "grows (database_ready E i db)" "grows (transport_ready L E i name)" "grows (secrets_stored L E i name tsec db)"
  "grows (prometheus_claimed L E i)" "grows (jobs_done L E i)" "grows (watcher_prepared L E i)"
  "grows (config_stored L E i tsec db)"
  unfolding watcher_prepared_def database_ready_def transport_ready_def secrets_stored_def config_stored_def
    prometheus_claimed_def jobs_done_def
  by (intro grow_rules)+


section \<open>Each block on the way\<close>

lemma identityD:
  assumes "identity i = identity (j :: Watcher)"
  shows "Kind i = Kind j" "Name i = Name j" "Namespace i = Namespace j" "Spec i = Spec j"
    "DeletionTimestamp i = DeletionTimestamp j"
  using assms by (simp_all add: identity_def)

text \<open>All that a prepared run speaks of is part of the identity.\<close>

lemma watcher_same:
  assumes "identity i = identity (j :: Watcher)"
  shows "watcher_database_request i = watcher_database_request j"
    and "sub_level_template L i tsec isec db = sub_level_template L j tsec isec db"
    and "watcher_keystone_service L i = watcher_keystone_service L j"
    and "DbSyncJob L i labels ann = DbSyncJob L j labels ann"
    and "DBPurgeCronJob L i labels ann = DBPurgeCronJob L j labels ann"
    and "watcher_api_spec i n = watcher_api_spec j n"
    and "watcher_applier_spec i n = watcher_applier_spec j n"
    and "watcher_de_spec i n = watcher_de_spec j n"
    and "config_templates i (watcher_templateParameters i db tsec) (watcher_customData i db) (watcher_labels L i) b =
      config_templates j (watcher_templateParameters j db tsec) (watcher_customData j db) (watcher_labels L j) b"
    and "UID i = UID j"
  using assms identityD [OF assms]
  by (simp_all add: watcher_database_request_def sub_level_template_def sub_level_data_def watcher_labels_def
      watcher_keystone_service_def DbSyncJob_def dbsync_volumes_def dbsync_mounts_def
      DBPurgeCronJob_def dbpurge_volumes_def dbpurge_mounts_def RbacResourceName_def
      config_templates_def watcher_templateParameters_def watcher_customData_def identity_def
      watcher_api_spec_def watcher_applier_spec_def watcher_de_spec_def cong: go.case_cong)

lemma same_prepared:
  assumes "identity i = identity (j :: Watcher)"
  shows "database_ready E i = database_ready E j" "transport_ready L E i = transport_ready L E j"
    "secrets_stored L E i = secrets_stored L E j" "prometheus_claimed L E i = prometheus_claimed L E j"
    "jobs_done L E i = jobs_done L E j" "watcher_prepared L E i = watcher_prepared L E j"
    "config_stored L E i = config_stored L E j"
proof -
  note d = watcher_same [OF assms] identityD [OF assms]
  show one: "database_ready E i = database_ready E j" "transport_ready L E i = transport_ready L E j"
    "secrets_stored L E i = secrets_stored L E j" "prometheus_claimed L E i = prometheus_claimed L E j"
    "jobs_done L E i = jobs_done L E j" "config_stored L E i = config_stored L E j"
    by (intro ext; simp add: database_ready_def transport_ready_def secrets_stored_def config_stored_def
        prometheus_claimed_def jobs_done_def d)+
  then show "watcher_prepared L E i = watcher_prepared L E j"
    by (intro ext) (simp add: watcher_prepared_def)
qed

lemma watcher_database_Next:
  assumes "run_state (watcher_database L E) s = (Next db, t)"
  shows "database_ready E (inst s) db s t"
proof -
  let ?a = "EnsureMariaDBAccount (DatabaseAccountName (Spec (inst s))) (Namespace (inst s)) DatabaseUsernamePrefix"
  from assms obtain req where req: "watcher_database_request (inst s) = Val req"
    and t: "trace t = trace s @ [?a] @ ApplyDatabase req # [WaitForDBCreated req]"
    and a: "OnApplyDatabase E (trace s @ [?a] @ [ApplyDatabase req]) = (Result0, None, db)"
      "OnWaitForDBCreated E (trace s @ [?a, ApplyDatabase req] @ [WaitForDBCreated req]) = (Result0, None)"
    by (auto simp: watcher_database_def watcher_ensureDB_def watcher_create_database_def db_error_def db_running_def
        split: go.splits option.splits prod.splits if_splits sum.splits)
  have t': "trace t = trace s @ [?a, ApplyDatabase req] @ WaitForDBCreated req # []" by (simp add: t)
  have "answered_since s t (ApplyDatabase req) (OnApplyDatabase E) (Result0, None, db)"
    and "answered_since s t (WaitForDBCreated req) (OnWaitForDBCreated E) (Result0, None)"
    by (rule answered_sinceI [OF t], rule a) (rule answered_sinceI [OF t'], rule a)
  with req show ?thesis unfolding database_ready_def by blast
qed

lemma watcher_transport_Next:
  assumes "run_state (watcher_transport L E) s = (Next name, t)"
  shows "transport_ready L E (inst s) name s t"
proof -
  define call where "call = (\<lambda>cluster. ApplyTransportURL
     \<lparr>NName = Name (inst s) @ ''-watcher-transport'', NNamespace = Namespace (inst s)\<rparr> (serviceLabels L) (Some cluster)
     :: Watcher call)"
  from assms obtain cluster url h' where c: "RabbitMqClusterName (Spec (inst s)) = Some cluster"
    and t: "trace t = trace s @ [] @ call cluster # h'"
    and a: "snd (OnApplyTransportURL E (trace s @ [] @ [call cluster])) = url"
    and url: "TransportReady url" "TransportSecretName url = name" "name \<noteq> []"
    by (auto simp: watcher_transport_def watcher_ensureMQ_def call_def
        split: go.splits option.splits prod.splits if_splits sum.splits)
  have "answered_since s t (call cluster) (\<lambda>h. snd (OnApplyTransportURL E h)) url"
    by (rule answered_sinceI [OF t], rule a)
  with c url show ?thesis unfolding transport_ready_def call_def by blast
qed

lemma watcher_secret_Next:
  assumes "cond_laws L" and "run_state (watcher_secret L E name fs msg) s = (Next sec, t)"
  shows "\<exists>h. secret_read L E s t \<lparr>NName = name, NNamespace = Namespace (inst s)\<rparr> fs h sec" and "inst t = inst s"
proof -
  from assms(2) obtain h res where r: "run_state (ensureSecret L E (\<lambda>c. cond_set L (Some c))
      \<lparr>NName = name, NNamespace = Namespace (inst s)\<rparr> fs) s = ((h, res, sec, None), t)" and "h \<noteq> []"
    by (auto simp: watcher_secret_def split: prod.splits if_splits)
  then show "\<exists>h. secret_read L E s t \<lparr>NName = name, NNamespace = Namespace (inst s)\<rparr> fs h sec"
    and "inst t = inst s"
    using ensureSecret_read [OF assms(1) r] by auto
qed

lemma watcher_input_secrets_Next:
  assumes L: "cond_laws L" and run: "run_state (watcher_input_secrets L E name) s = (Next (isec, tsec), t)"
  shows "\<exists>h. secret_read L E s t \<lparr>NName = Secret (Spec (inst s)), NNamespace = Namespace (inst s)\<rparr>
      [ServiceSelector (PasswordSelectors (Spec (inst s)))] h isec"
    and "\<exists>h. secret_read L E s t \<lparr>NName = name, NNamespace = Namespace (inst s)\<rparr> [TransportURLSelector] h tsec"
proof -
  from run obtain s1 m1 m2 where 1: "run_state (watcher_secret L E (Secret (Spec (inst s)))
        [ServiceSelector (PasswordSelectors (Spec (inst s)))] m1) s = (Next isec, s1)"
      and 2: "run_state (watcher_secret L E name [TransportURLSelector] m2) s1 = (Next tsec, t)"
    by (auto simp: watcher_input_secrets_def elim!: continue_cases)
  have call: "extends (\<lambda>_. True) u v" if "run_state (watcher_secret L E n fs m) u = (x, v)" for n fs m u v x
    using that by (rule state_io_relD [rotated]) (unfold watcher_secret_def ensureSecret_def, intro ext_rules, simp)
  obtain h where "secret_read L E s s1 \<lparr>NName = Secret (Spec (inst s)), NNamespace = Namespace (inst s)\<rparr>
      [ServiceSelector (PasswordSelectors (Spec (inst s)))] h isec"
    using watcher_secret_Next(1) [OF L 1] by blast
  from secret_read_later [OF this call [OF 2]]
  show "\<exists>h. secret_read L E s t \<lparr>NName = Secret (Spec (inst s)), NNamespace = Namespace (inst s)\<rparr>
      [ServiceSelector (PasswordSelectors (Spec (inst s)))] h isec" ..
  obtain h where "secret_read L E s1 t \<lparr>NName = name, NNamespace = Namespace (inst s)\<rparr> [TransportURLSelector] h tsec"
    using watcher_secret_Next(1) [OF L 2] watcher_secret_Next(2) [OF L 1] by auto
  from secret_read_earlier [OF call [OF 1] this]
  show "\<exists>h. secret_read L E s t \<lparr>NName = name, NNamespace = Namespace (inst s)\<rparr> [TransportURLSelector] h tsec" ..
qed

lemma watcher_prometheus_Next:
  assumes L: "cond_laws L" "finalizer_laws L" and run: "run_state (watcher_prometheus L E) s = (Next x, t)"
  shows "prometheus_claimed L E (inst s) s t"
proof -
  let ?n = "\<lparr>NName = PrometheusSecret (Spec (inst s)), NNamespace = Namespace (inst s)\<rparr>"
  let ?key = "GetFinalizer L (Kind (inst s))"
  from run obtain h res sec s1 where
      r: "run_state (ensureSecret L E (\<lambda>c. cond_set L (Some c)) ?n [PrometheusHost, PrometheusPort]) s =
        ((h, res, sec, None), s1)" and "h \<noteq> []"
    by (auto simp: watcher_prometheus_def split: prod.splits if_splits)
  then have s1: "s1 = s\<lparr>trace := trace s @ [GetSecret ?n]\<rparr>"
    and read: "secret_read L E s s1 ?n [PrometheusHost, PrometheusPort] h sec"
    using ensureSecret_read [OF L(1) r] by simp_all
  obtain fs added where add: "AddFinalizer L ?key (SecretFinalizers sec) = (fs, added)" by fastforce
  with L(2) have fs: "?key \<in> set fs" "\<not> added \<Longrightarrow> ?key \<in> set (SecretFinalizers sec)"
    unfolding finalizer_laws_def by (metis fst_conv in_set_conv_decomp, metis snd_conv)
  define upd where "upd = (UpdateSecret (sec\<lparr>SecretFinalizers := fs\<rparr>) :: Watcher call)"
  from run r s1 add \<open>h \<noteq> []\<close> have t: "if added then t = s1\<lparr>trace := trace s1 @ [upd]\<rparr> \<and>
      OnUpdateSecret E (trace s1 @ [upd]) = None else t = s1"
    by (auto simp: watcher_prometheus_def upd_def split: option.splits if_splits)
  then have e: "extends (\<lambda>_. True) s1 t" by (auto simp: extends_def split: if_splits)
  have e1: "extends (\<lambda>_. True) s s1" by (simp add: s1 extends_def)
  have "added \<Longrightarrow> answered_since s t upd (OnUpdateSecret E) None"
    using t by (intro answered_since_perform [OF e1]) auto
  then have "added \<Longrightarrow> \<exists>sec'. ?key \<in> set (SecretFinalizers sec') \<and>
      answered_since s t (UpdateSecret sec') (OnUpdateSecret E) None"
    unfolding upd_def by (intro exI [where x = "sec\<lparr>SecretFinalizers := fs\<rparr>"] conjI) (simp_all add: fs(1))
  with fs(2) have "?key \<in> set (SecretFinalizers sec) \<or> (\<exists>sec'. ?key \<in> set (SecretFinalizers sec') \<and>
      answered_since s t (UpdateSecret sec') (OnUpdateSecret E) None)" by blast
  with secret_read_later [OF read e] show ?thesis unfolding prometheus_claimed_def by blast
qed

lemma watcher_sub_level_secret_Next:
  assumes "run_state (watcher_sub_level_secret L E tsec isec db) s = (Next n, t)"
  shows "answered_since s t (EnsureSecrets [sub_level_template L (inst s) tsec isec db])
      (\<lambda>h. snd (OnEnsureSecrets E h)) None"
    and "n = Name (inst s)"
proof -
  define call where "call = (EnsureSecrets [sub_level_template L (inst s) tsec isec db] :: Watcher call)"
  from assms have n: "n = Name (inst s)" and t: "trace t = trace s @ [] @ call # []"
      and a: "snd (OnEnsureSecrets E (trace s @ [] @ [call])) = None"
    by (auto simp: watcher_sub_level_secret_def watcher_createSubLevelSecret_def call_def
        split: prod.splits if_splits)
  have "answered_since s t call (\<lambda>h. snd (OnEnsureSecrets E h)) None"
    by (rule answered_sinceI [OF t], rule a)
  with n show "answered_since s t (EnsureSecrets [sub_level_template L (inst s) tsec isec db])
      (\<lambda>h. snd (OnEnsureSecrets E h)) None" and "n = Name (inst s)"
    by (simp_all add: call_def)
qed

lemma watcher_keystone_Next:
  assumes "run_state (watcher_keystone L E) s = (Next x, t)"
  shows "answered_since s t (ApplyKeystoneService (watcher_keystone_service L (inst s)))
      (\<lambda>h. fst (snd (OnApplyKeystoneService E h))) None"
proof -
  from assms have t: "trace t = trace s @ [] @ ApplyKeystoneService (watcher_keystone_service L (inst s)) # []"
      and a: "fst (snd (OnApplyKeystoneService E (trace s @ [] @
        [ApplyKeystoneService (watcher_keystone_service L (inst s))]))) = None"
    by (auto simp: watcher_keystone_def watcher_ensureKeystoneSvc_def split: prod.splits option.splits if_splits)
  show ?thesis by (rule answered_sinceI [OF t], rule a)
qed

lemma watcher_config_Next:
  assumes "run_state (watcher_config L E db tsec) s = (Next x, t)"
  shows "config_stored L E (inst s) tsec db s t"
proof -
  define call where "call = (EnsureSecrets (config_templates (inst s) (watcher_templateParameters (inst s) db tsec)
    (watcher_customData (inst s) db) (watcher_labels L (inst s)) True) :: Watcher call)"
  from assms have t: "trace t = trace s @ [] @ call # []"
      and a: "snd (OnEnsureSecrets E (trace s @ [] @ [call])) = None"
    by (auto simp: watcher_config_def watcher_generateServiceConfigDBJobs_def GenerateConfigsGeneric_def call_def
        split: prod.splits option.splits)
  show ?thesis unfolding config_stored_def call_def [symmetric] by (rule answered_sinceI [OF t], rule a)
qed

lemma watcher_dbsync_Next:
  assumes "run_state (watcher_dbsync L E) s = (Next x, t)"
  shows "answered_since s t (DoJob (watcher_dbsync_request L (inst s)))
      (\<lambda>h. (fst (OnDoJob E h), fst (snd (OnDoJob E h)))) (Result0, None)"
proof -
  from assms have t: "trace t = trace s @ [] @ DoJob (watcher_dbsync_request L (inst s)) # []"
      and a: "(fst (OnDoJob E (trace s @ [] @ [DoJob (watcher_dbsync_request L (inst s))])),
        fst (snd (OnDoJob E (trace s @ [] @ [DoJob (watcher_dbsync_request L (inst s))])))) = (Result0, None)"
    by (auto simp: watcher_dbsync_def watcher_ensureDBSync_def split: prod.splits option.splits if_splits)
  show ?thesis by (rule answered_sinceI [OF t], rule a)
qed

lemma watcher_cronjob_Next:
  assumes "run_state (watcher_cronjob L E) s = (Next x, t)"
  shows "\<exists>cj. DBPurgeCronJob L (inst s) (serviceLabels L) Map.empty = Val cj \<and>
    answered_since s t (ApplyCronJob cj) (\<lambda>h. snd (OnApplyCronJob E h)) None"
proof -
  from assms obtain cj where cj: "DBPurgeCronJob L (inst s) (serviceLabels L) Map.empty = Val cj"
      and t: "trace t = trace s @ [] @ ApplyCronJob cj # []"
      and a: "snd (OnApplyCronJob E (trace s @ [] @ [ApplyCronJob cj])) = None"
    by (auto simp: watcher_cronjob_def watcher_ensureDBPurgeCronJob_def
        split: go.splits prod.splits option.splits if_splits)
  have "answered_since s t (ApplyCronJob cj) (\<lambda>h. snd (OnApplyCronJob E h)) None"
    by (rule answered_sinceI [OF t], rule a)
  with cj show ?thesis by blast
qed


section \<open>The first half of the reconcile\<close>

text \<open>Blocks in a row may be grouped; \<open>watcher_prepare\<close> is the part before the sub-resources.\<close>

lemma continue_assoc: "continue (continue m f) g = continue m (\<lambda>x. continue (f x) g)"
  by (rule state_ext) (auto simp: run_continue split: prod.splits flow.splits)

definition watcher_prepare :: "lib \<Rightarrow> Watcher env \<Rightarrow> (Watcher st, string flow) state" where
  "watcher_prepare L E =
     continue (watcher_database L E) (\<lambda>db.
     continue (watcher_transport L E) (\<lambda>transportSecretName.
     continue (watcher_input_secrets L E transportSecretName) (\<lambda>(inputSecret, transporturlSecret).
     continue (watcher_prometheus L E) (\<lambda>_.
     continue (watcher_sub_level_secret L E transporturlSecret inputSecret db) (\<lambda>subLevelSecretName.
     continue (watcher_keystone L E) (\<lambda>_.
     continue (watcher_config L E db transporturlSecret) (\<lambda>_.
     continue (watcher_dbsync L E) (\<lambda>_.
     continue (watcher_cronjob L E) (\<lambda>_.
     return (Next subLevelSecretName))))))))))"

lemma continue_Next: "continue (return (Next x)) f = f x"
  by (rule state_ext) (simp add: run_continue)

lemma watcher_normal_split:
  "watcher_normal L E = continue (watcher_prepare L E) (watcher_services L E)"
  by (simp add: watcher_normal_def watcher_prepare_def continue_assoc continue_Next split_def)

definition sub_free :: "Watcher call \<Rightarrow> bool" where
  "sub_free c \<longleftrightarrow> \<not> sub_call c"

lemma watcher_prepare_calls: "state_io_rel (extends sub_free) (watcher_prepare L E)"
  unfolding watcher_prepare_def
  by (intro ext_rules watcher_calls; simp add: sub_free_def sub_call_def)

text \<open>A block calls what it likes and leaves the identity alone.\<close>

definition proceeds :: "Watcher st \<Rightarrow> Watcher st \<Rightarrow> bool" where
  "proceeds s t \<longleftrightarrow> extends (\<lambda>_. True) s t \<and> keeps identity s t"

interpretation proc: step_relation proceeds
  by unfold_locales (auto simp: proceeds_def keeps_def intro: extends_refl extends_trans)

lemma proceeds_io:
  "state_io_rel (extends (\<lambda>_. True)) m \<Longrightarrow> state_io_rel (keeps identity) m \<Longrightarrow> state_io_rel proceeds m"
  by (simp add: state_io_rel_def proceeds_def)

lemma watcher_proceeds:
  "state_io_rel proceeds (watcher_database L E)" "state_io_rel proceeds (watcher_transport L E)"
  "state_io_rel proceeds (watcher_input_secrets L E n)" "state_io_rel proceeds (watcher_prometheus L E)"
  "state_io_rel proceeds (watcher_sub_level_secret L E tsec isec db)" "state_io_rel proceeds (watcher_keystone L E)"
  "state_io_rel proceeds (watcher_config L E db tsec)" "state_io_rel proceeds (watcher_dbsync L E)"
  "state_io_rel proceeds (watcher_cronjob L E)" "state_io_rel proceeds (watcher_prepare L E)"
  "state_io_rel proceeds (stop_on_error (watcher_ensureAPI L E name))" "state_io_rel proceeds (watcher_expose L E)"
  "state_io_rel proceeds (stop_on_error (watcher_ensureDecisionEngine L E name))"
  "state_io_rel proceeds (stop_on_error (watcher_ensureApplier L E name))"
  "state_io_rel proceeds (watcher_unused_accounts L E)" "state_io_rel proceeds (finish_reconcile L)"
  "state_io_rel proceeds (watcher_services L E name)" "state_io_rel proceeds (watcher_ensureRbac L E)"
  "state_io_rel proceeds (watcher_reconcileDelete L E)"
  unfolding watcher_prepare_def watcher_services_def
  by (rule proceeds_io; intro ext_rules keep_rules watcher_calls ensure_sub_calls expose_calls watcher_delete_calls
      id_frame.frame_blocks id_frame.frame_secrets id_frame.frame_expose rbac_frames TrueI id_frame.frame_delete)+

lemma proceedsD:
  "proceeds s t \<Longrightarrow> extends (\<lambda>_. True) s t" "proceeds s t \<Longrightarrow> identity (inst t) = identity (inst s)"
  by (simp_all add: proceeds_def keeps_def)

lemma grows_proceeds: "grows Q \<Longrightarrow> Q s t \<Longrightarrow> proceeds s0 s \<Longrightarrow> proceeds t u \<Longrightarrow> Q s0 u"
  by (rule growsD) (assumption | erule proceedsD)+

lemma watcher_prepare_Next:
  assumes L: "cond_laws L" "finalizer_laws L" and run: "run_state (watcher_prepare L E) s = (Next n, t)"
  shows "watcher_prepared L E (inst s) s t" and "n = Name (inst s)"
proof -
  from run obtain db name isec tsec s1 s2 s3 s4 s5 s6 s7 s8
    where 1: "run_state (watcher_database L E) s = (Next db, s1)"
      and 2: "run_state (watcher_transport L E) s1 = (Next name, s2)"
      and 3: "run_state (watcher_input_secrets L E name) s2 = (Next (isec, tsec), s3)"
      and 4: "run_state (watcher_prometheus L E) s3 = (Next (), s4)"
      and 5: "run_state (watcher_sub_level_secret L E tsec isec db) s4 = (Next n, s5)"
      and 6: "run_state (watcher_keystone L E) s5 = (Next (), s6)"
      and 7: "run_state (watcher_config L E db tsec) s6 = (Next (), s7)"
      and 8: "run_state (watcher_dbsync L E) s7 = (Next (), s8)"
      and 9: "run_state (watcher_cronjob L E) s8 = (Next (), t)"
    by (auto simp: watcher_prepare_def elim!: continue_cases)
  note step = state_io_relD [OF watcher_proceeds(1) 1] state_io_relD [OF watcher_proceeds(2) 2]
    state_io_relD [OF watcher_proceeds(3) 3] state_io_relD [OF watcher_proceeds(4) 4]
    state_io_relD [OF watcher_proceeds(5) 5] state_io_relD [OF watcher_proceeds(6) 6]
    state_io_relD [OF watcher_proceeds(7) 7] state_io_relD [OF watcher_proceeds(8) 8]
    state_io_relD [OF watcher_proceeds(9) 9]
  note to7 = proc.R_trans [OF step(8,9)]
  note to6 = proc.R_trans [OF step(7) to7]
  note to5 = proc.R_trans [OF step(6) to6]
  note to4 = proc.R_trans [OF step(5) to5]
  note to3 = proc.R_trans [OF step(4) to4]
  note to2 = proc.R_trans [OF step(3) to3]
  note to1 = proc.R_trans [OF step(2) to2]
  note up2 = proc.R_trans [OF step(1,2)]
  note up3 = proc.R_trans [OF up2 step(3)]
  note up4 = proc.R_trans [OF up3 step(4)]
  note up5 = proc.R_trans [OF up4 step(5)]
  note up6 = proc.R_trans [OF up5 step(6)]
  note up7 = proc.R_trans [OF up6 step(7)]
  note up8 = proc.R_trans [OF up7 step(8)]
  have "\<exists>h. secret_read L E s2 s3 \<lparr>NName = Secret (Spec (inst s)), NNamespace = Namespace (inst s)\<rparr>
        [ServiceSelector (PasswordSelectors (Spec (inst s)))] h isec"
      "\<exists>h. secret_read L E s2 s3 \<lparr>NName = name, NNamespace = Namespace (inst s)\<rparr> [TransportURLSelector] h tsec"
    using watcher_input_secrets_Next [OF L(1) 3] identityD [OF proceedsD(2) [OF up2]] by simp_all
  then obtain hi ht where sec: "secret_read L E s t \<lparr>NName = Secret (Spec (inst s)), NNamespace = Namespace (inst s)\<rparr>
        [ServiceSelector (PasswordSelectors (Spec (inst s)))] hi isec"
      "secret_read L E s t \<lparr>NName = name, NNamespace = Namespace (inst s)\<rparr> [TransportURLSelector] ht tsec"
    using grows_proceeds [OF grows_secret_read _ up2 to3] by blast
  note id4 = proceedsD(2) [OF up4] and id5 = proceedsD(2) [OF up5] and id7 = proceedsD(2) [OF up7]
    and id8 = proceedsD(2) [OF up8]
  have "answered_since s4 s5 (EnsureSecrets [sub_level_template L (inst s) tsec isec db])
      (\<lambda>h. snd (OnEnsureSecrets E h)) None" and n: "n = Name (inst s)"
    using watcher_sub_level_secret_Next [OF 5] watcher_same [OF id4] identityD [OF id4] by simp_all
  from grows_proceeds [OF grows_answered this(1) up4 to5] sec
  have "secrets_stored L E (inst s) name tsec db s t" unfolding secrets_stored_def by blast
  moreover have "config_stored L E (inst s) tsec db s t"
    using grows_proceeds [OF grows_prepared(7) watcher_config_Next [OF 7] up6 to7]
      same_prepared(7) [OF proceedsD(2) [OF up6]] by simp
  moreover have "database_ready E (inst s) db s t"
    by (rule grows_proceeds [OF grows_prepared(1) watcher_database_Next [OF 1] proc.R_refl to1])
  moreover have "transport_ready L E (inst s) name s t"
    using grows_proceeds [OF grows_prepared(2) watcher_transport_Next [OF 2] step(1) to2]
      same_prepared(2) [OF proceedsD(2) [OF step(1)]] by simp
  moreover have "prometheus_claimed L E (inst s) s t"
    using grows_proceeds [OF grows_prepared(4) watcher_prometheus_Next [OF L 4] up3 to4]
      same_prepared(4) [OF proceedsD(2) [OF up3]] by simp
  moreover have "jobs_done L E (inst s) s t"
  proof -
    have "answered_since s5 s6 (ApplyKeystoneService (watcher_keystone_service L (inst s)))
        (\<lambda>h. fst (snd (OnApplyKeystoneService E h))) None"
      using watcher_keystone_Next [OF 6] watcher_same [OF id5] by simp
    note ks = grows_proceeds [OF grows_answered this up5 to6]
    have job: "JobDef (watcher_dbsync_request L (inst s7)) = DbSyncJob L (inst s) (serviceLabels L) Map.empty"
      using watcher_same [OF id7] by (simp add: watcher_dbsync_request_def)
    note sync = grows_proceeds [OF grows_answered watcher_dbsync_Next [OF 8] up7 step(9)]
    obtain cj where cj: "DBPurgeCronJob L (inst s) (serviceLabels L) Map.empty = Val cj"
        and ans: "answered_since s8 t (ApplyCronJob cj) (\<lambda>h. snd (OnApplyCronJob E h)) None"
      using watcher_cronjob_Next [OF 9] watcher_same [OF id8] by auto
    note cron = grows_proceeds [OF grows_answered ans up8 proc.R_refl]
    show ?thesis unfolding jobs_done_def using ks job sync cj cron by blast
  qed
  ultimately show "watcher_prepared L E (inst s) s t" unfolding watcher_prepared_def by blast
  show "n = Name (inst s)" by (rule n)
qed


section \<open>Order: nothing is deployed before its prerequisites\<close>

text \<open>The three sub-resources as the Watcher derives them from its own spec.\<close>

definition derived_call :: "Watcher \<Rightarrow> Watcher call \<Rightarrow> bool" where
  "derived_call i c \<longleftrightarrow>
     c = ApplyWatcherAPI \<lparr>NName = Name i @ ''-api'', NNamespace = Namespace i\<rparr> (watcher_api_spec i (Name i)) \<or>
     c = ApplyWatcherApplier \<lparr>NName = Name i @ ''-applier'', NNamespace = Namespace i\<rparr>
           (watcher_applier_spec i (Name i)) \<or>
     c = ApplyWatcherDecisionEngine \<lparr>NName = Name i @ ''-decision-engine'', NNamespace = Namespace i\<rparr>
           (watcher_de_spec i (Name i))"

definition applies :: "Watcher \<Rightarrow> Watcher st \<Rightarrow> Watcher st \<Rightarrow> bool" where
  "applies i s t \<longleftrightarrow> (identity (inst s) = identity i \<longrightarrow>
     identity (inst t) = identity i \<and> extends (\<lambda>c. sub_call c \<longrightarrow> derived_call i c) s t)"

interpretation app: step_relation "applies i" for i
  by unfold_locales (auto simp: applies_def intro: extends_refl extends_trans)

lemma applies_io:
  assumes "state_io_rel (extends sub_free) m" and "state_io_rel (keeps identity) m"
  shows "state_io_rel (applies i) m"
proof -
  have "extends (\<lambda>c. sub_call c \<longrightarrow> derived_call i c) s (snd (run_state m s))" for s
    by (rule extends_mono [OF ext.relD [OF assms(1)]]) (simp add: sub_free_def)
  then have "applies i s (snd (run_state m s))" for s
    using kp.relD [OF assms(2), of s] by (simp add: applies_def keeps_def)
  then show ?thesis by (simp add: state_io_rel_def)
qed

lemma applies_subs:
  "state_io_rel (applies i) (stop_on_error (watcher_ensureAPI L E (Name i)))"
  "state_io_rel (applies i) (stop_on_error (watcher_ensureDecisionEngine L E (Name i)))"
  "state_io_rel (applies i) (stop_on_error (watcher_ensureApplier L E (Name i)))"
proof -
  have sub: "applies i s (snd (run_state (stop_on_error m) s))"
    if "state_io_rel proceeds (stop_on_error m)"
      and "\<And>s. identity (inst s) = identity i \<Longrightarrow>
        \<exists>c. derived_call i c \<and> trace (snd (run_state (stop_on_error m) s)) = trace s @ [c]" for m s
    using proc.relD [OF that(1), of s] that(2) [of s]
    by (auto simp: applies_def extends_def proceeds_def keeps_def)
  have same: "watcher_api_spec (inst s) = watcher_api_spec i" "watcher_applier_spec (inst s) = watcher_applier_spec i"
      "watcher_de_spec (inst s) = watcher_de_spec i" "Name (inst s) = Name i" "Namespace (inst s) = Namespace i"
    if "identity (inst s) = identity i" for s :: "Watcher st"
    using watcher_same(6-8) [OF that] identityD [OF that] by auto
  note subs = stop_on_error_def watcher_ensureAPI_def watcher_ensureDecisionEngine_def
    watcher_ensureApplier_def sub_failed_def mirror_sub_def derived_call_def
  show "state_io_rel (applies i) (stop_on_error (watcher_ensureAPI L E (Name i)))"
    "state_io_rel (applies i) (stop_on_error (watcher_ensureDecisionEngine L E (Name i)))"
    "state_io_rel (applies i) (stop_on_error (watcher_ensureApplier L E (Name i)))"
    unfolding state_io_rel_def
    by (intro allI, rule sub, rule watcher_proceeds, frule same(1), frule same(2), frule same(3), frule same(4),
        drule same(5), simp add: subs split: sum.split option.split)+
qed

lemma watcher_services_applies: "state_io_rel (applies i) (watcher_services L E (Name i))"
proof -
  have free: "state_io_rel (extends sub_free) (watcher_expose L E)"
    "state_io_rel (extends sub_free) (watcher_unused_accounts L E)" "state_io_rel (extends sub_free) (finish_reconcile L)"
    by (intro expose_calls watcher_calls;
        simp add: sub_free_def sub_call_def route_calls_def split: call.splits)+
  show ?thesis
    unfolding watcher_services_def
    by (intro app.flow_rules applies_subs applies_io free id_frame.frame_expose id_frame.frame_blocks TrueI)
qed

text \<open>The body: either it made no sub-resource, or it was prepared first.\<close>

lemma watcher_body_cases:
  assumes run: "run_state (watcher_body L E new) s = (b, u)"
  obtains (before) "extends sub_free s u"
  | (prepared) s2 m n where "extends sub_free s s2" and "identity (inst s2) = identity (inst s)"
    and "run_state (watcher_prepare L E) s2 = (Next n, m)" and "run_state (watcher_services L E n) m = (b, u)"
proof -
  let ?s0 = "s\<lparr>inst := watcher_initStatus L (inst s)\<rparr>"
  have rbac: "state_io_rel (extends sub_free) (watcher_ensureRbac L E)"
    by (intro watcher_calls) (simp add: sub_free_def sub_call_def)
  obtain f s1 where r1: "run_state (watcher_ensureRbac L E) ?s0 = (f, s1)" by fastforce
  have e1: "extends sub_free s s1" and i1: "identity (inst s1) = identity (inst s)"
    using state_io_relD [OF rbac r1] state_io_relD [OF rbac_frames(1) r1]
    by (simp_all add: extends_def keeps_def watcher_init_fields)
  let ?s2 = "s1\<lparr>inst := (inst s1)\<lparr>Finalizers :=
      fst (AddFinalizer L (GetFinalizer L (Kind (inst s1))) (Finalizers (inst s1)))\<rparr>\<rparr>"
  have e2: "extends sub_free s ?s2" and i2: "identity (inst ?s2) = identity (inst s)"
    using e1 i1 by (simp_all add: extends_def)
  have del: "state_io_rel (extends sub_free) (watcher_reconcileDelete L E)"
    by (intro watcher_delete_calls; simp add: sub_free_def sub_call_def)
  show ?thesis
  proof (cases "\<exists>v. f = Next v \<and> run_state (watcher_normal L E) ?s2 = (b, u)")
    case False
    from run r1 False have "u = s1 \<or> u = ?s2 \<or> u = snd (run_state (watcher_reconcileDelete L E) s1)"
      by (auto simp: watcher_body_def run_continue run_finalizer_gate Let_def split_beta split: flow.splits if_splits)
    then show ?thesis using before e1 e2 extends_trans [OF e1 ext.relD [OF del, of s1]] by blast
  next
    case True
    then have nrm: "run_state (continue (watcher_prepare L E) (watcher_services L E)) ?s2 = (b, u)"
      by (simp add: watcher_normal_split)
    then show ?thesis
    proof (cases rule: continue_cases)
      case (goes_on n m)
      with prepared [OF e2 i2] show ?thesis by blast
    qed (use before extends_trans [OF e2 state_io_relD [OF watcher_prepare_calls]] in blast)+
  qed
qed

lemma gated_position:
  assumes "extends sub_free s m" and "extends (\<lambda>c. sub_call c \<longrightarrow> derived_call i c) m t"
    and "trace t = trace s @ h @ c # h'" and "sub_call c"
  shows "derived_call i c \<and> extends (\<lambda>_. True) m (s\<lparr>trace := trace s @ h\<rparr>)"
proof -
  from assms(1,2) obtain tr tr' where m: "trace m = trace s @ tr" and t: "trace t = trace m @ tr'"
      and free: "\<forall>c \<in> set tr. sub_free c" and ok: "\<forall>c \<in> set tr'. sub_call c \<longrightarrow> derived_call i c"
    unfolding extends_def by blast
  from m t assms(3) have "h @ c # h' = tr @ tr'" by simp
  then consider (late) us where "h = tr @ us" "us @ c # h' = tr'" | (early) us where "h @ us = tr" "c # h' = us @ tr'"
    by (auto simp: append_eq_append_conv2)
  then show ?thesis
  proof cases
    case late
    then have "c \<in> set tr'" by auto
    with ok assms(4) late m show ?thesis by (simp add: extends_def)
  next
    case early
    show ?thesis
    proof (cases us)
      case Nil
      with early have "h = tr" "c \<in> set tr'" by auto
      with ok assms(4) m show ?thesis by (simp add: extends_def)
    next
      case (Cons d ds)
      with early have "c \<in> set tr" by auto
      with free assms(4) show ?thesis by (simp add: sub_free_def)
    qed
  qed
qed

text \<open>
  C4. Whatever the cluster answers, every WatcherAPI, WatcherApplier and WatcherDecisionEngine that a
  reconcile applies is the one derived from the Watcher's spec, reading the Watcher's own secret; and
  before that call the same run had the database created, the message bus URL ready, the user's
  secrets checked and the sub-level secret stored from them, the Prometheus secret claimed, the
  Keystone service registered, the configuration of the database jobs stored, the database synced and
  the purge job applied.
\<close>

theorem watcher_orders_sub_resources:
  assumes "cond_laws L" and "finalizer_laws L"
    and "OnGetInstance E (trace s @ [GetInstance req]) = Inr i" and "NewHelper E = None"
    and "run_state (watcher_Reconcile L E req) s = (r, t)"
    and "trace t = trace s @ h @ c # h'" and "sub_call c"
  shows "derived_call i c \<and> watcher_prepared L E i s (s\<lparr>trace := trace s @ h\<rparr>)"
proof -
  let ?s0 = "\<lparr>inst = i, trace = trace s @ [GetInstance req]\<rparr>"
  obtain b u where b: "run_state (watcher_body L E (Conditions i = None)) ?s0 = (b, u)" by fastforce
  have t: "trace t = trace u @ [PatchInstance (inst t)]"
    using watcher.loaded(1) [OF assms(3,4) b] assms(5) by simp
  have e0: "extends sub_free s ?s0" and eu: "extends sub_free u t"
    by (simp_all add: t extends_def sub_free_def sub_call_def)
  from b show ?thesis
  proof (cases rule: watcher_body_cases)
    case before
    from extends_trans [OF e0 extends_trans [OF this eu]] have "sub_free c"
      using assms(6) by (auto simp: extends_def)
    with assms(7) show ?thesis by (simp add: sub_free_def)
  next
    case (prepared s2 m n)
    have i2: "identity (inst s2) = identity i" using prepared(2) by simp
    note pr = watcher_prepare_Next [OF assms(1,2) prepared(3)]
    have n: "n = Name i" and im: "identity (inst m) = identity i"
      using pr(2) identityD [OF i2] proceedsD(2) [OF state_io_relD [OF watcher_proceeds(10) prepared(3)]] i2 by simp_all
    have "applies i m u" using state_io_relD [OF watcher_services_applies prepared(4) [unfolded n]] .
    with im have "extends (\<lambda>c. sub_call c \<longrightarrow> derived_call i c) m u" by (simp add: applies_def)
    note late = extends_trans [OF this extends_mono [OF eu, of "\<lambda>c. sub_call c \<longrightarrow> derived_call i c"]]
    have e2: "extends sub_free s s2" by (rule extends_trans [OF e0 prepared(1)])
    note em = extends_trans [OF e2 state_io_relD [OF watcher_prepare_calls prepared(3)]]
    have pos: "derived_call i c \<and> extends (\<lambda>_. True) m (s\<lparr>trace := trace s @ h\<rparr>)"
      by (rule gated_position [OF em late assms(6,7)]) (simp add: sub_free_def)
    have "watcher_prepared L E i s2 m" using pr(1) same_prepared(6) [OF i2] by simp
    from growsD [OF grows_prepared(6) this extends_mono [OF e2] conjunct2 [OF pos]] pos show ?thesis by simp
  qed
qed


section \<open>What a Ready Watcher stands for\<close>

text \<open>
  A sub-resource was applied and answered as one whose controller has seen this very spec and all
  whose conditions are True.
\<close>

definition sub_ready ::
  "Watcher call \<Rightarrow> (Watcher history \<Rightarrow> error + 'spec sub_cr) \<Rightarrow> Watcher st \<Rightarrow> Watcher st \<Rightarrow> bool" where
  "sub_ready c answer s t \<longleftrightarrow>
     (\<exists>sub. answered_since s t c answer (Inr sub) \<and> Generation sub = ObservedGeneration sub \<and>
        (\<forall>d \<in> set (cond_list (Conditions sub)). Status d = CTrue))"

lemma grows_sub_ready: "grows (sub_ready c answer)"
  unfolding sub_ready_def by (intro grow_rules)

text \<open>The one place where a condition can become True by mirroring a sub-resource.\<close>

lemma ensure_sub_True:
  assumes L: "cond_laws L"
    and run: "run_state (stop_on_error (do { i \<leftarrow> the_inst; got \<leftarrow> perform (c i) answer;
        case got of Inl err \<Rightarrow> sub_failed L u msg err | Inr sub \<Rightarrow> mirror_sub L u sub g })) s = (Next x, t)"
    and g: "\<And>n i. cstate u (g n i) = cstate u i"
    and "cstate u (inst s) \<noteq> Some CTrue" and "cstate u (inst t) = Some CTrue"
  shows "sub_ready (c (inst s)) answer s t"
proof -
  from run obtain sub where sub: "answer (trace s @ [c (inst s)]) = Inr sub"
      and m: "run_state (mirror_sub L u sub g) (s\<lparr>trace := trace s @ [c (inst s)]\<rparr>) = (None, t)"
    by (auto simp: stop_on_error_def sub_failed_def split: sum.splits prod.splits if_splits)
  have t: "trace t = trace s @ [] @ c (inst s) # []"
    using m by (auto simp: mirror_sub_def split: if_splits option.splits)
  have "answered_since s t (c (inst s)) answer (Inr sub)"
    by (rule answered_sinceI [OF t]) (simp add: sub)
  moreover from m assms(4,5) have gen: "Generation sub = ObservedGeneration sub"
    by (auto simp: mirror_sub_def split: if_splits)
  moreover obtain d where d: "CMirror L u (Conditions sub) = Some d"
    using m assms(4,5) gen g by (cases "CMirror L u (Conditions sub)") (auto simp: mirror_sub_def)
  then have "cstate u (inst t) = Some (Status d)"
    using m gen g mirror_type [OF L d] by (auto simp: mirror_sub_def cond_lawsD [OF L])
  with assms(5) d L have "\<forall>d \<in> set (cond_list (Conditions sub)). Status d = CTrue"
    unfolding cond_laws_def query_laws_def by simp
  ultimately show ?thesis unfolding sub_ready_def by blast
qed

lemma watcher_keeps:
  assumes "cond_laws L" and "u \<in> {ReadyCondition, WatcherAPIReadyCondition, WatcherApplierReadyCondition,
      WatcherDecisionEngineReadyCondition}"
  shows "state_io_rel (keeps (cstate u)) (watcher_prepare L E)"
    and "u \<noteq> WatcherAPIReadyCondition \<Longrightarrow> state_io_rel (keeps (cstate u)) (stop_on_error (watcher_ensureAPI L E n))"
    and "state_io_rel (keeps (cstate u)) (watcher_expose L E)"
    and "u \<noteq> WatcherDecisionEngineReadyCondition \<Longrightarrow>
      state_io_rel (keeps (cstate u)) (stop_on_error (watcher_ensureDecisionEngine L E n))"
    and "u \<noteq> WatcherApplierReadyCondition \<Longrightarrow>
      state_io_rel (keeps (cstate u)) (stop_on_error (watcher_ensureApplier L E n))"
    and "state_io_rel (keeps (cstate u)) (watcher_unused_accounts L E)"
  unfolding watcher_prepare_def
  by (intro keep_rules cs_frame.frame_blocks cs_frame.frame_secrets cs_frame.frame_expose;
      use assms in auto)+

text \<open>A run of the second half that makes the Watcher Ready went through all of it.\<close>

lemma watcher_services_steps:
  assumes L: "cond_laws L" and run: "run_state (watcher_services L E n) s = (r, t)"
    and before: "cstate ReadyCondition (inst s) \<noteq> Some CTrue"
    and after: "cstate ReadyCondition (inst t) = Some CTrue"
  obtains s1 s2 s3 s4 s5
  where "run_state (stop_on_error (watcher_ensureAPI L E n)) s = (Next (), s1)"
    and "run_state (watcher_expose L E) s1 = (Next (), s2)"
    and "run_state (stop_on_error (watcher_ensureDecisionEngine L E n)) s2 = (Next (), s3)"
    and "run_state (stop_on_error (watcher_ensureApplier L E n)) s3 = (Next (), s4)"
    and "run_state (watcher_unused_accounts L E) s4 = (Next (), s5)"
    and "run_state (finish_reconcile L) s5 = (r, t)" and "cstate ReadyCondition (inst s5) \<noteq> Some CTrue"
proof -
  note keep = watcher_keeps [OF L, where u = ReadyCondition, simplified]
  from run obtain s1 where 1: "run_state (stop_on_error (watcher_ensureAPI L E n)) s = (Next (), s1)"
      and r1: "run_state (continue (watcher_expose L E) (\<lambda>_.
        continue (stop_on_error (watcher_ensureDecisionEngine L E n)) (\<lambda>_.
        continue (stop_on_error (watcher_ensureApplier L E n)) (\<lambda>_.
        continue (watcher_unused_accounts L E) (\<lambda>_. finish_reconcile L))))) s1 = (r, t)"
      and b1: "cstate ReadyCondition (inst s1) \<noteq> Some CTrue"
    unfolding watcher_services_def by (rule continue_True [OF _ keep(2) before after]) auto
  from r1 obtain s2 where 2: "run_state (watcher_expose L E) s1 = (Next (), s2)"
      and r2: "run_state (continue (stop_on_error (watcher_ensureDecisionEngine L E n)) (\<lambda>_.
        continue (stop_on_error (watcher_ensureApplier L E n)) (\<lambda>_.
        continue (watcher_unused_accounts L E) (\<lambda>_. finish_reconcile L)))) s2 = (r, t)"
      and b2: "cstate ReadyCondition (inst s2) \<noteq> Some CTrue"
    by (rule continue_True [OF _ keep(3) b1 after]) auto
  from r2 obtain s3 where 3: "run_state (stop_on_error (watcher_ensureDecisionEngine L E n)) s2 = (Next (), s3)"
      and r3: "run_state (continue (stop_on_error (watcher_ensureApplier L E n)) (\<lambda>_.
        continue (watcher_unused_accounts L E) (\<lambda>_. finish_reconcile L))) s3 = (r, t)"
      and b3: "cstate ReadyCondition (inst s3) \<noteq> Some CTrue"
    by (rule continue_True [OF _ keep(4) b2 after]) auto
  from r3 obtain s4 where 4: "run_state (stop_on_error (watcher_ensureApplier L E n)) s3 = (Next (), s4)"
      and r4: "run_state (continue (watcher_unused_accounts L E) (\<lambda>_. finish_reconcile L)) s4 = (r, t)"
      and b4: "cstate ReadyCondition (inst s4) \<noteq> Some CTrue"
    by (rule continue_True [OF _ keep(5) b3 after]) auto
  from r4 obtain s5 where 5: "run_state (watcher_unused_accounts L E) s4 = (Next (), s5)"
      and r5: "run_state (finish_reconcile L) s5 = (r, t)"
      and b5: "cstate ReadyCondition (inst s5) \<noteq> Some CTrue"
    by (rule continue_True [OF _ keep(6) b4 after]) auto
  show ?thesis by (rule that [OF 1 2 3 4 5 r5 b5])
qed

lemma watcher_services_conds: "state_io_rel (conds L) (watcher_services L E n)"
  unfolding watcher_services_def by (intro cd.flow_rules cd_frame.frame_blocks cd_frame.frame_expose; simp)

lemma kept_run: "state_io_rel (keeps f) m \<Longrightarrow> run_state m s = (x, t) \<Longrightarrow> f (inst t) = f (inst s)"
  using state_io_relD [of "keeps f" m s x t] by (simp add: keeps_def)

text \<open>The finalizers of the accounts no longer used were taken off.\<close>

definition accounts_released :: "Watcher env \<Rightarrow> Watcher \<Rightarrow> Watcher st \<Rightarrow> Watcher st \<Rightarrow> bool" where
  "accounts_released E i s t \<longleftrightarrow>
     answered_since s t (DeleteUnusedMariaDBAccountFinalizers DatabaseCRName (DatabaseAccountName (Spec i)) (Namespace i))
       (OnDeleteUnusedFinalizers E) None"

lemma grows_services: "grows (accounts_released E i)" "grows (routes_settled L E i)"
  unfolding accounts_released_def by (rule grows_answered) (simp add: grows_def, blast intro: routes_settled_since)

lemma same_services:
  assumes "identity i = identity (j :: Watcher)"
  shows "accounts_released E i = accounts_released E j" "routes_settled L E i = routes_settled L E j"
proof -
  note d = watcher_same(10) [OF assms] identityD [OF assms]
  show "accounts_released E i = accounts_released E j" by (intro ext) (simp add: accounts_released_def d)
  have "instance_ref i = instance_ref j" "controls L i = controls L j"
      "hasPublicServiceSecretName i = hasPublicServiceSecretName j"
    by (simp_all add: instance_ref_def controls_def hasPublicServiceSecretName_def fun_eq_iff d)
  then show "routes_settled L E i = routes_settled L E j"
    by (intro ext) (simp only: routes_settled_def route_published_def routes_withdrawn_def route_withdrawn_def d)
qed

lemma watcher_expose_Next:
  assumes "run_state (watcher_expose L E) s = (Next x, t)"
  shows "routes_settled L E (inst s) s t"
proof -
  obtain r s1 where r: "run_state (exposeEndpoints L E) s = (r, s1)" by fastforce
  with assms obtain u where "stop_on_result r = Next u" and t: "trace t = trace s1"
    by (auto simp: watcher_expose_def split: flow.splits option.splits)
  from exposeEndpoints_settled [OF r this(1)] show ?thesis
    by (rule routes_settled_since [OF extends_refl]) (rule extends_same_trace [OF t])
qed

lemma watcher_unused_accounts_Next:
  assumes "run_state (watcher_unused_accounts L E) s = (Next x, t)"
  shows "accounts_released E (inst s) s t"
proof -
  let ?c = "DeleteUnusedMariaDBAccountFinalizers DatabaseCRName (DatabaseAccountName (Spec (inst s))) (Namespace (inst s))"
  from assms have t: "trace t = trace s @ [] @ ?c # []" and a: "OnDeleteUnusedFinalizers E (trace s @ [] @ [?c]) = None"
    by (auto simp: watcher_unused_accounts_def split: if_splits)
  show ?thesis unfolding accounts_released_def by (rule answered_sinceI [OF t], rule a)
qed

lemma watcher_services_Ready:
  assumes L: "cond_laws L" and run: "run_state (watcher_services L E n) s = (r, t)"
    and unknown: "\<forall>u \<in> {ReadyCondition, WatcherAPIReadyCondition, WatcherApplierReadyCondition,
        WatcherDecisionEngineReadyCondition}. cstate u (inst s) = Some CUnknown"
    and after: "cstate ReadyCondition (inst t) = Some CTrue"
  shows "sub_ready (ApplyWatcherAPI \<lparr>NName = Name (inst s) @ ''-api'', NNamespace = Namespace (inst s)\<rparr>
        (watcher_api_spec (inst s) n)) (OnApplyWatcherAPI E) s t" (is ?api)
    and "sub_ready (ApplyWatcherApplier \<lparr>NName = Name (inst s) @ ''-applier'', NNamespace = Namespace (inst s)\<rparr>
        (watcher_applier_spec (inst s) n)) (OnApplyWatcherApplier E) s t" (is ?applier)
    and "sub_ready (ApplyWatcherDecisionEngine \<lparr>NName = Name (inst s) @ ''-decision-engine'',
        NNamespace = Namespace (inst s)\<rparr> (watcher_de_spec (inst s) n)) (OnApplyWatcherDecisionEngine E) s t"
      (is ?de)
    and "u \<noteq> ReadyCondition \<Longrightarrow> cstate u (inst t) \<in> {None, Some CTrue}"
    and "routes_settled L E (inst s) s t" and "accounts_released E (inst s) s t"
proof -
  note start = unknown [rule_format]
  have b0: "cstate ReadyCondition (inst s) \<noteq> Some CTrue" using start [of ReadyCondition] by simp
  obtain s1 s2 s3 s4 s5 where 1: "run_state (stop_on_error (watcher_ensureAPI L E n)) s = (Next (), s1)"
      and 2: "run_state (watcher_expose L E) s1 = (Next (), s2)"
      and 3: "run_state (stop_on_error (watcher_ensureDecisionEngine L E n)) s2 = (Next (), s3)"
      and 4: "run_state (stop_on_error (watcher_ensureApplier L E n)) s3 = (Next (), s4)"
      and 5: "run_state (watcher_unused_accounts L E) s4 = (Next (), s5)"
      and r5: "run_state (finish_reconcile L) s5 = (r, t)" and b5: "cstate ReadyCondition (inst s5) \<noteq> Some CTrue"
    by (rule watcher_services_steps [OF L run b0 after])
  note fin = finish_Ready [OF L r5 b5 after]
  show trues: "cstate u (inst t) \<in> {None, Some CTrue}" if "u \<noteq> ReadyCondition" for u
    using fin(2,3) [OF that] by simp
  have ready: "cstate u (inst t) = Some CTrue" if "cstate u (inst s) = Some CUnknown" "u \<noteq> ReadyCondition" for u
    using conds_listed [OF L watcher_services_conds run, where t = u] that trues [OF that(2)] by auto
  note k = watcher_keeps [OF L]
  note p1 = state_io_relD [OF watcher_proceeds(11) 1] and p2 = state_io_relD [OF watcher_proceeds(12) 2]
    and p3 = state_io_relD [OF watcher_proceeds(13) 3] and p4 = state_io_relD [OF watcher_proceeds(14) 4]
    and p5 = state_io_relD [OF watcher_proceeds(15) 5] and p6 = state_io_relD [OF watcher_proceeds(16) r5]
  note to4 = proc.R_trans [OF p5 p6] note to3 = proc.R_trans [OF p4 to4]
  note to1 = proc.R_trans [OF p2 proc.R_trans [OF p3 to3]]
  note to2 = proc.R_trans [OF p3 to3]
  note up2 = proc.R_trans [OF p1 p2] note up3 = proc.R_trans [OF up2 p3] note up4 = proc.R_trans [OF up3 p4]
  show "routes_settled L E (inst s) s t"
    using grows_proceeds [OF grows_services(2) watcher_expose_Next [OF 2] p1 to2]
      same_services(2) [OF proceedsD(2) [OF p1]] by simp
  show "accounts_released E (inst s) s t"
    using grows_proceeds [OF grows_services(1) watcher_unused_accounts_Next [OF 5] up4 p6]
      same_services(1) [OF proceedsD(2) [OF up4]] by simp
  let ?A = WatcherAPIReadyCondition and ?D = WatcherDecisionEngineReadyCondition and ?P = WatcherApplierReadyCondition
  have A: "cstate ?A (inst s) \<noteq> Some CTrue" using start [of ?A] by simp
  have A': "cstate ?A (inst s1) = Some CTrue"
    using kept_run [OF k(3) 2, of ?A] kept_run [OF k(4) 3, of ?A] kept_run [OF k(5) 4, of ?A]
      kept_run [OF k(6) 5, of ?A] fin(2) [of ?A] ready [of ?A] start [of ?A] by simp
  have D: "cstate ?D (inst s2) \<noteq> Some CTrue"
    using kept_run [OF k(2) 1, of ?D] kept_run [OF k(3) 2, of ?D] start [of ?D] by simp
  have D': "cstate ?D (inst s3) = Some CTrue"
    using kept_run [OF k(5) 4, of ?D] kept_run [OF k(6) 5, of ?D] fin(2) [of ?D] ready [of ?D] start [of ?D] by simp
  have P: "cstate ?P (inst s3) \<noteq> Some CTrue"
    using kept_run [OF k(2) 1, of ?P] kept_run [OF k(3) 2, of ?P] kept_run [OF k(4) 3, of ?P] start [of ?P] by simp
  have P': "cstate ?P (inst s4) = Some CTrue"
    using kept_run [OF k(6) 5, of ?P] fin(2) [of ?P] ready [of ?P] start [of ?P] by simp
  show ?api
    using grows_proceeds [OF grows_sub_ready ensure_sub_True [OF L 1 [unfolded watcher_ensureAPI_def] _ A A']
        proc.R_refl to1] by simp
  show ?de
    using grows_proceeds [OF grows_sub_ready ensure_sub_True [OF L 3 [unfolded watcher_ensureDecisionEngine_def] _ D D']
        up2 to3] watcher_same(8) [OF proceedsD(2) [OF up2]] identityD [OF proceedsD(2) [OF up2]] by simp
  show ?applier
    using grows_proceeds [OF grows_sub_ready ensure_sub_True [OF L 4 [unfolded watcher_ensureApplier_def] _ P P']
        up3 to4] watcher_same(7) [OF proceedsD(2) [OF up3]] identityD [OF proceedsD(2) [OF up3]] by simp
qed

text \<open>The service account, the role and its binding were reconciled without an error.\<close>

definition rbac_reconciled :: "Watcher env \<Rightarrow> Watcher st \<Rightarrow> Watcher st \<Rightarrow> bool" where
  "rbac_reconciled E s t \<longleftrightarrow>
     answered_since s t (ReconcileRbac rbacRules) (\<lambda>h. fst (snd (OnReconcileRbac E h))) None"

lemma grows_rbac: "grows (rbac_reconciled E)"
  unfolding rbac_reconciled_def by (rule grows_answered)

lemma watcher_ensureRbac_Next:
  assumes "run_state (watcher_ensureRbac L E) s = (Next x, t)"
  shows "rbac_reconciled E s t"
proof -
  from assms have t: "trace t = trace s @ [] @ ReconcileRbac rbacRules # []"
      and a: "fst (snd (OnReconcileRbac E (trace s @ [] @ [ReconcileRbac rbacRules]))) = None"
    by (auto simp: watcher_ensureRbac_def split: prod.splits if_splits)
  show ?thesis unfolding rbac_reconciled_def by (rule answered_sinceI [OF t], rule a)
qed

lemma watcher_body_Ready:
  assumes L: "cond_laws L" "finalizer_laws L" "rbac_law E"
    and run: "run_state (watcher_body L E new) s = (b, u)" and after: "cstate ReadyCondition (inst u) = Some CTrue"
  obtains s2 m n where "proceeds s s2" and "run_state (watcher_prepare L E) s2 = (Next n, m)"
    and "run_state (watcher_services L E n) m = (b, u)"
    and "\<forall>v \<in> {ReadyCondition, WatcherAPIReadyCondition, WatcherApplierReadyCondition,
        WatcherDecisionEngineReadyCondition}. cstate v (inst m) = Some CUnknown"
    and "DeletionTimestamp (inst s) = None" and "GetFinalizer L (Kind (inst s)) \<in> set (Finalizers (inst s))"
    and "rbac_reconciled E s s2"
proof -
  let ?s0 = "s\<lparr>inst := watcher_initStatus L (inst s)\<rparr>"
  let ?subs = "{ReadyCondition, WatcherAPIReadyCondition, WatcherApplierReadyCondition,
      WatcherDecisionEngineReadyCondition}"
  have keep: "state_io_rel (keeps (cstate v)) (watcher_ensureRbac L E)" if "v \<in> ?subs" for v
    using rbac_cstate [OF L(1,3), of v] that by (auto simp: rbac_types_def)
  have unknown: "cstate v (inst ?s0) = Some CUnknown" if "v \<in> ?subs" for v
    using watcher_init_unknown [OF L(1), of v] that by (auto simp: watcher_init_conditions_def cond_lawsD [OF L(1)])
  have b0: "cstate ReadyCondition (inst ?s0) \<noteq> Some CTrue" using unknown [of ReadyCondition] by simp
  from run have "run_state (continue (watcher_ensureRbac L E) (\<lambda>_. finalizer_gate L new
      (watcher_reconcileDelete L E) (watcher_normal L E))) ?s0 = (b, u)" by (simp add: watcher_body_def)
  from continue_True [OF this keep b0 after] obtain s1
    where 1: "run_state (watcher_ensureRbac L E) ?s0 = (Next (), s1)"
      and g: "run_state (finalizer_gate L new (watcher_reconcileDelete L E) (watcher_normal L E)) s1 = (b, u)"
      and b1: "cstate ReadyCondition (inst s1) \<noteq> Some CTrue"
    by auto
  have i1: "identity (inst s1) = identity (inst s)" "Finalizers (inst s1) = Finalizers (inst s)"
    using kept_run [OF rbac_frames(1) 1] kept_run [OF rbac_frames(2) 1] by (simp_all add: watcher_init_fields)
  define s2 where "s2 = s1\<lparr>inst := (inst s1)\<lparr>Finalizers :=
      fst (AddFinalizer L (GetFinalizer L (Kind (inst s1))) (Finalizers (inst s1)))\<rparr>\<rparr>"
  have "state_io_rel (keeps (cstate ReadyCondition)) (watcher_reconcileDelete L E)"
    by (rule cs_frame.frame_delete) 
  from gate_True [OF g this b1 after] have live: "DeletionTimestamp (inst s1) = None"
      and fin: "\<not> snd (AddFinalizer L (GetFinalizer L (Kind (inst s1))) (Finalizers (inst s1)))"
      and nrm: "run_state (watcher_normal L E) s2 = (b, u)"
    unfolding s2_def by blast+
  have fields: "DeletionTimestamp (inst s) = None" "GetFinalizer L (Kind (inst s)) \<in> set (Finalizers (inst s))"
    using live fin L(2) i1 identityD [OF i1(1)] unfolding finalizer_laws_def by auto
  have e2: "proceeds s s2"
    using state_io_relD [OF watcher_proceeds(18) 1] i1(1) by (auto simp: proceeds_def keeps_def extends_def s2_def)
  have "rbac_reconciled E ?s0 s1" by (rule watcher_ensureRbac_Next [OF 1])
  then have rb: "rbac_reconciled E s s2"
    by (rule growsD [OF grows_rbac]) (simp_all add: s2_def extends_def)
  have u2: "cstate v (inst s2) = Some CUnknown" if "v \<in> ?subs" for v
    using kept_run [OF keep [OF that] 1] unknown [OF that] by (simp add: s2_def)
  have prep: "state_io_rel (keeps (cstate v)) (watcher_prepare L E)" if "v \<in> ?subs" for v
    using watcher_keeps(1) [OF L(1)] that by simp
  have b2: "cstate ReadyCondition (inst s2) \<noteq> Some CTrue" using u2 [of ReadyCondition] by simp
  obtain n m where 2: "run_state (watcher_prepare L E) s2 = (Next n, m)"
      and 3: "run_state (watcher_services L E n) m = (b, u)"
    by (rule continue_True [OF nrm [unfolded watcher_normal_split] prep b2 after]) simp_all
  have "\<forall>v \<in> ?subs. cstate v (inst m) = Some CUnknown"
    using kept_run [OF prep 2] u2 by simp
  from that [OF e2 2 3 this fields rb] show ?thesis .
qed

text \<open>What a run that leaves the Watcher Ready has done and found.\<close>

definition watcher_done :: "lib \<Rightarrow> Watcher env \<Rightarrow> Watcher st \<Rightarrow> Watcher st \<Rightarrow> Watcher \<Rightarrow> bool" where
  "watcher_done L E s t i \<longleftrightarrow>
    rbac_reconciled E s t \<and> watcher_prepared L E i s t \<and>
    sub_ready (ApplyWatcherAPI \<lparr>NName = Name i @ ''-api'', NNamespace = Namespace i\<rparr>
      (watcher_api_spec i (Name i))) (OnApplyWatcherAPI E) s t \<and>
    sub_ready (ApplyWatcherApplier \<lparr>NName = Name i @ ''-applier'', NNamespace = Namespace i\<rparr>
      (watcher_applier_spec i (Name i))) (OnApplyWatcherApplier E) s t \<and>
    sub_ready (ApplyWatcherDecisionEngine \<lparr>NName = Name i @ ''-decision-engine'', NNamespace = Namespace i\<rparr>
      (watcher_de_spec i (Name i))) (OnApplyWatcherDecisionEngine E) s t \<and>
    routes_settled L E i s t \<and> accounts_released E i s t"

lemma watcher_Ready:
  assumes "cond_laws L" "finalizer_laws L" "rbac_law E"
    and "OnGetInstance E (trace s @ [GetInstance req]) = Inr i" and "NewHelper E = None"
    and "run_state (watcher_Reconcile L E req) s = (r, t)"
    and "cstate ReadyCondition (inst t) = Some CTrue"
  shows "DeletionTimestamp i = None \<and> GetFinalizer L (Kind i) \<in> set (Finalizers i) \<and>
    watcher_done L E s t i \<and>
    (\<forall>u \<in> Type ` set (watcher_init_conditions L). cstate u (inst t) = Some CTrue)"
proof -
  let ?s0 = "\<lparr>inst = i, trace = trace s @ [GetInstance req]\<rparr>"
  from watcher.ready_back [OF assms(1,4-7)] obtain b u
    where b: "run_state (watcher_body L E (Conditions i = None)) ?s0 = (b, u)"
      and after: "cstate ReadyCondition (inst u) = Some CTrue"
      and t: "inst t = exit_inst L (Conditions i) (inst u)" "trace t = trace u @ [PatchInstance (inst t)]" by blast
  obtain s2 m n where p2: "proceeds ?s0 s2" and 1: "run_state (watcher_prepare L E) s2 = (Next n, m)"
      and 2: "run_state (watcher_services L E n) m = (b, u)"
      and unk: "\<forall>v \<in> {ReadyCondition, WatcherAPIReadyCondition, WatcherApplierReadyCondition,
        WatcherDecisionEngineReadyCondition}. cstate v (inst m) = Some CUnknown"
      and live: "DeletionTimestamp i = None" "GetFinalizer L (Kind i) \<in> set (Finalizers i)"
      and rb: "rbac_reconciled E ?s0 s2"
    by (rule watcher_body_Ready [OF assms(1-3) b after]) simp
  have e2: "extends (\<lambda>_. True) s s2" using proceedsD(1) [OF p2] by (auto simp: extends_def)
  note id2 = proceedsD(2) [OF p2, simplified]
  note pm = state_io_relD [OF watcher_proceeds(10) 1] and pu = state_io_relD [OF watcher_proceeds(17) 2]
  have em: "extends (\<lambda>_. True) s m" by (rule extends_trans [OF e2 proceedsD(1) [OF pm]])
  have eu: "extends (\<lambda>_. True) u t" by (simp add: t(2) extends_def)
  have et: "extends (\<lambda>_. True) m t" by (rule extends_trans [OF proceedsD(1) [OF pu] eu])
  note pr = watcher_prepare_Next [OF assms(1,2) 1]
  have idm: "identity (inst m) = identity i" using proceedsD(2) [OF pm] id2 by simp
  have n: "n = Name i" using pr(2) identityD [OF id2] by simp
  have "watcher_prepared L E i s t"
    using growsD [OF grows_prepared(6) pr(1) e2 et] same_prepared(6) [OF id2] by simp
  moreover note rdy = watcher_services_Ready [OF assms(1) 2 unk after]
  note subs = growsD [OF grows_sub_ready rdy(1) em eu] growsD [OF grows_sub_ready rdy(2) em eu]
    growsD [OF grows_sub_ready rdy(3) em eu] growsD [OF grows_services(2) rdy(5) em eu]
    growsD [OF grows_services(1) rdy(6) em eu]
  moreover have "rbac_reconciled E s t"
    by (rule growsD [OF grows_rbac rb]) (simp add: extends_def, rule extends_trans [OF proceedsD(1) [OF pm] et])
  moreover have "cstate v (inst t) = Some CTrue" if v: "v \<in> Type ` set (watcher_init_conditions L)" for v
  proof (cases "v = ReadyCondition")
    case False
    have "cstate v (inst u) \<noteq> None" using watcher_listed [OF assms(1) v, of E "Conditions i = None" ?s0] b by simp
    with rdy(4) [OF False] False show ?thesis by (simp add: t(1) cstate_exit(1) [OF assms(1)])
  qed (use assms(7) in simp)
  ultimately show ?thesis
    using live watcher_same(6-8) [OF idm] identityD [OF idm] same_services [OF idm] n by (simp add: watcher_done_def)
qed

text \<open>
  C3. A Watcher stored with \<open>Ready\<close> True: in that very run the RBAC objects were reconciled, the
  database created, the message bus URL ready, both input secrets read with their fields and the
  sub-level secret stored from them, the Prometheus secret claimed, the Keystone service registered,
  the configuration of the database jobs rendered and stored, the database synced, the purge job
  applied; each of the three sub-resources derived from its spec was applied and answered as one that
  has seen this spec and has every condition True; the API's services were listed, and each has the
  route it asks for and none it declines; and the unused database accounts were released. Every other
  condition the Watcher reports is True too, and it was live and had the finalizer.
\<close>

theorem watcher_ready_sound:
  assumes "cond_laws L" "finalizer_laws L" "rbac_law E"
    and "OnGetInstance E (trace s @ [GetInstance req]) = Inr i" and "NewHelper E = None"
    and "run_state (watcher_Reconcile L E req) s = (r, t)"
    and "cstate ReadyCondition (inst t) = Some CTrue"
  shows "DeletionTimestamp i = None \<and> GetFinalizer L (Kind i) \<in> set (Finalizers i) \<and>
    rbac_reconciled E s t \<and> watcher_prepared L E i s t \<and>
    sub_ready (ApplyWatcherAPI \<lparr>NName = Name i @ ''-api'', NNamespace = Namespace i\<rparr>
      (watcher_api_spec i (Name i))) (OnApplyWatcherAPI E) s t \<and>
    sub_ready (ApplyWatcherApplier \<lparr>NName = Name i @ ''-applier'', NNamespace = Namespace i\<rparr>
      (watcher_applier_spec i (Name i))) (OnApplyWatcherApplier E) s t \<and>
    sub_ready (ApplyWatcherDecisionEngine \<lparr>NName = Name i @ ''-decision-engine'', NNamespace = Namespace i\<rparr>
      (watcher_de_spec i (Name i))) (OnApplyWatcherDecisionEngine E) s t \<and>
    routes_settled L E i s t \<and> accounts_released E i s t \<and>
    (\<forall>u \<in> Type ` set (watcher_init_conditions L). cstate u (inst t) = Some CTrue)"
  using watcher_Ready [OF assms] by (simp add: watcher_done_def)

section \<open>Deletion\<close>

definition database_released :: "lib \<Rightarrow> Watcher env \<Rightarrow> Watcher \<Rightarrow> Watcher st \<Rightarrow> Watcher st \<Rightarrow> bool" where
  "database_released L E i s t \<longleftrightarrow>
     (\<exists>got. answered_since s t (GetDatabaseByNameAndAccount DatabaseCRName (DatabaseAccountName (Spec i)) (Namespace i))
          (OnGetDatabase E) got \<and>
        (case got of
           Inl err \<Rightarrow> IsNotFound L (Some err)
         | Inr db \<Rightarrow> answered_since s t (DeleteDatabaseFinalizer db) (OnDeleteDatabaseFinalizer E) None))"

definition keystone_released :: "lib \<Rightarrow> Watcher env \<Rightarrow> Watcher \<Rightarrow> Watcher st \<Rightarrow> Watcher st \<Rightarrow> bool" where
  "keystone_released L E i s t \<longleftrightarrow>
     (\<exists>got. answered_since s t (GetKeystoneServiceWithName ServiceName (Namespace i)) (OnGetKeystoneService E) got \<and>
        (case got of
           Inl err \<Rightarrow> IsNotFound L (Some err)
         | Inr finalizers \<Rightarrow> GetFinalizer L (Kind i) \<notin> set finalizers \<or>
             (\<exists>fs err. GetFinalizer L (Kind i) \<notin> set fs \<and>
                answered_since s t (UpdateKeystoneService fs) (OnUpdateKeystoneService E) err \<and>
                (err = None \<or> IsNotFound L err))))"

text \<open>The Prometheus secret is released unless it could not be read, for whatever reason.\<close>

definition prometheus_released :: "lib \<Rightarrow> Watcher env \<Rightarrow> Watcher \<Rightarrow> Watcher st \<Rightarrow> Watcher st \<Rightarrow> bool" where
  "prometheus_released L E i s t \<longleftrightarrow>
     (\<exists>got. answered_since s t (GetSecret \<lparr>NName = PrometheusSecret (Spec i), NNamespace = Namespace i\<rparr>)
          (OnGetSecret E) got \<and>
        (case got of
           Inl err \<Rightarrow> True
         | Inr sec \<Rightarrow> GetFinalizer L (Kind i) \<notin> set (SecretFinalizers sec) \<or>
             (\<exists>sec' err. GetFinalizer L (Kind i) \<notin> set (SecretFinalizers sec') \<and>
                answered_since s t (UpdateSecret sec') (OnUpdateSecret E) err \<and>
                (err = None \<or> IsNotFound L err))))"

lemma grows_sum: "(\<And>e. grows (P e)) \<Longrightarrow> (\<And>x. grows (Q x)) \<Longrightarrow>
    grows (\<lambda>s t. case got of Inl e \<Rightarrow> P e s t | Inr x \<Rightarrow> Q x s t)"
  by (cases got) simp_all

lemma grows_released:
  "grows (database_released L E i)" "grows (keystone_released L E i)" "grows (prometheus_released L E i)"
  unfolding database_released_def keystone_released_def prometheus_released_def
  by (intro grow_rules grows_sum)+

lemma watcher_release_database_Next:
  assumes "run_state (watcher_release_database L E) s = (Next x, t)"
  shows "database_released L E (inst s) s t"
proof -
  define c where "c = (GetDatabaseByNameAndAccount DatabaseCRName (DatabaseAccountName (Spec (inst s)))
      (Namespace (inst s)) :: Watcher call)"
  define got where "got = OnGetDatabase E (trace s @ [] @ [c])"
  from assms have "case got of Inl err \<Rightarrow> IsNotFound L (Some err) \<and> trace t = trace s @ [] @ c # []
      | Inr db \<Rightarrow> trace t = trace s @ [] @ c # [DeleteDatabaseFinalizer db] \<and>
          OnDeleteDatabaseFinalizer E (trace s @ [c] @ [DeleteDatabaseFinalizer db]) = None"
    by (auto simp: watcher_release_database_def got_def c_def split: sum.splits option.splits if_splits)
  then have "answered_since s t c (OnGetDatabase E) got \<and> (case got of Inl err \<Rightarrow> IsNotFound L (Some err)
      | Inr db \<Rightarrow> answered_since s t (DeleteDatabaseFinalizer db) (OnDeleteDatabaseFinalizer E) None)"
    by (cases got) (auto simp: got_def intro: answered_sinceI [where h = "[]"] answered_sinceI [where h = "[c]"])
  then show ?thesis unfolding database_released_def c_def by blast
qed

text \<open>
  The removal both blocks that follow are written as: read the object, take the finalizer off, store
  the object; \<open>bad\<close> says which errors of the read end the reconcile.
\<close>

definition release_of ::
  "lib \<Rightarrow> string \<Rightarrow> (error \<Rightarrow> bool) \<Rightarrow> Watcher call \<Rightarrow> (Watcher history \<Rightarrow> error + 'o) \<Rightarrow> ('o \<Rightarrow> string list) \<Rightarrow>
   ('o \<Rightarrow> string list \<Rightarrow> Watcher call) \<Rightarrow> (Watcher history \<Rightarrow> error option) \<Rightarrow> (Watcher st, unit flow) state" where
  "release_of L key bad c answer fins upd store = do {
     got \<leftarrow> perform c answer;
     case got of
       Inl err \<Rightarrow> if bad err then return (Ret Result0 (Some err)) else return (Next ())
     | Inr obj \<Rightarrow>
         (case RemoveFinalizer L key (fins obj) of
            (fs, removed) \<Rightarrow>
              if removed then do {
                err \<leftarrow> perform (upd obj fs) store;
                if err \<noteq> None \<and> \<not> IsNotFound L err then return (Ret Result0 err) else return (Next ())
              } else return (Next ()))
   }"

lemma removed_own:
  assumes "finalizer_laws L" and "RemoveFinalizer L key fs = (fs', removed)"
  shows "key \<notin> set fs'" and "removed \<longleftrightarrow> key \<in> set fs"
proof -
  have "fs' = filter (\<lambda>x. x \<noteq> key) fs" and r: "removed \<longleftrightarrow> key \<in> set fs"
    using assms unfolding finalizer_laws_def by (metis fst_conv, metis snd_conv)
  then show "key \<notin> set fs'" and "removed \<longleftrightarrow> key \<in> set fs" by simp_all
qed

lemma release_of_Next:
  assumes L: "finalizer_laws L" and run: "run_state (release_of L key bad c answer fins upd store) s = (Next x, t)"
  shows "\<exists>got. answered_since s t c answer got \<and>
    (case got of Inl err \<Rightarrow> \<not> bad err
     | Inr obj \<Rightarrow> key \<notin> set (fins obj) \<or> (\<exists>fs err. key \<notin> set fs \<and>
         answered_since s t (upd obj fs) store err \<and> (err = None \<or> IsNotFound L err)))"
proof (cases "answer (trace s @ [c])")
  case (Inl err)
  with run have t: "trace t = trace s @ [] @ c # []" and "\<not> bad err"
    by (auto simp: release_of_def split: if_splits)
  with answered_sinceI [OF t, of answer "Inl err"] Inl show ?thesis by (intro exI [where x = "Inl err"]) simp
next
  case (Inr obj)
  obtain fs removed where r: "RemoveFinalizer L key (fins obj) = (fs, removed)" by fastforce
  have c: "answered_since s t c answer (Inr obj)"
    using run Inr r by (auto simp: release_of_def split: if_splits intro!: answered_sinceI [where h = "[]"])
  show ?thesis
  proof (cases removed)
    case True
    with run Inr r have t: "trace t = trace s @ [c] @ upd obj fs # []"
      and ok: "store (trace s @ [c] @ [upd obj fs]) = None \<or> IsNotFound L (store (trace s @ [c] @ [upd obj fs]))"
      by (auto simp: release_of_def split: if_splits)
    from answered_sinceI [OF t refl] ok removed_own(1) [OF L r]
    have "\<exists>fs err. key \<notin> set fs \<and> answered_since s t (upd obj fs) store err \<and> (err = None \<or> IsNotFound L err)"
      by blast
    with c show ?thesis by (intro exI [where x = "Inr obj"]) simp
  qed (use c removed_own [OF L r] in \<open>auto intro!: exI [where x = "Inr obj"]\<close>)
qed

lemma watcher_release_keystone_Next:
  assumes "finalizer_laws L" and "run_state (watcher_release_keystone L E) s = (Next x, t)"
  shows "keystone_released L E (inst s) s t"
proof -
  have "run_state (watcher_release_keystone L E) s = run_state (release_of L (GetFinalizer L (Kind (inst s)))
      (\<lambda>err. \<not> IsNotFound L (Some err)) (GetKeystoneServiceWithName ServiceName (Namespace (inst s)))
      (OnGetKeystoneService E) (\<lambda>fs. fs) (\<lambda>_. UpdateKeystoneService) (OnUpdateKeystoneService E)) s"
    by (simp add: watcher_release_keystone_def release_of_def)
  with assms(2) have "run_state (release_of L (GetFinalizer L (Kind (inst s)))
      (\<lambda>err. \<not> IsNotFound L (Some err)) (GetKeystoneServiceWithName ServiceName (Namespace (inst s)))
      (OnGetKeystoneService E) (\<lambda>fs. fs) (\<lambda>_. UpdateKeystoneService) (OnUpdateKeystoneService E)) s = (Next x, t)"
    by simp
  from release_of_Next [OF assms(1) this] show ?thesis by (simp add: keystone_released_def cong: sum.case_cong)
qed

lemma watcher_release_prometheus_Next:
  assumes "finalizer_laws L" and "run_state (watcher_release_prometheus L E) s = (Next x, t)"
  shows "prometheus_released L E (inst s) s t"
proof -
  let ?n = "\<lparr>NName = PrometheusSecret (Spec (inst s)), NNamespace = Namespace (inst s)\<rparr>"
  let ?key = "GetFinalizer L (Kind (inst s))"
  have "run_state (watcher_release_prometheus L E) s = run_state (release_of L ?key
      (\<lambda>_. False) (GetSecret ?n) (OnGetSecret E) SecretFinalizers
      (\<lambda>sec fs. UpdateSecret (sec\<lparr>SecretFinalizers := fs\<rparr>)) (OnUpdateSecret E)) s"
    by (simp add: watcher_release_prometheus_def release_of_def cong: sum.case_cong)
  with assms(2) have run: "run_state (release_of L ?key
      (\<lambda>_. False) (GetSecret ?n) (OnGetSecret E) SecretFinalizers
      (\<lambda>sec fs. UpdateSecret (sec\<lparr>SecretFinalizers := fs\<rparr>)) (OnUpdateSecret E)) s = (Next x, t)"
    by simp
  have stored_secret: "\<exists>sec' err. ?key \<notin> set (SecretFinalizers sec') \<and>
      answered_since s t (UpdateSecret sec') (OnUpdateSecret E) err \<and> (err = None \<or> IsNotFound L err)"
    if "?key \<notin> set fs" "answered_since s t (UpdateSecret (sec\<lparr>SecretFinalizers := fs\<rparr>)) (OnUpdateSecret E) err"
      "err = None \<or> IsNotFound L err" for sec fs err
    using that by (intro exI [where x = "sec\<lparr>SecretFinalizers := fs\<rparr>"] exI [where x = err]) simp
  from release_of_Next [OF assms(1) run] obtain got where
      got: "answered_since s t (GetSecret ?n) (OnGetSecret E) got" and "case got of Inl err \<Rightarrow> True
     | Inr sec \<Rightarrow> ?key \<notin> set (SecretFinalizers sec) \<or> (\<exists>fs err. ?key \<notin> set fs \<and>
         answered_since s t (UpdateSecret (sec\<lparr>SecretFinalizers := fs\<rparr>)) (OnUpdateSecret E) err \<and>
         (err = None \<or> IsNotFound L err))"
    by (auto cong: sum.case_cong)
  then have "case got of Inl err \<Rightarrow> True
     | Inr sec \<Rightarrow> ?key \<notin> set (SecretFinalizers sec) \<or> (\<exists>sec' err. ?key \<notin> set (SecretFinalizers sec') \<and>
         answered_since s t (UpdateSecret sec') (OnUpdateSecret E) err \<and> (err = None \<or> IsNotFound L err))"
    using stored_secret by (cases got) auto
  with got show ?thesis unfolding prometheus_released_def by blast
qed

lemma watcher_same_released:
  assumes "identity i = identity (j :: Watcher)"
  shows "database_released L E i = database_released L E j" "keystone_released L E i = keystone_released L E j"
    "prometheus_released L E i = prometheus_released L E j"
  using identityD [OF assms]
  by (intro ext; simp add: database_released_def keystone_released_def prometheus_released_def
      cong: sum.case_cong)+

lemma watcher_release_keeps:
  "state_io_rel (keeps f) (watcher_release_database L E)" "state_io_rel (keeps f) (watcher_release_keystone L E)"
  "state_io_rel (keeps f) (watcher_release_prometheus L E)"
  unfolding watcher_release_database_def watcher_release_keystone_def watcher_release_prometheus_def
  by (intro kp.flow_rules keeps_effects)+

lemma watcher_delete_released:
  assumes L: "finalizer_laws L" and run: "run_state (watcher_reconcileDelete L E) s = (d, u)"
    and "Finalizers (inst u) \<noteq> Finalizers (inst s)"
  shows "database_released L E (inst s) s u" "keystone_released L E (inst s) s u" "prometheus_released L E (inst s) s u"
proof -
  note keep = watcher_release_keeps
  from run assms(3) obtain s1 s2 s3 where 1: "run_state (watcher_release_database L E) s = (Next (), s1)"
      and 2: "run_state (watcher_release_keystone L E) s1 = (Next (), s2)"
      and 3: "run_state (watcher_release_prometheus L E) s2 = (Next (), s3)" and u: "trace u = trace s3"
    unfolding watcher_reconcileDelete_def
    by (auto simp: drop_own_finalizer_def kept_run [OF keep(1)] kept_run [OF keep(2)] kept_run [OF keep(3)]
        elim!: continue_cases)
  have i: "inst s1 = inst s" "inst s2 = inst s"
    using kept_run [OF keep(1) [where f = "\<lambda>i. i"] 1] kept_run [OF keep(2) [where f = "\<lambda>i. i"] 2] by simp_all
  note calls = watcher_delete_calls [where P = "\<lambda>_. True", simplified]
  note e = state_io_relD [OF calls(1) 1] state_io_relD [OF calls(2) 2] state_io_relD [OF calls(3) 3]
  have eu: "extends (\<lambda>_. True) s3 u" using u by (simp add: extends_def)
  note e3 = extends_trans [OF e(3) eu] note e2 = extends_trans [OF e(2) e3]
  show "database_released L E (inst s) s u"
    by (rule growsD [OF grows_released(1) watcher_release_database_Next [OF 1] extends_refl e2])
  show "keystone_released L E (inst s) s u"
    using growsD [OF grows_released(2) watcher_release_keystone_Next [OF L 2] e(1) e3] i by simp
  show "prometheus_released L E (inst s) s u"
    using growsD [OF grows_released(3) watcher_release_prometheus_Next [OF L 3] extends_trans [OF e(1,2)] eu] i by simp
qed

text \<open>
  C7. A deleted Watcher loses the operator's finalizer only in a run in which the database was gone or
  had its finalizer deleted, the Keystone service was gone or does not carry the Watcher's finalizer
  any more, and the Prometheus secret was released or could not be read.
\<close>

theorem watcher_delete_releases:
  assumes "finalizer_laws L"
    and "OnGetInstance E (trace s @ [GetInstance req]) = Inr i" and "NewHelper E = None"
    and "run_state (watcher_Reconcile L E req) s = (r, t)"
    and "DeletionTimestamp i \<noteq> None" and "Finalizers (inst t) \<noteq> Finalizers i"
  shows "database_released L E i s t \<and> keystone_released L E i s t \<and> prometheus_released L E i s t"
proof -
  let ?s0 = "\<lparr>inst = i, trace = trace s @ [GetInstance req]\<rparr>"
  let ?s1 = "?s0\<lparr>inst := watcher_initStatus L i\<rparr>"
  obtain b u where b: "run_state (watcher_body L E (Conditions i = None)) ?s0 = (b, u)" by fastforce
  have t: "Finalizers (inst t) = Finalizers (inst u)" "trace t = trace u @ [PatchInstance (inst t)]"
    using watcher.loaded(1) [OF assms(2,3) b] assms(4) by auto
  obtain f s2 where rbac: "run_state (watcher_ensureRbac L E) ?s1 = (f, s2)" by fastforce
  have id2: "identity (inst s2) = identity i" and fin2: "Finalizers (inst s2) = Finalizers i"
    using kept_run [OF rbac_frames(1) rbac] kept_run [OF rbac_frames(2) rbac] by (simp_all add: watcher_init_fields)
  have "Finalizers (inst u) \<noteq> Finalizers (inst s2)" using assms(6) t fin2 by simp
  with b rbac assms(5) identityD(5) [OF id2] have d: "run_state (watcher_reconcileDelete L E) s2 = (b, u)"
    by (auto simp: watcher_body_def run_continue run_finalizer_gate split: flow.splits if_splits)
  have es: "extends (\<lambda>_. True) s s2"
    using proceedsD(1) [OF state_io_relD [OF watcher_proceeds(18) rbac]] by (auto simp: extends_def)
  have et: "extends (\<lambda>_. True) u t" by (simp add: t extends_def)
  note rel = watcher_delete_released [OF assms(1) d \<open>Finalizers (inst u) \<noteq> Finalizers (inst s2)\<close>]
  show ?thesis
    using growsD [OF grows_released(1) rel(1) es et] growsD [OF grows_released(2) rel(2) es et]
      growsD [OF grows_released(3) rel(3) es et] watcher_same_released [OF id2] by simp
qed

section \<open>The secret the services read\<close>

text \<open>A service whose secret holds \<open>data\<close> gets past the block that reads it, with that secret.\<close>

definition accepts_secret ::
  "lib \<Rightarrow> (('a WatcherSecretSpec_scheme, 'z) cr_scheme) env \<Rightarrow> string_map \<Rightarrow>
   ('a WatcherSecretSpec_scheme, 'z) cr_st \<Rightarrow> bool" where
  "accepts_secret L E data s \<longleftrightarrow>
     (\<forall>sec. OnGetSecret E (trace s @ [GetSecret \<lparr>NName = Secret (Spec (inst s)), NNamespace = Namespace (inst s)\<rparr>]) =
        Inr sec \<longrightarrow> Data sec = data \<longrightarrow> (\<exists>vars. fst (run_state (service_secret L E) s) = Next (sec, vars)))"

lemma collect_all: "\<forall>f \<in> set fs. m f \<noteq> None \<Longrightarrow> \<exists>vs. collect_fields m fs = Inr vs"
  by (induction fs) (auto split: option.splits sum.splits)

lemma accepts_secretI:
  assumes "\<forall>f \<in> set (service_expected_fields (inst s)). data f \<noteq> None" and "\<And>vs. snd (HashValues L vs) = None"
  shows "accepts_secret L E data s"
  unfolding accepts_secret_def
proof (intro allI impI)
  fix sec
  assume got: "OnGetSecret E (trace s @ [GetSecret \<lparr>NName = Secret (Spec (inst s)), NNamespace = Namespace (inst s)\<rparr>]) =
      Inr sec" and "Data sec = data"
  then obtain vs where vs: "collect_fields (Data sec) (service_expected_fields (inst s)) = Inr vs"
    using collect_all assms(1) by blast
  obtain h where "HashValues L vs = (h, None)" using assms(2) [of vs] by (cases "HashValues L vs") auto
  with got vs show "\<exists>vars. fst (run_state (service_secret L E) s) = Next (sec, vars)"
    by (simp add: service_secret_def ensureSecret_def)
qed

lemma sub_level_fields:
  "Spec (sub :: ('a WatcherSecretSpec_scheme, 'z) cr_scheme) = spec \<Longrightarrow>
   PasswordSelectors spec = PasswordSelectors (Spec i) \<Longrightarrow>
   \<forall>f \<in> set (service_expected_fields sub). sub_level_data i tsec isec db f \<noteq> None"
  by (auto simp: service_expected_fields_def sub_level_data_def Let_def)

text \<open>
  C8. The secret a Watcher stores for its services is what they ask for: whatever the two secrets and
  the database it is made from, each of the three services derived from the Watcher names that secret,
  and when it finds it stored it gets past reading it. The database credentials in it are those of the
  database.
\<close>

theorem sub_level_secret_feeds_services:
  assumes "\<And>vs. snd (HashValues L vs) = None"
    and "Spec (inst api) = watcher_api_spec i (Name i)" and "Spec (inst applier) = watcher_applier_spec i (Name i)"
    and "Spec (inst de) = watcher_de_spec i (Name i)"
    and "tpl = sub_level_template L i tsec isec db"
  shows "Secret (Spec (inst api)) = TplName tpl \<and> accepts_secret L Ea (CustomData tpl) api \<and>
    Secret (Spec (inst applier)) = TplName tpl \<and> accepts_secret L Ep (CustomData tpl) applier \<and>
    Secret (Spec (inst de)) = TplName tpl \<and> accepts_secret L Ed (CustomData tpl) de \<and>
    CustomData tpl DatabasePassword = Some (DBSecretPassword db) \<and>
    CustomData tpl DatabaseUsername = Some (AccountUserName db) \<and>
    CustomData tpl DatabaseHostnameKey = Some (DatabaseHostname db)"
proof (intro conjI)
  have data: "CustomData tpl = sub_level_data i tsec isec db" by (simp add: assms(5) sub_level_template_def)
  show "accepts_secret L Ea (CustomData tpl) api" "accepts_secret L Ep (CustomData tpl) applier"
    "accepts_secret L Ed (CustomData tpl) de"
    unfolding data
    by (intro accepts_secretI assms(1) sub_level_fields [OF assms(2)] sub_level_fields [OF assms(3)]
        sub_level_fields [OF assms(4)];
        simp add: watcher_api_spec_def watcher_applier_spec_def watcher_de_spec_def Let_def)+
qed (simp_all add: assms sub_level_template_def watcher_api_spec_def watcher_applier_spec_def watcher_de_spec_def
      Let_def sub_level_data_def DatabasePassword_def DatabaseUsername_def DatabaseHostnameKey_def
      GlobalCustomConfigFileName_def)

end
