(* ===== verification/Lifecycle.thy ===== *)
theory Lifecycle
  imports WatcherProperties APIController ApplierController DecisionEngineController
begin

text \<open>
  What the four controllers have in common, as specifications of a reconcile function that each of
  them meets: what it stores, what it does with a resource that is gone, how a resource starts.
\<close>

section \<open>Specifications\<close>

text \<open>
  A resource that was loaded is stored exactly once, by the last call, as the run leaves it, with the
  identity and the spec it had; an error of that call is the error returned.
\<close>

definition stores_once ::
  "(('spec, 'z) cr_scheme env \<Rightarrow> nsname \<Rightarrow> (('spec, 'z) cr_st, (result \<times> error option) go) state) \<Rightarrow> bool" where
  "stores_once reconcile \<longleftrightarrow>
     (\<forall>E req s i r t. OnGetInstance E (trace s @ [GetInstance req]) = Inr i \<longrightarrow> NewHelper E = None \<longrightarrow>
        run_state (reconcile E req) s = (r, t) \<longrightarrow>
        (\<exists>tr. trace t = trace s @ GetInstance req # tr @ [PatchInstance (inst t)] \<and> (\<forall>c \<in> set tr. no_patch c)) \<and>
        identity (inst t) = identity i \<and>
        (\<forall>e. OnPatchInstance E (trace t) = Some e \<longrightarrow> is_panic r \<or> (\<exists>res. r = Val (res, Some e))))"

text \<open>A resource that cannot be read: no other call is made; that it is gone is no error, any other is.\<close>

definition reads_first ::
  "lib \<Rightarrow> (('spec, 'z) cr_scheme env \<Rightarrow> nsname \<Rightarrow> (('spec, 'z) cr_st, (result \<times> error option) go) state) \<Rightarrow> bool" where
  "reads_first L reconcile \<longleftrightarrow>
     (\<forall>E req s err. OnGetInstance E (trace s @ [GetInstance req]) = Inl err \<longrightarrow>
        run_state (reconcile E req) s =
          (Val (Result0, if IsNotFound L (Some err) then None else Some err),
           s\<lparr>trace := trace s @ [GetInstance req]\<rparr>))"

text \<open>
  The first reconcile of a live resource that has no status or no finalizer yet stores the finalizer
  and does nothing else.
\<close>

definition claims_first ::
  "lib \<Rightarrow> (('spec, 'z) cr_scheme env \<Rightarrow> nsname \<Rightarrow> (('spec, 'z) cr_st, (result \<times> error option) go) state) \<Rightarrow> bool" where
  "claims_first L reconcile \<longleftrightarrow>
     (\<forall>E req s i r t. OnGetInstance E (trace s @ [GetInstance req]) = Inr i \<longrightarrow> NewHelper E = None \<longrightarrow>
        DeletionTimestamp i = None \<longrightarrow>
        Conditions i = None \<or> GetFinalizer L (Kind i) \<notin> set (Finalizers i) \<longrightarrow>
        run_state (reconcile E req) s = (r, t) \<longrightarrow>
        trace t = trace s @ [GetInstance req, PatchInstance (inst t)] \<and>
        GetFinalizer L (Kind i) \<in> set (Finalizers (inst t)) \<and> set (Finalizers i) \<subseteq> set (Finalizers (inst t)) \<and>
        r = Val (Result0, OnPatchInstance E (trace t)))"

section \<open>What every reconciler does\<close>

context reconciler
begin

lemma does_store_once: "stores_once reconcile"
  unfolding stores_once_def by (blast dest: patches_last)

lemma does_read_first: "reads_first L reconcile"
  unfolding reads_first_def using not_loaded by blast

end

context service_reconciler
begin

lemma does_claim_first: "finalizer_laws L \<Longrightarrow> claims_first L reconcile"
  unfolding claims_first_def by (intro allI impI conjI first_reconcile)

end

text \<open>
  A reconciler that initialises the conditions of its resource and then only sets single conditions
  keeps the list well-formed.
\<close>

lemma exit_wf: "cond_laws L \<Longrightarrow> cond_wf (Conditions i) \<Longrightarrow> cond_wf (Conditions (exit_inst L saved i))"
  by (simp add: exit_inst_def Let_def cond_laws_wf)

locale tidy_reconciler = reconciler L prep body reconcile
  for L :: lib and prep :: "('spec, 'z) cr_scheme \<Rightarrow> ('spec, 'z) cr_scheme"
    and body reconcile +
  fixes init :: "('spec, 'z) cr_scheme \<Rightarrow> ('spec, 'z) cr_scheme"
    and rest :: "('spec, 'z) cr_scheme env \<Rightarrow> bool \<Rightarrow> (('spec, 'z) cr_st, unit flow) state"
  assumes initialises: "body E new = do { modify_inst init; rest E new }"
    and rest_conds: "state_io_rel (conds L) (rest E new)"
    and init_wf: "cond_laws L \<Longrightarrow> cond_wf (Conditions i) \<Longrightarrow> cond_wf (Conditions (init i))"
    and prep_wf: "cond_wf (Conditions i) \<Longrightarrow> cond_wf (Conditions (prep i))"
begin

lemma body_wf:
  assumes L: "cond_laws L" and run: "run_state (body E new) s = (b, u)" and wf: "cond_wf (Conditions (inst s))"
  shows "cond_wf (Conditions (inst u))"
proof -
  from run have "run_state (rest E new) (s\<lparr>inst := init (inst s)\<rparr>) = (b, u)" by (simp add: initialises)
  from state_io_relD [OF rest_conds this] show ?thesis
    using cond_steps_wf L init_wf [OF L wf] by (auto simp: conds_def)
qed

end

section \<open>The four controllers\<close>

lemma wf_no_conditions [simp]: "cond_wf None" "cond_wf (Some [])"
  by (simp_all add: cond_wf_def cond_list_def)

lemma init_wf:
  assumes "cond_laws L"
  shows "cond_wf (Conditions i) \<Longrightarrow> cond_wf (Conditions (watcher_initStatus L i))"
    "cond_wf (Conditions a) \<Longrightarrow> cond_wf (Conditions (api_initStatus L a))"
    "cond_wf (Conditions p) \<Longrightarrow> cond_wf (Conditions (applier_initStatus L p))"
    "cond_wf (Conditions d) \<Longrightarrow> cond_wf (Conditions (de_initStatus L d))"
  using assms
  by (auto simp: watcher_initStatus_def watcher_initConditions_def Let_def api_initStatus_def
      applier_initStatus_def de_initStatus_def cond_laws_wf split: option.split)

lemma de_prep_wf: "cond_wf (Conditions d) \<Longrightarrow> cond_wf (Conditions (de_prep d))"
  by (simp add: de_prep_def)

interpretation watcher_tidy: tidy_reconciler L "\<lambda>i. i" "watcher_body L" "watcher_Reconcile L"
    "watcher_initStatus L" "\<lambda>E new. continue (watcher_ensureRbac L E) (\<lambda>_.
       finalizer_gate L new (watcher_reconcileDelete L E) (watcher_normal L E))" for L
  by unfold_locales
    (auto simp: watcher_body_def init_wf intro!: cd.rel_continue rbac_frames gate_conds cd_frame.frame_normal
      cd_frame.frame_delete)

interpretation api_tidy: tidy_reconciler L "\<lambda>i. i" "api_body L" "api_Reconcile L"
    "api_initStatus L" "\<lambda>E new. finalizer_gate L new (api_reconcileDelete L E) (api_normal L E)" for L
  by unfold_locales (auto simp: api_body_def init_wf intro!: gate_conds api_conds_frames)

interpretation applier_tidy: tidy_reconciler L "\<lambda>i. i" "applier_body L" "applier_Reconcile L"
    "applier_initStatus L" "\<lambda>E new. finalizer_gate L new (applier_reconcileDelete L E) (applier_normal L E)" for L
  by unfold_locales (auto simp: applier_body_def init_wf intro!: gate_conds applier_conds_frames)

interpretation de_tidy: tidy_reconciler L de_prep "de_body L" "de_Reconcile L"
    "de_initStatus L" "\<lambda>E new. finalizer_gate L new (de_reconcileDelete L E) (de_normal L E)" for L
  by unfold_locales (auto simp: de_body_def init_wf de_prep_wf intro!: gate_conds de_conds_frames)

text \<open>
  C16. Each of the four controllers stores the resource it loaded exactly once, last, whatever happened
  before, a panic included; the spec and the identity are the ones it read, and a failed store is
  reported.
\<close>

theorem reconcile_stores_last:
  "stores_once (watcher_Reconcile L) \<and> stores_once (api_Reconcile L) \<and> stores_once (applier_Reconcile L) \<and>
   stores_once (de_Reconcile L)"
  by (intro conjI watcher.does_store_once api.does_store_once applier.does_store_once de.does_store_once)

text \<open>
  A resource that is gone is left alone by each of the four controllers, without an error; one that
  cannot be read for another reason is reported, and nothing else is called.
\<close>

lemma reconcile_reads_first:
  "reads_first L (watcher_Reconcile L) \<and> reads_first L (api_Reconcile L) \<and> reads_first L (applier_Reconcile L) \<and>
   reads_first L (de_Reconcile L)"
  by (intro conjI watcher.does_read_first api.does_read_first applier.does_read_first de.does_read_first)

text \<open>
  The first reconcile of a service resource stores its finalizer before anything is done for it, so
  nothing can be left behind when it is deleted.
\<close>

lemma services_claim_first:
  assumes "finalizer_laws L"
  shows "claims_first L (api_Reconcile L) \<and> claims_first L (applier_Reconcile L) \<and> claims_first L (de_Reconcile L)"
  using assms by (intro conjI api.does_claim_first applier.does_claim_first de.does_claim_first)

section \<open>What the services deploy and release\<close>

text \<open>
  Whatever the cluster answers, a reconcile applies no StatefulSet but one built from the spec and from the
  input hash the status already records.
\<close>

definition deploys_recorded ::
  "lib \<Rightarrow> (('spec, 'z) cr_scheme env \<Rightarrow> nsname \<Rightarrow> (('spec, 'z) cr_st, (result \<times> error option) go) state) \<Rightarrow>
   (('spec, 'z) cr_scheme env \<Rightarrow> ('spec, 'z) cr_scheme \<Rightarrow> string \<Rightarrow> statefulset \<Rightarrow> bool) \<Rightarrow> bool" where
  "deploys_recorded L reconcile built \<longleftrightarrow>
     (\<forall>E req s i r t. RequeueTimeout E \<noteq> 0 \<longrightarrow> OnGetInstance E (trace s @ [GetInstance req]) = Inr i \<longrightarrow>
        NewHelper E = None \<longrightarrow> run_state (reconcile E req) s = (r, t) \<longrightarrow> extends (deploys_only L i (built E i)) s t)"

text \<open>
  A deleted resource loses the operator's finalizer only in a run in which memcached was gone, did not
  carry the operator's finalizer, or had it taken off.
\<close>

definition keeps_until_released ::
  "lib \<Rightarrow> (('a WatcherSubCrsCommon_scheme, 'z) cr_scheme env \<Rightarrow> nsname \<Rightarrow>
     (('a WatcherSubCrsCommon_scheme, 'z) cr_st, (result \<times> error option) go) state) \<Rightarrow> bool" where
  "keeps_until_released L reconcile \<longleftrightarrow>
     (\<forall>E req s i r t. OnGetInstance E (trace s @ [GetInstance req]) = Inr i \<longrightarrow> NewHelper E = None \<longrightarrow>
        run_state (reconcile E req) s = (r, t) \<longrightarrow> DeletionTimestamp i \<noteq> None \<longrightarrow> Finalizers (inst t) \<noteq> Finalizers i \<longrightarrow>
        memcached_released L E s t (MemcachedInstance (Spec i)) (Namespace i) (GetFinalizer L (Kind i)))"

text \<open>
  C23. No service deploys a configuration its status does not record: a reconcile applies only the
  StatefulSet built from the spec, the recorded input hash and, for the API and the decision engine, a
  Prometheus secret the cluster returned.
\<close>

theorem services_deploy_recorded_hash:
  assumes "cond_laws L" and "hash_laws L"
  shows "deploys_recorded L (api_Reconcile L) (api_built L) \<and>
    deploys_recorded L (applier_Reconcile L)
      (\<lambda>E i h ss. ss = applier_StatefulSet L i h (getApplierServiceLabels L)) \<and>
    deploys_recorded L (de_Reconcile L) (de_built L)"
  unfolding deploys_recorded_def
  by (intro conjI allI impI api_deploys_recorded_hash applier_deploys_recorded_hash de_deploys_recorded_hash assms)

text \<open>
  C31. A deleted WatcherApplier or WatcherDecisionEngine keeps the operator's finalizer until memcached is
  released.
\<close>

theorem services_release_memcached:
  assumes "finalizer_laws L"
  shows "keeps_until_released L (applier_Reconcile L) \<and> keeps_until_released L (de_Reconcile L)"
  unfolding keeps_until_released_def
  by (intro conjI allI impI applier_delete_releases_memcached de_delete_releases_memcached assms)

end
