(* ===== verification/Progress.thy ===== *)
theory Progress
  imports Lifecycle
begin

text \<open>
  Progress in a cluster whose answers stay good: what it means that a block goes on and which conditions
  it marks, that a normal branch gets to its end, and what repeated reconciles of one resource come to.
  The locale \<open>settling_reconciler\<close> proves once, for the three services, that the resource is Ready from
  its third reconcile on.
\<close>

section \<open>The cluster\<close>

text \<open>The resource as it was last stored, \<open>i\<close> at first.\<close>

fun stored :: "'i \<Rightarrow> 'i history \<Rightarrow> 'i" where
  "stored i [] = i"
| "stored i (PatchInstance j # h) = stored j h"
| "stored i (c # h) = stored i h"

lemma stored_append: "stored i (h @ h') = stored (stored i h) h'"
  by (induction i h rule: stored.induct) simp_all

lemma stored_patched [simp]: "stored i (h @ [PatchInstance j]) = j"
  by (simp add: stored_append)

definition stores_resource :: "'i env \<Rightarrow> 'i \<Rightarrow> bool" where
  "stores_resource E i \<longleftrightarrow>
     (\<forall>h req. OnGetInstance E (h @ [GetInstance req]) = Inr (stored i h)) \<and> (\<forall>h. OnPatchInstance E h = None)"

primrec nth_reconcile :: "('i st, 'a) state \<Rightarrow> 'i st \<Rightarrow> nat \<Rightarrow> 'i st" where
  "nth_reconcile reconcile s 0 = s"
| "nth_reconcile reconcile s (Suc n) = snd (run_state reconcile (nth_reconcile reconcile s n))"

text \<open>
  \<open>Init\<close> sets the conditions it is given and \<open>Ready\<close>, the others it keeps or drops; \<open>Mirror\<close> of conditions
  that are all True is True.
\<close>

definition init_law :: "lib \<Rightarrow> bool" where
  "init_law L \<longleftrightarrow> (\<forall>l cs t. t \<notin> Type ` set l \<union> {ReadyCondition} \<longrightarrow>
     status_of t (CInit L l cs) \<in> {None, status_of t cs})"

lemma init_lawD:
  "init_law L \<Longrightarrow> t \<notin> Type ` set l \<Longrightarrow> t \<noteq> ReadyCondition \<Longrightarrow>
   status_of t (CInit L l cs) = None \<or> status_of t (CInit L l cs) = status_of t cs"
  by (simp add: init_law_def)

definition mirror_law :: "lib \<Rightarrow> bool" where
  "mirror_law L \<longleftrightarrow> (\<forall>t cs. cond_list cs \<noteq> [] \<longrightarrow> (\<forall>c \<in> set (cond_list cs). Status c = CTrue) \<longrightarrow>
     (\<exists>c. CMirror L t cs = Some c \<and> Status c = CTrue))"

section \<open>Blocks that go on\<close>

text \<open>
  A state in which some conditions became True and nothing else that \<open>f\<close> reads, nor the identity,
  changed.
\<close>

definition marked ::
  "(('spec, 'z) cr_scheme \<Rightarrow> 'b) \<Rightarrow> ctype set \<Rightarrow> ('spec, 'z) cr_st \<Rightarrow> ('spec, 'z) cr_st \<Rightarrow> bool" where
  "marked f us s t \<longleftrightarrow> identity (inst t) = identity (inst s) \<and> f (inst t) = f (inst s) \<and>
     (\<forall>u. cstate u (inst t) = (if u \<in> us then Some CTrue else cstate u (inst s)))"

lemma marked_refl: "marked f {} s s"
  by (simp add: marked_def)

lemma marked_trans: "marked f us s t \<Longrightarrow> marked f vs t u \<Longrightarrow> marked f (us \<union> vs) s u"
  by (simp add: marked_def)

lemma marked_trace: "marked f us (s\<lparr>trace := tr\<rparr>) t = marked f us s t" "marked f {} s (s\<lparr>trace := tr\<rparr>)"
  by (simp_all add: marked_def)

lemma marked_identity: "marked f us s t \<Longrightarrow> identity (inst s) = j \<Longrightarrow> identity (inst t) = j"
  by (simp add: marked_def)

definition goes ::
  "(('spec, 'z) cr_scheme \<Rightarrow> 'b) \<Rightarrow> ('spec, 'z) cr_scheme \<Rightarrow> ctype set \<Rightarrow> (('spec, 'z) cr_st, 'a flow) state \<Rightarrow>
   'a \<Rightarrow> bool" where
  "goes f i us m x \<longleftrightarrow>
     (\<forall>s. identity (inst s) = identity i \<longrightarrow> (\<exists>t. run_state m s = (Next x, t) \<and> marked f us s t))"

definition skips :: "('spec, 'z) cr_scheme \<Rightarrow> (('spec, 'z) cr_st, 'a) state \<Rightarrow> 'a \<Rightarrow> bool" where
  "skips i m x \<longleftrightarrow> (\<forall>s. identity (inst s) = identity i \<longrightarrow> (\<exists>tr. run_state m s = (x, s\<lparr>trace := tr\<rparr>)))"

definition finishes ::
  "lib \<Rightarrow> (('spec, 'z) cr_scheme \<Rightarrow> 'b) \<Rightarrow> ('spec, 'z) cr_scheme \<Rightarrow> ctype set \<Rightarrow>
   (('spec, 'z) cr_st, unit flow) state \<Rightarrow> bool" where
  "finishes L f i us m \<longleftrightarrow> (\<forall>s. identity (inst s) = identity i \<longrightarrow>
     (\<exists>t. run_state m s = run_state (finish_reconcile L) t \<and> marked f us s t))"

lemma goesE:
  assumes "goes f i us m x" and "identity (inst s) = identity i"
  obtains t where "run_state m s = (Next x, t)" and "marked f us s t" and "identity (inst t) = identity i"
  using assms unfolding goes_def marked_def by metis

lemma goes_return: "goes f i {} (return (Next x)) x"
  by (simp add: goes_def marked_refl)

lemma goes_continue:
  fixes i :: "('spec, 'z) cr_scheme"
  assumes "goes f i us m x" and "goes f i vs (g x) y"
  shows "goes f i (us \<union> vs) (continue m g) y"
  unfolding goes_def
proof (intro allI impI)
  fix s :: "('spec, 'z) cr_st"
  assume "identity (inst s) = identity i"
  then obtain t where t: "run_state m s = (Next x, t)" "marked f us s t" "identity (inst t) = identity i"
    by (rule goesE [OF assms(1)])
  obtain u where "run_state (g x) t = (Next y, u)" "marked f vs t u" by (rule goesE [OF assms(2) t(3)])
  with t show "\<exists>t. run_state (continue m g) s = (Next y, t) \<and> marked f (us \<union> vs) s t"
    using marked_trans by (auto simp: run_continue)
qed

lemma goes_then:
  assumes "goes f i us m x" and "goes f i vs (g x) y" and "us \<union> vs = ws"
  shows "goes f i ws (continue m g) y"
  unfolding assms(3) [symmetric] by (rule goes_continue [OF assms(1)]) (rule assms(2))

lemma goes_bind:
  fixes i :: "('spec, 'z) cr_scheme"
  assumes "skips i m x" and "goes f i us (g x) y"
  shows "goes f i us (State_Monad.bind m g) y"
  unfolding goes_def
proof (intro allI impI)
  fix s :: "('spec, 'z) cr_st"
  assume s: "identity (inst s) = identity i"
  with assms(1) obtain tr where tr: "run_state m s = (x, s\<lparr>trace := tr\<rparr>)" unfolding skips_def by blast
  obtain t where "run_state (g x) (s\<lparr>trace := tr\<rparr>) = (Next y, t)" "marked f us (s\<lparr>trace := tr\<rparr>) t"
    by (rule goesE [OF assms(2), of "s\<lparr>trace := tr\<rparr>"]) (use s in auto)
  with tr show "\<exists>t. run_state (State_Monad.bind m g) s = (Next y, t) \<and> marked f us s t"
    by (auto simp: marked_trace)
qed

lemma skips_perform: "(\<And>h. answer h = x) \<Longrightarrow> skips i (perform c answer) x"
  by (auto simp: skips_def)

lemma finishes_end: "finishes L f i {} (finish_reconcile L)"
  unfolding finishes_def using marked_refl by blast

lemma finishes_continue:
  fixes i :: "('spec, 'z) cr_scheme"
  assumes "goes f i us m x" and "finishes L f i vs (g x)"
  shows "finishes L f i (us \<union> vs) (continue m g)"
  unfolding finishes_def
proof (intro allI impI)
  fix s :: "('spec, 'z) cr_st"
  assume "identity (inst s) = identity i"
  then obtain t where t: "run_state m s = (Next x, t)" "marked f us s t" "identity (inst t) = identity i"
    by (rule goesE [OF assms(1)])
  from assms(2) t(3) obtain u where "run_state (g x) t = run_state (finish_reconcile L) u" "marked f vs t u"
    unfolding finishes_def by blast
  with t show "\<exists>u. run_state (continue m g) s = run_state (finish_reconcile L) u \<and> marked f (us \<union> vs) s u"
    by (intro exI [of _ u]) (simp add: run_continue marked_trans)
qed

lemma finishes_then:
  assumes "goes f i us m x" and "finishes L f i vs (g x)" and "us \<union> vs = ws"
  shows "finishes L f i ws (continue m g)"
  unfolding assms(3) [symmetric] by (rule finishes_continue [OF assms(1)]) (rule assms(2))

section \<open>Branches that record a hash\<close>

text \<open>What the blocks of a service leave alone.\<close>

definition record_fields :: "('spec, 'z) cr_scheme \<Rightarrow> string list \<times> string_map" where
  "record_fields i = (Finalizers i, hash_map (Hash i))"

lemma record_fields_update [simp]:
  "record_fields (i\<lparr>Conditions := cs\<rparr>) = record_fields i"
  by (simp add: record_fields_def)

text \<open>
  A branch with the input hash \<open>h\<close>: it gets to its end when the hash is recorded already, otherwise it
  records it and returns.
\<close>

definition records ::
  "lib \<Rightarrow> ('spec, 'z) cr_scheme \<Rightarrow> string \<Rightarrow> ctype set \<Rightarrow> (('spec, 'z) cr_st, unit flow) state \<Rightarrow> bool" where
  "records L i h us m \<longleftrightarrow> (\<forall>s. identity (inst s) = identity i \<longrightarrow>
     (if hash_map (Hash (inst s)) (InputHashName L) = Some h
      then \<exists>t. run_state m s = run_state (finish_reconcile L) t \<and> marked record_fields us s t
      else \<exists>t. run_state m s = (Ret Result0 None, t) \<and> hash_map (Hash (inst t)) (InputHashName L) = Some h \<and>
        Finalizers (inst t) = Finalizers (inst s)))"

lemma records_continue:
  fixes i :: "('spec, 'z) cr_scheme"
  assumes "goes record_fields i us m x" and "records L i h vs (g x)"
  shows "records L i h (us \<union> vs) (continue m g)"
  unfolding records_def
proof (intro allI impI)
  fix s :: "('spec, 'z) cr_st"
  assume "identity (inst s) = identity i"
  then obtain t where t: "run_state m s = (Next x, t)" and m: "marked record_fields us s t"
      and i: "identity (inst t) = identity i"
    by (rule goesE [OF assms(1)])
  have same: "hash_map (Hash (inst t)) = hash_map (Hash (inst s))" "Finalizers (inst t) = Finalizers (inst s)"
    using m by (simp_all add: marked_def record_fields_def)
  have run: "run_state (continue m g) s = run_state (g x) t" by (simp add: run_continue t)
  note rest = assms(2) [unfolded records_def, rule_format, OF i, unfolded same]
  show "if hash_map (Hash (inst s)) (InputHashName L) = Some h
    then \<exists>t. run_state (continue m g) s = run_state (finish_reconcile L) t \<and> marked record_fields (us \<union> vs) s t
    else \<exists>t. run_state (continue m g) s = (Ret Result0 None, t) \<and>
      hash_map (Hash (inst t)) (InputHashName L) = Some h \<and> Finalizers (inst t) = Finalizers (inst s)"
    using rest marked_trans [OF m] by (auto simp: run split: if_splits)
qed

lemma records_then:
  assumes "goes record_fields i us m x" and "records L i h vs (g x)" and "us \<union> vs = ws"
  shows "records L i h ws (continue m g)"
  unfolding assms(3) [symmetric] by (rule records_continue [OF assms(1)]) (rule assms(2))

lemma records_bind:
  fixes i :: "('spec, 'z) cr_scheme"
  assumes "skips i m x" and "records L i h us (continue (g x) k)"
  shows "records L i h us (continue (State_Monad.bind m g) k)"
  unfolding records_def
proof (intro allI impI)
  fix s :: "('spec, 'z) cr_st"
  assume s: "identity (inst s) = identity i"
  with assms(1) obtain tr where tr: "run_state m s = (x, s\<lparr>trace := tr\<rparr>)" unfolding skips_def by blast
  have run: "run_state (continue (State_Monad.bind m g) k) s = run_state (continue (g x) k) (s\<lparr>trace := tr\<rparr>)"
    by (simp add: run_continue tr)
  have "identity (inst (s\<lparr>trace := tr\<rparr>)) = identity i" using s by simp
  from assms(2) [unfolded records_def, rule_format, OF this]
  show "if hash_map (Hash (inst s)) (InputHashName L) = Some h
    then \<exists>t. run_state (continue (State_Monad.bind m g) k) s = run_state (finish_reconcile L) t \<and>
      marked record_fields us s t
    else \<exists>t. run_state (continue (State_Monad.bind m g) k) s = (Ret Result0 None, t) \<and>
      hash_map (Hash (inst t)) (InputHashName L) = Some h \<and> Finalizers (inst t) = Finalizers (inst s)"
    unfolding run by (auto simp: marked_trace split: if_splits)
qed

lemma records_settle:
  fixes i :: "('spec, 'z) cr_scheme"
  assumes L: "cond_laws L" "hash_laws L" and h: "HashEnvs L (MergeEnvs L [] vars) = (h, None)"
    and rest: "finishes L record_fields i us (k h)"
  shows "records L i h (insert ServiceConfigReadyCondition us)
    (continue (settle_input_hash L (input_hash L vars)) k)"
  unfolding records_def
proof (intro allI impI)
  fix s :: "('spec, 'z) cr_st"
  assume s: "identity (inst s) = identity i"
  note set = set_hash [OF L(2) h]
  show "if hash_map (Hash (inst s)) (InputHashName L) = Some h
    then \<exists>t. run_state (continue (settle_input_hash L (input_hash L vars)) k) s = run_state (finish_reconcile L) t \<and>
      marked record_fields (insert ServiceConfigReadyCondition us) s t
    else \<exists>t. run_state (continue (settle_input_hash L (input_hash L vars)) k) s = (Ret Result0 None, t) \<and>
      hash_map (Hash (inst t)) (InputHashName L) = Some h \<and> Finalizers (inst t) = Finalizers (inst s)"
  proof (cases "hash_map (Hash (inst s)) (InputHashName L) = Some h")
    case True
    define s1 where "s1 = snd (run_state (mark_true L ServiceConfigReadyCondition
      (LibMessage ''ServiceConfigReadyMessage'')) s)"
    have m: "marked record_fields {ServiceConfigReadyCondition} s s1"
      by (simp add: s1_def marked_def cstate_def cond_lawsD [OF L(1)])
    have "run_state (continue (settle_input_hash L (input_hash L vars)) k) s = run_state (k h) s1"
      using True by (simp add: run_continue settle_input_hash_def input_hash_def h set s1_def)
    moreover obtain t where "run_state (k h) s1 = run_state (finish_reconcile L) t" "marked record_fields us s1 t"
      using rest marked_identity [OF m s] unfolding finishes_def by blast
    ultimately show ?thesis using True marked_trans [OF m] by auto
  next
    case False
    moreover have "hash_map (Some m) = m" for m by (simp add: hash_map_def)
    ultimately show ?thesis by (simp add: run_continue settle_input_hash_def input_hash_def h set)
  qed
qed

section \<open>The blocks of the services\<close>

text \<open>What a service finds in a healthy cluster, but for the secrets.\<close>

definition offers :: "'i env \<Rightarrow> nsname \<Rightarrow> string list \<Rightarrow> bool" where
  "offers E n fs \<longleftrightarrow> (\<exists>sec. (\<forall>h. OnGetSecret E (h @ [GetSecret n]) = Inr sec) \<and> (\<forall>f \<in> set fs. Data sec f \<noteq> None))"

definition hashes_work :: "lib \<Rightarrow> bool" where
  "hashes_work L \<longleftrightarrow> (\<forall>vs. snd (HashValues L vs) = None \<and> fst (HashValues L vs) \<noteq> []) \<and>
     (\<forall>es. snd (HashEnvs L es) = None)"

definition healthy_service ::
  "('a WatcherSubCrsCommon_scheme, 'z) sub_cr_scheme env \<Rightarrow> ('a WatcherSubCrsCommon_scheme, 'z) sub_cr_scheme \<Rightarrow>
   bool" where
  "healthy_service E i \<longleftrightarrow> NewHelper E = None \<and>
     (\<exists>mc. (\<forall>h. OnGetMemcached E h = Inr mc) \<and> MemcachedReady mc) \<and> (\<forall>h. OnUpdateMemcached E h = None) \<and>
     (\<exists>api url. (\<forall>h. OnGetKeystoneAPI E h = Inr api) \<and> GetEndpoint api EndpointInternal = Inr url) \<and>
     (\<exists>db. \<forall>h. OnGetDatabase E h = Inr db) \<and> (\<exists>vars. \<forall>h. OnEnsureSecrets E h = (vars, None)) \<and>
     (\<exists>st. (\<forall>h. OnApplyStatefulSet E h = (Result0, None, st)) \<and> SSGeneration st = SSObservedGeneration st \<and>
        Replicas (Spec i) = Some (ReadyReplicas st))"

lemma collect_fields_total:
  "\<forall>f \<in> set fs. d f \<noteq> None \<Longrightarrow> \<exists>vs. collect_fields d fs = Inr vs"
  by (cases "collect_fields d fs"; use collect_fields_Inl in fastforce)

lemma goes_mark: "cond_laws L \<Longrightarrow> goes record_fields i {u} (do { mark_true L u m; return (Next x) }) x"
  by (auto simp: goes_def marked_def cstate_def cond_lawsD)

lemma goes_cong: "(\<And>s. run_state m s = run_state m' s) \<Longrightarrow> goes f i us m x = goes f i us m' x"
  by (simp add: goes_def)

lemma goes_offered:
  fixes i :: "('spec, 'z) cr_scheme"
  assumes "offers E n fs" and "hashes_work L"
  shows "\<exists>h sec. h \<noteq> [] \<and> skips i (ensureSecret L E upd n fs) (h, Result0, sec, None)"
proof -
  from assms(1) obtain sec where sec: "\<forall>h. OnGetSecret E (h @ [GetSecret n]) = Inr sec"
      and "\<forall>f \<in> set fs. Data sec f \<noteq> None" unfolding offers_def by blast
  then obtain vs where vs: "collect_fields (Data sec) fs = Inr vs" using collect_fields_total by blast
  obtain h where h: "HashValues L vs = (h, None)" "h \<noteq> []"
    using assms(2) unfolding hashes_work_def by (metis prod.collapse)
  have "skips i (ensureSecret L E upd n fs) (h, Result0, sec, None)"
    by (auto simp: skips_def ensureSecret_def sec vs h)
  with h(2) show ?thesis by blast
qed

lemma goes_service_secret:
  fixes i :: "('a WatcherSecretSpec_scheme, 'z) cr_scheme"
  assumes "offers E \<lparr>NName = Secret (Spec i), NNamespace = Namespace i\<rparr> (service_expected_fields i)" and "hashes_work L"
  shows "\<exists>x. goes f i {} (service_secret L E) x"
proof -
  obtain h sec where sk: "skips i (ensureSecret L E (\<lambda>c. cond_set L (Some c))
      \<lparr>NName = Secret (Spec i), NNamespace = Namespace i\<rparr> (service_expected_fields i)) (h, Result0, sec, None)"
    using goes_offered [OF assms] by blast
  have "goes f i {} (service_secret L E) (sec, [(Secret (Spec i), SetValue h)])"
    unfolding goes_def
  proof (intro allI impI)
    fix s :: "('a WatcherSecretSpec_scheme, 'z) cr_st"
    assume s: "identity (inst s) = identity i"
    then have same: "Spec (inst s) = Spec i" "Namespace (inst s) = Namespace i"
        "service_expected_fields (inst s) = service_expected_fields i"
      by (simp_all add: identity_def service_expected_fields_def)
    from sk s obtain tr where "run_state (ensureSecret L E (\<lambda>c. cond_set L (Some c))
      \<lparr>NName = Secret (Spec i), NNamespace = Namespace i\<rparr> (service_expected_fields i)) s =
        ((h, Result0, sec, None), s\<lparr>trace := tr\<rparr>)" unfolding skips_def by blast
    then show "\<exists>t. run_state (service_secret L E) s = (Next (sec, [(Secret (Spec i), SetValue h)]), t) \<and> marked f {} s t"
      by (simp add: service_secret_def same marked_trace)
  qed
  then show ?thesis by blast
qed

lemma goes_prometheus_secret:
  fixes i :: "('a WatcherCommon_scheme, 'z) cr_scheme"
  assumes "offers E \<lparr>NName = PrometheusSecret (Spec i), NNamespace = Namespace i\<rparr> [PrometheusHost, PrometheusPort]"
    and "hashes_work L"
  shows "\<exists>x. goes f i {} (prometheus_secret L E vars) x"
proof -
  obtain h sec where h: "h \<noteq> []" and sk: "skips i (ensureSecret L E (\<lambda>c. cond_set L (Some c))
      \<lparr>NName = PrometheusSecret (Spec i), NNamespace = Namespace i\<rparr> [PrometheusHost, PrometheusPort])
      (h, Result0, sec, None)"
    using goes_offered [OF assms] by blast
  have "goes f i {} (prometheus_secret L E vars) (sec, (PrometheusSecret (Spec i), SetValue h) # vars)"
    unfolding goes_def
  proof (intro allI impI)
    fix s :: "('a WatcherCommon_scheme, 'z) cr_st"
    assume s: "identity (inst s) = identity i"
    then have same: "Spec (inst s) = Spec i" "Namespace (inst s) = Namespace i" by (simp_all add: identity_def)
    from sk s obtain tr where "run_state (ensureSecret L E (\<lambda>c. cond_set L (Some c))
      \<lparr>NName = PrometheusSecret (Spec i), NNamespace = Namespace i\<rparr> [PrometheusHost, PrometheusPort]) s =
        ((h, Result0, sec, None), s\<lparr>trace := tr\<rparr>)" unfolding skips_def by blast
    then show "\<exists>t. run_state (prometheus_secret L E vars) s =
        (Next (sec, (PrometheusSecret (Spec i), SetValue h) # vars), t) \<and> marked f {} s t"
      by (simp add: prometheus_secret_def same h marked_trace)
  qed
  then show ?thesis by blast
qed

lemma goes_memcached:
  assumes "healthy_service E i" and "cond_laws L"
  shows "\<exists>x. goes record_fields i {MemcachedReadyCondition} (claim_memcached L E) x"
proof -
  from assms(1) obtain mc where mc: "\<forall>h. OnGetMemcached E h = Inr mc" "MemcachedReady mc"
      and up: "\<forall>h. OnUpdateMemcached E h = None"
    unfolding healthy_service_def by blast
  have "goes record_fields i {MemcachedReadyCondition} (claim_memcached L E)
    (mc\<lparr>MemcachedFinalizers := fst (AddFinalizer L (GetFinalizer L (Kind i)) (MemcachedFinalizers mc))\<rparr>)"
    by (auto simp: goes_def claim_memcached_def ensureMemcached_def mc up Let_def split_beta identity_def marked_def
        cstate_def cond_lawsD [OF assms(2)])
  then show ?thesis by blast
qed

lemma skips_sources:
  assumes "healthy_service E i"
  shows "\<exists>x. skips i (config_sources L E sec) (Inr x)"
proof -
  from assms obtain api url db where "\<forall>h. OnGetKeystoneAPI E h = Inr api" "GetEndpoint api EndpointInternal = Inr url"
      "\<forall>h. OnGetDatabase E h = Inr db"
    unfolding healthy_service_def by blast
  then have "skips i (config_sources L E sec) (Inr (url, db))" by (auto simp: skips_def config_sources_def)
  then show ?thesis by blast
qed

lemma record_fields_count [simp]:
  "record_fields (i\<lparr>ReadyCount := n\<rparr>) = record_fields (i :: ('spec, 'z) sub_cr_scheme)"
  by (simp add: record_fields_def)

lemma observe_goes:
  assumes "SSGeneration st = SSObservedGeneration st" and "Replicas (Spec i) = Some (ReadyReplicas st)"
    and "cond_laws L" and "identity (inst s) = identity i"
  shows "\<exists>t. run_state (observe_statefulset L st) s = (Val (Result0, None), t) \<and>
    marked record_fields {DeploymentReadyCondition} s t"
proof -
  have "Spec (inst s) = Spec i" using assms(4) by (simp add: identity_def)
  then show ?thesis
    using assms(1,2)
    by (auto simp: observe_statefulset_def marked_def cond_lawsD [OF assms(3)] cstate_def)
qed

lemma apply_goes:
  assumes "healthy_service E i" and L: "cond_laws L" "notfound_law L" and s: "identity (inst s) = identity i"
  shows "\<exists>t. run_state (apply_statefulset L E ss) s = (Val (Result0, None), t) \<and>
    marked record_fields {DeploymentReadyCondition} s t"
proof -
  from assms(1) obtain st where st: "\<forall>h. OnApplyStatefulSet E h = (Result0, None, st)"
      "SSGeneration st = SSObservedGeneration st" "Replicas (Spec i) = Some (ReadyReplicas st)"
    unfolding healthy_service_def by blast
  let ?s = "s\<lparr>trace := trace s @ [ApplyStatefulSet ss]\<rparr>"
  have "run_state (apply_statefulset L E ss) s = run_state (observe_statefulset L st) ?s"
    using L(2) by (simp add: apply_statefulset_def st(1) notfound_law_def)
  moreover obtain t where "run_state (observe_statefulset L st) ?s = (Val (Result0, None), t)"
      "marked record_fields {DeploymentReadyCondition} ?s t"
    using observe_goes [OF st(2,3) L(1), of ?s] s by auto
  ultimately show ?thesis by (auto simp: marked_trace)
qed

section \<open>A resource that has settled\<close>

text \<open>
  The resource once it has its finalizer and a status: still live, its own spec, this generation observed,
  and no condition but those of the controller.
\<close>

definition settled ::
  "lib \<Rightarrow> ctype set \<Rightarrow> ('spec, 'z) cr_scheme \<Rightarrow> ('spec, 'z) cr_scheme \<Rightarrow> bool" where
  "settled L types i j \<longleftrightarrow> identity j = identity i \<and> Conditions j \<noteq> None \<and>
     GetFinalizer L (Kind i) \<in> set (Finalizers j) \<and> ObservedGeneration j = Generation j \<and>
     cond_wf (Conditions j) \<and> (\<forall>u. u \<notin> types \<longrightarrow> cstate u j = None)"

lemma exit_Ready:
  "cond_laws L \<Longrightarrow> cstate ReadyCondition i = Some CTrue \<Longrightarrow>
   cstate ReadyCondition (exit_inst L saved i) = Some CTrue"
  by (simp add: exit_inst_def Let_def cstate_def cond_lawsD)

text \<open>The status of a condition that was never absent, and of a list in which all are True.\<close>

lemma exit_Ready_listed:
  assumes "cond_laws L" and "cstate ReadyCondition k \<noteq> None"
  shows "cstate ReadyCondition (exit_inst L saved k) \<noteq> None"
  using assms(2) by (auto simp: exit_inst_def Let_def cstate_def cond_lawsD [OF assms(1)] split: if_splits option.splits)
    (cases "CMirror L ReadyCondition (CRestore L saved (Conditions k))"; simp add: cond_lawsD [OF assms(1)])

lemma listed_True:
  "\<forall>c \<in> set (cond_list (Conditions i)). Status c = CTrue \<Longrightarrow> cstate t i \<noteq> None \<Longrightarrow> cstate t i = Some CTrue"
  by (auto simp: cstate_def status_of_def find_Some_iff split: option.splits)

text \<open>The end of a run: settled again when the body left the conditions of the controller only.\<close>

lemma settled_exit:
  assumes L: "cond_laws L" and k: "identity k = identity i" "GetFinalizer L (Kind i) \<in> set (Finalizers k)"
    "cond_wf (Conditions k)" "cstate ReadyCondition k \<noteq> None" "ObservedGeneration k = Generation k" and "ReadyCondition \<in> types"
    and other: "\<And>u. u \<notin> types \<Longrightarrow> cstate u k = None"
  shows "settled L types i (exit_inst L saved k)"
proof -
  let ?j = "exit_inst L saved k"
  have "status_of ReadyCondition (Conditions ?j) \<noteq> None"
    using exit_Ready_listed [OF L k(4)] by (simp add: cstate_def)
  then have "Conditions ?j \<noteq> None"
    by (cases "Conditions ?j") (simp_all add: status_of_def cond_list_def)
  moreover have "cstate u ?j = None" if "u \<notin> types" for u
  proof -
    from that assms(7) have "u \<noteq> ReadyCondition" by blast
    with other [OF that] show ?thesis by (simp add: cstate_exit(1) [OF L])
  qed
  moreover have "Generation ?j = Generation k" by (simp add: exit_inst_def Let_def)
  ultimately show ?thesis using k exit_wf [OF L k(3)] by (simp add: settled_def)
qed

text \<open>At the end of the normal branch: Ready when every other condition is True.\<close>

lemma finish_all_True:
  assumes L: "cond_laws L" and run: "run_state (finish_reconcile L) s = (b, u)"
    and wf: "cond_wf (Conditions (inst u))"
    and all: "\<And>v. v \<noteq> ReadyCondition \<Longrightarrow> cstate v (inst s) \<in> {None, Some CTrue}"
  shows "cstate ReadyCondition (inst u) = Some CTrue"
proof -
  have "CAllSubTrue L (Conditions (inst s))"
  proof (rule ccontr)
    assume no: "\<not> CAllSubTrue L (Conditions (inst s))"
    with run have "u = s" by (simp add: finish_reconcile_def)
    with wf all have "CAllSubTrue L (Conditions (inst s))" by (intro all_sub_true [OF L]) (simp_all add: cstate_def)
    with no show False ..
  qed
  with run show ?thesis by (auto simp: finish_reconcile_def cstate_def cond_lawsD [OF L])
qed

lemma finish_fields:
  "Finalizers (inst (snd (run_state (finish_reconcile L) s))) = Finalizers (inst s)"
  "Hash (inst (snd (run_state (finish_reconcile L) s))) = Hash (inst s)"
  by (simp_all add: finish_reconcile_def)

lemma finish_other:
  "cond_laws L \<Longrightarrow> u \<noteq> ReadyCondition \<Longrightarrow>
   cstate u (inst (snd (run_state (finish_reconcile L) s))) = cstate u (inst s)"
  by (simp add: finish_reconcile_def cstate_def cond_lawsD)

section \<open>Reconciling again and again\<close>

text \<open>Whenever a run leaves the resource it loaded Ready, \<open>met\<close> holds of that run.\<close>

definition ready_means ::
  "('spec, 'z) cr_scheme env \<Rightarrow> nsname \<Rightarrow> (('spec, 'z) cr_st, 'r) state \<Rightarrow>
   (('spec, 'z) cr_st \<Rightarrow> ('spec, 'z) cr_st \<Rightarrow> ('spec, 'z) cr_scheme \<Rightarrow> bool) \<Rightarrow> bool" where
  "ready_means E req reconcile met \<longleftrightarrow>
     (\<forall>s r t j. OnGetInstance E (trace s @ [GetInstance req]) = Inr j \<longrightarrow> run_state reconcile s = (r, t) \<longrightarrow>
        cstate ReadyCondition (inst t) = Some CTrue \<longrightarrow> met s t j)"

context reconciler
begin

text \<open>What is loaded is what the last reconcile stored.\<close>

lemma loads_next:
  assumes "stores_resource E i" and "NewHelper E = None"
  shows "OnGetInstance E (trace (snd (run_state (reconcile E req) s)) @ [GetInstance req]) =
    Inr (inst (snd (run_state (reconcile E req) s)))"
proof -
  let ?t = "snd (run_state (reconcile E req) s)"
  have "OnGetInstance E (trace s @ [GetInstance req]) = Inr (stored i (trace s))"
    using assms(1) by (simp add: stores_resource_def)
  from patches_last(1) [OF this assms(2) prod.collapse [symmetric]]
  obtain tr where "trace ?t = (trace s @ GetInstance req # tr) @ [PatchInstance (inst ?t)]" by auto
  then show ?thesis using assms(1) by (simp only: stores_resource_def stored_patched)
qed

lemma loads_stored:
  assumes "stores_resource E i" and "NewHelper E = None"
  shows "OnGetInstance E (trace (nth_reconcile (reconcile E req) s (Suc n)) @ [GetInstance req]) =
    Inr (inst (nth_reconcile (reconcile E req) s (Suc n)))"
  using loads_next [OF assms] by simp

lemma loads_first:
  "stores_resource E i \<Longrightarrow> trace s = [] \<Longrightarrow> OnGetInstance E (trace s @ [GetInstance req]) = Inr i"
  unfolding stores_resource_def by (metis stored.simps(1))

text \<open>An invariant of the stored resource that the first reconcile establishes.\<close>

lemma stays:
  assumes cluster: "stores_resource E i" "NewHelper E = None" "trace s = []"
    and first: "\<And>s. OnGetInstance E (trace s @ [GetInstance req]) = Inr i \<Longrightarrow>
      P (inst (snd (run_state (reconcile E req) s)))"
    and step: "\<And>s j. P j \<Longrightarrow> OnGetInstance E (trace s @ [GetInstance req]) = Inr j \<Longrightarrow>
      P (inst (snd (run_state (reconcile E req) s)))"
  shows "P (inst (nth_reconcile (reconcile E req) s (Suc n)))"
proof (induction n)
  case 0
  show ?case using first [OF loads_first [OF cluster(1,3)]] by simp
next
  case (Suc n)
  from step [OF this loads_stored [OF cluster(1,2)]] show ?case by simp
qed

text \<open>Every reconcile loads the resource with the identity it had at first.\<close>

lemma loads_identity:
  assumes cluster: "stores_resource E i" "NewHelper E = None" "trace s = []"
  shows "\<exists>j. OnGetInstance E (trace (nth_reconcile (reconcile E req) s n) @ [GetInstance req]) = Inr j \<and>
    identity j = identity i"
proof (cases n)
  case 0
  then show ?thesis using loads_first [OF cluster(1,3)] by simp
next
  case (Suc m)
  have "identity (inst (nth_reconcile (reconcile E req) s (Suc m))) = identity i"
    by (rule stays [OF cluster]) (use patches_last(2) [OF _ cluster(2) prod.collapse [symmetric]] in auto)
  then show ?thesis using loads_stored [OF cluster(1,2)] Suc by simp
qed

text \<open>What a run that ends Ready has done is true of the last of any number of reconciles that does.\<close>

lemma last_reconcile:
  assumes cluster: "stores_resource E i" "NewHelper E = None" "trace s = []"
    and sound: "ready_means E req (reconcile E req) met"
    and ready: "cstate ReadyCondition (inst (nth_reconcile (reconcile E req) s (Suc n))) = Some CTrue"
  shows "\<exists>j. identity j = identity i \<and>
    met (nth_reconcile (reconcile E req) s n) (nth_reconcile (reconcile E req) s (Suc n)) j"
proof -
  obtain j where j: "OnGetInstance E (trace (nth_reconcile (reconcile E req) s n) @ [GetInstance req]) = Inr j"
      "identity j = identity i"
    using loads_identity [OF cluster] by blast
  with sound [unfolded ready_means_def, rule_format, OF j(1) prod.collapse [symmetric]] ready
  show ?thesis by auto
qed

text \<open>A reconcile leaves a \<open>Ready\<close> condition, of whatever status.\<close>

lemma reports_ready:
  assumes L: "cond_laws L" and cluster: "stores_resource E i" "NewHelper E = None"
  shows "cstate ReadyCondition (inst (snd (run_state (reconcile E req) s))) \<noteq> None"
proof -
  obtain j where load: "OnGetInstance E (trace s @ [GetInstance req]) = Inr j"
    using cluster(1) by (simp add: stores_resource_def)
  obtain b u where b: "run_state (body E (Conditions j = None)) \<lparr>inst = prep j, trace = trace s @ [GetInstance req]\<rparr> = (b, u)"
    by fastforce
  have "cstate ReadyCondition (inst u) \<noteq> None"
    using body_ready [OF L, of E "Conditions j = None" "\<lparr>inst = prep j, trace = trace s @ [GetInstance req]\<rparr>"] by (simp add: b)
  then show ?thesis using exit_Ready_listed [OF L] by (simp add: loaded(1) [OF load cluster(2) b])
qed

end

text \<open>
  The services: a service reconciler whose branches only touch the conditions of its own list. The
  normal branch is known to record the input hash \<open>h\<close>, or to get to its end with every condition but
  \<open>Ready\<close> marked True.
\<close>

locale settling_reconciler =
  service_reconciler L prep body reconcile init delete normal types +
  tidy: tidy_reconciler L prep body reconcile init "\<lambda>E new. finalizer_gate L new (delete E) (normal E)"
  for L :: lib and prep :: "('spec, 'z) cr_scheme \<Rightarrow> ('spec, 'z) cr_scheme"
    and body reconcile init delete normal types +
  assumes prep_old: "Conditions i \<noteq> None \<Longrightarrow> prep i = i"
    and prep_new: "Conditions i = None \<Longrightarrow> cond_list (Conditions (prep i)) = []"
    and init_other: "init_law L \<Longrightarrow> u \<notin> types \<Longrightarrow> cstate u (init i) \<in> {None, cstate u i}"
    and normal_identity: "state_io_rel (keeps identity) (normal E)"
    and observes: "ObservedGeneration (init i) = Generation i" "state_io_rel (keeps ObservedGeneration) (normal E)"
    and normal_other: "cond_laws L \<Longrightarrow> u \<notin> types \<Longrightarrow> state_io_rel (keeps (cstate u)) (normal E)"
begin

lemma init_generation: "Generation (init i) = Generation i"
  using init_identity [of i] by (simp add: identity_def)

text \<open>The body on a settled resource runs the normal branch from a fresh status.\<close>

lemma settled_body:
  assumes L: "finalizer_laws L" and j: "settled L types i j" and live: "DeletionTimestamp i = None"
  shows "run_state (body E (Conditions j = None)) \<lparr>inst = prep j, trace = h\<rparr> =
    run_state (normal E) \<lparr>inst = (init j)\<lparr>Finalizers := Finalizers j\<rparr>, trace = h\<rparr>"
proof -
  have kind: "Kind j = Kind i" "DeletionTimestamp j = None" and old: "prep j = j" "Conditions j \<noteq> None"
    using j live by (simp_all add: settled_def identity_def prep_old)
  then have "AddFinalizer L (GetFinalizer L (Kind j)) (Finalizers j) = (Finalizers j, False)"
    using L j by (simp add: finalizer_laws_def settled_def prod_eq_iff)
  with kind old show ?thesis
    by (auto simp: body_shape run_finalizer_gate init_identityD init_keeps Let_def)
qed

text \<open>What the normal branch leaves of a settled resource.\<close>

lemma settled_normal:
  assumes L: "cond_laws L" "init_law L" and normal: "records L i h (types - {ReadyCondition}) (normal E)"
    and j: "settled L types i j"
    and b: "run_state (normal E) \<lparr>inst = (init j)\<lparr>Finalizers := Finalizers j\<rparr>, trace = tr\<rparr> = (b, u)"
  shows "cond_wf (Conditions (inst u))"
    and "\<And>v. v \<notin> types \<Longrightarrow> cstate v (inst u) = None"
    and "Finalizers (inst u) = Finalizers j"
    and "hash_map (Hash (inst u)) (InputHashName L) = Some h"
    and "hash_map (Hash j) (InputHashName L) = Some h \<Longrightarrow> \<forall>v \<in> types. cstate v (inst u) = Some CTrue"
    and "ObservedGeneration (inst u) = Generation (inst u)"
proof -
  let ?s1 = "\<lparr>inst = (init j)\<lparr>Finalizers := Finalizers j\<rparr>, trace = tr\<rparr>"
  have same: "identity (inst ?s1) = identity i" "hash_map (Hash (inst ?s1)) = hash_map (Hash j)"
    using j by (simp_all add: init_identity init_keeps settled_def)
  have wf: "cond_wf (Conditions (inst ?s1))" using j by (simp add: settled_def tidy.init_wf [OF L(1)])
  show wf_u: "cond_wf (Conditions (inst u))"
    using cond_steps_wf [OF state_io_relD [OF branch_conds(2) b, unfolded conds_def] L(1) wf] .
  have none: "cstate v (inst ?s1) = None" if "v \<notin> types" for v
    using that j init_other [OF L(2) that, of j] by (auto simp: settled_def)
  show "cstate v (inst u) = None" if "v \<notin> types" for v
    using kept_run [OF normal_other [OF L(1) that] b] none [OF that] by simp
  have "Finalizers (inst u) = Finalizers j \<and> hash_map (Hash (inst u)) (InputHashName L) = Some h \<and>
      (hash_map (Hash j) (InputHashName L) = Some h \<longrightarrow> (\<forall>v \<in> types. cstate v (inst u) = Some CTrue))"
  proof (cases "hash_map (Hash j) (InputHashName L) = Some h")
    case True
    with normal same b obtain v where v: "run_state (finish_reconcile L) v = (b, u)"
        and m: "marked record_fields (types - {ReadyCondition}) ?s1 v"
      unfolding records_def by metis
    have "cstate c (inst v) \<in> {None, Some CTrue}" if "c \<noteq> ReadyCondition" for c
      using m none [of c] that by (auto simp: marked_def)
    then have "cstate ReadyCondition (inst u) = Some CTrue" by (rule finish_all_True [OF L(1) v wf_u])
    moreover have "cstate c (inst u) = cstate c (inst v)" if "c \<noteq> ReadyCondition" for c
      using finish_other [OF L(1) that, of v] v by simp
    ultimately have "cstate c (inst u) = Some CTrue" if "c \<in> types" for c
      using m that by (cases "c = ReadyCondition") (simp_all add: marked_def)
    then show ?thesis
      using True m finish_fields [of L v] v by (simp add: marked_def record_fields_def init_keeps)
  next
    case False
    with normal same obtain v where "run_state (normal E) ?s1 = (Ret Result0 None, v)"
        "hash_map (Hash (inst v)) (InputHashName L) = Some h" "Finalizers (inst v) = Finalizers (inst ?s1)"
      unfolding records_def by metis
    with False b show ?thesis by simp
  qed
  then show "Finalizers (inst u) = Finalizers j" and "hash_map (Hash (inst u)) (InputHashName L) = Some h"
    and "hash_map (Hash j) (InputHashName L) = Some h \<Longrightarrow> \<forall>v \<in> types. cstate v (inst u) = Some CTrue"
    by simp_all
  have "Generation (inst u) = Generation (inst ?s1)"
    using kept_run [OF normal_identity b] by (simp add: identity_def)
  then show "ObservedGeneration (inst u) = Generation (inst u)"
    using kept_run [OF observes(2) b] observes(1) [of j] by (simp add: init_generation)
qed


lemma settled_step:
  assumes L: "cond_laws L" "finalizer_laws L" "init_law L" and live: "DeletionTimestamp i = None"
    and normal: "records L i h (types - {ReadyCondition}) (normal E)" and helper: "NewHelper E = None"
    and j: "settled L types i j" and load: "OnGetInstance E (trace s @ [GetInstance req]) = Inr j"
  shows "settled L types i (inst (snd (run_state (reconcile E req) s)))"
    and "hash_map (Hash (inst (snd (run_state (reconcile E req) s)))) (InputHashName L) = Some h"
    and "hash_map (Hash j) (InputHashName L) = Some h \<Longrightarrow>
      \<forall>u \<in> types. cstate u (inst (snd (run_state (reconcile E req) s))) = Some CTrue"
proof -
  let ?t = "snd (run_state (reconcile E req) s)" and ?h = "trace s @ [GetInstance req]"
  obtain b u where b: "run_state (normal E) \<lparr>inst = (init j)\<lparr>Finalizers := Finalizers j\<rparr>, trace = ?h\<rparr> = (b, u)"
    by fastforce
  note body = settled_body [OF L(2) j live, of E ?h, unfolded b]
  have inst_t: "inst ?t = exit_inst L (Conditions (prep j)) (inst u)"
    by (simp add: loaded(1) [OF load helper body])
  note n = settled_normal [OF L(1,3) normal j b]
  have "cstate ReadyCondition (inst u) \<noteq> None"
    using body_ready [OF L(1), of E "Conditions j = None" "\<lparr>inst = prep j, trace = ?h\<rparr>"] by (simp add: body)
  moreover have "identity (inst u) = identity i"
    using kept_run [OF body_identity body] j by (simp add: settled_def prep_identity)
  ultimately show "settled L types i (inst ?t)"
    unfolding inst_t using n(1-3,6) j Ready_type by (intro settled_exit [OF L(1)]) (simp_all add: settled_def)
  show "hash_map (Hash (inst ?t)) (InputHashName L) = Some h" using n(4) by (simp add: inst_t)
  show "\<forall>u \<in> types. cstate u (inst ?t) = Some CTrue" if "hash_map (Hash j) (InputHashName L) = Some h"
    using n(5) [OF that] exit_Ready [OF L(1)] cstate_exit(1) [OF L(1)] unfolding inst_t by metis
qed

text \<open>The first reconcile of a new resource settles it.\<close>

lemma first_settles:
  assumes L: "cond_laws L" "finalizer_laws L" "init_law L" and i: "DeletionTimestamp i = None" "Conditions i = None"
    and helper: "NewHelper E = None" and load: "OnGetInstance E (trace s @ [GetInstance req]) = Inr i"
  shows "settled L types i (inst (snd (run_state (reconcile E req) s)))"
proof -
  let ?s0 = "\<lparr>inst = prep i, trace = trace s @ [GetInstance req]\<rparr>" and ?key = "GetFinalizer L (Kind i)"
  obtain fs added where af: "AddFinalizer L ?key (Finalizers i) = (fs, added)" by fastforce
  with L(2) have key: "?key \<in> set fs"
    unfolding finalizer_laws_def by (metis fst_conv in_set_conv_decomp)
  let ?k = "(init (prep i))\<lparr>Finalizers := fs\<rparr>"
  have body: "run_state (body E (Conditions i = None)) ?s0 = (Ret Result0 None, ?s0\<lparr>inst := ?k\<rparr>)"
    using af i by (simp add: body_shape run_finalizer_gate init_identityD prep_identityD init_keeps prep_keeps Let_def)
  have "cond_wf (Conditions i)" using i by simp
  then have "cond_wf (Conditions ?k)" by (simp add: tidy.init_wf [OF L(1)] tidy.prep_wf)
  moreover have "cstate u ?k = None" if "u \<notin> types" for u
    using init_other [OF L(3) that, of "prep i"] prep_new [OF i(2)] by (auto simp: cstate_def status_of_def)
  ultimately have "settled L types i (exit_inst L (Conditions (prep i)) ?k)"
    using key Ready_type by (intro settled_exit [OF L(1)]) (simp_all add: init_identity prep_identity init_unknown L observes init_generation)
  then show ?thesis by (simp add: loaded(1) [OF load helper body])
qed

text \<open>Claimed by the first reconcile, its hash recorded by the second, Ready from the third on.\<close>

lemma converges:
  assumes L: "cond_laws L" "finalizer_laws L" "init_law L"
    and cluster: "stores_resource E i" "NewHelper E = None" "trace s = []"
    and normal: "records L i h (types - {ReadyCondition}) (normal E)"
    and new: "DeletionTimestamp i = None" "Conditions i = None" and n: "n \<ge> 3"
  shows "settled L types i (inst (nth_reconcile (reconcile E req) s n)) \<and>
    (\<forall>u \<in> types. cstate u (inst (nth_reconcile (reconcile E req) s n)) = Some CTrue)"
proof -
  let ?at = "nth_reconcile (reconcile E req) s"
  note loads = loads_stored [OF cluster(1,2)]
  note step = settled_step [OF L new(1) normal cluster(2)]
  have later: "settled L types i (inst (?at (Suc m)))" for m
    by (rule stays [OF cluster]) (use first_settles [OF L new cluster(2)] step(1) in blast)+
  have hash: "hash_map (Hash (inst (?at (Suc (Suc m))))) (InputHashName L) = Some h" for m
    using step(2) [OF later loads] by simp
  obtain m where m: "n = Suc (Suc (Suc m))" using n by (metis Suc_le_D Suc_le_mono numeral_3_eq_3)
  show ?thesis using step(3) [OF later loads hash, of m] later [of "Suc (Suc m)"] unfolding m by simp
qed

end

end
