(* ===== verification/Convergence.thy ===== *)
theory Convergence
  imports Progress
begin

text \<open>
  The three services converge: in a healthy cluster that stores what it is given, a new WatcherApplier,
  WatcherDecisionEngine or WatcherAPI is Ready from its third reconcile on.
\<close>

section \<open>The controllers settle\<close>

lemma init_other:
  assumes "init_law L"
  shows "u \<notin> Type ` set (applier_init_conditions L) \<union> {ReadyCondition} \<Longrightarrow> cstate u (applier_initStatus L p) \<in> {None, cstate u p}"
    "u \<notin> Type ` set (de_init_conditions L) \<union> {ReadyCondition} \<Longrightarrow> cstate u (de_initStatus L d) \<in> {None, cstate u d}"
    "u \<notin> Type ` set (api_init_conditions L) \<union> {ReadyCondition} \<Longrightarrow> cstate u (api_initStatus L a) \<in> {None, cstate u a}"
  by (simp_all add: applier_initStatus_def de_initStatus_def api_initStatus_def cstate_def init_lawD [OF assms])

lemma observed_ops:
  "state_io_rel (keeps ObservedGeneration) (cond_set L c)" "state_io_rel (keeps ObservedGeneration) (mark_true L t m)"
  "state_io_rel (keeps ObservedGeneration) (set_false L t rs sv m args)"
  by (auto simp: state_io_rel_def keeps_def)

lemma observed_frames:
  "state_io_rel (keeps ObservedGeneration) (applier_normal L E)"
  "state_io_rel (keeps ObservedGeneration) (de_normal L F)"
  "state_io_rel (keeps ObservedGeneration) (api_normal L G)"
proof -
  have expose: "state_io_rel (keeps ObservedGeneration) (api_expose_loop L G eps m)" for eps m
  proof (induction eps arbitrary: m)
    case (Cons ep eps)
    then show ?case
      unfolding api_expose_loop.simps api_expose_endpoint_def by (intro keep_rules observed_ops; blast)
  qed (simp add: kp.rel_return)
  show "state_io_rel (keeps ObservedGeneration) (applier_normal L E)"
    "state_io_rel (keeps ObservedGeneration) (de_normal L F)"
    "state_io_rel (keeps ObservedGeneration) (api_normal L G)"
    unfolding applier_normal_def de_normal_def api_normal_def applier_defs de_defs api_defs service_blocks
    by (intro keep_rules observed_ops expose; simp)+
qed

lemma normal_identity_frames:
  "state_io_rel (keeps identity) (applier_normal L E)"
  "state_io_rel (keeps identity) (de_normal L F)"
  "state_io_rel (keeps identity) (api_normal L G)"
  unfolding applier_normal_def de_normal_def api_normal_def
  by (intro keep_rules applier_identity_frames de_identity_frames api_identity_frames blocks_identity)+

lemma normal_other_frames:
  assumes "cond_laws L"
  shows "u \<notin> Type ` set (applier_init_conditions L) \<union> {ReadyCondition} \<Longrightarrow> state_io_rel (keeps (cstate u)) (applier_normal L E)"
    "u \<notin> Type ` set (de_init_conditions L) \<union> {ReadyCondition} \<Longrightarrow> state_io_rel (keeps (cstate u)) (de_normal L F)"
    "u \<notin> Type ` set (api_init_conditions L) \<union> {ReadyCondition} \<Longrightarrow> state_io_rel (keeps (cstate u)) (api_normal L G)"
  unfolding applier_normal_def de_normal_def api_normal_def
    applier_init_conditions_def de_init_conditions_def api_init_conditions_def
  by (intro kp.flow_rules applier_cstate_frames de_cstate_frames api_cstate_frames api_expose_cstate blocks_cstate assms;
      simp add: cond_lawsD [OF assms])+

interpretation applier_settles: settling_reconciler L "\<lambda>i. i" "applier_body L" "applier_Reconcile L"
    "applier_initStatus L" "applier_reconcileDelete L" "applier_normal L"
    "Type ` set (applier_init_conditions L) \<union> {ReadyCondition}" for L
  by (unfold_locales; (rule normal_identity_frames observed_frames normal_other_frames init_other; assumption)?)
    (auto simp: applier_initStatus_def cond_list_def normal_identity_frames observed_frames)

interpretation de_settles: settling_reconciler L de_prep "de_body L" "de_Reconcile L"
    "de_initStatus L" "de_reconcileDelete L" "de_normal L"
    "Type ` set (de_init_conditions L) \<union> {ReadyCondition}" for L
  by (unfold_locales; (rule normal_identity_frames observed_frames normal_other_frames init_other; assumption)?)
    (auto simp: de_initStatus_def de_prep_def cond_list_def normal_identity_frames observed_frames)

interpretation api_settles: settling_reconciler L "\<lambda>i. i" "api_body L" "api_Reconcile L"
    "api_initStatus L" "api_reconcileDelete L" "api_normal L"
    "Type ` set (api_init_conditions L) \<union> {ReadyCondition}" for L
  by (unfold_locales; (rule normal_identity_frames observed_frames normal_other_frames init_other; assumption)?)
    (auto simp: api_initStatus_def cond_list_def normal_identity_frames observed_frames)

section \<open>Their normal branches in a healthy cluster\<close>

text \<open>Rendering the configuration answers the same at every run.\<close>

lemma healthy_answers:
  assumes "healthy_service E i"
  obtains api url db new where "\<forall>h. OnGetKeystoneAPI E h = Inr api" and "GetEndpoint api EndpointInternal = Inr url"
    and "\<forall>h. OnGetDatabase E h = Inr db" and "\<forall>h. OnEnsureSecrets E h = (new, None)"
  using assms unfolding healthy_service_def by blast

lemmas config_defs = applier_generateServiceConfigs_def de_generateServiceConfigs_def api_generateServiceConfigs_def
  config_sources_def GenerateConfigsGeneric_def skips_def

lemma applier_skips_config:
  assumes "healthy_service E i"
  shows "\<exists>vars'. skips i (applier_generateServiceConfigs L E sec mc vars) (vars', None)"
  by (rule healthy_answers [OF assms]) (auto simp: config_defs Let_def)

lemma de_skips_config:
  assumes "healthy_service E i"
  shows "\<exists>vars'. skips i (de_generateServiceConfigs L E sec psec mc vars) (vars', None)"
  by (rule healthy_answers [OF assms]) (auto simp: config_defs Let_def)

lemma api_skips_config:
  assumes "healthy_service E i"
  shows "\<exists>vars'. skips i (api_generateServiceConfigs L E sec psec mc vars) (vars', None)"
  by (rule healthy_answers [OF assms]) (auto simp: config_defs Let_def)

definition healthy_for_applier :: "lib \<Rightarrow> WatcherApplier env \<Rightarrow> WatcherApplier \<Rightarrow> bool" where
  "healthy_for_applier L E i \<longleftrightarrow> hashes_work L \<and> healthy_service E i \<and>
     offers E \<lparr>NName = Secret (Spec i), NNamespace = Namespace i\<rparr> (service_expected_fields i)"

definition healthy_for_de :: "lib \<Rightarrow> WatcherDecisionEngine env \<Rightarrow> WatcherDecisionEngine \<Rightarrow> bool" where
  "healthy_for_de L E i \<longleftrightarrow> hashes_work L \<and> healthy_service E i \<and>
     offers E \<lparr>NName = Secret (Spec i), NNamespace = Namespace i\<rparr> (service_expected_fields i) \<and>
     offers E \<lparr>NName = PrometheusSecret (Spec i), NNamespace = Namespace i\<rparr> [PrometheusHost, PrometheusPort]"

lemma hash_exists: "hashes_work L \<Longrightarrow> \<exists>h. HashEnvs L (MergeEnvs L [] vars) = (h, None)"
  unfolding hashes_work_def by (metis prod.collapse)

text \<open>Deploying, once the StatefulSet is up.\<close>

lemma goes_deploy:
  fixes i :: "('a WatcherSubCrsCommon_scheme, 'z) sub_cr_scheme"
  assumes "healthy_service E i" and "cond_laws L" "notfound_law L"
    and "\<And>s. identity (inst s) = identity i \<Longrightarrow> run_state m s = run_state (apply_statefulset L E (ss (inst s))) s"
  shows "goes record_fields i {DeploymentReadyCondition}
    (call_go m (\<lambda>(res, err). if err \<noteq> None then return (Ret res err) else return (Next ()))) ()"
  unfolding goes_def
proof (intro allI impI)
  fix s :: "('a WatcherSubCrsCommon_scheme, 'z) sub_cr_scheme st"
  assume s: "identity (inst s) = identity i"
  obtain t where "run_state m s = (Val (Result0, None), t)" "marked record_fields {DeploymentReadyCondition} s t"
    using apply_goes [OF assms(1-3) s] assms(4) [OF s] by metis
  then show "\<exists>t. run_state (call_go m (\<lambda>(res, err). if err \<noteq> None then return (Ret res err) else return (Next ()))) s =
      (Next (), t) \<and> marked record_fields {DeploymentReadyCondition} s t"
    by simp
qed

lemma applier_records:
  assumes healthy: "healthy_for_applier L E i" and L: "cond_laws L" "hash_laws L" "notfound_law L"
  shows "\<exists>h. records L i h {InputReadyCondition, MemcachedReadyCondition, ServiceConfigReadyCondition, DeploymentReadyCondition}
    (applier_normal L E)"
proof -
  have h: "hashes_work L" "healthy_service E i"
      "offers E \<lparr>NName = Secret (Spec i), NNamespace = Namespace i\<rparr> (service_expected_fields i)"
    using healthy by (simp_all add: healthy_for_applier_def)
  obtain sec vars where secret: "goes record_fields i {} (service_secret L E) (sec, vars)"
    using goes_service_secret [OF h(3,1)] by fast
  have inputs: "goes record_fields i {InputReadyCondition} (applier_inputs L E) (sec, vars)"
    unfolding applier_inputs_def
    by (rule goes_then [OF secret], simp only: prod.case, rule goes_mark [OF L(1)], simp)
  obtain mc where memcached: "goes record_fields i {MemcachedReadyCondition} (applier_memcached L E) mc"
    using goes_memcached [OF h(2) L(1)] unfolding applier_memcached_def by blast
  obtain vars' where config: "skips i (applier_generateServiceConfigs L E sec mc vars) (vars', None)"
    using applier_skips_config [OF h(2)] by blast
  obtain k where k: "HashEnvs L (MergeEnvs L [] vars') = (k, None)" using hash_exists [OF h(1)] by blast
  have "goes record_fields i {DeploymentReadyCondition} (applier_deploy L E k) ()"
    unfolding applier_deploy_def by (rule goes_deploy [OF h(2) L(1,3)]) (simp add: applier_ensureDeployment_def)
  then have deploy: "finishes L record_fields i {DeploymentReadyCondition}
      (continue (applier_deploy L E k) (\<lambda>_. finish_reconcile L))"
    by (rule finishes_then) (rule finishes_end, simp)
  have "records L i k {ServiceConfigReadyCondition, DeploymentReadyCondition}
    (continue (applier_config L E sec vars mc) (\<lambda>h. continue (applier_deploy L E h) (\<lambda>_. finish_reconcile L)))"
    unfolding applier_config_def applier_createHashOfInputHashes_def
    by (rule records_bind [OF config], simp, rule records_settle [OF L(1,2) k], rule deploy)
  then show ?thesis
    unfolding applier_normal_def
    by - (rule exI [of _ k], rule records_then, rule inputs, simp only: prod.case, rule records_then,
      rule memcached, assumption, rule refl, blast)
qed

lemma de_records:
  assumes healthy: "healthy_for_de L E i" and L: "cond_laws L" "hash_laws L" "notfound_law L"
  shows "\<exists>h. records L i h {InputReadyCondition, MemcachedReadyCondition, ServiceConfigReadyCondition, DeploymentReadyCondition}
    (de_normal L E)"
proof -
  have h: "hashes_work L" "healthy_service E i"
      "offers E \<lparr>NName = Secret (Spec i), NNamespace = Namespace i\<rparr> (service_expected_fields i)"
      "offers E \<lparr>NName = PrometheusSecret (Spec i), NNamespace = Namespace i\<rparr> [PrometheusHost, PrometheusPort]"
    using healthy by (simp_all add: healthy_for_de_def)
  obtain sec vars0 where secret: "goes record_fields i {} (service_secret L E) (sec, vars0)"
    using goes_service_secret [OF h(3,1)] by fast
  obtain psec vars where prometheus: "goes record_fields i {} (prometheus_secret L E vars0) (psec, vars)"
    using goes_prometheus_secret [OF h(4,1)] by fast
  have inputs: "goes record_fields i {InputReadyCondition} (de_inputs L E) (sec, psec, vars)"
    unfolding de_inputs_def
    by (rule goes_then, rule secret, simp only: prod.case, rule goes_then, rule prometheus, simp only: prod.case,
        rule goes_mark [OF L(1)], rule refl, simp)
  obtain mc where memcached: "goes record_fields i {MemcachedReadyCondition} (de_memcached L E) mc"
    using goes_memcached [OF h(2) L(1)] unfolding de_memcached_def by blast
  obtain vars' where config: "skips i (de_generateServiceConfigs L E sec psec mc vars) (vars', None)"
    using de_skips_config [OF h(2)] by blast
  obtain k where k: "HashEnvs L (MergeEnvs L [] vars') = (k, None)" using hash_exists [OF h(1)] by blast
  have "goes record_fields i {DeploymentReadyCondition} (de_deploy L E psec k) ()"
    unfolding de_deploy_def by (rule goes_deploy [OF h(2) L(1,3)]) (simp add: de_ensureDeployment_def)
  then have deploy: "finishes L record_fields i {DeploymentReadyCondition}
      (continue (de_deploy L E psec k) (\<lambda>_. finish_reconcile L))"
    by (rule finishes_then) (rule finishes_end, simp)
  have "records L i k {ServiceConfigReadyCondition, DeploymentReadyCondition}
    (continue (de_config L E sec psec vars mc) (\<lambda>h. continue (de_deploy L E psec h) (\<lambda>_. finish_reconcile L)))"
    unfolding de_config_def de_createHashOfInputHashes_def
    by (rule records_bind [OF config], simp, rule records_settle [OF L(1,2) k], rule deploy)
  then show ?thesis
    unfolding de_normal_def
    by - (rule exI [of _ k], rule records_then, rule inputs, simp only: prod.case, rule records_then,
      rule memcached, assumption, rule refl, blast)
qed

text \<open>The API also validates its certificates and exposes its two endpoints.\<close>

definition api_exposable :: "lib \<Rightarrow> WatcherAPI env \<Rightarrow> WatcherAPI \<Rightarrow> bool" where
  "api_exposable L E i \<longleftrightarrow>
     (CaBundleSecretName (TLS (Spec i)) \<noteq> [] \<longrightarrow> (\<exists>hash. \<forall>h. OnValidateCACertSecret E h = Inr hash)) \<and>
     (\<exists>certs. \<forall>h. OnValidateCertSecrets E h = Inr certs) \<and>
     (\<forall>h ca. \<exists>ss. api_StatefulSet L i h ca (getAPIServiceLabels L) = Inr ss) \<and>
     (\<exists>made. \<forall>h d ov. OnNewService E h d ov = Inr (made d ov)) \<and> (\<forall>h. OnApplyService E h = (Result0, None)) \<and>
     (\<forall>svc ov proto. \<exists>url. APIEndpoint E svc ov proto = Inr url) \<and>
     (\<exists>cs c. (\<forall>h. OnApplyKeystoneEndpoint E h = (Result0, None, cs)) \<and>
        CMirror L KeystoneEndpointReadyCondition cs = Some c \<and> Status c = CTrue)"

definition healthy_for_api :: "lib \<Rightarrow> WatcherAPI env \<Rightarrow> WatcherAPI \<Rightarrow> bool" where
  "healthy_for_api L E i \<longleftrightarrow> hashes_work L \<and> healthy_service E i \<and>
     offers E \<lparr>NName = Secret (Spec i), NNamespace = Namespace i\<rparr> (service_expected_fields i) \<and>
     offers E \<lparr>NName = PrometheusSecret (Spec i), NNamespace = Namespace i\<rparr> [PrometheusHost, PrometheusPort] \<and>
     api_exposable L E i"

lemma goes_validate_ca:
  assumes "CaBundleSecretName (TLS (Spec i)) \<noteq> [] \<longrightarrow> (\<exists>hash. \<forall>h. OnValidateCACertSecret E h = Inr hash)"
  shows "\<exists>vars'. goes record_fields i {} (api_validate_ca L E vars) vars'"
proof (cases "CaBundleSecretName (TLS (Spec i)) = []")
  case True
  then have "goes record_fields i {} (api_validate_ca L E vars) vars"
    by (auto simp: goes_def api_validate_ca_def identity_def marked_refl)
  then show ?thesis by blast
next
  case False
  with assms obtain hash where "\<forall>h. OnValidateCACertSecret E h = Inr hash" by blast
  with False have "goes record_fields i {} (api_validate_ca L E vars)
      (if hash \<noteq> [] then (CABundleKey L, SetValue hash) # vars else vars)"
    by (auto simp: goes_def api_validate_ca_def identity_def marked_def)
  then show ?thesis by blast
qed

lemma goes_validate_certs:
  assumes "\<forall>h. OnValidateCertSecrets E h = Inr certs" and L: "cond_laws L"
  shows "goes record_fields i {TLSInputReadyCondition} (api_validate_certs L E vars) ((TLSHashName L, SetValue certs) # vars)"
  using assms(1) by (auto simp: goes_def api_validate_certs_def identity_def marked_def cstate_def cond_lawsD [OF L])

lemma goes_api_deploy:
  assumes "healthy_service E i" and L: "cond_laws L"
    and built: "\<forall>h ca. \<exists>ss. api_StatefulSet L i h ca (getAPIServiceLabels L) = Inr ss"
  shows "goes record_fields i {DeploymentReadyCondition} (api_deploy L E psec h) ()"
  unfolding goes_def
proof (intro allI impI)
  fix s :: "WatcherAPI st"
  assume s: "identity (inst s) = identity i"
  from assms(1) obtain st where st: "\<forall>h. OnApplyStatefulSet E h = (Result0, None, st)"
      "SSGeneration st = SSObservedGeneration st" "Replicas (Spec i) = Some (ReadyReplicas st)"
    unfolding healthy_service_def by blast
  obtain ss where ss: "api_StatefulSet L (inst s) h (prometheus_ca_of psec) (getAPIServiceLabels L) = Inr ss"
    using built api_same(1) [OF s] by metis
  let ?s = "s\<lparr>trace := trace s @ [ApplyStatefulSet ss]\<rparr>"
  obtain t where t: "run_state (observe_statefulset L st) ?s = (Val (Result0, None), t)"
      "marked record_fields {DeploymentReadyCondition} ?s t"
    using observe_goes [OF st(2,3) L, of ?s] s by auto
  then have "cstate DeploymentReadyCondition (inst t) = Some CTrue" by (simp add: marked_def)
  with t show "\<exists>t. run_state (api_deploy L E psec h) s = (Next (), t) \<and> marked record_fields {DeploymentReadyCondition} s t"
    by (simp add: api_deploy_def api_ensureDeployment_def ss st(1) marked_trace cstate_def cond_lawsD [OF L])
qed

text \<open>Both turns of the loop go on, in either order.\<close>

lemma exposes:
  assumes "\<forall>h d ov. OnNewService E h d ov = Inr (made d ov)" and "\<forall>h. OnApplyService E h = (Result0, None)"
    and "\<forall>svc ov proto. \<exists>url. APIEndpoint E svc ov proto = Inr url"
  shows "\<exists>m' tr. run_state (api_expose_loop L E eps m) s = (Inr m', s\<lparr>trace := tr\<rparr>)"
proof (induction eps arbitrary: m s)
  case Nil
  show ?case by (intro exI [of _ m] exI [of _ "trace s"]) simp
next
  case (Cons ep eps)
  let ?svc = "api_annotate_service L E ep (made (api_service_def L (inst s) ep) (api_service_override (inst s) ep))"
  obtain url where "run_state (api_expose_endpoint L E ep) s = (Inr url, s\<lparr>trace := trace s @ [ApplyService ?svc]\<rparr>)"
    using assms(1,2) assms(3) [rule_format, of ?svc "OverrideEndpointURL (api_service_override (inst s) ep)"
        "if APIEnabled L (TLS (Spec (inst s))) ep then Some ''https'' else None"]
    by (auto simp: api_expose_endpoint_def Let_def)
  moreover define m1 where "m1 = m(ep \<mapsto> url)"
  moreover obtain m' tr where "run_state (api_expose_loop L E eps m1)
      (s\<lparr>trace := trace s @ [ApplyService ?svc]\<rparr>) = (Inr m', s\<lparr>trace := tr\<rparr>)"
    using Cons.IH [of m1 "s\<lparr>trace := trace s @ [ApplyService ?svc]\<rparr>"] by auto
  ultimately show ?case by (intro exI) (simp flip: m1_def)
qed

lemma goes_expose:
  assumes "\<forall>h d ov. OnNewService E h d ov = Inr (made d ov)" and "\<forall>h. OnApplyService E h = (Result0, None)"
    and "\<forall>svc ov proto. \<exists>url. APIEndpoint E svc ov proto = Inr url"
    and ke: "\<forall>h. OnApplyKeystoneEndpoint E h = (Result0, None, cs)"
      "CMirror L KeystoneEndpointReadyCondition cs = Some c" "Status c = CTrue"
    and L: "cond_laws L"
  shows "goes record_fields i {CreateServiceReadyCondition, KeystoneEndpointReadyCondition} (api_expose L E) ()"
  unfolding goes_def
proof (intro allI impI)
  fix s :: "WatcherAPI st"
  define eps where "eps = (if PortsOrder E (trace s) then [EndpointPublic, EndpointInternal] else [EndpointInternal, EndpointPublic])"
  obtain m tr where "run_state (api_expose_loop L E eps Map.empty) s = (Inr m, s\<lparr>trace := tr\<rparr>)"
    using exposes [OF assms(1-3)] by blast
  then show "\<exists>t. run_state (api_expose L E) s = (Next (), t) \<and>
      marked record_fields {CreateServiceReadyCondition, KeystoneEndpointReadyCondition} s t"
    by (simp add: api_expose_def api_ensureServiceExposed_def eps_def [symmetric] api_ensureKeystoneEndpoint_def ke
        marked_def cstate_def cond_lawsD [OF L] mirror_type [OF L ke(2)])
qed

lemma api_records:
  assumes healthy: "healthy_for_api L E i" and L: "cond_laws L" "hash_laws L"
  shows "\<exists>h. records L i h {InputReadyCondition, MemcachedReadyCondition, TLSInputReadyCondition,
      ServiceConfigReadyCondition, DeploymentReadyCondition, CreateServiceReadyCondition, KeystoneEndpointReadyCondition}
    (api_normal L E)"
proof -
  from healthy have work: "hashes_work L" and service: "healthy_service E i"
    and offer: "offers E \<lparr>NName = Secret (Spec i), NNamespace = Namespace i\<rparr> (service_expected_fields i)"
      "offers E \<lparr>NName = PrometheusSecret (Spec i), NNamespace = Namespace i\<rparr> [PrometheusHost, PrometheusPort]"
    and ca_valid: "CaBundleSecretName (TLS (Spec i)) \<noteq> [] \<longrightarrow> (\<exists>hash. \<forall>h. OnValidateCACertSecret E h = Inr hash)"
    and built: "\<forall>h ca. \<exists>ss. api_StatefulSet L i h ca (getAPIServiceLabels L) = Inr ss"
    and svc: "\<forall>h. OnApplyService E h = (Result0, None)" "\<forall>svc ov proto. \<exists>url. APIEndpoint E svc ov proto = Inr url"
    unfolding healthy_for_api_def api_exposable_def by - (elim conjE, assumption)+
  from healthy obtain certs made cs c where tls: "\<forall>h. OnValidateCertSecrets E h = Inr certs"
    and made: "\<forall>h d ov. OnNewService E h d ov = Inr (made d ov)"
    and cs: "\<forall>h. OnApplyKeystoneEndpoint E h = (Result0, None, cs)"
      "CMirror L KeystoneEndpointReadyCondition cs = Some c" "Status c = CTrue"
    unfolding healthy_for_api_def api_exposable_def by (elim conjE exE)
  obtain sec vars0 where secret: "goes record_fields i {} (service_secret L E) (sec, vars0)"
    using goes_service_secret [OF offer(1) work] by fast
  obtain psec vars1 where prometheus: "goes record_fields i {} (prometheus_secret L E vars0) (psec, vars1)"
    using goes_prometheus_secret [OF offer(2) work] by fast
  have inputs: "goes record_fields i {InputReadyCondition} (api_inputs L E) (sec, psec, vars1)"
    unfolding api_inputs_def
    by (rule goes_then, rule secret, simp only: prod.case, rule goes_then, rule prometheus, simp only: prod.case,
        rule goes_mark [OF L(1)], rule refl, simp)
  obtain mc where memcached: "goes record_fields i {MemcachedReadyCondition} (api_memcached L E) mc"
    using goes_memcached [OF service L(1)] unfolding api_memcached_def by blast
  obtain vars2 where sk: "skips i (api_generateServiceConfigs L E sec psec mc vars1) (vars2, None)"
    using api_skips_config [OF service] by blast
  have config: "goes record_fields i {} (api_config L E sec psec vars1 mc) vars2"
    unfolding api_config_def by (rule goes_bind [OF sk]) (simp add: goes_return)
  obtain vars3 where ca: "goes record_fields i {} (api_validate_ca L E vars2) vars3"
    using goes_validate_ca [OF ca_valid] by blast
  note certs = goes_validate_certs [OF tls L(1), of i vars3]
  obtain k where k: "HashEnvs L (MergeEnvs L [] ((TLSHashName L, SetValue certs) # vars3)) = (k, None)"
    using hash_exists [OF work] by blast
  have "goes record_fields i {DeploymentReadyCondition} (api_deploy L E psec k) ()"
    by (rule goes_api_deploy [OF service L(1) built])
  moreover have "goes record_fields i {CreateServiceReadyCondition, KeystoneEndpointReadyCondition} (api_expose L E) ()"
    by (rule goes_expose [OF made svc cs L(1)])
  ultimately have deploy: "finishes L record_fields i
      {DeploymentReadyCondition, CreateServiceReadyCondition, KeystoneEndpointReadyCondition}
      (continue (api_deploy L E psec k) (\<lambda>_. continue (api_expose L E) (\<lambda>_. finish_reconcile L)))"
    by - (rule finishes_then, assumption, rule finishes_then, assumption, rule finishes_end, rule refl, blast)
  have "records L i k {ServiceConfigReadyCondition, DeploymentReadyCondition, CreateServiceReadyCondition,
      KeystoneEndpointReadyCondition}
    (continue (api_hash L ((TLSHashName L, SetValue certs) # vars3)) (\<lambda>h.
     continue (api_deploy L E psec h) (\<lambda>_. continue (api_expose L E) (\<lambda>_. finish_reconcile L))))"
    unfolding api_hash_def api_createHashOfInputHashes_def by (rule records_settle [OF L k], rule deploy)
  then show ?thesis
    unfolding api_normal_def
    by - (rule exI [of _ k], rule records_then, rule inputs, simp only: prod.case, rule records_then, rule memcached,
      rule records_then, rule config, rule records_then, rule ca, rule records_then, rule certs, assumption,
      (rule refl)+, blast)
qed

section \<open>Convergence\<close>

lemma report_types:
  assumes "cond_laws L"
  shows "Type ` set (applier_init_conditions L) \<union> {ReadyCondition} - {ReadyCondition} =
      {InputReadyCondition, MemcachedReadyCondition, ServiceConfigReadyCondition, DeploymentReadyCondition}"
    "Type ` set (de_init_conditions L) \<union> {ReadyCondition} - {ReadyCondition} =
      {InputReadyCondition, MemcachedReadyCondition, ServiceConfigReadyCondition, DeploymentReadyCondition}"
    "Type ` set (api_init_conditions L) \<union> {ReadyCondition} - {ReadyCondition} =
      {InputReadyCondition, MemcachedReadyCondition, TLSInputReadyCondition, ServiceConfigReadyCondition,
       DeploymentReadyCondition, CreateServiceReadyCondition, KeystoneEndpointReadyCondition}"
  by (auto simp: applier_init_conditions_def de_init_conditions_def api_init_conditions_def cond_lawsD [OF assms])

text \<open>A resource that a settled service leaves Ready: as \<open>settled\<close>, and every condition True.\<close>

definition all_ready :: "lib \<Rightarrow> ctype set \<Rightarrow> ('spec, 'z) cr_scheme \<Rightarrow> ('spec, 'z) cr_scheme \<Rightarrow> bool" where
  "all_ready L types i j \<longleftrightarrow> settled L types i j \<and> (\<forall>u \<in> types. cstate u j = Some CTrue)"

lemma applier_all_ready:
  assumes L: "cond_laws L" "finalizer_laws L" "hash_laws L" "notfound_law L" "init_law L"
    and cluster: "stores_resource E i" "healthy_for_applier L E i"
    and new: "DeletionTimestamp i = None" "Conditions i = None" and "trace s = []" and "n \<ge> 3"
  shows "all_ready L (Type ` set (applier_init_conditions L) \<union> {ReadyCondition}) i
    (inst (nth_reconcile (applier_Reconcile L E req) s n))"
proof -
  have helper: "NewHelper E = None" using cluster(2) by (simp add: healthy_for_applier_def healthy_service_def)
  obtain h where "records L i h (Type ` set (applier_init_conditions L) \<union> {ReadyCondition} - {ReadyCondition}) (applier_normal L E)"
    using applier_records [OF cluster(2) L(1,3,4)] unfolding report_types [OF L(1)] by blast
  from applier_settles.converges [OF L(1,2,5) cluster(1) helper assms(10) this new assms(11)]
  show ?thesis by (simp add: all_ready_def)
qed

lemma de_all_ready:
  assumes L: "cond_laws L" "finalizer_laws L" "hash_laws L" "notfound_law L" "init_law L"
    and cluster: "stores_resource E i" "healthy_for_de L E i"
    and new: "DeletionTimestamp i = None" "Conditions i = None" and "trace s = []" and "n \<ge> 3"
  shows "all_ready L (Type ` set (de_init_conditions L) \<union> {ReadyCondition}) i
    (inst (nth_reconcile (de_Reconcile L E req) s n))"
proof -
  have helper: "NewHelper E = None" using cluster(2) by (simp add: healthy_for_de_def healthy_service_def)
  obtain h where "records L i h (Type ` set (de_init_conditions L) \<union> {ReadyCondition} - {ReadyCondition}) (de_normal L E)"
    using de_records [OF cluster(2) L(1,3,4)] unfolding report_types [OF L(1)] by blast
  from de_settles.converges [OF L(1,2,5) cluster(1) helper assms(10) this new assms(11)]
  show ?thesis by (simp add: all_ready_def)
qed

lemma api_all_ready:
  assumes L: "cond_laws L" "finalizer_laws L" "hash_laws L" "init_law L"
    and cluster: "stores_resource E i" "healthy_for_api L E i"
    and new: "DeletionTimestamp i = None" "Conditions i = None" and "trace s = []" and "n \<ge> 3"
  shows "all_ready L (Type ` set (api_init_conditions L) \<union> {ReadyCondition}) i
    (inst (nth_reconcile (api_Reconcile L E req) s n))"
proof -
  have helper: "NewHelper E = None" using cluster(2) by (simp add: healthy_for_api_def healthy_service_def)
  obtain h where "records L i h (Type ` set (api_init_conditions L) \<union> {ReadyCondition} - {ReadyCondition}) (api_normal L E)"
    using api_records [OF cluster(2) L(1,3)] unfolding report_types [OF L(1)] by blast
  from api_settles.converges [OF L(1,2,4) cluster(1) helper assms(9) this new assms(10)]
  show ?thesis by (simp add: all_ready_def)
qed

text \<open>
  C14. A new WatcherApplier converges: when the cluster stores what it is given and has everything the
  applier needs, the resource is Ready after its third reconcile, the first one claiming it and the
  second recording its configuration, and it is Ready after every later one.
\<close>

theorem applier_converges:
  assumes "cond_laws L" "finalizer_laws L" "hash_laws L" "notfound_law L" "init_law L"
    and "stores_resource E i" "healthy_for_applier L E i"
    and "DeletionTimestamp i = None" "Conditions i = None" and "trace s = []" and "n \<ge> 3"
  shows "cstate ReadyCondition (inst (nth_reconcile (applier_Reconcile L E req) s n)) = Some CTrue"
  using applier_all_ready [OF assms] by (simp add: all_ready_def)

text \<open>C15. A new WatcherDecisionEngine converges in the same way.\<close>

theorem de_converges:
  assumes "cond_laws L" "finalizer_laws L" "hash_laws L" "notfound_law L" "init_law L"
    and "stores_resource E i" "healthy_for_de L E i"
    and "DeletionTimestamp i = None" "Conditions i = None" and "trace s = []" and "n \<ge> 3"
  shows "cstate ReadyCondition (inst (nth_reconcile (de_Reconcile L E req) s n)) = Some CTrue"
  using de_all_ready [OF assms] by (simp add: all_ready_def)

text \<open>
  C13. A new WatcherAPI converges in the same way, when its certificates are valid, both its Services can
  be made and its Keystone endpoint reports itself ready.
\<close>

theorem api_converges:
  assumes "cond_laws L" "finalizer_laws L" "hash_laws L" "init_law L"
    and "stores_resource E i" "healthy_for_api L E i"
    and "DeletionTimestamp i = None" "Conditions i = None" and "trace s = []" and "n \<ge> 3"
  shows "cstate ReadyCondition (inst (nth_reconcile (api_Reconcile L E req) s n)) = Some CTrue"
  using api_all_ready [OF assms] by (simp add: all_ready_def)

end
