(* ===== verification/WatcherConvergence.thy ===== *)
theory WatcherConvergence
  imports Convergence
begin

text \<open>
  The Watcher converges: when the cluster answers and the three sub-resources are ready, it is Ready from
  its second reconcile on. And the operator as a whole: the sub-resources become ready by the reconciles
  of their own controllers, from the secret the Watcher writes.
\<close>

section \<open>Blocks that change nothing of the resource\<close>

definition smooth :: "('a \<Rightarrow> bool) \<Rightarrow> ('i st, 'a flow) state \<Rightarrow> bool" where
  "smooth Q m \<longleftrightarrow> (\<forall>s. \<exists>x tr. run_state m s = (Next x, s\<lparr>trace := tr\<rparr>) \<and> Q x)"

lemma ex_trace [simp]: "\<exists>tr. (s :: 'i st) = s\<lparr>trace := tr\<rparr>"
  by (rule exI [of _ "trace s"]) simp

lemma smooth_return: "Q x \<Longrightarrow> smooth Q (return (Next x))"
  by (simp add: smooth_def)

lemma smooth_weaken: "smooth R m \<Longrightarrow> (\<And>x. R x \<Longrightarrow> Q x) \<Longrightarrow> smooth Q m"
  unfolding smooth_def by metis

lemma smooth_continue:
  fixes m :: "('i st, 'a flow) state"
  assumes "smooth R m" and "\<And>x. R x \<Longrightarrow> smooth Q (f x)"
  shows "smooth Q (continue m f)"
  unfolding smooth_def
proof
  fix s :: "'i st"
  from assms(1) obtain x tr where x: "run_state m s = (Next x, s\<lparr>trace := tr\<rparr>)" "R x" unfolding smooth_def by blast
  from assms(2) [OF x(2)] obtain y tr' where "run_state (f x) (s\<lparr>trace := tr\<rparr>) = (Next y, s\<lparr>trace := tr\<rparr>\<lparr>trace := tr'\<rparr>)" "Q y"
    unfolding smooth_def by blast
  then show "\<exists>x tr. run_state (continue m f) s = (Next x, s\<lparr>trace := tr\<rparr>) \<and> Q x"
    by (auto simp: run_continue x)
qed

lemma smooth_perform:
  assumes "\<And>h. \<exists>x. answer h = x \<and> smooth Q (f x)"
  shows "smooth Q (State_Monad.bind (perform c answer) f)"
  unfolding smooth_def
proof
  fix s
  obtain y tr where "run_state (f (answer (trace s @ [c]))) (s\<lparr>trace := trace s @ [c]\<rparr>) =
      (Next y, s\<lparr>trace := trace s @ [c]\<rparr>\<lparr>trace := tr\<rparr>)" "Q y"
    using assms [of "trace s @ [c]"] unfolding smooth_def by blast
  then show "\<exists>x tr. run_state (State_Monad.bind (perform c answer) f) s = (Next x, s\<lparr>trace := tr\<rparr>) \<and> Q x" by auto
qed

section \<open>The routes\<close>

text \<open>A cluster that serves routes, and the secrets an endpoint needs of it.\<close>

definition routes_work :: "Watcher env \<Rightarrow> bool" where
  "routes_work E \<longleftrightarrow> (\<forall>h. OnValidateCertSecret E h = None) \<and> (\<exists>rts. \<forall>h. OnListRoutes E h = Inr rts) \<and>
     (\<forall>h. OnDeleteRoute E h = None) \<and> (\<forall>h d l. OnNewRoute E h d l = None) \<and> (\<exists>host. \<forall>h. OnGetRoute E h = Inr host) \<and>
     (\<exists>host. \<forall>h. OnApplyRoute E h = (Result0, None, host)) \<and> (\<exists>ca. \<forall>h. OnGetDataFromSecret E h = (ca, Result0, None))"

definition route_certs :: "Watcher env \<Rightarrow> EndpointDetail \<Rightarrow> bool" where
  "route_certs E ed \<longleftrightarrow> (\<forall>name. RouteTLSSecretName (RouteTLS (EDRoute ed)) = Some name \<longrightarrow>
     offers E \<lparr>NName = name, NNamespace = EDNamespace ed\<rparr> route_cert_keys)"

lemma route_certs_update [simp]:
  "route_certs E (ed\<lparr>EDHostname := h\<rparr>) = route_certs E ed"
  "route_certs E (ed\<lparr>EDLabels := l\<rparr>) = route_certs E ed"
  "route_certs E (ed\<lparr>EDService := s\<rparr>) = route_certs E ed"
  "route_certs E (with_embedded_labels ed) = route_certs E ed"
  by (simp_all add: route_certs_def with_embedded_labels_def Let_def split: option.split)

lemma smooth_cert:
  assumes "route_certs E ed"
  shows "smooth (\<lambda>_. True) (CreateRoute_cert L E ed)"
proof (cases "RouteTLSSecretName (RouteTLS (EDRoute ed))")
  case None
  then show ?thesis by (simp add: CreateRoute_cert_def smooth_return)
next
  case (Some name)
  with assms obtain sec where sec: "\<forall>h. OnGetSecret E (h @ [GetSecret \<lparr>NName = name, NNamespace = EDNamespace ed\<rparr>]) = Inr sec"
      and keys: "\<forall>f \<in> set route_cert_keys. Data sec f \<noteq> None"
    unfolding route_certs_def offers_def by blast
  have "List.find (\<lambda>key. Data sec key = None) route_cert_keys = None"
    using keys by (auto simp: find_None_iff)
  then show ?thesis by (auto simp: smooth_def CreateRoute_cert_def Some sec)
qed

lemma smooth_CreateRoute:
  assumes work: "routes_work E" and certs: "route_certs E ed"
  shows "smooth (\<lambda>_. True) (CreateRoute L E ed)"
proof -
  from work obtain host host' ca where ok: "\<forall>h d l. OnNewRoute E h d l = None" "\<forall>h. OnGetRoute E h = Inr host"
      "\<forall>h. OnApplyRoute E h = (Result0, None, host')" "\<forall>h. OnGetDataFromSecret E h = (ca, Result0, None)"
    unfolding routes_work_def by blast
  have host: "smooth (\<lambda>ed'. EDHostname ed' \<noteq> None \<and> route_certs E ed') (CreateRoute_host L E ed)"
    using certs by (auto simp: smooth_def CreateRoute_host_def ok Let_def)
  have config: "smooth (\<lambda>_. True) (CreateRoute_tls_config L E ed' sec)" for ed' sec
    by (auto simp: smooth_def CreateRoute_tls_config_def ok Let_def)
  have tls: "smooth (\<lambda>ed'. EDHostname ed' \<noteq> None) (CreateRoute_tls L E ed')"
    if "EDHostname ed' \<noteq> None" "route_certs E ed'" for ed'
    unfolding CreateRoute_tls_def
    by (rule smooth_continue [OF smooth_cert [OF that(2)]], rule smooth_continue [OF config])
      (use that in \<open>auto simp: smooth_def Let_def ok\<close>)
  have "smooth (\<lambda>_. True) (continue (CreateRoute_host L E ed) (\<lambda>ed.
         continue (if RouteTLSEnabled (RouteTLS (EDRoute ed)) then CreateRoute_tls L E ed
                   else return (Next (ed\<lparr>EDProto := ''http''\<rparr>))) (\<lambda>ed.
         call_go (return (deref (EDHostname ed))) (\<lambda>hostname. return (Next (with_url ed hostname))))))"
  proof (rule smooth_continue [OF host], rule smooth_continue)
    fix ed'
    assume ed': "EDHostname ed' \<noteq> None \<and> route_certs E ed'"
    then show "smooth (\<lambda>ed'. EDHostname ed' \<noteq> None) (if RouteTLSEnabled (RouteTLS (EDRoute ed')) then CreateRoute_tls L E ed'
        else return (Next (ed'\<lparr>EDProto := ''http''\<rparr>)))"
      using tls [of ed'] by (simp add: smooth_return)
  next
    fix ed'' :: EndpointDetail
    assume "EDHostname ed'' \<noteq> None"
    then show "smooth (\<lambda>_. True) (call_go (return (deref (EDHostname ed''))) (\<lambda>hostname. return (Next (with_url ed'' hostname))))"
      by (auto simp: smooth_def)
  qed
  then show ?thesis by (simp add: smooth_def CreateRoute_def ok)
qed

lemma smooth_delete:
  assumes "\<forall>h. OnDeleteRoute E h = None"
  shows "smooth (\<lambda>ed'. EDRoute ed' = EDRoute ed \<and> EDNamespace ed' = EDNamespace ed) (delete_routes L E i svc ed rts)"
proof (induction rts arbitrary: ed)
  case (Cons rt rts)
  let ?ed = "ed\<lparr>EDService := (EDService ed)\<lparr>ServiceOverrideSpec :=
             (ServiceOverrideSpec (EDService ed))\<lparr>OverrideEndpointURL := None\<rparr>\<rparr>\<rparr>"
  have "smooth (\<lambda>ed'. EDRoute ed' = EDRoute ed \<and> EDNamespace ed' = EDNamespace ed) (delete_routes L E i svc ?ed rts)"
    using Cons.IH [of ?ed] by simp
  then show ?case using Cons.IH [of ed] by (auto intro!: smooth_perform simp: assms)
qed (simp add: smooth_return)

lemma smooth_ensureRoute:
  assumes work: "routes_work E" and certs: "route_certs E ed"
  shows "smooth (\<lambda>_. True) (ensureRoute L E i svc ed)"
proof -
  from work obtain rts where rts: "\<forall>h. OnListRoutes E h = Inr rts" and del: "\<forall>h. OnDeleteRoute E h = None"
    unfolding routes_work_def by blast
  have "smooth (\<lambda>_. True) (continue (delete_routes L E i svc ed rts) (\<lambda>ed.
           if RouteCreate (EDRoute ed)
           then CreateRoute L E ((with_embedded_labels ed)\<lparr>EDLabels := getAPIServiceLabels L\<rparr>)
           else return (Next ed)))"
  proof (rule smooth_continue [OF smooth_delete [OF del]])
    fix ed' :: EndpointDetail
    assume "EDRoute ed' = EDRoute ed \<and> EDNamespace ed' = EDNamespace ed"
    then have "route_certs E ed'" using certs by (simp add: route_certs_def)
    then show "smooth (\<lambda>_. True) (if RouteCreate (EDRoute ed')
           then CreateRoute L E ((with_embedded_labels ed')\<lparr>EDLabels := getAPIServiceLabels L\<rparr>)
           else return (Next ed'))"
      using smooth_CreateRoute [OF work, of "(with_embedded_labels ed')\<lparr>EDLabels := getAPIServiceLabels L\<rparr>"]
      by (simp add: smooth_return)
  qed
  from smooth_perform [of "OnListRoutes E" "\<lambda>_. True" "\<lambda>routes. case routes of
       Inl err \<Rightarrow> return (Ret Result0 (Some (WrapError ''Error listing routes'' err)))
     | Inr items \<Rightarrow> continue (delete_routes L E i svc ed items) (\<lambda>ed.
           if RouteCreate (EDRoute ed)
           then CreateRoute L E ((with_embedded_labels ed)\<lparr>EDLabels := getAPIServiceLabels L\<rparr>)
           else return (Next ed))" "ListRoutes (Namespace i) (getAPIServiceLabels L)"] this
  show ?thesis by (simp add: rts ensureRoute_def GetRoutesListWithLabel_def smooth_def)
qed

lemma smooth_stop:
  fixes m :: "('i st, 'a flow) state"
  assumes "smooth Q m"
  shows "smooth (\<lambda>_. True) (do { r \<leftarrow> m; return (stop_on_result r) })"
  unfolding smooth_def
proof
  fix s :: "'i st"
  from assms obtain x tr where "run_state m s = (Next x, s\<lparr>trace := tr\<rparr>)" unfolding smooth_def by blast
  then show "\<exists>x tr. run_state (do { r \<leftarrow> m; return (stop_on_result r) }) s = (Next x, s\<lparr>trace := tr\<rparr>) \<and> True"
    by (auto simp: stop_on_result_def)
qed

text \<open>What the endpoints of a service need: the certificate of the ingress, when the spec names one.\<close>

definition ingress_certs :: "Watcher env \<Rightarrow> Watcher \<Rightarrow> service_obj list \<Rightarrow> bool" where
  "ingress_certs E i svcs \<longleftrightarrow> (case TLSOverride (APIOverride (Spec i)) of
       None \<Rightarrow> True
     | Some t \<Rightarrow> TLSSecretName t \<noteq> [] \<longrightarrow>
         (\<forall>svc \<in> set svcs. offers E \<lparr>NName = TLSSecretName t, NNamespace = SvcNamespace svc\<rparr> route_cert_keys))"

lemma smooth_expose_service:
  assumes work: "routes_work E" and certs: "ingress_certs E i svcs" "svc \<in> set svcs"
  shows "smooth (\<lambda>_. True) (expose_service L E i svc)"
proof -
  let ?ed = "public_endpoint L i svc (endpoint_of_service L i svc)"
  have valid: "\<forall>h. OnValidateCertSecret E h = None" using work by (simp add: routes_work_def)
  have ns: "EDNamespace ?ed = SvcNamespace svc" "RouteTLSSecretName (RouteTLS (EDRoute ?ed)) = None"
    by (simp_all add: public_endpoint_def endpoint_of_service_def Let_def)
  have cert: "smooth (\<lambda>_. True) (validate_cert L E i n)" for n
    by (simp add: smooth_def validate_cert_def valid) blast
  have ingress: "smooth (route_certs E) (ingress_tls L E i ?ed)"
  proof (cases "TLSOverride (APIOverride (Spec i))")
    case None
    then show ?thesis using ns by (simp add: ingress_tls_def smooth_return route_certs_def)
  next
    case (Some t)
    then show ?thesis
      using ns certs
      by (auto simp: ingress_tls_def route_certs_def ingress_certs_def
          intro!: smooth_return smooth_continue [OF cert])
  qed
  have pod: "smooth (route_certs E) (pod_tls L E i ed)" if "route_certs E ed" for ed
    using that by (auto simp: pod_tls_def Let_def intro!: smooth_return smooth_continue [OF cert])
  have ensure: "smooth (\<lambda>_. True) (do { r \<leftarrow> ensureRoute L E i svc ed; return (stop_on_result r) })"
    if "route_certs E ed" for ed
    by (rule smooth_stop [OF smooth_ensureRoute [OF work that]])
  show ?thesis
    unfolding expose_service_def Let_def
    by (cases "EDType (endpoint_of_service L i svc) = EndpointPublic")
      (simp_all add: smooth_return smooth_continue [OF ingress] smooth_continue [OF pod] ensure)
qed

lemma smooth_expose_services:
  assumes "routes_work E" and "ingress_certs E i svcs" and "set rest \<subseteq> set svcs"
  shows "smooth (\<lambda>_. True) (expose_services L E i rest)"
  using assms(3)
  by (induction rest) (auto intro!: smooth_return smooth_continue [OF smooth_expose_service [OF assms(1,2)]])

lemma skips_expose:
  assumes work: "routes_work E" and svcs: "\<forall>h. OnGetServices E h = Inr svcs" "ingress_certs E i svcs"
    and tls: "hasPublicServiceSecretName i \<longrightarrow> hasIngressTLS i"
  shows "skips i (exposeEndpoints L E) (Next ())"
  unfolding skips_def
proof (intro allI impI)
  fix s :: "Watcher st"
  assume s: "identity (inst s) = identity i"
  then have spec: "Spec (inst s) = Spec i" by (simp add: identity_def)
  let ?s = "s\<lparr>trace := trace s @ [GetServicesListWithLabel (Namespace (inst s)) (getAPIServiceLabels L)]\<rparr>"
  have "ingress_certs E (inst s) svcs" using svcs(2) by (simp add: ingress_certs_def spec)
  from smooth_expose_services [OF work this subset_refl]
  obtain x tr where "run_state (expose_services L E (inst s) svcs) ?s = (Next x, ?s\<lparr>trace := tr\<rparr>)"
    unfolding smooth_def by blast
  moreover have "hasPublicServiceSecretName (inst s) = hasPublicServiceSecretName i" "hasIngressTLS (inst s) = hasIngressTLS i"
    by (simp_all add: hasPublicServiceSecretName_def hasIngressTLS_def spec)
  ultimately show "\<exists>tr. run_state (exposeEndpoints L E) s = (Next (), s\<lparr>trace := tr\<rparr>)"
    using tls by (auto simp: exposeEndpoints_def svcs(1))
qed

section \<open>The blocks of the Watcher\<close>

text \<open>A sub-resource as the Watcher finds it: its controller has seen its spec and reports it ready.\<close>

definition sub_is_ready :: "lib \<Rightarrow> ctype \<Rightarrow> 'spec sub_cr \<Rightarrow> bool" where
  "sub_is_ready L t sub \<longleftrightarrow> Generation sub = ObservedGeneration sub \<and>
     (\<exists>c. CMirror L t (Conditions sub) = Some c \<and> Status c = CTrue)"

text \<open>Everything the Watcher needs of the cluster, but for its sub-resources.\<close>

definition database_works :: "Watcher env \<Rightarrow> Watcher \<Rightarrow> database \<Rightarrow> bool" where
  "database_works E i db \<longleftrightarrow> DatabaseInstance (Spec i) \<noteq> None \<and> (\<forall>h. OnEnsureMariaDBAccount E h = None) \<and>
     (\<forall>h. OnApplyDatabase E h = (Result0, None, db)) \<and> (\<forall>h. OnWaitForDBCreated E h = (Result0, None)) \<and>
     (\<forall>h. OnDeleteUnusedFinalizers E h = None)"

definition transport_works :: "Watcher env \<Rightarrow> Watcher \<Rightarrow> string \<Rightarrow> bool" where
  "transport_works E i name \<longleftrightarrow> RabbitMqClusterName (Spec i) \<noteq> None \<and> name \<noteq> [] \<and>
     (\<exists>url. (\<forall>h. OnApplyTransportURL E h = (None, url)) \<and> TransportReady url \<and> TransportSecretName url = name) \<and>
     offers E \<lparr>NName = name, NNamespace = Namespace i\<rparr> [TransportURLSelector]"

definition secrets_work :: "Watcher env \<Rightarrow> Watcher \<Rightarrow> bool" where
  "secrets_work E i \<longleftrightarrow>
     offers E \<lparr>NName = Secret (Spec i), NNamespace = Namespace i\<rparr> [ServiceSelector (PasswordSelectors (Spec i))] \<and>
     offers E \<lparr>NName = PrometheusSecret (Spec i), NNamespace = Namespace i\<rparr> [PrometheusHost, PrometheusPort] \<and>
     (\<forall>h. OnUpdateSecret E h = None) \<and> (\<exists>vars. \<forall>h. OnEnsureSecrets E h = (vars, None))"

definition jobs_work :: "lib \<Rightarrow> Watcher env \<Rightarrow> Watcher \<Rightarrow> bool" where
  "jobs_work L E i \<longleftrightarrow> PurgeAge (DBPurge (Spec i)) \<noteq> None \<and> Schedule (DBPurge (Spec i)) \<noteq> None \<and>
     (\<forall>h. \<exists>hash. OnDoJob E h = (Result0, None, hash)) \<and> (\<exists>res. \<forall>h. OnApplyCronJob E h = (res, None)) \<and>
     (\<exists>res cs c id. (\<forall>h. OnApplyKeystoneService E h = (res, None, cs, id)) \<and>
        CMirror L KeystoneServiceReadyCondition cs = Some c \<and> Status c = CTrue)"

definition rbac_works :: "Watcher env \<Rightarrow> bool" where
  "rbac_works E \<longleftrightarrow> (\<exists>res cs. (\<forall>h. OnReconcileRbac E h = (res, None, cs)) \<and> (\<forall>c \<in> set cs. Status c = CTrue) \<and>
     Type ` set cs = rbac_types)"

lemma goes_database:
  assumes "database_works E i db" and L: "cond_laws L"
  shows "goes Finalizers i {MariaDBAccountReadyCondition, DBReadyCondition} (watcher_database L E) db"
proof -
  from assms(1) obtain target where "DatabaseInstance (Spec i) = Some target" by (auto simp: database_works_def)
  with assms(1) show ?thesis
    by (auto simp: database_works_def goes_def watcher_database_def watcher_ensureDB_def watcher_create_database_def
        watcher_database_request_def identity_def marked_def cstate_def cond_lawsD [OF L])
qed

lemma goes_transport:
  assumes "transport_works E i name" and L: "cond_laws L"
  shows "goes Finalizers i {WatcherRabbitMQTransportURLReadyCondition} (watcher_transport L E) name"
proof -
  from assms(1) obtain cluster url sec where w: "RabbitMqClusterName (Spec i) = Some cluster"
      "\<forall>h. OnApplyTransportURL E h = (None, url)" "TransportReady url" "TransportSecretName url = name" "name \<noteq> []"
      "\<forall>h. OnGetSecret E (h @ [GetSecret \<lparr>NName = name, NNamespace = Namespace i\<rparr>]) = Inr sec"
      "Data sec TransportURLSelector \<noteq> None"
    by (auto simp: transport_works_def offers_def)
  have "OnGetSecret E (h @ [c, GetSecret \<lparr>NName = name, NNamespace = Namespace i\<rparr>]) = Inr sec" for h c
    using w(6) [rule_format, of "h @ [c]"] by simp
  with w show ?thesis
    by (auto simp: goes_def watcher_transport_def watcher_ensureMQ_def identity_def marked_def cstate_def
        cond_lawsD [OF L])
qed

lemma goes_watcher_secret:
  fixes i :: Watcher
  assumes "offers E \<lparr>NName = name, NNamespace = Namespace i\<rparr> fs" and "hashes_work L"
  shows "\<exists>sec. goes Finalizers i {} (watcher_secret L E name fs failure) sec"
proof -
  obtain h sec where h: "h \<noteq> []" and sk: "skips i (ensureSecret L E (\<lambda>c. cond_set L (Some c))
      \<lparr>NName = name, NNamespace = Namespace i\<rparr> fs) (h, Result0, sec, None)"
    using goes_offered [OF assms] by blast
  have "goes Finalizers i {} (watcher_secret L E name fs failure) sec"
    unfolding goes_def
  proof (intro allI impI)
    fix s :: "Watcher st"
    assume s: "identity (inst s) = identity i"
    then have ns: "Namespace (inst s) = Namespace i" by (simp add: identity_def)
    from sk s obtain tr where "run_state (ensureSecret L E (\<lambda>c. cond_set L (Some c))
      \<lparr>NName = name, NNamespace = Namespace i\<rparr> fs) s = ((h, Result0, sec, None), s\<lparr>trace := tr\<rparr>)"
      unfolding skips_def by blast
    then show "\<exists>t. run_state (watcher_secret L E name fs failure) s = (Next sec, t) \<and> marked Finalizers {} s t"
      by (simp add: watcher_secret_def ns h marked_trace)
  qed
  then show ?thesis by blast
qed

lemma skips_the_inst:
  fixes i :: "('spec, 'z) cr_scheme"
  assumes "\<And>j. identity j = identity i \<Longrightarrow> goes f i us (g j) y"
  shows "goes f i us (State_Monad.bind the_inst g) y"
  unfolding goes_def
proof (intro allI impI)
  fix s :: "('spec, 'z) cr_st"
  assume "identity (inst s) = identity i"
  with assms show "\<exists>t. run_state (State_Monad.bind the_inst g) s = (Next y, t) \<and> marked f us s t"
    by (simp add: goes_def)
qed

lemma goes_input_secrets:
  fixes i :: Watcher
  assumes "secrets_work E i" and "transport_works E i name" and h: "hashes_work L"
  shows "\<exists>x. goes Finalizers i {} (watcher_input_secrets L E name) x"
proof -
  have o: "offers E \<lparr>NName = Secret (Spec i), NNamespace = Namespace i\<rparr> [ServiceSelector (PasswordSelectors (Spec i))]"
      "offers E \<lparr>NName = name, NNamespace = Namespace i\<rparr> [TransportURLSelector]"
    using assms(1,2) by (simp_all add: secrets_work_def transport_works_def)
  obtain x where x: "goes Finalizers i {} (watcher_secret L E (Secret (Spec i)) [ServiceSelector (PasswordSelectors (Spec i))]
       ''error retrieving required data from secret'') x"
    using goes_watcher_secret [OF o(1) h] by blast
  obtain y where y: "goes Finalizers i {} (watcher_secret L E name [TransportURLSelector]
       ''error retrieving required data from transporturl secret'') y"
    using goes_watcher_secret [OF o(2) h] by blast
  have "goes Finalizers i {} (watcher_input_secrets L E name) (x, y)"
    unfolding watcher_input_secrets_def
  proof (rule skips_the_inst)
    fix j :: Watcher
    assume "identity j = identity i"
    then have "Spec j = Spec i" by (simp add: identity_def)
    then show "goes Finalizers i {} (continue (watcher_secret L E (Secret (Spec j)) [ServiceSelector (PasswordSelectors (Spec j))]
       ''error retrieving required data from secret'') (\<lambda>inputSecret.
     continue (watcher_secret L E name [TransportURLSelector]
       ''error retrieving required data from transporturl secret'') (\<lambda>transporturlSecret.
     return (Next (inputSecret, transporturlSecret))))) (x, y)"
      by (simp, intro goes_then [OF x] goes_then [OF y] goes_return) (simp_all add: goes_return)
  qed
  then show ?thesis by blast
qed

lemma goes_watcher_prometheus:
  assumes "secrets_work E i" and h: "hashes_work L"
  shows "goes Finalizers i {} (watcher_prometheus L E) ()"
proof -
  have o: "offers E \<lparr>NName = PrometheusSecret (Spec i), NNamespace = Namespace i\<rparr> [PrometheusHost, PrometheusPort]"
    and up: "\<forall>h. OnUpdateSecret E h = None" using assms(1) by (simp_all add: secrets_work_def)
  obtain k sec where k: "k \<noteq> []" and sk: "skips i (ensureSecret L E (\<lambda>c. cond_set L (Some c))
      \<lparr>NName = PrometheusSecret (Spec i), NNamespace = Namespace i\<rparr> [PrometheusHost, PrometheusPort])
      (k, Result0, sec, None)"
    using goes_offered [OF o h] by blast
  show ?thesis
    unfolding goes_def
  proof (intro allI impI)
    fix s :: "Watcher st"
    assume s: "identity (inst s) = identity i"
    then have same: "Spec (inst s) = Spec i" "Namespace (inst s) = Namespace i" by (simp_all add: identity_def)
    from sk s obtain tr where "run_state (ensureSecret L E (\<lambda>c. cond_set L (Some c))
      \<lparr>NName = PrometheusSecret (Spec i), NNamespace = Namespace i\<rparr> [PrometheusHost, PrometheusPort]) s =
        ((k, Result0, sec, None), s\<lparr>trace := tr\<rparr>)" unfolding skips_def by blast
    then show "\<exists>t. run_state (watcher_prometheus L E) s = (Next (), t) \<and> marked Finalizers {} s t"
      by (simp add: watcher_prometheus_def same k up marked_trace split: prod.split)
  qed
qed

lemma goes_sub_level_secret:
  assumes "secrets_work E i" and L: "cond_laws L"
  shows "goes Finalizers i {InputReadyCondition} (watcher_sub_level_secret L E tsec isec db) (Name i)"
proof -
  from assms(1) obtain vars where "\<forall>h. OnEnsureSecrets E h = (vars, None)" unfolding secrets_work_def by blast
  then show ?thesis
    by (auto simp: goes_def watcher_sub_level_secret_def watcher_createSubLevelSecret_def identity_def marked_def
        cstate_def cond_lawsD [OF L])
qed

lemma goes_watcher_config:
  assumes "secrets_work E i" and L: "cond_laws L"
  shows "goes Finalizers i {ServiceConfigReadyCondition} (watcher_config L E db tsec) ()"
proof -
  from assms(1) obtain vars where "\<forall>h. OnEnsureSecrets E h = (vars, None)" unfolding secrets_work_def by blast
  then show ?thesis
    by (auto simp: goes_def watcher_config_def watcher_generateServiceConfigDBJobs_def GenerateConfigsGeneric_def Let_def
        identity_def marked_def cstate_def cond_lawsD [OF L])
qed

lemma goes_keystone:
  assumes "jobs_work L E i" and L: "cond_laws L"
  shows "goes Finalizers i {KeystoneServiceReadyCondition} (watcher_keystone L E) ()"
proof -
  from assms(1) obtain res cs c id where ks: "\<forall>h. OnApplyKeystoneService E h = (res, None, cs, id)"
      "CMirror L KeystoneServiceReadyCondition cs = Some c" "Status c = CTrue" unfolding jobs_work_def by blast
  show ?thesis
    by (auto simp: goes_def watcher_keystone_def watcher_ensureKeystoneSvc_def ks marked_def cstate_def
        cond_lawsD [OF L] mirror_type [OF L ks(2)])
qed

lemma goes_dbsync:
  assumes "jobs_work L E i" and L: "cond_laws L"
  shows "goes Finalizers i {DBSyncReadyCondition} (watcher_dbsync L E) ()"
  unfolding goes_def
proof (intro allI impI)
  fix s :: "Watcher st"
  from assms(1) obtain hash where "OnDoJob E (trace s @ [DoJob (watcher_dbsync_request L (inst s))]) = (Result0, None, hash)"
    unfolding jobs_work_def by blast
  then show "\<exists>t. run_state (watcher_dbsync L E) s = (Next (), t) \<and> marked Finalizers {DBSyncReadyCondition} s t"
    by (cases hash) (simp_all add: watcher_dbsync_def watcher_ensureDBSync_def marked_def cstate_def cond_lawsD [OF L])
qed

lemma goes_cronjob:
  assumes "jobs_work L E i" and L: "cond_laws L"
  shows "goes Finalizers i {CronJobReadyCondition} (watcher_cronjob L E) ()"
proof -
  from assms(1) obtain res age schedule where cj: "\<forall>h. OnApplyCronJob E h = (res, None)"
      "PurgeAge (DBPurge (Spec i)) = Some age" "Schedule (DBPurge (Spec i)) = Some schedule"
    unfolding jobs_work_def by blast
  show ?thesis
    unfolding goes_def
  proof (intro allI impI)
    fix s :: "Watcher st"
    assume "identity (inst s) = identity i"
    then have "Spec (inst s) = Spec i" by (simp add: identity_def)
    then obtain cron where "DBPurgeCronJob L (inst s) (serviceLabels L) Map.empty = Val cron"
      using cj(2,3) by (simp add: DBPurgeCronJob_def Let_def)
    then show "\<exists>t. run_state (watcher_cronjob L E) s = (Next (), t) \<and> marked Finalizers {CronJobReadyCondition} s t"
      by (simp add: watcher_cronjob_def watcher_ensureDBPurgeCronJob_def cj(1) marked_def cstate_def cond_lawsD [OF L])
  qed
qed

lemma goes_subs:
  assumes L: "cond_laws L"
  shows "(\<And>h. OnApplyWatcherAPI E h = Inr a) \<Longrightarrow> sub_is_ready L WatcherAPIReadyCondition a \<Longrightarrow>
      goes Finalizers i {WatcherAPIReadyCondition} (stop_on_error (watcher_ensureAPI L E n)) ()"
    "(\<And>h. OnApplyWatcherApplier E h = Inr p) \<Longrightarrow> sub_is_ready L WatcherApplierReadyCondition p \<Longrightarrow>
      goes Finalizers i {WatcherApplierReadyCondition} (stop_on_error (watcher_ensureApplier L E n)) ()"
    "(\<And>h. OnApplyWatcherDecisionEngine E h = Inr d) \<Longrightarrow> sub_is_ready L WatcherDecisionEngineReadyCondition d \<Longrightarrow>
      goes Finalizers i {WatcherDecisionEngineReadyCondition} (stop_on_error (watcher_ensureDecisionEngine L E n)) ()"
  by (auto simp: goes_def stop_on_error_def watcher_ensureAPI_def watcher_ensureApplier_def
      watcher_ensureDecisionEngine_def mirror_sub_def sub_is_ready_def marked_def cstate_def cond_lawsD [OF L]
      mirror_type [OF L])

lemma goes_watcher_expose:
  assumes "skips i (exposeEndpoints L E) (Next ())" and L: "cond_laws L"
  shows "goes Finalizers i {ExposeServiceReadyCondition} (watcher_expose L E) ()"
  unfolding goes_def
proof (intro allI impI)
  fix s :: "Watcher st"
  assume "identity (inst s) = identity i"
  with assms(1) obtain tr where "run_state (exposeEndpoints L E) s = (Next (), s\<lparr>trace := tr\<rparr>)"
    unfolding skips_def by blast
  then show "\<exists>t. run_state (watcher_expose L E) s = (Next (), t) \<and> marked Finalizers {ExposeServiceReadyCondition} s t"
    by (simp add: watcher_expose_def stop_on_result_def marked_def cstate_def cond_lawsD [OF L])
qed

lemma goes_unused: "database_works E i db \<Longrightarrow> goes Finalizers i {} (watcher_unused_accounts L E) ()"
  by (auto simp: goes_def watcher_unused_accounts_def database_works_def marked_def)

section \<open>The normal branch\<close>

text \<open>The conditions a Watcher reports, \<open>Ready\<close> and those of the RBAC objects apart.\<close>

definition watcher_reports :: "ctype set" where
  "watcher_reports =
     {MariaDBAccountReadyCondition, DBReadyCondition, WatcherRabbitMQTransportURLReadyCondition, InputReadyCondition,
      KeystoneServiceReadyCondition, ServiceConfigReadyCondition, DBSyncReadyCondition, CronJobReadyCondition,
      WatcherAPIReadyCondition, ExposeServiceReadyCondition, WatcherDecisionEngineReadyCondition,
      WatcherApplierReadyCondition}"

definition healthy_for_watcher :: "lib \<Rightarrow> Watcher env \<Rightarrow> Watcher \<Rightarrow> bool" where
  "healthy_for_watcher L E i \<longleftrightarrow> NewHelper E = None \<and> hashes_work L \<and> rbac_works E \<and>
     (\<exists>db. database_works E i db) \<and> (\<exists>name. transport_works E i name) \<and> secrets_work E i \<and> jobs_work L E i \<and>
     routes_work E \<and> (\<exists>svcs. (\<forall>h. OnGetServices E h = Inr svcs) \<and> ingress_certs E i svcs) \<and>
     (hasPublicServiceSecretName i \<longrightarrow> hasIngressTLS i)"

definition subs_ready :: "lib \<Rightarrow> Watcher env \<Rightarrow> bool" where
  "subs_ready L E \<longleftrightarrow>
     (\<exists>a. (\<forall>h. OnApplyWatcherAPI E h = Inr a) \<and> sub_is_ready L WatcherAPIReadyCondition a) \<and>
     (\<exists>p. (\<forall>h. OnApplyWatcherApplier E h = Inr p) \<and> sub_is_ready L WatcherApplierReadyCondition p) \<and>
     (\<exists>d. (\<forall>h. OnApplyWatcherDecisionEngine E h = Inr d) \<and> sub_is_ready L WatcherDecisionEngineReadyCondition d)"

lemma watcher_finishes:
  assumes healthy: "healthy_for_watcher L E i" and subs: "subs_ready L E" and L: "cond_laws L"
  shows "finishes L Finalizers i watcher_reports (watcher_normal L E)"
proof -
  from healthy obtain db name svcs where h: "hashes_work L" "database_works E i db" "transport_works E i name"
      "secrets_work E i" "jobs_work L E i" "routes_work E" "\<forall>h. OnGetServices E h = Inr svcs" "ingress_certs E i svcs"
      "hasPublicServiceSecretName i \<longrightarrow> hasIngressTLS i"
    unfolding healthy_for_watcher_def by (elim conjE exE)
  from subs obtain a p d where s: "\<And>h. OnApplyWatcherAPI E h = Inr a" "sub_is_ready L WatcherAPIReadyCondition a"
      "\<And>h. OnApplyWatcherApplier E h = Inr p" "sub_is_ready L WatcherApplierReadyCondition p"
      "\<And>h. OnApplyWatcherDecisionEngine E h = Inr d" "sub_is_ready L WatcherDecisionEngineReadyCondition d"
    unfolding subs_ready_def by blast
  obtain isec tsec where inputs: "goes Finalizers i {} (watcher_input_secrets L E name) (isec, tsec)"
    using goes_input_secrets [OF h(4,3,1)] by fast
  have "finishes L Finalizers i {WatcherAPIReadyCondition, ExposeServiceReadyCondition,
      WatcherDecisionEngineReadyCondition, WatcherApplierReadyCondition} (watcher_services L E (Name i))"
    unfolding watcher_services_def
    by (rule finishes_then, rule goes_subs(1) [OF L s(1,2)], rule finishes_then,
        rule goes_watcher_expose [OF skips_expose [OF h(6-9)] L], rule finishes_then, rule goes_subs(3) [OF L s(5,6)],
        rule finishes_then, rule goes_subs(2) [OF L s(3,4)], rule finishes_then, rule goes_unused [OF h(2)],
        rule finishes_end, (rule refl)+, blast)
  then show ?thesis
    unfolding watcher_normal_def
    by - (rule finishes_then, rule goes_database [OF h(2) L], rule finishes_then, rule goes_transport [OF h(3) L],
        rule finishes_then, rule inputs, simp only: prod.case, rule finishes_then,
        rule goes_watcher_prometheus [OF h(4,1)], rule finishes_then, rule goes_sub_level_secret [OF h(4) L],
        rule finishes_then, rule goes_keystone [OF h(5) L], rule finishes_then, rule goes_watcher_config [OF h(4) L],
        rule finishes_then, rule goes_dbsync [OF h(5) L], rule finishes_then, rule goes_cronjob [OF h(5) L],
        assumption, (rule refl)+, unfold watcher_reports_def, blast)
qed

section \<open>One reconcile, and many\<close>

definition watcher_types :: "ctype set" where
  "watcher_types = insert ReadyCondition (watcher_reports \<union> rbac_types)"

lemma watcher_types_init:
  "cond_laws L \<Longrightarrow> Type ` set (watcher_init_conditions L) \<subseteq> watcher_types"
  "cond_laws L \<Longrightarrow> t \<in> rbac_types \<Longrightarrow> t \<in> Type ` set (watcher_init_conditions L)"
  by (auto simp: watcher_init_conditions_def cond_lawsD watcher_types_def watcher_reports_def rbac_types_def)

interpretation obs_frame: watcher_delete_frame "keeps ObservedGeneration" L "\<lambda>_. True" for L
  by unfold_locales (auto simp: keeps_def observed_ops keeps_modify drop_own_finalizer_rules)

interpretation fin_frame: watcher_frame "keeps Finalizers" L "\<lambda>_. True" for L
  by unfold_locales (auto simp: keeps_def state_io_rel_def)

text \<open>Before the gate: a fresh status, in which the RBAC conditions are True.\<close>

lemma rbac_fold_True:
  assumes L: "cond_laws L" and "\<forall>c \<in> set cs. Status c = CTrue" and "cstate t i \<noteq> None"
  shows "cstate t (fold (RbacConditionsSet L) cs i) = (if t \<in> Type ` set cs then Some CTrue else cstate t i)"
  using assms(2,3)
proof (induction cs arbitrary: i)
  case (Cons c cs)
  then have "cstate t (RbacConditionsSet L c i) = (if t = Type c then Some CTrue else cstate t i)"
    by (auto simp: RbacConditionsSet_def cond_lawsD [OF L] cstate_def)
  with Cons show ?case by (auto split: if_splits)
qed simp

lemma rbac_fold_observed: "ObservedGeneration (fold (RbacConditionsSet L) cs i) = ObservedGeneration i"
  by (induction cs arbitrary: i) (simp_all add: RbacConditionsSet_def)

definition watcher_start :: "lib \<Rightarrow> Watcher \<Rightarrow> Watcher \<Rightarrow> bool" where
  "watcher_start L j k \<longleftrightarrow> identity k = identity j \<and> Finalizers k = Finalizers j \<and>
     ObservedGeneration k = Generation k \<and> cond_wf (Conditions k) \<and> (\<forall>t \<in> rbac_types. cstate t k = Some CTrue) \<and>
     cstate ReadyCondition k = Some CUnknown \<and> (\<forall>u. u \<notin> watcher_types \<longrightarrow> cstate u k = None)"

lemma watcher_starts:
  assumes L: "cond_laws L" "init_law L" and rbac: "rbac_works E"
    and j: "cond_wf (Conditions j)" "\<forall>u. u \<notin> watcher_types \<longrightarrow> cstate u j = None"
  shows "\<exists>k h'. run_state (watcher_ensureRbac L E) \<lparr>inst = watcher_initStatus L j, trace = h\<rparr> =
      (Next (), \<lparr>inst = k, trace = h'\<rparr>) \<and> watcher_start L j k"
proof -
  from rbac obtain res cs where cs: "\<forall>h. OnReconcileRbac E h = (res, None, cs)" "\<forall>c \<in> set cs. Status c = CTrue"
      "Type ` set cs = rbac_types"
    unfolding rbac_works_def by blast
  let ?i = "watcher_initStatus L j" and ?k = "fold (RbacConditionsSet L) cs (watcher_initStatus L j)"
  have listed: "cstate t ?i = Some CUnknown" if "t \<in> Type ` set (watcher_init_conditions L)" for t
    by (rule watcher_init_unknown [OF L(1) that])
  have "cstate t ?k = Some CTrue" if "t \<in> rbac_types" for t
    using rbac_fold_True [OF L(1) cs(2), of t ?i] listed [OF watcher_types_init(2) [OF L(1) that]] that cs(3) by simp
  moreover have keep: "cstate t ?k = cstate t ?i" if "t \<notin> rbac_types" for t
    by (rule rbac_fold(3) [OF L(1)]) (use that cs(3) in simp)
  have "cstate u ?k = None" if u: "u \<notin> watcher_types" for u
  proof -
    have "u \<notin> Type ` set (watcher_init_conditions L)" "u \<noteq> ReadyCondition" "u \<notin> rbac_types"
      using u watcher_types_init(1) [OF L(1)] by (auto simp: watcher_types_def)
    then have "cstate u ?i = None \<or> cstate u ?i = cstate u (case Conditions j of None \<Rightarrow> j\<lparr>Conditions := Some []\<rparr> | Some _ \<Rightarrow> j)"
      using init_lawD [OF L(2)] by (simp add: watcher_initStatus_def watcher_initConditions_def Let_def cstate_def)
    moreover have "cstate u j = None" using j(2) u by blast
    ultimately show ?thesis
      using keep \<open>u \<notin> rbac_types\<close> by (auto simp: cstate_def status_of_def cond_list_def split: option.splits)
  qed
  moreover have "ReadyCondition \<in> Type ` set (watcher_init_conditions L)" "ReadyCondition \<notin> rbac_types"
    by (simp_all add: watcher_init_conditions_def cond_lawsD [OF L(1)] rbac_types_def)
  then have "cstate ReadyCondition ?k = Some CUnknown" using keep listed by simp
  moreover have "cond_wf (Conditions ?k)"
    by (rule cond_steps_wf [OF rbac_fold_conds L(1) init_wf(1) [OF L(1) j(1)]])
  moreover have "Generation ?k = Generation j" "ObservedGeneration ?k = Generation j"
    using rbac_fold(1) [of L cs ?i] watcher_init_fields(1) [of L j]
    by (simp_all add: identity_def rbac_fold_observed watcher_initStatus_def Let_def)
  ultimately have "watcher_start L j ?k" by (simp add: watcher_start_def rbac_fold watcher_init_fields)
  then show ?thesis by (simp add: watcher_ensureRbac_def cs(1))
qed

text \<open>From the gate on, a settled Watcher runs the normal branch from a fresh status.\<close>

lemma watcher_settled_run:
  assumes L: "cond_laws L" "finalizer_laws L" "init_law L" and live: "DeletionTimestamp i = None"
    and helper: "NewHelper E = None" and rbac: "rbac_works E"
    and j: "settled L watcher_types i j" and load: "OnGetInstance E (trace s @ [GetInstance req]) = Inr j"
  obtains k h b u where "watcher_start L j k" and "run_state (watcher_normal L E) \<lparr>inst = k, trace = h\<rparr> = (b, u)"
    and "inst (snd (run_state (watcher_Reconcile L E req) s)) = exit_inst L (Conditions j) (inst u)"
    and "extends (\<lambda>_. True) s \<lparr>inst = k, trace = h\<rparr>" and "extends (\<lambda>_. True) u (snd (run_state (watcher_Reconcile L E req) s))"
proof -
  let ?s0 = "\<lparr>inst = j, trace = trace s @ [GetInstance req]\<rparr>" and ?key = "GetFinalizer L (Kind i)"
  obtain k h where rb: "run_state (watcher_ensureRbac L E) (?s0\<lparr>inst := watcher_initStatus L j\<rparr>) =
      (Next (), \<lparr>inst = k, trace = h\<rparr>)" and k: "watcher_start L j k"
    using watcher_starts [OF L(1,3) rbac, of j "trace ?s0"] j by (auto simp: settled_def)
  have ids: "identity k = identity i" "identity j = identity i" using k j by (simp_all add: watcher_start_def settled_def)
  then have same: "Kind k = Kind i" "DeletionTimestamp k = None" "Finalizers k = Finalizers j"
    using k live by (simp_all add: watcher_start_def identity_def)
  have "AddFinalizer L ?key (Finalizers j) = (Finalizers j, False)"
    using L(2) j by (simp add: finalizer_laws_def settled_def prod_eq_iff)
  then have "run_state (watcher_body L E (Conditions j = None)) ?s0 =
      run_state (watcher_normal L E) \<lparr>inst = k\<lparr>Finalizers := Finalizers j\<rparr>, trace = h\<rparr>"
    using rb same j by (auto simp: watcher_body_def run_continue run_finalizer_gate Let_def settled_def)
  moreover have "k\<lparr>Finalizers := Finalizers j\<rparr> = k" unfolding same(3) [symmetric] by simp
  ultimately have body: "run_state (watcher_body L E (Conditions j = None)) ?s0 =
      run_state (watcher_normal L E) \<lparr>inst = k, trace = h\<rparr>" by (simp only:)
  obtain b u where b: "run_state (watcher_normal L E) \<lparr>inst = k, trace = h\<rparr> = (b, u)" by fastforce
  have "extends (\<lambda>_. True) s \<lparr>inst = k, trace = h\<rparr>"
    using proceedsD(1) [OF state_io_relD [OF watcher_proceeds(18) rb]] by (auto simp: extends_def)
  with that [OF k b] show ?thesis by (simp add: watcher.loaded(1) [OF load helper body [unfolded b]] extends_def)
qed

lemma watcher_other_frame:
  assumes L: "cond_laws L" and u: "u \<notin> watcher_types"
  shows "state_io_rel (keeps (cstate u)) (watcher_normal L E)"
proof -
  have ne: "t \<noteq> u" if "t \<in> watcher_types" for t using that u by blast
  show ?thesis
    unfolding watcher_normal_def watcher_services_def
    by (intro kp.flow_rules cs_frame.frame_blocks cs_frame.frame_secrets cs_frame.frame_expose conjI L ne;
        simp add: watcher_types_def watcher_reports_def)
qed

text \<open>Whatever the normal branch meets, the Watcher is settled after it.\<close>

lemma watcher_normal_settles:
  assumes L: "cond_laws L" and j: "settled L watcher_types i j" and k: "watcher_start L j k"
    and b: "run_state (watcher_normal L E) \<lparr>inst = k, trace = h\<rparr> = (b, u)"
  shows "settled L watcher_types i (exit_inst L (Conditions j) (inst u))"
proof (rule settled_exit [OF L])
  have ids: "identity k = identity i" using j k by (simp add: watcher_start_def settled_def)
  have same: "identity (inst u) = identity i" using kept_run [OF id_frame.frame_normal b] ids by simp
  then show "identity (inst u) = identity i" .
  show "GetFinalizer L (Kind i) \<in> set (Finalizers (inst u))"
    using kept_run [OF fin_frame.frame_normal b] j k by (simp add: watcher_start_def settled_def)
  show "cond_wf (Conditions (inst u))"
    by (rule cond_steps_wf [OF state_io_relD [OF cd_frame.frame_normal b, unfolded conds_def] L])
      (use k in \<open>simp_all add: watcher_start_def\<close>)
  show "cstate ReadyCondition (inst u) \<noteq> None"
    by (rule conds_listed [OF L cd_frame.frame_normal b]) (use k in \<open>simp_all add: watcher_start_def\<close>)
  show "ObservedGeneration (inst u) = Generation (inst u)"
    using kept_run [OF obs_frame.frame_normal b] k ids same by (simp add: watcher_start_def identity_def)
  show "ReadyCondition \<in> watcher_types" by (simp add: watcher_types_def)
  show "cstate c (inst u) = None" if "c \<notin> watcher_types" for c
    using kept_run [OF watcher_other_frame [OF L that] b] k that by (simp add: watcher_start_def)
qed

text \<open>In a healthy cluster with the three services ready it is Ready.\<close>

lemma watcher_normal_Ready:
  assumes L: "cond_laws L" and healthy: "healthy_for_watcher L E i" "subs_ready L E"
    and j: "settled L watcher_types i j" and k: "watcher_start L j k"
    and b: "run_state (watcher_normal L E) \<lparr>inst = k, trace = h\<rparr> = (b, u)"
  shows "\<forall>c \<in> watcher_types. cstate c (inst u) = Some CTrue"
proof -
  have "identity k = identity i" using j k by (simp add: watcher_start_def settled_def)
  with b obtain v where v: "run_state (finish_reconcile L) v = (b, u)"
      and m: "marked Finalizers watcher_reports \<lparr>inst = k, trace = h\<rparr> v"
    using watcher_finishes [OF healthy L] unfolding finishes_def by (metis st.select_convs(1))
  have wf: "cond_wf (Conditions (inst u))"
    by (rule cond_steps_wf [OF state_io_relD [OF cd_frame.frame_normal b, unfolded conds_def] L])
      (use k in \<open>simp_all add: watcher_start_def\<close>)
  have status: "cstate c (inst v) = (if c \<in> watcher_reports \<union> rbac_types then Some CTrue else if c = ReadyCondition
      then Some CUnknown else None)" for c
    using m k by (auto simp: marked_def watcher_start_def watcher_types_def)
  have "cstate ReadyCondition (inst u) = Some CTrue"
    by (rule finish_all_True [OF L v wf]) (use status in auto)
  moreover have "cstate c (inst u) = cstate c (inst v)" if "c \<noteq> ReadyCondition" for c
    using finish_other [OF L that, of v] v by simp
  ultimately have "cstate c (inst u) = Some CTrue" if "c \<in> watcher_types" for c
    using status [of c] that by (cases "c = ReadyCondition") (auto simp: watcher_types_def)
  then show ?thesis by blast
qed

text \<open>One reconcile: of a new Watcher, of a settled one, of one whose services are ready.\<close>

lemma watcher_first_settles:
  assumes L: "cond_laws L" "finalizer_laws L" "init_law L" and i: "DeletionTimestamp i = None" "Conditions i = None"
    and helper: "NewHelper E = None" and rbac: "rbac_works E"
    and load: "OnGetInstance E (trace s @ [GetInstance req]) = Inr i"
  shows "settled L watcher_types i (inst (snd (run_state (watcher_Reconcile L E req) s)))"
proof -
  let ?s0 = "\<lparr>inst = i, trace = trace s @ [GetInstance req]\<rparr>" and ?key = "GetFinalizer L (Kind i)"
  have "cond_wf (Conditions i)" "\<forall>u. cstate u i = None" using i by (simp_all add: cstate_def status_of_def cond_list_def)
  then obtain k h where rb: "run_state (watcher_ensureRbac L E) (?s0\<lparr>inst := watcher_initStatus L i\<rparr>) =
      (Next (), \<lparr>inst = k, trace = h\<rparr>)" and k: "watcher_start L i k"
    using watcher_starts [OF L(1,3) rbac, of i "trace ?s0"] by auto
  have same: "Kind k = Kind i" "DeletionTimestamp k = None" "Finalizers k = Finalizers i"
    using k i(1) by (simp_all add: watcher_start_def identity_def)
  obtain fs added where af: "AddFinalizer L ?key (Finalizers i) = (fs, added)" by fastforce
  with L(2) have key: "?key \<in> set fs"
    unfolding finalizer_laws_def by (metis fst_conv in_set_conv_decomp)
  have body: "run_state (watcher_body L E (Conditions i = None)) ?s0 =
      (Ret Result0 None, \<lparr>inst = k\<lparr>Finalizers := fs\<rparr>, trace = h\<rparr>)"
    using rb same af i(2) by (simp add: watcher_body_def run_continue run_finalizer_gate Let_def)
  have "settled L watcher_types i (exit_inst L (Conditions i) (k\<lparr>Finalizers := fs\<rparr>))"
    using k key by (intro settled_exit [OF L(1)]) (simp_all add: watcher_start_def watcher_types_def)
  then show ?thesis by (simp add: watcher.loaded(1) [OF load helper body])
qed

lemma watcher_step:
  assumes L: "cond_laws L" "finalizer_laws L" "init_law L" and live: "DeletionTimestamp i = None"
    and helper: "NewHelper E = None" and rbac: "rbac_works E"
    and j: "settled L watcher_types i j" and load: "OnGetInstance E (trace s @ [GetInstance req]) = Inr j"
  shows "settled L watcher_types i (inst (snd (run_state (watcher_Reconcile L E req) s)))"
    and "healthy_for_watcher L E i \<Longrightarrow> subs_ready L E \<Longrightarrow>
      \<forall>u \<in> watcher_types. cstate u (inst (snd (run_state (watcher_Reconcile L E req) s))) = Some CTrue"
proof -
  obtain k h b u where r: "watcher_start L j k" "run_state (watcher_normal L E) \<lparr>inst = k, trace = h\<rparr> = (b, u)"
      "inst (snd (run_state (watcher_Reconcile L E req) s)) = exit_inst L (Conditions j) (inst u)"
    by (rule watcher_settled_run [OF L live helper rbac j load])
  show "settled L watcher_types i (inst (snd (run_state (watcher_Reconcile L E req) s)))"
    unfolding r(3) by (rule watcher_normal_settles [OF L(1) j r(1,2)])
  show "\<forall>u \<in> watcher_types. cstate u (inst (snd (run_state (watcher_Reconcile L E req) s))) = Some CTrue"
    if "healthy_for_watcher L E i" "subs_ready L E"
    using watcher_normal_Ready [OF L(1) that j r(1,2)] exit_Ready [OF L(1)] cstate_exit(1) [OF L(1)]
    unfolding r(3) by metis
qed

text \<open>
  A new Watcher converges: when the cluster stores what it is given and answers, and the three
  sub-resources are there and ready, the Watcher is Ready after its second reconcile and every later one.
\<close>

theorem watcher_converges:
  assumes L: "cond_laws L" "finalizer_laws L" "init_law L"
    and cluster: "stores_resource E i" "healthy_for_watcher L E i" "subs_ready L E"
    and new: "DeletionTimestamp i = None" "Conditions i = None" and start: "trace s = []" and n: "n \<ge> 2"
  shows "cstate ReadyCondition (inst (nth_reconcile (watcher_Reconcile L E req) s n)) = Some CTrue"
proof -
  have helper: "NewHelper E = None" and rbac: "rbac_works E" using cluster(2) by (simp_all add: healthy_for_watcher_def)
  note first = watcher_first_settles [OF L new helper rbac]
  note step = watcher_step [OF L new(1) helper rbac]
  have settled: "settled L watcher_types i (inst (nth_reconcile (watcher_Reconcile L E req) s (Suc m)))" for m
    by (rule watcher.stays [OF cluster(1) helper start]) (use first step(1) in blast)+
  obtain m where m: "n = Suc (Suc m)" using n by (metis Suc_le_D Suc_le_mono numeral_2_eq_2)
  from step(2) [OF settled watcher.loads_stored [OF cluster(1) helper] cluster(2,3)] show ?thesis
    unfolding m by (simp add: watcher_types_def)
qed

end
