(* ===== verification/Interleaving.thy ===== *)
theory Interleaving
  imports WatcherConvergence
begin

text \<open>
  The operator as a whole: the four controllers take turns in any order, and what the Watcher's
  controller reads of the three services is what their own controllers last stored. A schedule is the
  list of the turns.
\<close>

section \<open>Turns\<close>

datatype controller = WatcherTurn | APITurn | ApplierTurn | DETurn

record operator =
  OfWatcher :: "Watcher st"
  OfAPI :: "WatcherAPI st"
  OfApplier :: "WatcherApplier st"
  OfDE :: "WatcherDecisionEngine st"

text \<open>The rest of the cluster, as each of the controllers meets it, and the request each one is given.\<close>

record cluster =
  WatcherEnv :: "Watcher env"
  APIEnv :: "WatcherAPI env"
  ApplierEnv :: "WatcherApplier env"
  DEEnv :: "WatcherDecisionEngine env"
  RequestFor :: "controller \<Rightarrow> nsname"

definition watcher_sees :: "cluster \<Rightarrow> operator \<Rightarrow> Watcher env" where
  "watcher_sees C sys = (WatcherEnv C)\<lparr>OnApplyWatcherAPI := \<lambda>_. Inr (inst (OfAPI sys)),
     OnApplyWatcherApplier := \<lambda>_. Inr (inst (OfApplier sys)),
     OnApplyWatcherDecisionEngine := \<lambda>_. Inr (inst (OfDE sys))\<rparr>"

fun turn :: "lib \<Rightarrow> cluster \<Rightarrow> controller \<Rightarrow> operator \<Rightarrow> operator" where
  "turn L C WatcherTurn sys =
     sys\<lparr>OfWatcher := snd (run_state (watcher_Reconcile L (watcher_sees C sys) (RequestFor C WatcherTurn)) (OfWatcher sys))\<rparr>"
| "turn L C APITurn sys =
     sys\<lparr>OfAPI := snd (run_state (api_Reconcile L (APIEnv C) (RequestFor C APITurn)) (OfAPI sys))\<rparr>"
| "turn L C ApplierTurn sys =
     sys\<lparr>OfApplier := snd (run_state (applier_Reconcile L (ApplierEnv C) (RequestFor C ApplierTurn)) (OfApplier sys))\<rparr>"
| "turn L C DETurn sys =
     sys\<lparr>OfDE := snd (run_state (de_Reconcile L (DEEnv C) (RequestFor C DETurn)) (OfDE sys))\<rparr>"

definition turns :: "lib \<Rightarrow> cluster \<Rightarrow> controller list \<Rightarrow> operator \<Rightarrow> operator" where
  "turns L C ks sys = fold (turn L C) ks sys"

lemma turns_simps [simp]:
  "turns L C [] sys = sys" "turns L C (ks @ ks') sys = turns L C ks' (turns L C ks sys)"
  "turns L C (k # ks) sys = turns L C ks (turn L C k sys)"
  by (simp_all add: turns_def)

text \<open>A service is where its own turns have brought it.\<close>

lemma services_after:
  "OfAPI (turns L C ks sys) =
     nth_reconcile (api_Reconcile L (APIEnv C) (RequestFor C APITurn)) (OfAPI sys) (count_list ks APITurn)"
  "OfApplier (turns L C ks sys) =
     nth_reconcile (applier_Reconcile L (ApplierEnv C) (RequestFor C ApplierTurn)) (OfApplier sys) (count_list ks ApplierTurn)"
  "OfDE (turns L C ks sys) =
     nth_reconcile (de_Reconcile L (DEEnv C) (RequestFor C DETurn)) (OfDE sys) (count_list ks DETurn)"
proof (induction ks rule: rev_induct)
  case (snoc k ks)
  { case 1 show ?case using snoc(1) by (cases k) simp_all }
  { case 2 show ?case using snoc(2) by (cases k) simp_all }
  { case 3 show ?case using snoc(3) by (cases k) simp_all }
qed simp_all

lemma watcher_idle: "WatcherTurn \<notin> set ks \<Longrightarrow> OfWatcher (turns L C ks sys) = OfWatcher sys"
proof (induction ks rule: rev_induct)
  case (snoc k ks)
  then show ?case by (cases k) simp_all
qed simp

text \<open>The turn of the Watcher that is the last of its turns so far.\<close>

lemma last_turn:
  assumes "k \<in> set ks"
  obtains ks1 ks2 where "ks = ks1 @ k # ks2" and "k \<notin> set ks2"
  using split_list_last [OF assms] by blast

section \<open>The start\<close>

text \<open>
  A Watcher and its three services, as the Watcher's controller creates them, none of which has been
  reconciled yet. The API server has given each its first generation, which nobody has observed.
\<close>

definition fresh_resource :: "('spec, 'z) cr_scheme st \<Rightarrow> bool" where
  "fresh_resource s \<longleftrightarrow> trace s = [] \<and> DeletionTimestamp (inst s) = None \<and> Conditions (inst s) = None \<and>
     Generation (inst s) \<noteq> ObservedGeneration (inst s)"

definition fresh_operator :: "operator \<Rightarrow> bool" where
  "fresh_operator sys \<longleftrightarrow>
     (let w = inst (OfWatcher sys)
      in fresh_resource (OfWatcher sys) \<and> fresh_resource (OfAPI sys) \<and> fresh_resource (OfApplier sys) \<and>
         fresh_resource (OfDE sys) \<and>
         Spec (inst (OfAPI sys)) = watcher_api_spec w (Name w) \<and> Namespace (inst (OfAPI sys)) = Namespace w \<and>
         Spec (inst (OfApplier sys)) = watcher_applier_spec w (Name w) \<and> Namespace (inst (OfApplier sys)) = Namespace w \<and>
         Spec (inst (OfDE sys)) = watcher_de_spec w (Name w) \<and> Namespace (inst (OfDE sys)) = Namespace w)"

definition stores_resources :: "cluster \<Rightarrow> operator \<Rightarrow> bool" where
  "stores_resources C sys \<longleftrightarrow> stores_resource (WatcherEnv C) (inst (OfWatcher sys)) \<and>
     stores_resource (APIEnv C) (inst (OfAPI sys)) \<and> stores_resource (ApplierEnv C) (inst (OfApplier sys)) \<and>
     stores_resource (DEEnv C) (inst (OfDE sys)) \<and>
     NewHelper (WatcherEnv C) = None \<and> NewHelper (APIEnv C) = None \<and> NewHelper (ApplierEnv C) = None \<and>
     NewHelper (DEEnv C) = None"

lemma fresh_services:
  assumes "fresh_operator sys"
  shows "trace (OfWatcher sys) = []" "trace (OfAPI sys) = []" "trace (OfApplier sys) = []" "trace (OfDE sys) = []"
    and "DeletionTimestamp (inst (OfWatcher sys)) = None" "Conditions (inst (OfWatcher sys)) = None"
    and "DeletionTimestamp (inst (OfAPI sys)) = None" "Conditions (inst (OfAPI sys)) = None"
    and "DeletionTimestamp (inst (OfApplier sys)) = None" "Conditions (inst (OfApplier sys)) = None"
    and "DeletionTimestamp (inst (OfDE sys)) = None" "Conditions (inst (OfDE sys)) = None"
  using assms by (simp_all add: fresh_operator_def fresh_resource_def Let_def)

section \<open>What the Watcher sees\<close>

lemma sees_fields:
  "stores_resource (watcher_sees C sys) w = stores_resource (WatcherEnv C) w"
  "NewHelper (watcher_sees C sys) = NewHelper (WatcherEnv C)"
  "rbac_works (watcher_sees C sys) = rbac_works (WatcherEnv C)" "rbac_law (watcher_sees C sys) = rbac_law (WatcherEnv C)"
  "OnGetInstance (watcher_sees C sys) = OnGetInstance (WatcherEnv C)"
  by (simp_all add: watcher_sees_def stores_resource_def rbac_works_def rbac_law_def)

lemma sees_healthy: "healthy_for_watcher L (watcher_sees C sys) w = healthy_for_watcher L (WatcherEnv C) w"
  by (simp add: watcher_sees_def healthy_for_watcher_def rbac_works_def database_works_def transport_works_def
      secrets_work_def jobs_work_def routes_work_def ingress_certs_def offers_def cong: option.case_cong)

text \<open>A service that its controller left Ready is one the Watcher finds ready.\<close>

lemma ready_sub:
  fixes sub :: "'spec sub_cr"
  assumes L: "mirror_law L" and ready: "all_ready L types i sub" and "ReadyCondition \<in> types"
  shows "sub_is_ready L t sub"
proof -
  have s: "settled L types i sub" and all: "\<And>u. u \<in> types \<Longrightarrow> cstate u sub = Some CTrue"
    using ready by (simp_all add: all_ready_def)
  then have "cstate ReadyCondition sub \<noteq> None" using assms(3) by simp
  then have "cond_list (Conditions sub) \<noteq> []" by (auto simp: cstate_def status_of_def)
  moreover have "Status c = CTrue" if c: "c \<in> set (cond_list (Conditions sub))" for c
  proof -
    have "cstate (Type c) sub = Some (Status c)"
      using s c by (simp add: settled_def cstate_def status_of_wf)
    moreover from this s have "Type c \<in> types" unfolding settled_def by (metis option.distinct(1))
    ultimately show ?thesis using all by simp
  qed
  ultimately obtain c where "CMirror L t (Conditions sub) = Some c" "Status c = CTrue"
    using L unfolding mirror_law_def by blast
  with s show ?thesis by (simp add: sub_is_ready_def settled_def)
qed

section \<open>The cluster the operator needs\<close>

text \<open>
  The secret the Watcher stores for its services is there, and what is there for the Watcher is there for
  the services: nothing else is asked of their secrets.
\<close>

definition holds_sub_level_secret :: "lib \<Rightarrow> Watcher env \<Rightarrow> Watcher \<Rightarrow> bool" where
  "holds_sub_level_secret L E w \<longleftrightarrow>
     (\<exists>tsec isec db sec. Data sec = CustomData (sub_level_template L w tsec isec db) \<and>
        (\<forall>h. OnGetSecret E (h @ [GetSecret \<lparr>NName = TplName (sub_level_template L w tsec isec db),
           NNamespace = TplNamespace (sub_level_template L w tsec isec db)\<rparr>]) = Inr sec))"

definition shares_secrets :: "cluster \<Rightarrow> bool" where
  "shares_secrets C \<longleftrightarrow> (\<forall>n fs. offers (WatcherEnv C) n fs \<longrightarrow>
     offers (APIEnv C) n fs \<and> offers (ApplierEnv C) n fs \<and> offers (DEEnv C) n fs)"

definition healthy_cluster :: "lib \<Rightarrow> cluster \<Rightarrow> operator \<Rightarrow> bool" where
  "healthy_cluster L C sys \<longleftrightarrow>
     (let w = inst (OfWatcher sys)
      in healthy_for_watcher L (WatcherEnv C) w \<and> holds_sub_level_secret L (WatcherEnv C) w \<and> shares_secrets C \<and>
         healthy_service (APIEnv C) (inst (OfAPI sys)) \<and> api_exposable L (APIEnv C) (inst (OfAPI sys)) \<and>
         healthy_service (ApplierEnv C) (inst (OfApplier sys)) \<and> healthy_service (DEEnv C) (inst (OfDE sys)))"

text \<open>The secrets the services read are then there for them.\<close>

lemma sub_level_offered:
  assumes "holds_sub_level_secret L E w" and "Namespace sub = Namespace w"
    and "Secret (Spec sub) = Name w" and "PasswordSelectors (Spec sub) = PasswordSelectors (Spec w)"
  shows "offers E \<lparr>NName = Secret (Spec sub), NNamespace = Namespace sub\<rparr> (service_expected_fields sub)"
proof -
  from assms(1) obtain tsec isec db sec where sec: "Data sec = sub_level_data w tsec isec db"
      "\<forall>h. OnGetSecret E (h @ [GetSecret \<lparr>NName = Name w, NNamespace = Namespace w\<rparr>]) = Inr sec"
    by (auto simp: holds_sub_level_secret_def sub_level_template_def)
  then show ?thesis
    using sub_level_fields [OF refl assms(4)] by (auto simp: offers_def assms(2,3))
qed

lemma healthy_services:
  assumes "healthy_cluster L C sys" and "fresh_operator sys"
  shows "healthy_for_api L (APIEnv C) (inst (OfAPI sys))" "healthy_for_applier L (ApplierEnv C) (inst (OfApplier sys))"
    "healthy_for_de L (DEEnv C) (inst (OfDE sys))"
proof -
  let ?w = "inst (OfWatcher sys)"
  have w: "healthy_for_watcher L (WatcherEnv C) ?w" and sub: "holds_sub_level_secret L (WatcherEnv C) ?w"
    and shares: "shares_secrets C"
    and services: "healthy_service (APIEnv C) (inst (OfAPI sys))" "api_exposable L (APIEnv C) (inst (OfAPI sys))"
      "healthy_service (ApplierEnv C) (inst (OfApplier sys))" "healthy_service (DEEnv C) (inst (OfDE sys))"
    using assms(1) by (simp_all add: healthy_cluster_def Let_def)
  have a: "Spec (inst (OfAPI sys)) = watcher_api_spec ?w (Name ?w)" "Namespace (inst (OfAPI sys)) = Namespace ?w"
    and p: "Spec (inst (OfApplier sys)) = watcher_applier_spec ?w (Name ?w)" "Namespace (inst (OfApplier sys)) = Namespace ?w"
    and d: "Spec (inst (OfDE sys)) = watcher_de_spec ?w (Name ?w)" "Namespace (inst (OfDE sys)) = Namespace ?w"
    using assms(2) by (simp_all add: fresh_operator_def Let_def)
  have hashes: "hashes_work L"
    and prometheus: "offers (WatcherEnv C) \<lparr>NName = PrometheusSecret (Spec ?w), NNamespace = Namespace ?w\<rparr>
      [PrometheusHost, PrometheusPort]"
    using w by (simp_all add: healthy_for_watcher_def secrets_work_def)
  note secret = sub_level_offered [OF sub]
  show "healthy_for_api L (APIEnv C) (inst (OfAPI sys))"
    using secret [OF a(2)] prometheus shares services hashes a
    by (simp add: healthy_for_api_def shares_secrets_def watcher_api_spec_def Let_def)
  show "healthy_for_applier L (ApplierEnv C) (inst (OfApplier sys))"
    using secret [OF p(2)] shares services hashes p
    by (simp add: healthy_for_applier_def shares_secrets_def watcher_applier_spec_def Let_def)
  show "healthy_for_de L (DEEnv C) (inst (OfDE sys))"
    using secret [OF d(2)] prometheus shares services hashes d
    by (simp add: healthy_for_de_def shares_secrets_def watcher_de_spec_def Let_def)
qed

section \<open>The Watcher through a schedule\<close>

text \<open>Once it had a turn the Watcher is settled, and its next turn loads what the last one stored.\<close>

lemma watcher_through:
  assumes L: "cond_laws L" "finalizer_laws L" "init_law L"
    and fresh: "fresh_operator sys" and stores: "stores_resources C sys" and rbac: "rbac_works (WatcherEnv C)"
    and turned: "WatcherTurn \<in> set ks"
  shows "settled L watcher_types (inst (OfWatcher sys)) (inst (OfWatcher (turns L C ks sys))) \<and>
    OnGetInstance (WatcherEnv C) (trace (OfWatcher (turns L C ks sys)) @ [GetInstance (RequestFor C WatcherTurn)]) =
      Inr (inst (OfWatcher (turns L C ks sys)))"
  using turned
proof (induction ks rule: rev_induct)
  case (snoc k ks)
  let ?o = "turns L C ks sys" and ?w = "inst (OfWatcher sys)"
  note new = fresh_services(5,6) [OF fresh]
  have st: "stores_resource (watcher_sees C ?o) ?w" "NewHelper (watcher_sees C ?o) = None" "rbac_works (watcher_sees C ?o)"
    using stores rbac by (simp_all add: stores_resources_def sees_fields)
  show ?case
  proof (cases "k = WatcherTurn")
    case k: True
    have "settled L watcher_types ?w (inst (OfWatcher (turn L C k ?o)))"
    proof (cases "WatcherTurn \<in> set ks")
      case True
      then show ?thesis
        using watcher_step(1) [OF L new(1) st(2,3) conjunct1 [OF snoc.IH], of "OfWatcher ?o"] snoc.IH
        by (simp add: k sees_fields)
    next
      case False
      with watcher.loads_first [OF st(1) fresh_services(1) [OF fresh]] show ?thesis
        using watcher_first_settles [OF L new st(2,3)] by (simp add: k watcher_idle)
    qed
    then show ?thesis using watcher.loads_next [OF st(1,2)] by (simp add: k sees_fields)
  next
    case False
    with snoc show ?thesis by (cases k) simp_all
  qed
qed simp

section \<open>Convergence\<close>

text \<open>The three services after enough turns of each.\<close>

lemma services_ready:
  assumes L: "cond_laws L" "finalizer_laws L" "hash_laws L" "notfound_law L" "init_law L" "mirror_law L"
    and fresh: "fresh_operator sys" and stores: "stores_resources C sys" and healthy: "healthy_cluster L C sys"
    and enough: "\<forall>k \<in> {APITurn, ApplierTurn, DETurn}. count_list ks k \<ge> 3"
  shows "cstate ReadyCondition (inst (OfAPI (turns L C ks sys))) = Some CTrue"
    and "cstate ReadyCondition (inst (OfApplier (turns L C ks sys))) = Some CTrue"
    and "cstate ReadyCondition (inst (OfDE (turns L C ks sys))) = Some CTrue"
    and "subs_ready L (watcher_sees C (turns L C ks sys))"
proof -
  note new = fresh_services [OF fresh] and h = healthy_services [OF healthy fresh]
  have st: "stores_resource (APIEnv C) (inst (OfAPI sys))" "stores_resource (ApplierEnv C) (inst (OfApplier sys))"
      "stores_resource (DEEnv C) (inst (OfDE sys))" using stores by (simp_all add: stores_resources_def)
  have a: "all_ready L (Type ` set (api_init_conditions L) \<union> {ReadyCondition}) (inst (OfAPI sys)) (inst (OfAPI (turns L C ks sys)))"
    unfolding services_after by (rule api_all_ready [OF L(1-3,5) st(1) h(1) new(7,8,2)]) (use enough in simp)
  have p: "all_ready L (Type ` set (applier_init_conditions L) \<union> {ReadyCondition}) (inst (OfApplier sys)) (inst (OfApplier (turns L C ks sys)))"
    unfolding services_after by (rule applier_all_ready [OF L(1-5) st(2) h(2) new(9,10,3)]) (use enough in simp)
  have d: "all_ready L (Type ` set (de_init_conditions L) \<union> {ReadyCondition}) (inst (OfDE sys)) (inst (OfDE (turns L C ks sys)))"
    unfolding services_after by (rule de_all_ready [OF L(1-5) st(3) h(3) new(11,12,4)]) (use enough in simp)
  from a p d show "cstate ReadyCondition (inst (OfAPI (turns L C ks sys))) = Some CTrue"
    "cstate ReadyCondition (inst (OfApplier (turns L C ks sys))) = Some CTrue"
    "cstate ReadyCondition (inst (OfDE (turns L C ks sys))) = Some CTrue"
    by (simp_all add: all_ready_def)
  show "subs_ready L (watcher_sees C (turns L C ks sys))"
    using ready_sub [OF L(6) a] ready_sub [OF L(6) p] ready_sub [OF L(6) d] by (simp add: subs_ready_def watcher_sees_def)
qed

definition operator_is_ready :: "operator \<Rightarrow> bool" where
  "operator_is_ready sys \<longleftrightarrow> cstate ReadyCondition (inst (OfWatcher sys)) = Some CTrue \<and>
     cstate ReadyCondition (inst (OfAPI sys)) = Some CTrue \<and> cstate ReadyCondition (inst (OfApplier sys)) = Some CTrue \<and>
     cstate ReadyCondition (inst (OfDE sys)) = Some CTrue"

lemma operator_gets_ready:
  assumes L: "cond_laws L" "finalizer_laws L" "hash_laws L" "notfound_law L" "init_law L" "mirror_law L"
    and fresh: "fresh_operator sys" and stores: "stores_resources C sys" and healthy: "healthy_cluster L C sys"
    and enough: "\<forall>k \<in> {APITurn, ApplierTurn, DETurn}. count_list ks k \<ge> 3" "WatcherTurn \<in> set ks"
  shows "operator_is_ready (turns L C (ks @ WatcherTurn # later) sys)"
proof -
  let ?w = "inst (OfWatcher sys)"
  have w: "healthy_for_watcher L (WatcherEnv C) ?w" using healthy by (simp add: healthy_cluster_def Let_def)
  have rbac: "rbac_works (WatcherEnv C)" using w by (simp add: healthy_for_watcher_def)
  have helper: "NewHelper (WatcherEnv C) = None" using stores by (simp add: stores_resources_def)
  have turn_ready: "cstate ReadyCondition (inst (OfWatcher (turns L C (xs @ [WatcherTurn]) sys))) = Some CTrue"
    if "\<forall>k \<in> {APITurn, ApplierTurn, DETurn}. count_list xs k \<ge> 3" "WatcherTurn \<in> set xs" for xs
  proof -
    note t = watcher_through [OF L(1,2,5) fresh stores rbac that(2)]
    have "subs_ready L (watcher_sees C (turns L C xs sys))" by (rule services_ready [OF L fresh stores healthy that(1)])
    with watcher_step(2) [OF L(1,2,5) fresh_services(5) [OF fresh] _ _ conjunct1 [OF t], of "watcher_sees C (turns L C xs sys)"]
    show ?thesis using t w rbac helper by (simp add: sees_fields sees_healthy watcher_types_def)
  qed
  have "cstate ReadyCondition (inst (OfWatcher (turns L C (ks @ WatcherTurn # later) sys))) = Some CTrue"
  proof (induction later rule: rev_induct)
    case Nil
    show ?case using turn_ready [OF enough] by simp
  next
    case (snoc k later)
    show ?case
    proof (cases "k = WatcherTurn")
      case True
      then show ?thesis using turn_ready [of "ks @ WatcherTurn # later"] enough by simp
    next
      case False
      then show ?thesis using snoc by (cases k) simp_all
    qed
  qed
  moreover have "\<forall>k \<in> {APITurn, ApplierTurn, DETurn}. count_list (ks @ WatcherTurn # later) k \<ge> 3"
    using enough(1) by simp
  ultimately show ?thesis
    unfolding operator_is_ready_def using services_ready(1-3) [OF L fresh stores healthy] by blast
qed

text \<open>
  The operator converges under every schedule. From a Watcher nobody has reconciled, in a healthy
  cluster where the services read the secret the Watcher writes: once each service has had three turns
  and the Watcher one, in whatever order, the next turn of the Watcher finds the services ready and is
  itself Ready, and all four stay Ready whatever turns follow.
\<close>

lemma operator_converges:
  assumes L: "cond_laws L" "finalizer_laws L" "hash_laws L" "notfound_law L" "init_law L" "mirror_law L"
    and fresh: "fresh_operator sys" and stores: "stores_resources C sys" and healthy: "healthy_cluster L C sys"
    and enough: "\<forall>k \<in> {APITurn, ApplierTurn, DETurn}. count_list ks k \<ge> 3" "WatcherTurn \<in> set ks"
  shows "cstate ReadyCondition (inst (OfWatcher (turns L C (ks @ WatcherTurn # later) sys))) = Some CTrue \<and>
    cstate ReadyCondition (inst (OfAPI (turns L C (ks @ WatcherTurn # later) sys))) = Some CTrue \<and>
    cstate ReadyCondition (inst (OfApplier (turns L C (ks @ WatcherTurn # later) sys))) = Some CTrue \<and>
    cstate ReadyCondition (inst (OfDE (turns L C (ks @ WatcherTurn # later) sys))) = Some CTrue"
  using operator_gets_ready [OF assms] by (simp only: operator_is_ready_def)

section \<open>What a Ready Watcher stands for\<close>

context reconciler
begin

text \<open>A resource found ready was brought there by its last reconcile.\<close>

lemma ready_reconcile:
  assumes L: "cond_laws L" and cluster: "stores_resource E i" "NewHelper E = None" "trace s = []"
    and sound: "ready_means E req (reconcile E req) met"
    and new: "Generation (inst s) \<noteq> ObservedGeneration (inst s)"
    and seen: "Generation (inst (nth_reconcile (reconcile E req) s m)) = ObservedGeneration (inst (nth_reconcile (reconcile E req) s m))"
      "\<forall>c \<in> set (cond_list (Conditions (inst (nth_reconcile (reconcile E req) s m)))). Status c = CTrue"
  shows "\<exists>n j. m = Suc n \<and> identity j = identity i \<and>
    met (nth_reconcile (reconcile E req) s n) (nth_reconcile (reconcile E req) s m) j"
proof (cases m)
  case 0
  with new seen(1) show ?thesis by simp
next
  case (Suc n)
  have "cstate ReadyCondition (inst (nth_reconcile (reconcile E req) s m)) \<noteq> None"
    using reports_ready [OF L cluster(1,2)] by (simp add: Suc)
  with listed_True [OF seen(2)] have ready: "cstate ReadyCondition (inst (nth_reconcile (reconcile E req) s (Suc n))) = Some CTrue"
    by (simp only: Suc)
  show ?thesis unfolding Suc using last_reconcile [OF cluster sound ready] by blast
qed

end

text \<open>A fact about the last turn a controller had.\<close>

definition in_last_turn ::
  "lib \<Rightarrow> cluster \<Rightarrow> operator \<Rightarrow> controller \<Rightarrow> controller list \<Rightarrow> (operator \<Rightarrow> operator \<Rightarrow> bool) \<Rightarrow> bool" where
  "in_last_turn L C sys k ks P \<longleftrightarrow>
     (\<exists>ks1 ks2. ks = ks1 @ k # ks2 \<and> k \<notin> set ks2 \<and> P (turns L C ks1 sys) (turns L C ks sys))"

lemma in_last_turnI:
  assumes "count_list ks k = Suc n"
    and "\<And>ks1. count_list ks1 k = n \<Longrightarrow> P (turns L C ks1 sys) (turns L C ks sys)"
  shows "in_last_turn L C sys k ks P"
proof -
  from assms(1) have "k \<in> set ks" by (metis count_list_0_iff nat.distinct(1))
  then obtain ks1 ks2 where "ks = ks1 @ k # ks2" "k \<notin> set ks2" by (rule last_turn)
  with assms show ?thesis unfolding in_last_turn_def by auto
qed

text \<open>What the Watcher found of a service, as its controller left it.\<close>

lemma sub_ready_found: "sub_ready c (\<lambda>_. Inr sub) s t \<Longrightarrow>
    Generation sub = ObservedGeneration sub \<and> (\<forall>d \<in> set (cond_list (Conditions sub)). Status d = CTrue)"
  by (auto simp: sub_ready_def answered_since_def)

lemma watcher_loads:
  assumes fresh: "fresh_operator sys" and stores: "stores_resources C sys"
  shows "\<exists>j. OnGetInstance (WatcherEnv C) (trace (OfWatcher (turns L C ks sys)) @ [GetInstance req]) = Inr j \<and>
    identity j = identity (inst (OfWatcher sys))"
proof (induction ks arbitrary: req rule: rev_induct)
  case Nil
  show ?case using stores fresh_services(1) [OF fresh] by (simp add: stores_resources_def stores_resource_def)
      (metis append_Nil stored.simps(1))
next
  case (snoc k ks)
  let ?o = "turns L C ks sys" and ?req = "RequestFor C WatcherTurn"
  have st: "stores_resource (watcher_sees C ?o) (inst (OfWatcher sys))" "NewHelper (watcher_sees C ?o) = None"
    using stores by (simp_all add: stores_resources_def sees_fields)
  show ?case
  proof (cases "k = WatcherTurn")
    case k: True
    obtain j where j: "OnGetInstance (WatcherEnv C) (trace (OfWatcher ?o) @ [GetInstance ?req]) = Inr j"
        "identity j = identity (inst (OfWatcher sys))" using snoc by blast
    have "identity (inst (OfWatcher (turn L C k ?o))) = identity j"
      using watcher.patches_last(2) [OF _ st(2) prod.collapse [symmetric], where req = ?req] j by (simp add: k sees_fields)
    moreover have "OnGetInstance (WatcherEnv C) (trace (OfWatcher (turn L C k ?o)) @ [GetInstance req]) =
        Inr (inst (OfWatcher (turn L C k ?o)))"
      using watcher.loads_next [OF st] stores by (simp add: k sees_fields stores_resources_def stores_resource_def)
    ultimately show ?thesis using j(2) by simp
  next
    case False
    with snoc show ?thesis by (cases k) simp_all
  qed
qed

text \<open>A service that is found ready was brought up in its last turn.\<close>

lemma api_last_turn:
  assumes L: "cond_laws L" "finalizer_laws L" "hash_laws L" and timeout: "RequeueTimeout (APIEnv C) \<noteq> 0"
    and fresh: "fresh_operator sys" and stores: "stores_resources C sys"
    and found: "sub_ready c (\<lambda>_. Inr (inst (OfAPI (turns L C ks sys)))) s t"
  shows "in_last_turn L C sys APITurn ks (\<lambda>before after. \<exists>i. identity i = identity (inst (OfAPI sys)) \<and>
    api_done L (APIEnv C) (OfAPI before) (OfAPI after) i)"
proof -
  have st: "stores_resource (APIEnv C) (inst (OfAPI sys))" "NewHelper (APIEnv C) = None"
    and new: "Generation (inst (OfAPI sys)) \<noteq> ObservedGeneration (inst (OfAPI sys))"
    using stores fresh by (simp_all add: stores_resources_def fresh_operator_def fresh_resource_def Let_def)
  have sound: "ready_means (APIEnv C) (RequestFor C APITurn) (api_Reconcile L (APIEnv C) (RequestFor C APITurn))
      (api_done L (APIEnv C))"
    using api_Ready [OF L timeout _ st(2)] unfolding ready_means_def by blast
  note seen = sub_ready_found [OF found, unfolded services_after]
  obtain n i where n: "count_list ks APITurn = Suc n" and i: "identity i = identity (inst (OfAPI sys))"
      "api_done L (APIEnv C) (nth_reconcile (api_Reconcile L (APIEnv C) (RequestFor C APITurn)) (OfAPI sys) n)
        (OfAPI (turns L C ks sys)) i"
    using api.ready_reconcile [OF L(1) st fresh_services(2) [OF fresh] sound new conjunct1 [OF seen] conjunct2 [OF seen]]
    unfolding services_after by blast
  show ?thesis by (rule in_last_turnI [OF n]) (use i in \<open>auto simp: services_after\<close>)
qed

lemma applier_last_turn:
  assumes L: "cond_laws L" "finalizer_laws L" "hash_laws L" "notfound_law L" and timeout: "RequeueTimeout (ApplierEnv C) \<noteq> 0"
    and fresh: "fresh_operator sys" and stores: "stores_resources C sys"
    and found: "sub_ready c (\<lambda>_. Inr (inst (OfApplier (turns L C ks sys)))) s t"
  shows "in_last_turn L C sys ApplierTurn ks (\<lambda>before after. \<exists>i. identity i = identity (inst (OfApplier sys)) \<and>
    applier_done L (ApplierEnv C) (OfApplier before) (OfApplier after) i)"
proof -
  have st: "stores_resource (ApplierEnv C) (inst (OfApplier sys))" "NewHelper (ApplierEnv C) = None"
    and new: "Generation (inst (OfApplier sys)) \<noteq> ObservedGeneration (inst (OfApplier sys))"
    using stores fresh by (simp_all add: stores_resources_def fresh_operator_def fresh_resource_def Let_def)
  have sound: "ready_means (ApplierEnv C) (RequestFor C ApplierTurn) (applier_Reconcile L (ApplierEnv C) (RequestFor C ApplierTurn))
      (applier_done L (ApplierEnv C))"
    using applier_Ready [OF L timeout _ st(2)] unfolding ready_means_def by blast
  note seen = sub_ready_found [OF found, unfolded services_after]
  obtain n i where n: "count_list ks ApplierTurn = Suc n" and i: "identity i = identity (inst (OfApplier sys))"
      "applier_done L (ApplierEnv C) (nth_reconcile (applier_Reconcile L (ApplierEnv C) (RequestFor C ApplierTurn)) (OfApplier sys) n)
        (OfApplier (turns L C ks sys)) i"
    using applier.ready_reconcile [OF L(1) st fresh_services(3) [OF fresh] sound new conjunct1 [OF seen] conjunct2 [OF seen]]
    unfolding services_after by blast
  show ?thesis by (rule in_last_turnI [OF n]) (use i in \<open>auto simp: services_after\<close>)
qed

lemma de_last_turn:
  assumes L: "cond_laws L" "finalizer_laws L" "hash_laws L" "notfound_law L" and timeout: "RequeueTimeout (DEEnv C) \<noteq> 0"
    and fresh: "fresh_operator sys" and stores: "stores_resources C sys"
    and found: "sub_ready c (\<lambda>_. Inr (inst (OfDE (turns L C ks sys)))) s t"
  shows "in_last_turn L C sys DETurn ks (\<lambda>before after. \<exists>i. identity i = identity (inst (OfDE sys)) \<and>
    de_done L (DEEnv C) (OfDE before) (OfDE after) i)"
proof -
  have st: "stores_resource (DEEnv C) (inst (OfDE sys))" "NewHelper (DEEnv C) = None"
    and new: "Generation (inst (OfDE sys)) \<noteq> ObservedGeneration (inst (OfDE sys))"
    using stores fresh by (simp_all add: stores_resources_def fresh_operator_def fresh_resource_def Let_def)
  have sound: "ready_means (DEEnv C) (RequestFor C DETurn) (de_Reconcile L (DEEnv C) (RequestFor C DETurn))
      (de_done L (DEEnv C))"
    using de_Ready [OF L timeout _ st(2)] unfolding ready_means_def by blast
  note seen = sub_ready_found [OF found, unfolded services_after]
  obtain n i where n: "count_list ks DETurn = Suc n" and i: "identity i = identity (inst (OfDE sys))"
      "de_done L (DEEnv C) (nth_reconcile (de_Reconcile L (DEEnv C) (RequestFor C DETurn)) (OfDE sys) n)
        (OfDE (turns L C ks sys)) i"
    using de.ready_reconcile [OF L(1) st fresh_services(4) [OF fresh] sound new conjunct1 [OF seen] conjunct2 [OF seen]]
    unfolding services_after by blast
  show ?thesis by (rule in_last_turnI [OF n]) (use i in \<open>auto simp: services_after\<close>)
qed

text \<open>
  C2. End to end: in whatever order the controllers take their turns and whatever the cluster answers, a
  turn that leaves the Watcher Ready found its own prerequisites met and each service brought up by that
  service's own controller: in its last turn the service met everything its Ready condition stands for,
  down to a StatefulSet rolled out with all the replicas the Watcher asked for.
\<close>

theorem operator_ready_sound:
  assumes L: "cond_laws L" "finalizer_laws L" "hash_laws L" "notfound_law L" and rbac: "rbac_law (WatcherEnv C)"
    and timeouts: "RequeueTimeout (APIEnv C) \<noteq> 0" "RequeueTimeout (ApplierEnv C) \<noteq> 0" "RequeueTimeout (DEEnv C) \<noteq> 0"
    and fresh: "fresh_operator sys" and stores: "stores_resources C sys"
    and ready: "cstate ReadyCondition (inst (OfWatcher (turns L C (ks @ [WatcherTurn]) sys))) = Some CTrue"
  shows "watcher_prepared L (watcher_sees C (turns L C ks sys)) (inst (OfWatcher sys))
      (OfWatcher (turns L C ks sys)) (OfWatcher (turns L C (ks @ [WatcherTurn]) sys)) \<and>
    in_last_turn L C sys APITurn ks (\<lambda>before after. \<exists>i. identity i = identity (inst (OfAPI sys)) \<and>
      api_done L (APIEnv C) (OfAPI before) (OfAPI after) i) \<and>
    in_last_turn L C sys ApplierTurn ks (\<lambda>before after. \<exists>i. identity i = identity (inst (OfApplier sys)) \<and>
      applier_done L (ApplierEnv C) (OfApplier before) (OfApplier after) i) \<and>
    in_last_turn L C sys DETurn ks (\<lambda>before after. \<exists>i. identity i = identity (inst (OfDE sys)) \<and>
      de_done L (DEEnv C) (OfDE before) (OfDE after) i)"
proof -
  let ?o = "turns L C ks sys" and ?w = "inst (OfWatcher sys)"
  have st: "NewHelper (watcher_sees C ?o) = None" "rbac_law (watcher_sees C ?o)"
    using stores rbac by (simp_all add: stores_resources_def sees_fields)
  obtain j where j: "OnGetInstance (watcher_sees C ?o) (trace (OfWatcher ?o) @ [GetInstance (RequestFor C WatcherTurn)]) = Inr j"
      "identity j = identity ?w"
    using watcher_loads [OF fresh stores] by (metis sees_fields(5))
  have "watcher_done L (watcher_sees C ?o) (OfWatcher ?o) (OfWatcher (turns L C (ks @ [WatcherTurn]) sys)) j"
    using watcher_Ready [OF L(1,2) st(2) j(1) st(1) prod.collapse [symmetric]] ready by simp
  moreover have "OnApplyWatcherAPI (watcher_sees C ?o) = (\<lambda>_. Inr (inst (OfAPI ?o)))"
      "OnApplyWatcherApplier (watcher_sees C ?o) = (\<lambda>_. Inr (inst (OfApplier ?o)))"
      "OnApplyWatcherDecisionEngine (watcher_sees C ?o) = (\<lambda>_. Inr (inst (OfDE ?o)))"
    by (simp_all add: watcher_sees_def)
  ultimately show ?thesis
    unfolding watcher_done_def same_prepared(6) [OF j(2)]
    using api_last_turn [OF L(1-3) timeouts(1) fresh stores] applier_last_turn [OF L timeouts(2) fresh stores]
      de_last_turn [OF L timeouts(3) fresh stores] by (elim conjE) (simp only: simp_thms)
qed

end
