(* ===== verification/Creation.thy ===== *)
theory Creation
  imports Interleaving "HOL-Library.Sublist"
begin

text \<open>
  The operator from nothing: a lone Watcher, whose services come into being by the calls its own controller
  makes. Any schedule of it does as the operator of theory Interleaving does, in which the services are
  there from the start, once the turns they had before they were created are left out. So it
  converges as well.
\<close>

section \<open>What does not depend on the sub-resources\<close>

text \<open>A cluster with other answers to the three calls that apply a service: no other block asks them.\<close>

definition with_subs ::
  "('i history \<Rightarrow> error + WatcherAPI) \<Rightarrow> ('i history \<Rightarrow> error + WatcherApplier) \<Rightarrow>
   ('i history \<Rightarrow> error + WatcherDecisionEngine) \<Rightarrow> 'i env \<Rightarrow> 'i env" where
  "with_subs api applier de E =
     E\<lparr>OnApplyWatcherAPI := api, OnApplyWatcherApplier := applier, OnApplyWatcherDecisionEngine := de\<rparr>"

lemma with_subs_fields [simp]:
  "OnGetInstance (with_subs a p d E) = OnGetInstance E" "NewHelper (with_subs a p d E) = NewHelper E"
  "OnPatchInstance (with_subs a p d E) = OnPatchInstance E"
  by (simp_all add: with_subs_def)

lemmas weak_congs = option.case_cong_weak sum.case_cong_weak flow.case_cong_weak go.case_cong_weak prod.case_cong_weak if_weak_cong

lemma blocks_same:
  "watcher_ensureRbac L (with_subs a p d E) = watcher_ensureRbac L E"
  "watcher_reconcileDelete L (with_subs a p d E) = watcher_reconcileDelete L E"
  "watcher_unused_accounts L (with_subs a p d E) = watcher_unused_accounts L E"
  by (simp_all add: with_subs_def watcher_ensureRbac_def watcher_reconcileDelete_def watcher_release_database_def
      watcher_release_keystone_def watcher_release_prometheus_def watcher_unused_accounts_def cong del: weak_congs)

lemma common_same:
  "ensureSecret L (with_subs a p d E) = ensureSecret L E"
  "GenerateConfigsGeneric (with_subs a p d E) = GenerateConfigsGeneric E"
  by (intro ext, simp add: with_subs_def ensureSecret_def GenerateConfigsGeneric_def cong del: weak_congs)+

lemma prepare_same: "watcher_prepare L (with_subs a p d E) = watcher_prepare L E"
  by (simp add: watcher_prepare_def watcher_database_def watcher_ensureDB_def watcher_create_database_def
      watcher_transport_def watcher_ensureMQ_def watcher_input_secrets_def watcher_secret_def common_same
      watcher_prometheus_def watcher_sub_level_secret_def watcher_createSubLevelSecret_def watcher_keystone_def
      watcher_ensureKeystoneSvc_def watcher_config_def watcher_generateServiceConfigDBJobs_def watcher_dbsync_def
      watcher_ensureDBSync_def watcher_cronjob_def watcher_ensureDBPurgeCronJob_def cong del: weak_congs)
    (simp add: with_subs_def cong del: weak_congs)

lemma delete_routes_same: "delete_routes L (with_subs a p d E) i svc ed rts = delete_routes L E i svc ed rts"
  by (induction rts arbitrary: ed) (simp_all add: with_subs_def cong del: weak_congs)

lemma expose_service_same: "expose_service L (with_subs a p d E) = expose_service L E"
  by (intro ext, simp add: expose_service_def ingress_tls_def pod_tls_def ensureRoute_def CreateRoute_def
      delete_routes_same CreateRoute_host_def CreateRoute_cert_def CreateRoute_tls_def CreateRoute_tls_config_def
      validate_cert_def GetRoutesListWithLabel_def Let_def cong del: weak_congs)
    (simp add: with_subs_def cong del: weak_congs)

lemma expose_same: "watcher_expose L (with_subs a p d E) = watcher_expose L E"
proof -
  have "expose_services L (with_subs a p d E) i svcs = expose_services L E i svcs" for i svcs
    by (induction svcs) (simp_all add: expose_service_same)
  then show ?thesis
    by (simp add: watcher_expose_def exposeEndpoints_def cong del: weak_congs)
      (simp add: with_subs_def cong del: weak_congs)
qed


section \<open>Runs that agree\<close>

text \<open>Two programs that do the same from every state of the Watcher \<open>w\<close>.\<close>

definition agree :: "Watcher \<Rightarrow> (Watcher st, 'a) state \<Rightarrow> (Watcher st, 'a) state \<Rightarrow> bool" where
  "agree w m m' \<longleftrightarrow> (\<forall>s. identity (inst s) = identity w \<longrightarrow> run_state m s = run_state m' s)"

lemma agreeD: "agree w m m' \<Longrightarrow> identity (inst s) = identity w \<Longrightarrow> run_state m s = run_state m' s"
  by (simp add: agree_def)

lemma agree_refl: "agree w m m"
  by (simp add: agree_def)

lemma agree_continue:
  assumes "agree w m m'" and "state_io_rel (keeps identity) m'"
    and "\<And>s x t. run_state m' s = (Next x, t) \<Longrightarrow> identity (inst s) = identity w \<Longrightarrow> agree w (f x) (f' x)"
  shows "agree w (continue m f) (continue m' f')"
  unfolding agree_def
proof (intro allI impI)
  fix s :: "Watcher st"
  assume s: "identity (inst s) = identity w"
  obtain r t where r: "run_state m' s = (r, t)" by fastforce
  have "identity (inst t) = identity w" using state_io_relD [OF assms(2) r] s by (simp add: keeps_def)
  then show "run_state (continue m f) s = run_state (continue m' f') s"
    using agreeD [OF assms(1) s] assms(3) r s by (cases r) (auto simp: run_continue agree_def)
qed

text \<open>The services as the Watcher asks for them, and answers that are the same for such a call.\<close>

definition api_key :: "Watcher \<Rightarrow> nsname" where
  "api_key w = \<lparr>NName = Name w @ ''-api'', NNamespace = Namespace w\<rparr>"

definition applier_key :: "Watcher \<Rightarrow> nsname" where
  "applier_key w = \<lparr>NName = Name w @ ''-applier'', NNamespace = Namespace w\<rparr>"

definition de_key :: "Watcher \<Rightarrow> nsname" where
  "de_key w = \<lparr>NName = Name w @ ''-decision-engine'', NNamespace = Namespace w\<rparr>"

definition same_answers :: "Watcher call \<Rightarrow> (Watcher history \<Rightarrow> 'a) \<Rightarrow> (Watcher history \<Rightarrow> 'a) \<Rightarrow> bool" where
  "same_answers c f g \<longleftrightarrow> (\<forall>h. f (h @ [c]) = g (h @ [c]))"

abbreviation api_call :: "Watcher \<Rightarrow> Watcher call" where
  "api_call w \<equiv> ApplyWatcherAPI (api_key w) (watcher_api_spec w (Name w))"

abbreviation applier_call :: "Watcher \<Rightarrow> Watcher call" where
  "applier_call w \<equiv> ApplyWatcherApplier (applier_key w) (watcher_applier_spec w (Name w))"

abbreviation de_call :: "Watcher \<Rightarrow> Watcher call" where
  "de_call w \<equiv> ApplyWatcherDecisionEngine (de_key w) (watcher_de_spec w (Name w))"

lemma derived_calls: "derived_call w c \<longleftrightarrow> c \<in> {api_call w, applier_call w, de_call w}"
  by (auto simp: derived_call_def api_key_def applier_key_def de_key_def)

lemma subs_agree:
  assumes "same_answers (api_call w) a a'" "same_answers (applier_call w) p p'" "same_answers (de_call w) d d'"
  shows "agree w (stop_on_error (watcher_ensureAPI L (with_subs a p d E) (Name w)))
      (stop_on_error (watcher_ensureAPI L (with_subs a' p' d' E) (Name w)))"
    and "agree w (stop_on_error (watcher_ensureApplier L (with_subs a p d E) (Name w)))
      (stop_on_error (watcher_ensureApplier L (with_subs a' p' d' E) (Name w)))"
    and "agree w (stop_on_error (watcher_ensureDecisionEngine L (with_subs a p d E) (Name w)))
      (stop_on_error (watcher_ensureDecisionEngine L (with_subs a' p' d' E) (Name w)))"
proof -
  have same: "watcher_api_spec (inst s) = watcher_api_spec w" "watcher_applier_spec (inst s) = watcher_applier_spec w"
      "watcher_de_spec (inst s) = watcher_de_spec w" "Name (inst s) = Name w" "Namespace (inst s) = Namespace w"
    if "identity (inst s) = identity w" for s :: "Watcher st"
    using watcher_same(6-8) [OF that] identityD [OF that] by auto
  note subs = agree_def stop_on_error_def watcher_ensureAPI_def watcher_ensureApplier_def
    watcher_ensureDecisionEngine_def with_subs_def same
  note answers = assms [unfolded same_answers_def api_key_def applier_key_def de_key_def, rule_format]
  show "agree w (stop_on_error (watcher_ensureAPI L (with_subs a p d E) (Name w)))
      (stop_on_error (watcher_ensureAPI L (with_subs a' p' d' E) (Name w)))"
    "agree w (stop_on_error (watcher_ensureApplier L (with_subs a p d E) (Name w)))
      (stop_on_error (watcher_ensureApplier L (with_subs a' p' d' E) (Name w)))"
    "agree w (stop_on_error (watcher_ensureDecisionEngine L (with_subs a p d E) (Name w)))
      (stop_on_error (watcher_ensureDecisionEngine L (with_subs a' p' d' E) (Name w)))"
    by (simp_all add: subs answers)
qed

lemma services_agree:
  assumes "same_answers (api_call w) a a'" "same_answers (applier_call w) p p'" "same_answers (de_call w) d d'"
  shows "agree w (watcher_services L (with_subs a p d E) (Name w)) (watcher_services L (with_subs a' p' d' E) (Name w))"
  unfolding watcher_services_def expose_same blocks_same
  by (intro agree_continue subs_agree [OF assms] agree_refl id_frame.frame_blocks id_frame.frame_expose TrueI)

lemma normal_agree:
  assumes "cond_laws L" "finalizer_laws L" and "same_answers (api_call w) a a'" "same_answers (applier_call w) p p'" "same_answers (de_call w) d d'"
  shows "agree w (watcher_normal L (with_subs a p d E)) (watcher_normal L (with_subs a' p' d' E))"
  unfolding watcher_normal_split prepare_same
proof (rule agree_continue)
  show "agree w (watcher_services L (with_subs a p d E) n) (watcher_services L (with_subs a' p' d' E) n)"
    if "run_state (watcher_prepare L E) s = (Next n, t)" "identity (inst s) = identity w" for s n t
    using services_agree [OF assms(3-5)] watcher_prepare_Next(2) [OF assms(1,2) that(1)] identityD(2) [OF that(2)] by simp
  show "state_io_rel (keeps identity) (watcher_prepare L E)"
    using watcher_proceeds(10) by (simp add: state_io_rel_def proceeds_def)
qed (rule agree_refl)

lemma body_agree:
  assumes "cond_laws L" "finalizer_laws L" and "same_answers (api_call w) a a'" "same_answers (applier_call w) p p'" "same_answers (de_call w) d d'"
  shows "agree w (watcher_body L (with_subs a p d E) new) (watcher_body L (with_subs a' p' d' E) new)"
proof -
  have "agree w (continue (watcher_ensureRbac L E)
        (\<lambda>_. finalizer_gate L new (watcher_reconcileDelete L E) (watcher_normal L (with_subs a p d E))))
      (continue (watcher_ensureRbac L E)
        (\<lambda>_. finalizer_gate L new (watcher_reconcileDelete L E) (watcher_normal L (with_subs a' p' d' E))))"
    by (rule agree_continue [OF agree_refl rbac_frames(1)])
      (use normal_agree [OF assms] in \<open>auto simp: agree_def run_finalizer_gate Let_def split: prod.split\<close>)
  then show ?thesis by (auto simp: agree_def watcher_body_def blocks_same watcher_init_fields)
qed

lemma reconcile_agrees:
  assumes "cond_laws L" "finalizer_laws L" and "same_answers (api_call w) a a'" "same_answers (applier_call w) p p'" "same_answers (de_call w) d d'"
    and "OnGetInstance E (trace s @ [GetInstance req]) = Inr j" "identity j = identity w"
  shows "run_state (watcher_Reconcile L (with_subs a p d E) req) s =
    run_state (watcher_Reconcile L (with_subs a' p' d' E) req) s"
proof -
  let ?s = "s\<lparr>trace := trace s @ [GetInstance req], inst := j\<rparr>"
  note body = agreeD [OF body_agree [OF assms(1-5)], of ?s]
  have "run_state (outcome (watcher_body L (with_subs a p d E) new)) ?s =
      run_state (outcome (watcher_body L (with_subs a' p' d' E) new)) ?s" for new
    using body assms(7) by (simp add: outcome_def)
  then have "run_state (patch_on_exit L (with_subs a p d E) cs (outcome (watcher_body L (with_subs a p d E) new)))
        ?s =
      run_state (patch_on_exit L (with_subs a' p' d' E) cs (outcome (watcher_body L (with_subs a' p' d' E) new)))
        ?s" for cs new
    by (simp add: patch_on_exit_def)
  then show ?thesis
    using assms(6) by (simp add: watcher_Reconcile_def split: option.split)
qed


section \<open>Creating a service\<close>

text \<open>
  \<open>controllerutil.CreateOrPatch\<close> on the API server's side: a resource that is not there is created in its
  first generation with the status nobody has written yet, one that is there gets the spec, and a new
  generation when that changes it. The identifiers are the server's.
\<close>

type_synonym uids = "string \<Rightarrow> nsname \<Rightarrow> string"

definition created :: "uids \<Rightarrow> string \<Rightarrow> nsname \<Rightarrow> 'spec \<Rightarrow> 'spec sub_cr" where
  "created u kind n spec =
     \<lparr>Kind = kind, Name = NName n, Namespace = NNamespace n, UID = u kind n, Generation = 1, DeletionTimestamp = None,
      Finalizers = [], Spec = spec, Conditions = None, Hash = None, ObservedGeneration = 0, ReadyCount = 0\<rparr>"

definition patched :: "'spec \<Rightarrow> 'spec sub_cr \<Rightarrow> 'spec sub_cr" where
  "patched spec i = (if Spec i = spec then i else i\<lparr>Spec := spec, Generation := Generation i + 1\<rparr>)"

text \<open>The call answered, and its effect on what is there: a service with the history of its own reconciles.\<close>

type_synonym 'spec request = "Watcher call \<Rightarrow> (nsname \<times> 'spec) option"

definition create_or_patch ::
  "uids \<Rightarrow> string \<Rightarrow> nsname \<Rightarrow> 'spec \<Rightarrow> 'spec sub_cr st option \<Rightarrow> 'spec sub_cr st" where
  "create_or_patch u kind n spec x =
     (case x of
        None \<Rightarrow> \<lparr>inst = created u kind n spec, trace = []\<rparr>
      | Some s \<Rightarrow> s\<lparr>inst := patched spec (inst s)\<rparr>)"

definition applied ::
  "uids \<Rightarrow> string \<Rightarrow> 'spec request \<Rightarrow> Watcher call \<Rightarrow> 'spec sub_cr st option \<Rightarrow> 'spec sub_cr st option" where
  "applied u kind asked c x =
     (case asked c of None \<Rightarrow> x | Some (n, spec) \<Rightarrow> Some (create_or_patch u kind n spec x))"

definition apply_answer ::
  "uids \<Rightarrow> string \<Rightarrow> 'spec request \<Rightarrow> 'spec sub_cr st option \<Rightarrow> (Watcher history \<Rightarrow> error + 'spec sub_cr) \<Rightarrow>
   Watcher history \<Rightarrow> error + 'spec sub_cr" where
  "apply_answer u kind asked x other h =
     (case asked (last h) of None \<Rightarrow> other h | Some (n, spec) \<Rightarrow> Inr (inst (create_or_patch u kind n spec x)))"

definition after_calls ::
  "uids \<Rightarrow> string \<Rightarrow> 'spec request \<Rightarrow> Watcher history \<Rightarrow> 'spec sub_cr st option \<Rightarrow> 'spec sub_cr st option" where
  "after_calls u kind asked cs x = fold (applied u kind asked) cs x"

text \<open>The state of the service is that of \<open>s\<close>, or it is not there yet and \<open>s\<close> is what will be created.\<close>

definition tracked :: "uids \<Rightarrow> string \<Rightarrow> nsname \<Rightarrow> 'spec \<Rightarrow> 'spec sub_cr st option \<Rightarrow> 'spec sub_cr st \<Rightarrow> bool" where
  "tracked u kind n spec x s \<longleftrightarrow> Spec (inst s) = spec \<and>
     (case x of None \<Rightarrow> s = \<lparr>inst = created u kind n spec, trace = []\<rparr> | Some t \<Rightarrow> s = t)"

lemma applied_tracked:
  "tracked u kind n spec x s \<Longrightarrow> asked c \<in> {None, Some (n, spec)} \<Longrightarrow> tracked u kind n spec (applied u kind asked c x) s"
  by (auto simp: tracked_def applied_def create_or_patch_def patched_def created_def split: option.splits)

lemma answer_tracked:
  "tracked u kind n spec x s \<Longrightarrow> asked c = Some (n, spec) \<Longrightarrow> apply_answer u kind asked x other (h @ [c]) = Inr (inst s)"
  by (auto simp: tracked_def apply_answer_def create_or_patch_def patched_def created_def split: option.splits)

lemma after_calls_tracked:
  "tracked u kind n spec x s \<Longrightarrow> \<forall>c \<in> set cs. asked c \<in> {None, Some (n, spec)} \<Longrightarrow>
    tracked u kind n spec (after_calls u kind asked cs x) s"
  by (induction cs arbitrary: x) (simp_all add: after_calls_def applied_tracked)

lemma after_calls_None: "after_calls u kind asked cs x = None \<longleftrightarrow> x = None \<and> (\<forall>c \<in> set cs. asked c = None)"
  by (induction cs arbitrary: x) (auto simp: after_calls_def applied_def split: option.split)

section \<open>The operator from a lone Watcher\<close>

record rollout =
  RoWatcher :: "Watcher st"
  RoAPI :: "WatcherAPI st option"
  RoApplier :: "WatcherApplier st option"
  RoDE :: "WatcherDecisionEngine st option"

definition asks_api :: "WatcherAPISpec request" where
  "asks_api c = (case c of ApplyWatcherAPI n spec \<Rightarrow> Some (n, spec) | _ \<Rightarrow> None)"

definition asks_applier :: "WatcherApplierSpec request" where
  "asks_applier c = (case c of ApplyWatcherApplier n spec \<Rightarrow> Some (n, spec) | _ \<Rightarrow> None)"

definition asks_de :: "WatcherDecisionEngineSpec request" where
  "asks_de c = (case c of ApplyWatcherDecisionEngine n spec \<Rightarrow> Some (n, spec) | _ \<Rightarrow> None)"

definition watcher_meets :: "uids \<Rightarrow> cluster \<Rightarrow> rollout \<Rightarrow> Watcher env" where
  "watcher_meets u C r = with_subs
     (apply_answer u ''WatcherAPI'' asks_api (RoAPI r) (OnApplyWatcherAPI (WatcherEnv C)))
     (apply_answer u ''WatcherApplier'' asks_applier (RoApplier r) (OnApplyWatcherApplier (WatcherEnv C)))
     (apply_answer u ''WatcherDecisionEngine'' asks_de (RoDE r) (OnApplyWatcherDecisionEngine (WatcherEnv C)))
     (WatcherEnv C)"

text \<open>
  A turn of the Watcher leaves behind what its calls created; a service that is not there has no turns.
\<close>

fun rollout_turn :: "lib \<Rightarrow> uids \<Rightarrow> cluster \<Rightarrow> controller \<Rightarrow> rollout \<Rightarrow> rollout" where
  "rollout_turn L u C WatcherTurn r =
     (let t = snd (run_state (watcher_Reconcile L (watcher_meets u C r) (RequestFor C WatcherTurn)) (RoWatcher r));
          cs = drop (length (trace (RoWatcher r))) (trace t)
      in \<lparr>RoWatcher = t, RoAPI = after_calls u ''WatcherAPI'' asks_api cs (RoAPI r),
          RoApplier = after_calls u ''WatcherApplier'' asks_applier cs (RoApplier r),
          RoDE = after_calls u ''WatcherDecisionEngine'' asks_de cs (RoDE r)\<rparr>)"
| "rollout_turn L u C APITurn r =
     r\<lparr>RoAPI := map_option (\<lambda>s. snd (run_state (api_Reconcile L (APIEnv C) (RequestFor C APITurn)) s)) (RoAPI r)\<rparr>"
| "rollout_turn L u C ApplierTurn r =
     r\<lparr>RoApplier := map_option (\<lambda>s. snd (run_state (applier_Reconcile L (ApplierEnv C) (RequestFor C ApplierTurn)) s)) (RoApplier r)\<rparr>"
| "rollout_turn L u C DETurn r =
     r\<lparr>RoDE := map_option (\<lambda>s. snd (run_state (de_Reconcile L (DEEnv C) (RequestFor C DETurn)) s)) (RoDE r)\<rparr>"

definition rollout_turns :: "lib \<Rightarrow> uids \<Rightarrow> cluster \<Rightarrow> controller list \<Rightarrow> rollout \<Rightarrow> rollout" where
  "rollout_turns L u C ks r = fold (rollout_turn L u C) ks r"

lemma rollout_turns_simps [simp]:
  "rollout_turns L u C [] r = r" "rollout_turns L u C (ks @ ks') r = rollout_turns L u C ks' (rollout_turns L u C ks r)"
  "rollout_turns L u C (k # ks) r = rollout_turns L u C ks (rollout_turn L u C k r)"
  by (simp_all add: rollout_turns_def)

definition lone_watcher :: "Watcher \<Rightarrow> rollout" where
  "lone_watcher w = \<lparr>RoWatcher = \<lparr>inst = w, trace = []\<rparr>, RoAPI = None, RoApplier = None, RoDE = None\<rparr>"

text \<open>The operator it stands for: the three services as the Watcher creates them, none reconciled yet.\<close>

definition all_created :: "uids \<Rightarrow> Watcher \<Rightarrow> operator" where
  "all_created u w =
     \<lparr>OfWatcher = \<lparr>inst = w, trace = []\<rparr>,
      OfAPI = \<lparr>inst = created u ''WatcherAPI'' (api_key w) (watcher_api_spec w (Name w)), trace = []\<rparr>,
      OfApplier = \<lparr>inst = created u ''WatcherApplier'' (applier_key w) (watcher_applier_spec w (Name w)), trace = []\<rparr>,
      OfDE = \<lparr>inst = created u ''WatcherDecisionEngine'' (de_key w) (watcher_de_spec w (Name w)), trace = []\<rparr>\<rparr>"

definition mirrors :: "uids \<Rightarrow> Watcher \<Rightarrow> rollout \<Rightarrow> operator \<Rightarrow> bool" where
  "mirrors u w r sys \<longleftrightarrow> RoWatcher r = OfWatcher sys \<and>
     tracked u ''WatcherAPI'' (api_key w) (watcher_api_spec w (Name w)) (RoAPI r) (OfAPI sys) \<and>
     tracked u ''WatcherApplier'' (applier_key w) (watcher_applier_spec w (Name w)) (RoApplier r) (OfApplier sys) \<and>
     tracked u ''WatcherDecisionEngine'' (de_key w) (watcher_de_spec w (Name w)) (RoDE r) (OfDE sys)"

lemma lone_mirrors: "mirrors u w (lone_watcher w) (all_created u w)"
  by (simp add: mirrors_def lone_watcher_def all_created_def tracked_def created_def)

text \<open>The Watcher's calls ask for these services and no others.\<close>

lemma watcher_derives:
  assumes L: "cond_laws L" "finalizer_laws L"
    and load: "OnGetInstance E (trace s @ [GetInstance req]) = Inr i" and helper: "NewHelper E = None"
    and run: "run_state (watcher_Reconcile L E req) s = (r, t)"
  shows "extends (\<lambda>c. sub_call c \<longrightarrow> derived_call i c) s t"
proof -
  let ?s0 = "\<lparr>inst = i, trace = trace s @ [GetInstance req]\<rparr>"
  obtain b u where b: "run_state (watcher_body L E (Conditions i = None)) ?s0 = (b, u)" by fastforce
  have t: "trace t = trace u @ [PatchInstance (inst t)]"
    using watcher.loaded(1) [OF load helper b] run by simp
  have free: "extends (\<lambda>c. sub_call c \<longrightarrow> derived_call i c) x y" if "extends sub_free x y" for x y
    by (rule extends_mono [OF that]) (simp add: sub_free_def)
  have e0: "extends sub_free s ?s0" and eu: "extends sub_free u t"
    by (simp_all add: t extends_def sub_free_def sub_call_def)
  from b have "extends (\<lambda>c. sub_call c \<longrightarrow> derived_call i c) ?s0 u"
  proof (cases rule: watcher_body_cases)
    case before
    then show ?thesis by (rule free)
  next
    case (prepared s2 m n)
    have i2: "identity (inst s2) = identity i" using prepared(2) by simp
    have n: "n = Name i" and im: "identity (inst m) = identity i"
      using watcher_prepare_Next(2) [OF L prepared(3)] identityD [OF i2]
        proceedsD(2) [OF state_io_relD [OF watcher_proceeds(10) prepared(3)]] i2 by simp_all
    have "extends (\<lambda>c. sub_call c \<longrightarrow> derived_call i c) m u"
      using state_io_relD [OF watcher_services_applies prepared(4) [unfolded n]] im by (simp add: applies_def)
    moreover have "extends sub_free ?s0 m"
      by (rule extends_trans [OF prepared(1) state_io_relD [OF watcher_prepare_calls prepared(3)]])
    ultimately show ?thesis using free extends_trans by blast
  qed
  then show ?thesis using free [OF e0] free [OF eu] extends_trans by blast
qed


lemma asks_derived:
  assumes "sub_call c \<longrightarrow> derived_call w c"
  shows "asks_api c \<in> {None, Some (api_key w, watcher_api_spec w (Name w))}"
    "asks_applier c \<in> {None, Some (applier_key w, watcher_applier_spec w (Name w))}"
    "asks_de c \<in> {None, Some (de_key w, watcher_de_spec w (Name w))}"
  using assms by (auto simp: asks_api_def asks_applier_def asks_de_def sub_call_def derived_calls split: call.splits)

lemma same_calls: "identity j = identity w \<Longrightarrow> derived_call j = derived_call w"
  using watcher_same(6-8) [of j w] identityD [of j w] by (intro ext) (auto simp: derived_call_def)

section \<open>It does as if the services had been there\<close>

text \<open>What the answers differ in, the Watcher does not ask.\<close>

lemma meets_as_seen:
  assumes "mirrors u w r sys"
  shows "same_answers (api_call w) (apply_answer u ''WatcherAPI'' asks_api (RoAPI r) a) (\<lambda>_. Inr (inst (OfAPI sys)))"
    "same_answers (applier_call w) (apply_answer u ''WatcherApplier'' asks_applier (RoApplier r) p)
      (\<lambda>_. Inr (inst (OfApplier sys)))"
    "same_answers (de_call w) (apply_answer u ''WatcherDecisionEngine'' asks_de (RoDE r) d)
      (\<lambda>_. Inr (inst (OfDE sys)))"
  using assms
  by (auto simp: same_answers_def mirrors_def asks_api_def asks_applier_def asks_de_def intro!: answer_tracked)

lemma watcher_turn_mirrors:
  assumes L: "cond_laws L" "finalizer_laws L" and m: "mirrors u w r sys" and helper: "NewHelper (WatcherEnv C) = None"
    and load: "OnGetInstance (WatcherEnv C) (trace (OfWatcher sys) @ [GetInstance (RequestFor C WatcherTurn)]) = Inr j"
      "identity j = identity w"
  shows "mirrors u w (rollout_turn L u C WatcherTurn r) (turn L C WatcherTurn sys)"
proof -
  have start: "RoWatcher r = OfWatcher sys" using m by (simp add: mirrors_def)
  have same: "run_state (watcher_Reconcile L (watcher_meets u C r) (RequestFor C WatcherTurn)) (OfWatcher sys) =
      run_state (watcher_Reconcile L (watcher_sees C sys) (RequestFor C WatcherTurn)) (OfWatcher sys)"
    using reconcile_agrees [OF L meets_as_seen [OF m] load]
    by (simp add: watcher_meets_def watcher_sees_def with_subs_def)
  let ?t = "snd (run_state (watcher_Reconcile L (watcher_sees C sys) (RequestFor C WatcherTurn)) (OfWatcher sys))"
  have "extends (\<lambda>c. sub_call c \<longrightarrow> derived_call w c) (OfWatcher sys) ?t"
    using watcher_derives [OF L, of "watcher_sees C sys" "OfWatcher sys" "RequestFor C WatcherTurn" j, OF _ _ prod.collapse [symmetric]]
      load helper same_calls [OF load(2)] by (simp add: sees_fields)
  then obtain cs where cs: "trace ?t = trace (OfWatcher sys) @ cs" "\<forall>c \<in> set cs. sub_call c \<longrightarrow> derived_call w c"
    unfolding extends_def by blast
  have asks: "\<forall>c \<in> set cs. asks_api c \<in> {None, Some (api_key w, watcher_api_spec w (Name w))}"
    "\<forall>c \<in> set cs. asks_applier c \<in> {None, Some (applier_key w, watcher_applier_spec w (Name w))}"
    "\<forall>c \<in> set cs. asks_de c \<in> {None, Some (de_key w, watcher_de_spec w (Name w))}"
    using cs(2) asks_derived by blast+
  show ?thesis
    using m asks by (simp add: mirrors_def start same cs(1) after_calls_tracked)
qed


text \<open>The services keep the spec they were created with.\<close>

context reconciler
begin

lemma keeps_identity:
  assumes cluster: "stores_resource E (inst s)" "NewHelper E = None" "trace s = []"
  shows "identity (inst (nth_reconcile (reconcile E req) s n)) = identity (inst s)"
proof (cases n)
  case (Suc m)
  have "identity (inst (nth_reconcile (reconcile E req) s (Suc m))) = identity (inst s)"
    by (rule stays [OF cluster]) (use patches_last(2) [OF _ cluster(2) prod.collapse [symmetric]] in auto)
  then show ?thesis by (simp only: Suc)
qed simp

end

lemma services_keep_spec:
  assumes stores: "stores_resources C sys" and fresh: "fresh_operator sys"
  shows "Spec (inst (OfAPI (turns L C ks sys))) = Spec (inst (OfAPI sys))"
    and "Spec (inst (OfApplier (turns L C ks sys))) = Spec (inst (OfApplier sys))"
    and "Spec (inst (OfDE (turns L C ks sys))) = Spec (inst (OfDE sys))"
  using stores api.keeps_identity [of "APIEnv C" "OfAPI sys"] applier.keeps_identity [of "ApplierEnv C" "OfApplier sys"]
    de.keeps_identity [of "DEEnv C" "OfDE sys"] fresh_services(2-4) [OF fresh]
  by (simp_all add: services_after stores_resources_def identity_def)

section \<open>Every schedule\<close>

fun present :: "controller \<Rightarrow> rollout \<Rightarrow> bool" where
  "present WatcherTurn r = True"
| "present APITurn r = (RoAPI r \<noteq> None)"
| "present ApplierTurn r = (RoApplier r \<noteq> None)"
| "present DETurn r = (RoDE r \<noteq> None)"

definition new_watcher :: "Watcher \<Rightarrow> bool" where
  "new_watcher w \<longleftrightarrow> DeletionTimestamp w = None \<and> Conditions w = None \<and> Generation w \<noteq> ObservedGeneration w"

lemma all_created_fresh: "new_watcher w \<Longrightarrow> fresh_operator (all_created u w)"
  by (simp add: fresh_operator_def fresh_resource_def all_created_def created_def new_watcher_def api_key_def
      applier_key_def de_key_def)

lemma all_created_parts:
  "Spec (inst (OfAPI (all_created u w))) = watcher_api_spec w (Name w)"
  "Spec (inst (OfApplier (all_created u w))) = watcher_applier_spec w (Name w)"
  "Spec (inst (OfDE (all_created u w))) = watcher_de_spec w (Name w)"
  "inst (OfWatcher (all_created u w)) = w"
  by (simp_all add: all_created_def created_def)

lemma turn_present: "present k' r \<Longrightarrow> present k' (rollout_turn L u C k r)"
  by (cases k; cases k') (auto simp: Let_def after_calls_None simp flip: not_None_eq)

text \<open>One turn of a controller whose resource is there is a turn there too; any other changes nothing.\<close>

lemma turn_mirrors:
  assumes L: "cond_laws L" "finalizer_laws L" and new: "new_watcher w" and stores: "stores_resources C (all_created u w)"
    and m: "mirrors u w r (turns L C ks (all_created u w))"
  shows "present k r \<Longrightarrow> mirrors u w (rollout_turn L u C k r) (turns L C (ks @ [k]) (all_created u w))"
    and "\<not> present k r \<Longrightarrow> rollout_turn L u C k r = r"
proof -
  let ?sys = "all_created u w"
  note fresh = all_created_fresh [OF new]
  have spec: "Spec (inst (OfAPI (turns L C xs ?sys))) = watcher_api_spec w (Name w)"
    "Spec (inst (OfApplier (turns L C xs ?sys))) = watcher_applier_spec w (Name w)"
    "Spec (inst (OfDE (turns L C xs ?sys))) = watcher_de_spec w (Name w)" for xs
    using services_keep_spec [OF stores fresh, of L xs] by (simp_all add: all_created_parts)
  show "mirrors u w (rollout_turn L u C k r) (turns L C (ks @ [k]) ?sys)" if "present k r"
  proof (cases k)
    case WatcherTurn
    obtain j where "OnGetInstance (WatcherEnv C) (trace (OfWatcher (turns L C ks ?sys)) @ [GetInstance (RequestFor C WatcherTurn)]) = Inr j"
        "identity j = identity w"
      using watcher_loads [OF fresh stores, of L ks "RequestFor C WatcherTurn"] unfolding all_created_parts by blast
    from watcher_turn_mirrors [OF L m _ this] stores show ?thesis by (simp add: WatcherTurn stores_resources_def)
  qed (use that m spec [of "ks @ [k]"] in \<open>auto simp: mirrors_def tracked_def\<close>)
  show "rollout_turn L u C k r = r" if "\<not> present k r" using that by (cases k) auto
qed


lemma rollout_mirrors:
  assumes L: "cond_laws L" "finalizer_laws L" and new: "new_watcher w" and stores: "stores_resources C (all_created u w)"
    and m: "mirrors u w r (turns L C ks0 (all_created u w))"
  shows "\<exists>ks'. subseq ks' ks \<and> mirrors u w (rollout_turns L u C ks r) (turns L C (ks0 @ ks') (all_created u w)) \<and>
    (\<forall>k. present k r \<longrightarrow> count_list ks' k = count_list ks k)"
  using m
proof (induction ks arbitrary: r ks0)
  case Nil
  then show ?case by (intro exI [of _ "[]"]) simp
next
  case (Cons k ks)
  note step = turn_mirrors [OF L new stores Cons.prems]
  show ?case
  proof (cases "present k r")
    case True
    from Cons.IH [OF step(1) [OF True]] obtain ks' where "subseq ks' ks"
        "mirrors u w (rollout_turns L u C ks (rollout_turn L u C k r)) (turns L C ((ks0 @ [k]) @ ks') (all_created u w))"
        "\<forall>k'. present k' (rollout_turn L u C k r) \<longrightarrow> count_list ks' k' = count_list ks k'" by blast
    then show ?thesis using turn_present by (intro exI [of _ "k # ks'"]) auto
  next
    case False
    from Cons.IH [OF Cons.prems] obtain ks' where "subseq ks' ks"
        "mirrors u w (rollout_turns L u C ks r) (turns L C (ks0 @ ks') (all_created u w))"
        "\<forall>k'. present k' r \<longrightarrow> count_list ks' k' = count_list ks k'" by blast
    then show ?thesis using False step(2) by (intro exI [of _ ks']) auto
  qed
qed

text \<open>Once all are there it is the same schedule.\<close>

lemma rollout_same:
  assumes L: "cond_laws L" "finalizer_laws L" and new: "new_watcher w" and stores: "stores_resources C (all_created u w)"
    and m: "mirrors u w r (turns L C ks0 (all_created u w))" and there: "\<And>k. present k r"
  shows "mirrors u w (rollout_turns L u C ks r) (turns L C (ks0 @ ks) (all_created u w)) \<and>
    (\<forall>k. present k (rollout_turns L u C ks r))"
  using m there
proof (induction ks arbitrary: r ks0)
  case (Cons k ks)
  from Cons.IH [OF turn_mirrors(1) [OF L new stores Cons.prems]] Cons.prems(2) turn_present show ?case by simp
qed simp

text \<open>
  C6. Whatever the cluster answers and whatever the schedule, an operator that starts from a lone Watcher is
  in the state of one whose three services had been there from the start, as the Watcher's spec
  derives them, and whose schedule leaves out some turns of services not yet created: the same Watcher with the same
  calls, and every service that exists with the same status and history.
\<close>

theorem rollout_refines_operator:
  assumes "cond_laws L" "finalizer_laws L" and "new_watcher w" and "stores_resources C (all_created u w)"
  shows "\<exists>ks'. subseq ks' ks \<and> count_list ks' WatcherTurn = count_list ks WatcherTurn \<and>
    mirrors u w (rollout_turns L u C ks (lone_watcher w)) (turns L C ks' (all_created u w))"
  using rollout_mirrors [OF assms, of "lone_watcher w" "[]" ks] lone_mirrors [of u w] by auto

section \<open>In a healthy cluster they get created\<close>

text \<open>A settled Watcher gets to its services, and asks for all three whether they are ready or not.\<close>

lemma goes_prepare:
  assumes healthy: "healthy_for_watcher L E i" and L: "cond_laws L"
  shows "\<exists>us. goes Finalizers i us (watcher_prepare L E) (Name i)"
proof -
  from healthy obtain db name where h: "hashes_work L" "database_works E i db" "transport_works E i name"
      "secrets_work E i" "jobs_work L E i"
    unfolding healthy_for_watcher_def by (elim conjE exE)
  obtain isec tsec where inputs: "goes Finalizers i {} (watcher_input_secrets L E name) (isec, tsec)"
    using goes_input_secrets [OF h(4,3,1)] by fast
  show ?thesis
    unfolding watcher_prepare_def
    by - (rule exI, rule goes_then, rule goes_database [OF h(2) L], rule goes_then, rule goes_transport [OF h(3) L],
        rule goes_then, rule inputs, simp only: prod.case, rule goes_then,
        rule goes_watcher_prometheus [OF h(4,1)], rule goes_then, rule goes_sub_level_secret [OF h(4) L],
        rule goes_then, rule goes_keystone [OF h(5) L], rule goes_then, rule goes_watcher_config [OF h(4) L],
        rule goes_then, rule goes_dbsync [OF h(5) L], rule goes_then, rule goes_cronjob [OF h(5) L],
        rule goes_return, (rule refl)+)
qed


text \<open>The calls a run adds.\<close>

definition new_calls :: "'i st \<Rightarrow> 'i st \<Rightarrow> 'i history" where
  "new_calls s t = drop (length (trace s)) (trace t)"

definition answers_subs :: "Watcher env \<Rightarrow> Watcher \<Rightarrow> bool" where
  "answers_subs E w \<longleftrightarrow> (\<forall>h. \<exists>x. OnApplyWatcherAPI E (h @ [api_call w]) = Inr x) \<and>
     (\<forall>h. \<exists>x. OnApplyWatcherApplier E (h @ [applier_call w]) = Inr x) \<and>
     (\<forall>h. \<exists>x. OnApplyWatcherDecisionEngine E (h @ [de_call w]) = Inr x)"

definition makes :: "Watcher \<Rightarrow> Watcher call \<Rightarrow> (Watcher st, unit flow) state \<Rightarrow> bool" where
  "makes w c m \<longleftrightarrow> (\<forall>s. identity (inst s) = identity w \<longrightarrow>
     (\<exists>t. run_state m s = (Next (), t) \<and> identity (inst t) = identity w \<and> trace t = trace s @ [c]))"

lemma ensure_makes:
  assumes "answers_subs E w"
  shows "makes w (api_call w) (stop_on_error (watcher_ensureAPI L E (Name w)))"
    "makes w (applier_call w) (stop_on_error (watcher_ensureApplier L E (Name w)))"
    "makes w (de_call w) (stop_on_error (watcher_ensureDecisionEngine L E (Name w)))"
proof -
  have same: "watcher_api_spec (inst s) = watcher_api_spec w" "watcher_applier_spec (inst s) = watcher_applier_spec w"
      "watcher_de_spec (inst s) = watcher_de_spec w" "Name (inst s) = Name w" "Namespace (inst s) = Namespace w"
    if "identity (inst s) = identity w" for s :: "Watcher st"
    using watcher_same(6-8) [OF that] identityD [OF that] by auto
  obtain a p d where answers: "\<And>h. OnApplyWatcherAPI E (h @ [api_call w]) = Inr (a h)"
      "\<And>h. OnApplyWatcherApplier E (h @ [applier_call w]) = Inr (p h)"
      "\<And>h. OnApplyWatcherDecisionEngine E (h @ [de_call w]) = Inr (d h)"
    using assms unfolding answers_subs_def by metis
  note defs = makes_def stop_on_error_def watcher_ensureAPI_def watcher_ensureApplier_def
    watcher_ensureDecisionEngine_def mirror_sub_def same
    answers [unfolded api_key_def applier_key_def de_key_def] api_key_def applier_key_def de_key_def
  show "makes w (api_call w) (stop_on_error (watcher_ensureAPI L E (Name w)))"
    "makes w (applier_call w) (stop_on_error (watcher_ensureApplier L E (Name w)))"
    "makes w (de_call w) (stop_on_error (watcher_ensureDecisionEngine L E (Name w)))"
    by (auto simp: defs split: option.split)
qed


lemma services_make:
  assumes answers: "answers_subs E w" and expose: "goes Finalizers w us (watcher_expose L E) ()"
    and s: "identity (inst s) = identity w" and run: "run_state (watcher_services L E (Name w)) s = (b, u)"
  shows "extends (\<lambda>_. True) s u" and "{api_call w, applier_call w, de_call w} \<subseteq> set (new_calls s u)"
proof -
  note make = ensure_makes [OF answers]
  obtain s1 where 1: "run_state (stop_on_error (watcher_ensureAPI L E (Name w))) s = (Next (), s1)"
      "identity (inst s1) = identity w" "trace s1 = trace s @ [api_call w]"
    using make(1) s unfolding makes_def by blast
  obtain s2 where 2: "run_state (watcher_expose L E) s1 = (Next (), s2)" "identity (inst s2) = identity w"
    using goesE [OF expose 1(2)] by blast
  obtain s3 where 3: "run_state (stop_on_error (watcher_ensureDecisionEngine L E (Name w))) s2 = (Next (), s3)"
      "identity (inst s3) = identity w" "trace s3 = trace s2 @ [de_call w]"
    using make(3) 2(2) unfolding makes_def by blast
  obtain s4 where 4: "run_state (stop_on_error (watcher_ensureApplier L E (Name w))) s3 = (Next (), s4)"
      "trace s4 = trace s3 @ [applier_call w]"
    using make(2) 3(2) unfolding makes_def by blast
  have rest: "run_state (continue (watcher_unused_accounts L E) (\<lambda>_. finish_reconcile L)) s4 = (b, u)"
    using run by (simp add: watcher_services_def run_continue 1(1) 2(1) 3(1) 4(1))
  have "state_io_rel proceeds (continue (watcher_unused_accounts L E) (\<lambda>_. finish_reconcile L))"
    by (intro proc.rel_continue watcher_proceeds)
  from proceedsD(1) [OF state_io_relD [OF this rest]] proceedsD(1) [OF state_io_relD [OF watcher_proceeds(12) 2(1)]]
  obtain tr tr' where "trace u = trace s4 @ tr" "trace s2 = trace s1 @ tr'"
    unfolding extends_def by blast
  then have "trace u = trace s @ (api_call w # tr' @ de_call w # applier_call w # tr)"
    using 1(3) 3(3) 4(2) by simp
  then show "extends (\<lambda>_. True) s u" and "{api_call w, applier_call w, de_call w} \<subseteq> set (new_calls s u)"
    by (simp_all add: extends_def new_calls_def)
qed

lemma watcher_makes:
  assumes L: "cond_laws L" "finalizer_laws L" "init_law L" and live: "DeletionTimestamp w = None"
    and healthy: "healthy_for_watcher L E w" and answers: "answers_subs E w"
    and j: "settled L watcher_types w j" and load: "OnGetInstance E (trace s @ [GetInstance req]) = Inr j"
  shows "{api_call w, applier_call w, de_call w} \<subseteq> set (new_calls s (snd (run_state (watcher_Reconcile L E req) s)))"
proof -
  have helper: "NewHelper E = None" and rbac: "rbac_works E" using healthy by (simp_all add: healthy_for_watcher_def)
  from healthy obtain svcs where h: "routes_work E" "\<forall>h. OnGetServices E h = Inr svcs" "ingress_certs E w svcs"
      "hasPublicServiceSecretName w \<longrightarrow> hasIngressTLS w"
    unfolding healthy_for_watcher_def by blast
  obtain k tr b u where k: "watcher_start L j k" and b: "run_state (watcher_normal L E) \<lparr>inst = k, trace = tr\<rparr> = (b, u)"
    and before: "extends (\<lambda>_. True) s \<lparr>inst = k, trace = tr\<rparr>"
    and after: "extends (\<lambda>_. True) u (snd (run_state (watcher_Reconcile L E req) s))"
    by (rule watcher_settled_run [OF L live helper rbac j load])
  let ?k = "\<lparr>inst = k, trace = tr\<rparr>"
  have k_id: "identity (inst ?k) = identity w" using j k by (simp add: watcher_start_def settled_def)
  obtain us where prepare: "goes Finalizers w us (watcher_prepare L E) (Name w)" using goes_prepare [OF healthy L(1)] by blast
  obtain m where m: "run_state (watcher_prepare L E) ?k = (Next (Name w), m)" "identity (inst m) = identity w"
    using goesE [OF prepare k_id] by blast
  have "run_state (watcher_services L E (Name w)) m = (b, u)"
    using b by (simp add: watcher_normal_split run_continue m(1))
  note made = services_make [OF answers goes_watcher_expose [OF skips_expose [OF h] L(1)] m(2) this]
  obtain tr' where "trace m = trace s @ tr'"
    using extends_trans [OF before proceedsD(1) [OF state_io_relD [OF watcher_proceeds(10) m(1)]]] by (auto simp: extends_def)
  with made after show ?thesis by (auto simp: new_calls_def extends_def)
qed


lemma all_present:
  assumes "{api_call w, applier_call w, de_call w} \<subseteq> set (new_calls (RoWatcher r)
      (snd (run_state (watcher_Reconcile L (watcher_meets u C r) (RequestFor C WatcherTurn)) (RoWatcher r))))"
    (is "_ \<subseteq> set ?cs")
  shows "present k (rollout_turn L u C WatcherTurn r)"
proof -
  have "\<exists>c \<in> set ?cs. asks_api c \<noteq> None" "\<exists>c \<in> set ?cs. asks_applier c \<noteq> None" "\<exists>c \<in> set ?cs. asks_de c \<noteq> None"
    using assms by (auto simp: asks_api_def asks_applier_def asks_de_def
        intro: bexI [of _ "api_call w"] bexI [of _ "applier_call w"] bexI [of _ "de_call w"])
  then show ?thesis by (cases k) (simp_all add: Let_def new_calls_def after_calls_None del: not_None_eq)
qed

lemma meets_fields:
  "healthy_for_watcher L (watcher_meets u C r) w = healthy_for_watcher L (WatcherEnv C) w"
  "OnGetInstance (watcher_meets u C r) = OnGetInstance (WatcherEnv C)"
  "answers_subs (watcher_meets u C r) w"
  by (simp_all add: watcher_meets_def with_subs_def answers_subs_def apply_answer_def asks_api_def asks_applier_def
      asks_de_def healthy_for_watcher_def rbac_works_def database_works_def transport_works_def secrets_work_def
      jobs_work_def routes_work_def ingress_certs_def offers_def cong: option.case_cong)

text \<open>Two turns of the Watcher are enough: the first gives it its finalizer and its conditions.\<close>

lemma rollout_creates:
  assumes L: "cond_laws L" "finalizer_laws L" "init_law L" and new: "new_watcher w"
    and stores: "stores_resources C (all_created u w)" and healthy: "healthy_for_watcher L (WatcherEnv C) w"
    and m: "mirrors u w r (turns L C ks (all_created u w))" and turned: "WatcherTurn \<in> set ks"
  shows "present k (rollout_turn L u C WatcherTurn r)"
proof -
  have rbac: "rbac_works (WatcherEnv C)" using healthy by (simp add: healthy_for_watcher_def)
  have same: "OfWatcher (turns L C ks (all_created u w)) = RoWatcher r" using m by (simp add: mirrors_def)
  note t = watcher_through [OF L all_created_fresh [OF new] stores rbac turned, unfolded all_created_parts same]
  have live: "DeletionTimestamp w = None" using new by (simp add: new_watcher_def)
  show ?thesis
    by (rule all_present, rule watcher_makes [OF L live])
      (use t healthy in \<open>simp_all add: meets_fields\<close>)
qed

section \<open>Convergence from nothing\<close>

text \<open>The four resources are there and each is Ready.\<close>

definition rolled_out :: "rollout \<Rightarrow> bool" where
  "rolled_out r \<longleftrightarrow> cstate ReadyCondition (inst (RoWatcher r)) = Some CTrue \<and>
     (\<exists>a. RoAPI r = Some a \<and> cstate ReadyCondition (inst a) = Some CTrue) \<and>
     (\<exists>p. RoApplier r = Some p \<and> cstate ReadyCondition (inst p) = Some CTrue) \<and>
     (\<exists>d. RoDE r = Some d \<and> cstate ReadyCondition (inst d) = Some CTrue)"

lemma mirrors_rolled_out:
  assumes "mirrors u w r sys" and "\<And>k. present k r" and "operator_is_ready sys"
  shows "rolled_out r"
  using assms(1,3) assms(2) [of APITurn] assms(2) [of ApplierTurn] assms(2) [of DETurn]
  by (auto simp: mirrors_def tracked_def operator_is_ready_def rolled_out_def)

lemma last_of_two:
  assumes "count_list ks k \<ge> 2"
  obtains xs ys where "ks = xs @ k # ys" and "k \<in> set xs"
proof -
  have "k \<in> set ks" using assms by (metis count_list_0_iff not_numeral_le_zero)
  then obtain xs ys where ks: "ks = xs @ k # ys" "k \<notin> set ys" by (rule last_turn)
  then have "count_list xs k \<ge> 1" using assms by simp
  then have "k \<in> set xs" by (metis count_list_0_iff not_one_le_zero)
  with ks(1) that show ?thesis by blast
qed

text \<open>
  C1. The operator rolls out from a lone Watcher under every schedule. Nobody has reconciled the Watcher and
  none of its services exists, in a healthy cluster where the services read the secret the Watcher writes. Two
  turns of the Watcher create the three services; once each of these has had three turns of its
  own, in whatever order, the next turn of the Watcher finds them ready, and all four are Ready then
  and stay Ready whatever turns follow.
\<close>

theorem operator_rolls_out:
  assumes L: "cond_laws L" "finalizer_laws L" "hash_laws L" "notfound_law L" "init_law L" "mirror_law L"
    and new: "new_watcher w" and stores: "stores_resources C (all_created u w)"
    and healthy: "healthy_cluster L C (all_created u w)"
    and enough: "count_list before WatcherTurn \<ge> 2" "\<forall>k \<in> {APITurn, ApplierTurn, DETurn}. count_list ks k \<ge> 3"
  shows "rolled_out (rollout_turns L u C (before @ ks @ WatcherTurn # later) (lone_watcher w))"
proof -
  let ?sys = "all_created u w"
  have w: "healthy_for_watcher L (WatcherEnv C) w" using healthy by (simp add: healthy_cluster_def Let_def all_created_parts)
  note follow = rollout_mirrors [OF L(1,2) new stores]
  have start: "mirrors u w (lone_watcher w) (turns L C [] ?sys)" by (simp add: lone_mirrors)
  obtain xs ys where xs: "before = xs @ WatcherTurn # ys" "WatcherTurn \<in> set xs" by (rule last_of_two [OF enough(1)])
  obtain xs' where 1: "mirrors u w (rollout_turns L u C xs (lone_watcher w)) (turns L C xs' ?sys)"
      "count_list xs' WatcherTurn = count_list xs WatcherTurn"
    using follow [OF start, of xs] by auto
  have turned: "WatcherTurn \<in> set xs'" using 1(2) xs(2) by (metis count_list_0_iff)
  let ?r = "rollout_turn L u C WatcherTurn (rollout_turns L u C xs (lone_watcher w))"
  have there: "present k ?r" for k by (rule rollout_creates [OF L(1,2,5) new stores w 1(1) turned])
  have 2: "mirrors u w ?r (turns L C (xs' @ [WatcherTurn]) ?sys)"
    by (rule turn_mirrors(1) [OF L(1,2) new stores 1(1)]) simp
  have "operator_is_ready (turns L C ((xs' @ WatcherTurn # ys @ ks) @ WatcherTurn # later) ?sys)"
    by (rule operator_gets_ready [OF L all_created_fresh [OF new] stores healthy]) (use enough(2) in auto)
  with rollout_same [OF L(1,2) new stores 2 there, of "ys @ ks @ WatcherTurn # later"] show ?thesis
    by (auto simp: xs(1) elim: mirrors_rolled_out)
qed

end
