(* ===== verification/SampleOperator.thy ===== *)
theory SampleOperator
  imports SampleCluster Creation
begin

text \<open>
  The sample cluster as one that stores resources and secrets, and the four sample resources before
  anyone has reconciled them.
\<close>

section \<open>The laws of the conditions\<close>

lemma sample_init_law: "init_law sample_lib"
proof -
  have "t \<notin> Type ` set l \<Longrightarrow> status_of t (Some (fold sample_put l cs)) = status_of t (Some cs)" for t l cs
    by (induction l arbitrary: cs) auto
  then show ?thesis by (simp add: init_law_def)
qed

lemma sample_mirror_law: "mirror_law sample_lib"
proof -
  have "\<exists>c. sample_mirror t cs = Some c \<and> Status c = CTrue"
    if "cond_list cs \<noteq> []" "\<forall>c \<in> set (cond_list cs). Status c = CTrue" for t cs
  proof -
    have "filter (\<lambda>c. Status c = CFalse) (cond_list cs) = []" "filter (\<lambda>c. Status c = CUnknown) (cond_list cs) = []"
      using that(2) by (auto simp: filter_empty_conv)
    with that show ?thesis by (cases "cond_list cs") (simp_all add: sample_mirror_def)
  qed
  then show ?thesis by (simp add: mirror_law_def)
qed

section \<open>The resources and the cluster\<close>

text \<open>As the user or the Watcher's controller creates it.\<close>

definition unseen :: "('spec, 'z) cr_scheme \<Rightarrow> ('spec, 'z) cr_scheme" where
  "unseen i = i\<lparr>Conditions := None, Finalizers := [], Hash := None, ObservedGeneration := 0\<rparr>"

text \<open>The secret the Watcher stores has what its template says, the others answer every field.\<close>

definition sample_tpl :: template where
  "sample_tpl = sub_level_template sample_lib (unseen sample_watcher) sample_secret sample_secret sample_database"

definition sample_secrets :: "'i history \<Rightarrow> error + secret" where
  "sample_secrets h =
     (case last h of
        GetSecret n \<Rightarrow> Inr (if NName n = TplName sample_tpl then sample_secret\<lparr>Data := CustomData sample_tpl\<rparr> else sample_secret)
      | _ \<Rightarrow> Inr sample_secret)"

definition storing_env :: "'i \<Rightarrow> 'i env" where
  "storing_env i = (sample_env i)\<lparr>OnGetInstance := (\<lambda>h. Inr (stored i (butlast h))), OnGetSecret := sample_secrets\<rparr>"

definition sample_operator :: operator where
  "sample_operator = \<lparr>OfWatcher = start (unseen sample_watcher), OfAPI = start (unseen sample_api),
     OfApplier = start (unseen sample_applier), OfDE = start (unseen sample_de)\<rparr>"

definition sample_cluster :: cluster where
  "sample_cluster = \<lparr>WatcherEnv = storing_env (unseen sample_watcher), APIEnv = storing_env (unseen sample_api),
     ApplierEnv = storing_env (unseen sample_applier), DEEnv = storing_env (unseen sample_de),
     RequestFor = \<lambda>_. request\<rparr>"

text \<open>Three turns of each service and one of the Watcher, mixed.\<close>

definition sample_turns :: "controller list" where
  "sample_turns = [APITurn, DETurn, WatcherTurn, ApplierTurn, APITurn, ApplierTurn, DETurn, APITurn, ApplierTurn, DETurn]"

section \<open>It is one in which the operator converges\<close>

lemma unseen_fields [simp]:
  "Spec (unseen i) = Spec i" "Name (unseen i) = Name i" "Namespace (unseen i) = Namespace i" "Kind (unseen i) = Kind i"
  "Conditions (unseen i) = None" "DeletionTimestamp (unseen i) = DeletionTimestamp i" "Generation (unseen i) = Generation i"
  "ObservedGeneration (unseen i) = 0"
  by (simp_all add: unseen_def)

lemma sample_part_fields [simp]:
  "Spec sample_api = watcher_api_spec sample_watcher ''watcher''" "Spec sample_applier = watcher_applier_spec sample_watcher ''watcher''"
  "Spec sample_de = watcher_de_spec sample_watcher ''watcher''"
  "Namespace sample_api = ''openstack''" "Namespace sample_applier = ''openstack''" "Namespace sample_de = ''openstack''"
  "DeletionTimestamp sample_api = None" "DeletionTimestamp sample_applier = None" "DeletionTimestamp sample_de = None"
  "Name sample_watcher = ''watcher''" "Namespace sample_watcher = ''openstack''"
  by (simp_all add: sample_api_def sample_applier_def sample_de_def sample_sub_def sample_watcher_def)

lemma sample_specs [simp]:
  "watcher_api_spec (unseen i) n = watcher_api_spec i n" "watcher_applier_spec (unseen i) n = watcher_applier_spec i n"
  "watcher_de_spec (unseen i) n = watcher_de_spec i n"
  by (simp_all add: watcher_api_spec_def watcher_applier_spec_def watcher_de_spec_def)

lemma storing_answers [simp]:
  "OnGetSecret (storing_env i) = sample_secrets" "OnGetInstance (storing_env i) h = Inr (stored i (butlast h))"
  "NewHelper (storing_env i) = None" "OnPatchInstance (storing_env i) h = None"
  by (simp_all add: storing_env_def)

lemma sample_secrets_get [simp]:
  "sample_secrets (h @ [GetSecret n]) =
     Inr (if NName n = ''watcher'' then sample_secret\<lparr>Data := CustomData sample_tpl\<rparr> else sample_secret)"
  by (simp add: sample_secrets_def sample_tpl_def sub_level_template_def)

lemma sample_stores: "stores_resource (storing_env i) i"
  by (simp add: stores_resource_def)

lemma sample_hashes_work: "hashes_work sample_lib"
  by (simp add: hashes_work_def)

lemma sample_healthy_service: "Replicas (Spec i) = Some 1 \<Longrightarrow> healthy_service (storing_env i) i"
  by (simp add: healthy_service_def storing_env_def)

lemma sample_exposable: "Spec i = watcher_api_spec sample_watcher n \<Longrightarrow> api_exposable sample_lib (storing_env i) i"
  by (auto simp: api_exposable_def storing_env_def)

lemma sample_offers: "NName n \<noteq> ''watcher'' \<Longrightarrow> offers (storing_env i) n fs"
  by (simp add: offers_def)

lemma sample_healthy_watcher: "healthy_for_watcher sample_lib (storing_env (unseen sample_watcher)) (unseen sample_watcher)"
  unfolding healthy_for_watcher_def
proof (intro conjI)
  show "\<exists>db. database_works (storing_env (unseen sample_watcher)) (unseen sample_watcher) db"
    by (auto simp: database_works_def storing_env_def)
  show "\<exists>name. transport_works (storing_env (unseen sample_watcher)) (unseen sample_watcher) name"
    by (rule exI [of _ "''url''"]) (simp add: transport_works_def sample_offers, simp add: storing_env_def)
  show "secrets_work (storing_env (unseen sample_watcher)) (unseen sample_watcher)"
    by (simp add: secrets_work_def sample_offers sample_watcher_spec_def) (simp add: storing_env_def)
  show "jobs_work sample_lib (storing_env (unseen sample_watcher)) (unseen sample_watcher)"
    by (auto simp: jobs_work_def storing_env_def)
  show "rbac_works (storing_env (unseen sample_watcher))"
    by (auto simp: rbac_works_def storing_env_def rbac_types_def)
  show "routes_work (storing_env (unseen sample_watcher))"
    by (auto simp: routes_work_def storing_env_def)
  show "\<exists>svcs. (\<forall>h. OnGetServices (storing_env (unseen sample_watcher)) h = Inr svcs) \<and>
      ingress_certs (storing_env (unseen sample_watcher)) (unseen sample_watcher) svcs"
    by (auto simp: storing_env_def ingress_certs_def)
qed (simp_all add: sample_hashes_work)

lemma sample_fresh: "fresh_operator sample_operator"
  by (simp add: fresh_operator_def fresh_resource_def sample_operator_def start_def Let_def)

lemma sample_cluster_stores: "stores_resources sample_cluster sample_operator"
  by (simp add: stores_resources_def sample_cluster_def sample_operator_def start_def sample_stores)

lemma sample_holds: "holds_sub_level_secret sample_lib (storing_env (unseen sample_watcher)) (unseen sample_watcher)"
  unfolding holds_sub_level_secret_def
  by (rule exI [of _ sample_secret], rule exI [of _ sample_secret], rule exI [of _ sample_database],
      rule exI [of _ "sample_secret\<lparr>Data := CustomData sample_tpl\<rparr>"])
    (simp add: sample_tpl_def, simp add: sub_level_template_def)

lemma sample_cluster_healthy: "healthy_cluster sample_lib sample_cluster sample_operator"
  by (simp add: healthy_cluster_def sample_cluster_def sample_operator_def start_def Let_def sample_healthy_watcher
      sample_healthy_service sample_exposable sample_holds shares_secrets_def offers_def)

lemma sample_enough:
  "\<forall>k \<in> {APITurn, ApplierTurn, DETurn}. count_list sample_turns k \<ge> 3" "WatcherTurn \<in> set sample_turns"
  by (simp_all add: sample_turns_def)

lemma sample_service_clusters:
  "healthy_for_api sample_lib (storing_env (unseen sample_api)) (unseen sample_api)"
  "healthy_for_applier sample_lib (storing_env (unseen sample_applier)) (unseen sample_applier)"
  "healthy_for_de sample_lib (storing_env (unseen sample_de)) (unseen sample_de)"
  using healthy_services [OF sample_cluster_healthy sample_fresh]
  by (simp_all add: sample_cluster_def sample_operator_def start_def)

lemma sample_subs_ready: "subs_ready sample_lib (storing_env (unseen sample_watcher))"
  by (auto simp: subs_ready_def sub_is_ready_def storing_env_def)

lemma start_fields [simp]: "inst (start i) = i" "trace (start i) = []"
  by (simp_all add: start_def)

section \<open>A lone Watcher\<close>

definition sample_uids :: uids where
  "sample_uids kind n = kind @ ''/'' @ NName n"

definition sample_lone_cluster :: cluster where
  "sample_lone_cluster =
     (let sys = all_created sample_uids (unseen sample_watcher)
      in \<lparr>WatcherEnv = storing_env (inst (OfWatcher sys)), APIEnv = storing_env (inst (OfAPI sys)),
          ApplierEnv = storing_env (inst (OfApplier sys)), DEEnv = storing_env (inst (OfDE sys)),
          RequestFor = \<lambda>_. request\<rparr>)"

lemma sample_new: "new_watcher (unseen sample_watcher)"
  by (simp add: new_watcher_def sample_watcher_def)

lemma sample_lone_stores: "stores_resources sample_lone_cluster (all_created sample_uids (unseen sample_watcher))"
  by (simp add: stores_resources_def sample_lone_cluster_def Let_def sample_stores)

lemma sample_lone_healthy: "healthy_cluster sample_lib sample_lone_cluster (all_created sample_uids (unseen sample_watcher))"
  by (simp add: healthy_cluster_def sample_lone_cluster_def Let_def all_created_parts sample_healthy_watcher
      sample_healthy_service sample_exposable sample_holds shares_secrets_def offers_def)

end
