(* ===== verification/Watching.thy ===== *)
theory Watching
  imports Common
begin

text \<open>
  Which resources a changed secret reconciles: the index functions each \<open>SetupWithManager\<close> registers
  and \<open>findObjectsForSrc\<close>, which lists by them.
\<close>

section \<open>The indexes\<close>

text \<open>An index is a field and the function that gives the values a resource is found under.\<close>

type_synonym 'cr indexer = "string \<times> ('cr \<Rightarrow> string list)"

definition if_set :: "string \<Rightarrow> string list" where
  "if_set name = (if name = [] then [] else [name])"

definition if_some :: "string option \<Rightarrow> string list" where
  "if_some name = (case name of None \<Rightarrow> [] | Some n \<Rightarrow> [n])"

definition watcher_indexers :: "Watcher indexer list" where
  "watcher_indexers =
     [(passwordSecretField, \<lambda>cr. if_set (Secret (Spec cr))),
      (prometheusSecretField, \<lambda>cr. if_set (PrometheusSecret (Spec cr))),
      (tlsRouteSecretField, \<lambda>cr. case TLSOverride (APIOverride (Spec cr)) of
         None \<Rightarrow> [] | Some t \<Rightarrow> if_set (TLSSecretName t))]"

definition api_indexers :: "WatcherAPI indexer list" where
  "api_indexers =
     [(passwordSecretField, \<lambda>cr. if_set (Secret (Spec cr))),
      (prometheusSecretField, \<lambda>cr. if_set (PrometheusSecret (Spec cr))),
      (tlsAPIInternalField, \<lambda>cr. if_some (InternalSecretName (TLS (Spec cr)))),
      (tlsAPIPublicField, \<lambda>cr. if_some (PublicSecretName (TLS (Spec cr)))),
      (caBundleSecretNameField, \<lambda>cr. if_set (CaBundleSecretName (TLS (Spec cr))))]"

definition applier_indexers :: "WatcherApplier indexer list" where
  "applier_indexers =
     [(passwordSecretField, \<lambda>cr. if_set (Secret (Spec cr))),
      (prometheusSecretField, \<lambda>cr. if_set (PrometheusSecret (Spec cr))),
      (caBundleSecretNameField, \<lambda>cr. if_set (CaBundleSecretName (TLSCa (Spec cr))))]"

definition de_indexers :: "WatcherDecisionEngine indexer list" where
  "de_indexers =
     [(passwordSecretField, \<lambda>cr. if_set (Secret (Spec cr))),
      (prometheusSecretField, \<lambda>cr. if_set (PrometheusSecret (Spec cr))),
      (caBundleSecretNameField, \<lambda>cr. if_set (CaBundleSecretName (DETLSCa (Spec cr))))]"

section \<open>The requests\<close>

text \<open>
  \<open>r.Client.List\<close> with a field selector and a namespace is the argument \<open>lister\<close>. An error ends the
  loop with the requests found so far.
\<close>

type_synonym 'cr lister = "string \<Rightarrow> string \<Rightarrow> string \<Rightarrow> error + 'cr list"

definition request_for :: "('spec, 'z) cr_scheme \<Rightarrow> nsname" where
  "request_for item = \<lparr>NName = Name item, NNamespace = Namespace item\<rparr>"

fun find_by_fields ::
  "('spec, 'z) cr_scheme lister \<Rightarrow> nsname \<Rightarrow> string list \<Rightarrow> nsname list \<Rightarrow> nsname list" where
  "find_by_fields lister src [] requests = requests"
| "find_by_fields lister src (field # rest) requests =
     (case lister field (NName src) (NNamespace src) of
        Inl err \<Rightarrow> requests
      | Inr items \<Rightarrow> find_by_fields lister src rest (requests @ map request_for items))"

definition watcher_findObjectsForSrc :: "Watcher lister \<Rightarrow> nsname \<Rightarrow> nsname list" where
  "watcher_findObjectsForSrc lister src = find_by_fields lister src watcherWatchFields []"

definition api_findObjectsForSrc :: "WatcherAPI lister \<Rightarrow> nsname \<Rightarrow> nsname list" where
  "api_findObjectsForSrc lister src = find_by_fields lister src apiWatchFields []"

definition applier_findObjectsForSrc :: "WatcherApplier lister \<Rightarrow> nsname \<Rightarrow> nsname list" where
  "applier_findObjectsForSrc lister src = find_by_fields lister src applierWatchFields []"

definition de_findObjectsForSrc :: "WatcherDecisionEngine lister \<Rightarrow> nsname \<Rightarrow> nsname list" where
  "de_findObjectsForSrc lister src = find_by_fields lister src decisionEngineWatchFields []"

section \<open>What a changed secret reconciles\<close>

text \<open>
  The documented behaviour of a cached list by a field: the objects of the namespace whose index values
  contain the name; without an index of that field it is an error.
\<close>

definition cached_list :: "('spec, 'z) cr_scheme indexer list \<Rightarrow> ('spec, 'z) cr_scheme list \<Rightarrow>
    ('spec, 'z) cr_scheme lister" where
  "cached_list indexers store field name ns =
     (case map_of indexers field of
        None \<Rightarrow> Inl (NewError (''Index with name field:'' @ field @ '' does not exist''))
      | Some values \<Rightarrow> Inr (filter (\<lambda>cr. Namespace cr = ns \<and> name \<in> set (values cr)) store))"

text \<open>
  A controller watches secrets by \<open>watched\<close>, each of which it has indexed: then the requests for a secret
  are those of the resources that name it in one of these fields.
\<close>

locale secret_watch =
  fixes indexers :: "('spec, 'z) cr_scheme indexer list" and watched :: "string list"
  assumes indexed: "watched = map fst indexers" and one_index: "distinct (map fst indexers)"
begin

lemma found_from:
  "set fs \<subseteq> set (map fst indexers) \<Longrightarrow>
   set (find_by_fields (cached_list indexers store) src fs reqs) = set reqs \<union>
     request_for ` {cr \<in> set store. Namespace cr = NNamespace src \<and>
        (\<exists>p \<in> set indexers. fst p \<in> set fs \<and> NName src \<in> set (snd p cr))}"
proof (induction fs arbitrary: reqs)
  case (Cons f fs)
  then obtain v where v: "(f, v) \<in> set indexers" by auto
  have u: "w = v" if "(f, w) \<in> set indexers" for w by (rule eq_key_imp_eq_value [OF one_index that v])
  from v one_index have "map_of indexers f = Some v" by simp
  then have step: "find_by_fields (cached_list indexers store) src (f # fs) reqs =
      find_by_fields (cached_list indexers store) src fs
        (reqs @ map request_for (filter (\<lambda>cr. Namespace cr = NNamespace src \<and> NName src \<in> set (v cr)) store))"
    by (simp add: cached_list_def)
  have "(\<exists>p \<in> set indexers. fst p \<in> set (f # fs) \<and> NName src \<in> set (snd p cr)) \<longleftrightarrow>
      NName src \<in> set (v cr) \<or> (\<exists>p \<in> set indexers. fst p \<in> set fs \<and> NName src \<in> set (snd p cr))" for cr
    unfolding list.set insert_iff using v u by (metis fst_conv prod.collapse snd_conv)
  then have names: "request_for ` {cr \<in> set store. Namespace cr = NNamespace src \<and>
        (\<exists>p \<in> set indexers. fst p \<in> set (f # fs) \<and> NName src \<in> set (snd p cr))} =
      request_for ` {cr \<in> set store. Namespace cr = NNamespace src \<and> NName src \<in> set (v cr)} \<union>
      request_for ` {cr \<in> set store. Namespace cr = NNamespace src \<and>
        (\<exists>p \<in> set indexers. fst p \<in> set fs \<and> NName src \<in> set (snd p cr))}"
    unfolding image_Un [symmetric] by (intro arg_cong [where f = "(`) request_for"]) blast
  have "set fs \<subseteq> set (map fst indexers)" using Cons.prems by simp
  then show ?case
    unfolding step names Cons.IH [OF \<open>set fs \<subseteq> set (map fst indexers)\<close>] by (simp add: Un_assoc conj_commute)
qed simp

lemma found:
  "set (find_by_fields (cached_list indexers store) src watched []) =
     request_for ` {cr \<in> set store. Namespace cr = NNamespace src \<and>
        (\<exists>p \<in> set indexers. NName src \<in> set (snd p cr))}"
proof -
  have "(\<exists>p \<in> set indexers. fst p \<in> set watched \<and> NName src \<in> set (snd p cr)) \<longleftrightarrow>
      (\<exists>p \<in> set indexers. NName src \<in> set (snd p cr))" for cr
    using indexed by force
  moreover have "set watched \<subseteq> set (map fst indexers)" by (simp add: indexed)
  ultimately show ?thesis by (simp add: found_from)
qed

end

lemmas field_names = passwordSecretField_def prometheusSecretField_def caBundleSecretNameField_def
  tlsAPIInternalField_def tlsAPIPublicField_def tlsRouteSecretField_def

interpretation watcher_watch: secret_watch watcher_indexers watcherWatchFields
  by unfold_locales (simp_all add: watcher_indexers_def watcherWatchFields_def field_names)

interpretation api_watch: secret_watch api_indexers apiWatchFields
  by unfold_locales (simp_all add: api_indexers_def apiWatchFields_def field_names)

interpretation applier_watch: secret_watch applier_indexers applierWatchFields
  by unfold_locales (simp_all add: applier_indexers_def applierWatchFields_def field_names)

interpretation de_watch: secret_watch de_indexers decisionEngineWatchFields
  by unfold_locales (simp_all add: de_indexers_def decisionEngineWatchFields_def field_names)

lemma in_if_set [simp]: "n \<in> set (if_set name) \<longleftrightarrow> n = name \<and> name \<noteq> []"
  by (auto simp: if_set_def)

lemma in_if_some [simp]: "n \<in> set (if_some name) \<longleftrightarrow> name = Some n"
  by (auto simp: if_some_def split: option.splits)

lemma named_by:
  "(\<exists>p \<in> set watcher_indexers. n # ns \<in> set (snd p w)) \<longleftrightarrow>
     n # ns = Secret (Spec w) \<or> n # ns = PrometheusSecret (Spec w) \<or>
     (\<exists>t. TLSOverride (APIOverride (Spec w)) = Some t \<and> n # ns = TLSSecretName t)"
  "(\<exists>p \<in> set api_indexers. n # ns \<in> set (snd p a)) \<longleftrightarrow>
     n # ns = Secret (Spec a) \<or> n # ns = PrometheusSecret (Spec a) \<or>
     InternalSecretName (TLS (Spec a)) = Some (n # ns) \<or> PublicSecretName (TLS (Spec a)) = Some (n # ns) \<or>
     n # ns = CaBundleSecretName (TLS (Spec a))"
  "(\<exists>q \<in> set applier_indexers. n # ns \<in> set (snd q p)) \<longleftrightarrow>
     n # ns = Secret (Spec p) \<or> n # ns = PrometheusSecret (Spec p) \<or> n # ns = CaBundleSecretName (TLSCa (Spec p))"
  "(\<exists>p \<in> set de_indexers. n # ns \<in> set (snd p d)) \<longleftrightarrow>
     n # ns = Secret (Spec d) \<or> n # ns = PrometheusSecret (Spec d) \<or> n # ns = CaBundleSecretName (DETLSCa (Spec d))"
  by (cases "TLSOverride (APIOverride (Spec w))";
      auto simp: watcher_indexers_def api_indexers_def applier_indexers_def de_indexers_def)+

text \<open>
  C36. A change of a secret reconciles exactly the resources of its namespace that name it: a Watcher by
  its password, Prometheus or route certificate secret, a WatcherAPI by its secret, its Prometheus
  secret, a certificate of either endpoint or its CA bundle, and the other two services by their secret,
  Prometheus secret or CA bundle. No watched field is left without an index.
\<close>

theorem secret_change_reconciles:
  "set (watcher_findObjectsForSrc (cached_list watcher_indexers ws) \<lparr>NName = n # ns, NNamespace = m\<rparr>) =
     request_for ` {cr \<in> set ws. Namespace cr = m \<and> (n # ns = Secret (Spec cr) \<or> n # ns = PrometheusSecret (Spec cr) \<or>
       (\<exists>t. TLSOverride (APIOverride (Spec cr)) = Some t \<and> n # ns = TLSSecretName t))} \<and>
   set (api_findObjectsForSrc (cached_list api_indexers as) \<lparr>NName = n # ns, NNamespace = m\<rparr>) =
     request_for ` {cr \<in> set as. Namespace cr = m \<and> (n # ns = Secret (Spec cr) \<or> n # ns = PrometheusSecret (Spec cr) \<or>
       InternalSecretName (TLS (Spec cr)) = Some (n # ns) \<or> PublicSecretName (TLS (Spec cr)) = Some (n # ns) \<or>
       n # ns = CaBundleSecretName (TLS (Spec cr)))} \<and>
   set (applier_findObjectsForSrc (cached_list applier_indexers ps) \<lparr>NName = n # ns, NNamespace = m\<rparr>) =
     request_for ` {cr \<in> set ps. Namespace cr = m \<and> (n # ns = Secret (Spec cr) \<or> n # ns = PrometheusSecret (Spec cr) \<or>
       n # ns = CaBundleSecretName (TLSCa (Spec cr)))} \<and>
   set (de_findObjectsForSrc (cached_list de_indexers ds) \<lparr>NName = n # ns, NNamespace = m\<rparr>) =
     request_for ` {cr \<in> set ds. Namespace cr = m \<and> (n # ns = Secret (Spec cr) \<or> n # ns = PrometheusSecret (Spec cr) \<or>
       n # ns = CaBundleSecretName (DETLSCa (Spec cr)))}"
  by (simp only: watcher_findObjectsForSrc_def api_findObjectsForSrc_def applier_findObjectsForSrc_def
      de_findObjectsForSrc_def watcher_watch.found api_watch.found applier_watch.found de_watch.found named_by
      nsname.select_convs)

end
