(* ===== verification/GoHeap.thy ===== *)
theory GoHeap
  imports Prelude "HOL-Library.AList"
begin

text \<open>
  Go values with pointers. Everywhere else a resource is a value; here it lies in memory, so that what
  two variables share can be told. A pointer, a map and a slice are the address of a cell, or nil; a struct
  is the record of its fields. The locale \<open>deep_copier\<close> says what it means that a function copies deeply,
  and the rules below carry it through pointers, slices, maps and the fields of a struct.
\<close>

section \<open>Memory\<close>

type_synonym addr = nat

record 'c heap =
  NextAddr :: addr
  Cells :: "addr \<Rightarrow> 'c"

text \<open>\<open>new\<close> and \<open>make\<close> give a cell nobody has had before; it is written before it is read.\<close>

definition new :: "('c heap, addr) state" where
  "new = State (\<lambda>h. (NextAddr h, h\<lparr>NextAddr := Suc (NextAddr h)\<rparr>))"

definition read_cell :: "addr \<Rightarrow> ('c heap, 'c) state" where
  "read_cell a = State (\<lambda>h. (Cells h a, h))"

definition write_cell :: "addr \<Rightarrow> 'c \<Rightarrow> ('c heap, unit) state" where
  "write_cell a c = State (\<lambda>h. ((), h\<lparr>Cells := (Cells h)(a := c)\<rparr>))"

lemma run_memory [simp]:
  "run_state new h = (NextAddr h, h\<lparr>NextAddr := Suc (NextAddr h)\<rparr>)"
  "run_state (read_cell a) h = (Cells h a, h)"
  "run_state (write_cell a c) h = ((), h\<lparr>Cells := (Cells h)(a := c)\<rparr>)"
  by (simp_all add: new_def read_cell_def write_cell_def)

section \<open>Copying through a reference\<close>

text \<open>
  \<open>if in.F != nil { in, out := &in.F, &out.F; *out = new(T); copy **in into **out }\<close>, and with \<open>make\<close> for
  maps and slices. A cell is a tagged value: \<open>un\<close> reads the content, \<open>con\<close> makes the cell. It is also the
  shape of every \<open>DeepCopy\<close>: nil for nil, else a new struct filled by \<open>DeepCopyInto\<close>.
\<close>

definition copy_ref ::
  "('c \<Rightarrow> 'a) \<Rightarrow> ('a \<Rightarrow> 'c) \<Rightarrow> ('a \<Rightarrow> ('c heap, 'a) state) \<Rightarrow> addr option \<Rightarrow> ('c heap, addr option) state" where
  "copy_ref un con into p =
     (case p of
        None \<Rightarrow> return None
      | Some a \<Rightarrow> do {
          b \<leftarrow> new;
          c \<leftarrow> read_cell a;
          x \<leftarrow> into (un c);
          write_cell b (con x);
          return (Some b)
        })"

text \<open>\<open>for i := range *in { (*in)[i].DeepCopyInto(&(*out)[i]) }\<close>\<close>

fun copy_items :: "('a \<Rightarrow> ('c heap, 'a) state) \<Rightarrow> 'a list \<Rightarrow> ('c heap, 'a list) state" where
  "copy_items into [] = return []"
| "copy_items into (x # xs) = do {
     y \<leftarrow> into x;
     ys \<leftarrow> copy_items into xs;
     return (y # ys)
   }"

text \<open>
  \<open>for key, val := range *in { (*out)[key] = copy(val) }\<close>. The order in which a Go map is ranged over is
  the runtime's; it is the order of the list of its entries.
\<close>

fun copy_entries ::
  "('a \<Rightarrow> ('c heap, 'a) state) \<Rightarrow> ('k \<times> 'a) list \<Rightarrow> ('k \<times> 'a) list \<Rightarrow> ('c heap, ('k \<times> 'a) list) state" where
  "copy_entries copy [] out = return out"
| "copy_entries copy ((key, val) # rest) out = do {
     v \<leftarrow> copy val;
     copy_entries copy rest (AList.update key v out)
   }"

section \<open>What a value in memory stands for\<close>

text \<open>
  For each Go type: the value read off the memory, with every pointer followed (\<open>View\<close>), and that all it
  reaches lies in a set of addresses, with no key twice in a map (\<open>Holds\<close>).
\<close>

record ('c, 'a, 'v) shape =
  Holds :: "addr set \<Rightarrow> 'c heap \<Rightarrow> 'a \<Rightarrow> bool"
  View :: "'c heap \<Rightarrow> 'a \<Rightarrow> 'v"

definition plain :: "('a \<Rightarrow> 'v) \<Rightarrow> ('c, 'a, 'v) shape" where
  "plain f = \<lparr>Holds = \<lambda>A h x. True, View = \<lambda>h. f\<rparr>"

definition ref_to :: "('c \<Rightarrow> 'a) \<Rightarrow> ('c, 'a, 'v) shape \<Rightarrow> ('c, addr option, 'v option) shape" where
  "ref_to un S =
     \<lparr>Holds = \<lambda>A h p. case p of None \<Rightarrow> True | Some a \<Rightarrow> a \<in> A \<and> Holds S A h (un (Cells h a)),
      View = \<lambda>h. map_option (\<lambda>a. View S h (un (Cells h a)))\<rparr>"

definition items_of :: "('c, 'a, 'v) shape \<Rightarrow> ('c, 'a list, 'v list) shape" where
  "items_of S = \<lparr>Holds = \<lambda>A h xs. \<forall>x \<in> set xs. Holds S A h x, View = \<lambda>h. map (View S h)\<rparr>"

definition entries_of :: "('c, 'a, 'v) shape \<Rightarrow> ('c, ('k \<times> 'a) list, 'k \<rightharpoonup> 'v) shape" where
  "entries_of S =
     \<lparr>Holds = \<lambda>A h kvs. distinct (map fst kvs) \<and> (\<forall>x \<in> snd ` set kvs. Holds S A h x),
      View = \<lambda>h kvs. map_of (map (\<lambda>(k, x). (k, View S h x)) kvs)\<rparr>"

lemma shape_simps [simp]:
  "Holds (plain f) A h x" "View (plain f) h x = f x"
  "Holds (ref_to un S) A h None" "View (ref_to un S) h None = None"
  "Holds (ref_to un S) A h (Some a) \<longleftrightarrow> a \<in> A \<and> Holds S A h (un (Cells h a))"
  "View (ref_to un S) h (Some a) = Some (View S h (un (Cells h a)))"
  "Holds (items_of S) A h xs \<longleftrightarrow> (\<forall>x \<in> set xs. Holds S A h x)"
  "View (items_of S) h xs = map (View S h) xs"
  "Holds (entries_of S) A h kvs \<longleftrightarrow> distinct (map fst kvs) \<and> (\<forall>x \<in> snd ` set kvs. Holds S A h x)"
  "View (entries_of S) h kvs = map_of (map (\<lambda>(k, x). (k, View S h x)) kvs)"
  by (simp_all add: plain_def ref_to_def items_of_def entries_of_def)

section \<open>Deep copies\<close>

text \<open>Memory \<open>h'\<close> has what \<open>h\<close> has at some addresses, and at all that were given out.\<close>

definition agree :: "addr set \<Rightarrow> 'c heap \<Rightarrow> 'c heap \<Rightarrow> bool" where
  "agree A h h' \<longleftrightarrow> (\<forall>a \<in> A. Cells h' a = Cells h a)"

definition grows :: "'c heap \<Rightarrow> 'c heap \<Rightarrow> bool" where
  "grows h h' \<longleftrightarrow> NextAddr h \<le> NextAddr h' \<and> agree {..<NextAddr h} h h'"

lemma grows_refl [simp]: "grows h h"
  by (simp add: grows_def agree_def)

lemma grows_trans: "grows h h1 \<Longrightarrow> grows h1 h2 \<Longrightarrow> grows h h2"
  by (simp add: grows_def agree_def)

interpretation memory: step_relation grows
  by unfold_locales (auto intro: grows_trans)

text \<open>
  What a value stands for depends on the cells it reaches alone (\<open>frame_Holds\<close>, \<open>frame_View\<close>), and the copy of a value
  stands for the same, leaves the memory there was alone and reaches only cells it has allocated itself.
\<close>

locale deep_copier =
  fixes S :: "('c, 'a, 'v) shape" and into :: "'a \<Rightarrow> ('c heap, 'a) state"
  assumes mono: "Holds S A h x \<Longrightarrow> A \<subseteq> B \<Longrightarrow> Holds S B h x"
    and frame_Holds: "Holds S A h x \<Longrightarrow> agree A h h' \<Longrightarrow> Holds S A h' x"
    and frame_View: "Holds S A h x \<Longrightarrow> agree A h h' \<Longrightarrow> View S h' x = View S h x"
    and copies: "Holds S {..<NextAddr h} h x \<Longrightarrow> run_state (into x) h = (y, h') \<Longrightarrow>
      grows h h' \<and> Holds S {NextAddr h..<NextAddr h'} h' y \<and> View S h' y = View S h x"
begin

lemma old_stays:
  assumes "Holds S {..<NextAddr h} h x" and "grows h h'"
  shows "Holds S {..<NextAddr h'} h' x" "View S h' x = View S h x"
  using assms by (auto simp: grows_def intro: mono frame_Holds frame_View)

text \<open>
  The original is what it was whatever is written into the copy, and the copy is a snapshot of it whatever
  is written into the original or into cells allocated later.
\<close>

lemma snapshot:
  assumes "Holds S {..<NextAddr h} h x" and "run_state (into x) h = (y, h')"
  shows "View S h' y = View S h x"
    and "agree {..<NextAddr h} h' h2 \<Longrightarrow> View S h2 x = View S h x"
    and "agree {NextAddr h..<NextAddr h'} h' h2 \<Longrightarrow> View S h2 y = View S h x"
proof -
  have c: "grows h h'" "Holds S {NextAddr h..<NextAddr h'} h' y" "View S h' y = View S h x"
    using copies [OF assms] by simp_all
  show "View S h' y = View S h x" by (rule c)
  show "View S h2 x = View S h x" if "agree {..<NextAddr h} h' h2"
    using assms(1) c(1) that by (auto simp: grows_def agree_def intro!: frame_View)
  show "View S h2 y = View S h x" if "agree {NextAddr h..<NextAddr h'} h' h2"
    using frame_View [OF c(2) that] c(3) by simp
qed

end

section \<open>Copying field by field\<close>

text \<open>
  The copy \<open>y\<close>, made since \<open>h0\<close>, of what \<open>x\<close> was then; and a program that starts where \<open>F\<close> holds of the
  memory and ends where \<open>Q\<close> holds of it and of the result.
\<close>

definition copied :: "('c, 'a, 'v) shape \<Rightarrow> 'c heap \<Rightarrow> 'a \<Rightarrow> 'c heap \<Rightarrow> 'a \<Rightarrow> bool" where
  "copied S h0 x h y \<longleftrightarrow> Holds S {NextAddr h0..<NextAddr h} h y \<and> View S h y = View S h0 x"

definition kept :: "('c heap \<Rightarrow> bool) \<Rightarrow> bool" where
  "kept F \<longleftrightarrow> (\<forall>h h'. F h \<and> grows h h' \<longrightarrow> F h')"

definition fills :: "'c heap \<Rightarrow> ('c heap \<Rightarrow> bool) \<Rightarrow> ('c heap, 'a) state \<Rightarrow> ('c heap \<Rightarrow> 'a \<Rightarrow> bool) \<Rightarrow> bool" where
  "fills h0 F m Q \<longleftrightarrow>
     (\<forall>h y h'. grows h0 h \<and> F h \<and> run_state m h = (y, h') \<longrightarrow> grows h h' \<and> Q h' y)"

lemma kept_True [simp]: "kept (\<lambda>h. True)"
  by (simp add: kept_def)

lemma fills_return: "(\<And>h. grows h0 h \<Longrightarrow> F h \<Longrightarrow> Q h y) \<Longrightarrow> fills h0 F (return y) Q"
  by (auto simp: fills_def)

lemma fills_result: "fills h0 F m (\<lambda>h y. Q h (g y)) \<Longrightarrow> fills h0 F (m \<bind> (\<lambda>y. return (g y))) Q"
  unfolding fills_def by (auto split: prod.splits)

lemma fills_weaken: "fills h0 F m P \<Longrightarrow> (\<And>h y. P h y \<Longrightarrow> Q h y) \<Longrightarrow> fills h0 F m Q"
  unfolding fills_def by blast

context deep_copier
begin

lemma copied_grows:
  assumes "copied S h0 x h y" and "grows h h'"
  shows "copied S h0 x h' y"
proof -
  have "agree {NextAddr h0..<NextAddr h} h h'" and "{NextAddr h0..<NextAddr h} \<subseteq> {NextAddr h0..<NextAddr h'}"
    using assms(2) by (auto simp: grows_def agree_def)
  then show ?thesis using assms(1) by (auto simp: copied_def intro: mono frame_Holds dest: frame_View)
qed

lemma kept_copied [intro]: "kept F \<Longrightarrow> kept (\<lambda>h. F h \<and> copied S h0 x h y)"
  unfolding kept_def using copied_grows by blast

lemma fills_into:
  assumes "Holds S {..<NextAddr h0} h0 x" and "kept F"
    and "\<And>y. fills h0 (\<lambda>h. F h \<and> copied S h0 x h y) (f y) Q"
  shows "fills h0 F (into x \<bind> f) Q"
  unfolding fills_def
proof (intro allI impI, elim conjE)
  fix h z h2
  assume h: "grows h0 h" "F h" and run: "run_state (into x \<bind> f) h = (z, h2)"
  obtain y h1 where y: "run_state (into x) h = (y, h1)" by (cases "run_state (into x) h")
  have c: "grows h h1" "Holds S {NextAddr h..<NextAddr h1} h1 y" "View S h1 y = View S h x"
    using copies [OF old_stays(1) [OF assms(1) h(1)] y] by simp_all
  have "NextAddr h0 \<le> NextAddr h" using h(1) by (simp add: grows_def)
  then have "Holds S {NextAddr h0..<NextAddr h1} h1 y" by (intro mono [OF c(2)]) auto
  then have "copied S h0 x h1 y" by (simp add: copied_def c(3) old_stays(2) [OF assms(1) h(1)])
  moreover have "F h1" using assms(2) h(2) c(1) by (auto simp: kept_def)
  ultimately have "grows h1 h2 \<and> Q h2 z"
    using assms(3) [of y] grows_trans [OF h(1) c(1)] run y unfolding fills_def by auto
  with c(1) show "grows h h2 \<and> Q h2 z" by (auto intro: grows_trans)
qed

end

lemma deep_copierI:
  assumes "\<And>A B h x. Holds S A h x \<Longrightarrow> A \<subseteq> B \<Longrightarrow> Holds S B h x"
    and "\<And>A h h' x. Holds S A h x \<Longrightarrow> agree A h h' \<Longrightarrow> Holds S A h' x \<and> View S h' x = View S h x"
    and "\<And>h x. Holds S {..<NextAddr h} h x \<Longrightarrow> fills h (\<lambda>h. True) (into x) (\<lambda>h' y. copied S h x h' y)"
  shows "deep_copier S into"
proof
  fix h x y h'
  assume "Holds S {..<NextAddr h} h x" "run_state (into x) h = (y, h')"
  then show "grows h h' \<and> Holds S {NextAddr h..<NextAddr h'} h' y \<and> View S h' y = View S h x"
    using assms(3) [of h x] grows_refl [of h] unfolding fills_def copied_def by blast
qed (use assms(1,2) in blast)+

text \<open>Values without references, references, slices and maps.\<close>

lemma plain_copier: "deep_copier (plain f) return"
  by (rule deep_copierI) (auto simp: fills_def copied_def)

lemma ref_copier:
  assumes S: "deep_copier S into" and un: "\<And>x. un (con x) = x"
  shows "deep_copier (ref_to un S) (copy_ref un con into)"
proof
  fix A B h h' p
  assume p: "Holds (ref_to un S) A h p"
  then show "A \<subseteq> B \<Longrightarrow> Holds (ref_to un S) B h p"
    by (cases p) (auto intro: deep_copier.mono [OF S])
  assume "agree A h h'"
  with p show "Holds (ref_to un S) A h' p" "View (ref_to un S) h' p = View (ref_to un S) h p"
    by (cases p; auto simp: agree_def intro: deep_copier.frame_Holds [OF S] deep_copier.frame_View [OF S])+
next
  fix h p q h'
  assume p: "Holds (ref_to un S) {..<NextAddr h} h p" and run: "run_state (copy_ref un con into p) h = (q, h')"
  show "grows h h' \<and> Holds (ref_to un S) {NextAddr h..<NextAddr h'} h' q \<and> View (ref_to un S) h' q = View (ref_to un S) h p"
  proof (cases p)
    case None
    with run show ?thesis by (simp add: copy_ref_def)
  next
    case (Some a)
    let ?h = "h\<lparr>NextAddr := Suc (NextAddr h)\<rparr>"
    obtain x h1 where x: "run_state (into (un (Cells h a))) ?h = (x, h1)" by (cases "run_state (into (un (Cells h a))) ?h")
    have h': "q = Some (NextAddr h)" "h' = h1\<lparr>Cells := (Cells h1)(NextAddr h := con x)\<rparr>"
      using run x Some by (auto simp: copy_ref_def)
    have g: "grows h ?h" by (simp add: grows_def agree_def)
    have old: "Holds S {..<NextAddr h} h (un (Cells h a))" using p Some by simp
    have c: "grows ?h h1" "Holds S {Suc (NextAddr h)..<NextAddr h1} h1 x" "View S h1 x = View S h (un (Cells h a))"
      using deep_copier.copies [OF S deep_copier.old_stays(1) [OF S old g] x] deep_copier.old_stays(2) [OF S old g]
      by simp_all
    have w: "agree {Suc (NextAddr h)..<NextAddr h1} h1 h'" by (simp add: agree_def h')
    have "grows h h'" using c(1) by (auto simp: grows_def agree_def h')
    moreover have "Holds S {NextAddr h..<NextAddr h'} h' x"
      by (rule deep_copier.mono [OF S deep_copier.frame_Holds [OF S c(2) w]]) (auto simp: h')
    ultimately show ?thesis
      using c(1) deep_copier.frame_View [OF S c(2) w] c(3) Some by (simp add: h' un grows_def)
  qed
qed

lemma items_copier:
  assumes S: "deep_copier S into"
  shows "deep_copier (items_of S) (copy_items into)"
proof (rule deep_copierI)
  fix h xs
  assume "Holds (items_of S) {..<NextAddr h} h xs"
  then have "kept F \<Longrightarrow> fills h F (copy_items into xs) (\<lambda>h' ys. F h' \<and> copied (items_of S) h xs h' ys)" for F
  proof (induction xs arbitrary: F)
    case Nil
    show ?case by (auto simp: copied_def intro: fills_return)
  next
    case (Cons x xs)
    have x: "Holds S {..<NextAddr h} h x" and xs: "Holds (items_of S) {..<NextAddr h} h xs" using Cons.prems(2) by simp_all
    note copied = deep_copier.kept_copied [OF S]
    show ?case
      unfolding copy_items.simps
    proof (rule deep_copier.fills_into [OF S x Cons.prems(1)])
      fix y
      let ?F = "\<lambda>h'. F h' \<and> copied S h x h' y"
      have "fills h ?F (copy_items into xs) (\<lambda>h' ys. ?F h' \<and> copied (items_of S) h xs h' ys)"
        by (rule Cons.IH [OF copied [OF Cons.prems(1)] xs])
      then show "fills h ?F (copy_items into xs \<bind> (\<lambda>ys. return (y # ys)))
          (\<lambda>h' ys. F h' \<and> copied (items_of S) h (x # xs) h' ys)"
        by (intro fills_result) (rule fills_weaken, assumption, simp add: copied_def)
    qed
  qed
  from this [OF kept_True] show "fills h (\<lambda>h. True) (copy_items into xs) (\<lambda>h' y. copied (items_of S) h xs h' y)"
    by simp
qed (auto intro: deep_copier.mono [OF S] deep_copier.frame_Holds [OF S] deep_copier.frame_View [OF S])

text \<open>A map's entries are copied as the list of its values.\<close>

lemma update_new: "k \<notin> fst ` set kvs \<Longrightarrow> AList.update k v kvs = kvs @ [(k, v)]"
  by (induction kvs) auto

lemma copy_entries_items:
  "distinct (map fst kvs) \<Longrightarrow> fst ` set kvs \<inter> fst ` set out = {} \<Longrightarrow>
   copy_entries copy kvs out = copy_items copy (map snd kvs) \<bind> (\<lambda>vs. return (out @ zip (map fst kvs) vs))"
proof (induction kvs arbitrary: out)
  case (Cons kv kvs)
  obtain k v where kv: "kv = (k, v)" by (cases kv)
  have new: "AList.update k w out = out @ [(k, w)]" for w
    using Cons.prems(2) by (intro update_new) (auto simp: kv)
  have "copy_entries copy kvs (out @ [(k, w)]) =
      copy_items copy (map snd kvs) \<bind> (\<lambda>vs. return ((out @ [(k, w)]) @ zip (map fst kvs) vs))" for w
    using Cons.prems by (intro Cons.IH) (auto simp: kv)
  then show ?case by (simp add: kv new)
qed simp

lemma map_of_zip_view:
  "length vs = length kvs \<Longrightarrow> map f vs = map g (map snd kvs) \<Longrightarrow>
   map_of (map (\<lambda>(k, x). (k, f x)) (zip (map fst kvs) vs)) = map_of (map (\<lambda>(k, x). (k, g x)) kvs)"
proof -
  assume "length vs = length kvs" "map f vs = map g (map snd kvs)"
  then have "map (\<lambda>(k, x). (k, f x)) (zip (map fst kvs) vs) = map (\<lambda>(k, x). (k, g x)) kvs"
    by (induction vs kvs rule: list_induct2) auto
  then show ?thesis by simp
qed

lemma entries_copier:
  assumes S: "deep_copier (S :: ('c, 'b, 'v) shape) into"
  shows "deep_copier (entries_of S :: (_, ('k \<times> _) list, _) shape) (\<lambda>kvs. copy_entries into kvs [])"
proof (rule deep_copierI)
  fix h and kvs :: "('k \<times> 'b) list"
  assume old: "Holds (entries_of S) {..<NextAddr h} h kvs"
  then have distinct: "distinct (map fst kvs)" and vals: "Holds (items_of S) {..<NextAddr h} h (map snd kvs)" by auto
  have "fills h (\<lambda>h. True) (copy_items into (map snd kvs)) (copied (items_of S) h (map snd kvs))"
    using deep_copier.fills_into [OF items_copier [OF S] vals kept_True, where f = return] by (simp add: fills_return)
  then have "fills h (\<lambda>h. True) (copy_items into (map snd kvs))
      (\<lambda>h' vs. copied (entries_of S) h kvs h' (zip (map fst kvs) vs))"
  proof (rule fills_weaken)
    fix h' vs
    assume c: "copied (items_of S) h (map snd kvs) h' vs"
    then have views: "map (View S h') vs = map (View S h) (map snd kvs)" by (simp add: copied_def)
    then have "length vs = length kvs" by (metis length_map)
    with c views show "copied (entries_of S) h kvs h' (zip (map fst kvs) vs)"
      using map_of_zip_view [OF _ views] distinct by (auto simp: copied_def dest: set_zip_rightD)
  qed
  then show "fills h (\<lambda>h. True) (copy_entries into kvs []) (copied (entries_of S) h kvs)"
    using copy_entries_items [OF distinct, of "[]" into] by (simp add: fills_result)
next
  fix A h h' and kvs :: "('k \<times> 'b) list"
  assume "Holds (entries_of S) A h kvs" "agree A h h'"
  then have "Holds (entries_of S) A h' kvs" by (auto intro: deep_copier.frame_Holds [OF S])
  moreover have "map (\<lambda>(k, x). (k, View S h' x)) kvs = map (\<lambda>(k, x). (k, View S h x)) kvs"
    using \<open>Holds (entries_of S) A h kvs\<close> \<open>agree A h h'\<close> by (fastforce intro: deep_copier.frame_View [OF S])
  then have "View (entries_of S) h' kvs = View (entries_of S) h kvs" by (simp only: shape_simps)
  ultimately show "Holds (entries_of S) A h' kvs \<and> View (entries_of S) h' kvs = View (entries_of S) h kvs" ..
qed (auto intro: deep_copier.mono [OF S])

text \<open>
  Several refs, one after the other; and a struct, of which \<open>refs\<close> are those with references and \<open>put\<close> sets
  them again.
\<close>

definition both :: "('c, 'a, 'v) shape \<Rightarrow> ('c, 'b, 'w) shape \<Rightarrow> ('c, 'a \<times> 'b, 'v \<times> 'w) shape" where
  "both S T = \<lparr>Holds = \<lambda>A h (x, y). Holds S A h x \<and> Holds T A h y, View = \<lambda>h (x, y). (View S h x, View T h y)\<rparr>"

definition copy_both ::
  "('a \<Rightarrow> ('c heap, 'a) state) \<Rightarrow> ('b \<Rightarrow> ('c heap, 'b) state) \<Rightarrow> 'a \<times> 'b \<Rightarrow> ('c heap, 'a \<times> 'b) state" where
  "copy_both f g p = do { x \<leftarrow> f (fst p); y \<leftarrow> g (snd p); return (x, y) }"

lemma both_simps [simp]:
  "Holds (both S T) A h (x, y) \<longleftrightarrow> Holds S A h x \<and> Holds T A h y"
  "View (both S T) h (x, y) = (View S h x, View T h y)"
  by (simp_all add: both_def)

lemma both_copier:
  assumes S: "deep_copier S f" and T: "deep_copier T g"
  shows "deep_copier (both S T) (copy_both f g)"
proof (rule deep_copierI, goal_cases)
  case (1 A B h p)
  then show ?case by (cases p) (auto intro: deep_copier.mono [OF S] deep_copier.mono [OF T])
next
  case (2 A h h' p)
  then show ?case by (cases p)
      (auto intro: deep_copier.frame_Holds [OF S] deep_copier.frame_View [OF S] deep_copier.frame_Holds [OF T]
        deep_copier.frame_View [OF T])
next
  case (3 h p)
  then show ?case unfolding copy_both_def
    by (cases p) (auto simp: copied_def intro!: deep_copier.fills_into [OF S] deep_copier.fills_into [OF T]
        deep_copier.kept_copied [OF S] fills_return)
qed

lemma struct_copier:
  assumes P: "deep_copier P copy"
    and holds: "\<And>A h x. Holds S A h x \<longleftrightarrow> Holds P A h (refs x)"
    and view: "\<And>h h' p x. View P h' p = View P h (refs x) \<Longrightarrow> View S h' (put p x) = View S h x"
    and put: "\<And>p x. refs (put p x) = p" "\<And>x. put (refs x) x = x"
    and into: "\<And>x. into x = copy (refs x) \<bind> (\<lambda>p. return (put p x))"
  shows "deep_copier S into"
proof (rule deep_copierI, goal_cases)
  case 1
  then show ?case by (auto simp: holds intro: deep_copier.mono [OF P])
next
  case (2 A h h' x)
  then have "View P h' (refs x) = View P h (refs x)" by (auto simp: holds intro: deep_copier.frame_View [OF P])
  then have "View S h' (put (refs x) x) = View S h x" by (rule view)
  with 2 show ?case by (auto simp: holds put intro: deep_copier.frame_Holds [OF P])
next
  case (3 h x)
  then have "Holds P {..<NextAddr h} h (refs x)" by (simp add: holds)
  then show ?case unfolding into
    by (intro deep_copier.fills_into [OF P] kept_True fills_return) (auto simp: copied_def holds put intro: view)
qed

end
