(* ===== verification/Webhooks.thy ===== *)
theory Webhooks
  imports Api Lib
begin

text \<open>
  The webhooks of \<open>api/v1beta1\<close>: \<open>watcher_webhook.go\<close> with the defaults of \<open>common_types.go\<close>, and the
  scaffolds of the three services, which default and validate nothing.
\<close>

section \<open>Defaults\<close>

definition WatcherAPIContainerImage :: string where
  "WatcherAPIContainerImage = ''quay.io/podified-master-centos9/openstack-watcher-api:current-podified''"

definition WatcherDecisionEngineContainerImage :: string where
  "WatcherDecisionEngineContainerImage =
     ''quay.io/podified-master-centos9/openstack-watcher-decision-engine:current-podified''"

definition WatcherApplierContainerImage :: string where
  "WatcherApplierContainerImage = ''quay.io/podified-master-centos9/openstack-watcher-applier:current-podified''"

text \<open>The package variable \<open>watcherDefaults\<close> has the three images; it starts as the zero value.\<close>

type_synonym WatcherDefaults = WatcherImages

definition WatcherDefaults0 :: WatcherDefaults where
  "WatcherDefaults0 = \<lparr>APIContainerImageURL = [], DecisionEngineContainerImageURL = [], ApplierContainerImageURL = []\<rparr>"

definition SetupDefaults :: "lib \<Rightarrow> WatcherDefaults" where
  "SetupDefaults L =
     \<lparr>APIContainerImageURL = GetEnvVar L ''RELATED_IMAGE_WATCHER_API_IMAGE_URL_DEFAULT'' WatcherAPIContainerImage,
      DecisionEngineContainerImageURL =
        GetEnvVar L ''RELATED_IMAGE_WATCHER_DECISION_ENGINE_IMAGE_URL_DEFAULT'' WatcherDecisionEngineContainerImage,
      ApplierContainerImageURL =
        GetEnvVar L ''RELATED_IMAGE_WATCHER_APPLIER_IMAGE_URL_DEFAULT'' WatcherApplierContainerImage\<rparr>"

definition WatcherImages_Default :: "WatcherDefaults \<Rightarrow> WatcherImages \<Rightarrow> WatcherImages" where
  "WatcherImages_Default defaults r =
     (let r = (if APIContainerImageURL r = [] then r\<lparr>APIContainerImageURL := APIContainerImageURL defaults\<rparr> else r);
          r = (if DecisionEngineContainerImageURL r = []
               then r\<lparr>DecisionEngineContainerImageURL := DecisionEngineContainerImageURL defaults\<rparr> else r);
          r = (if ApplierContainerImageURL r = []
               then r\<lparr>ApplierContainerImageURL := ApplierContainerImageURL defaults\<rparr> else r)
      in r)"

definition WatcherSpec_Default :: "WatcherDefaults \<Rightarrow> WatcherSpec \<Rightarrow> WatcherSpec" where
  "WatcherSpec_Default watcherDefaults spec = spec\<lparr>Images := WatcherImages_Default watcherDefaults (Images spec)\<rparr>"

definition Watcher_Default :: "WatcherDefaults \<Rightarrow> Watcher \<Rightarrow> Watcher" where
  "Watcher_Default watcherDefaults r = r\<lparr>Spec := WatcherSpec_Default watcherDefaults (Spec r)\<rparr>"

section \<open>Validation\<close>

text \<open>
  \<open>if *p == "" || p == nil\<close>: the pointer is dereferenced before it is compared, so the second test is
  never reached with a nil pointer.
\<close>

definition field_empty :: "string option \<Rightarrow> bool go" where
  "field_empty p = (case deref p of Panic e \<Rightarrow> Panic e | Val v \<Rightarrow> Val (v = [] \<or> p = None))"

definition Watcher_ValidateCreate :: "Watcher \<Rightarrow> (error option) go" where
  "Watcher_ValidateCreate r =
     (case field_empty (DatabaseInstance (Spec r)) of
        Panic e \<Rightarrow> Panic e
      | Val none \<Rightarrow>
          if none then Val (Some (NewError ''databaseInstance field should not be empty''))
          else (case field_empty (RabbitMqClusterName (Spec r)) of
              Panic e \<Rightarrow> Panic e
            | Val none \<Rightarrow>
                if none then Val (Some (NewError ''rabbitMqClusterName field should not be empty''))
                else Val None))"

definition Watcher_ValidateUpdate :: "Watcher \<Rightarrow> 'old \<Rightarrow> (error option) go" where
  "Watcher_ValidateUpdate r old =
     (case field_empty (DatabaseInstance (Spec r)) of
        Panic e \<Rightarrow> Panic e
      | Val none \<Rightarrow>
          if none then Val (Some (NewError ''databaseInstance field should not be empty''))
          else (case field_empty (RabbitMqClusterName (Spec r)) of
              Panic e \<Rightarrow> Panic e
            | Val none \<Rightarrow>
                if none then Val (Some (NewError ''rabbitMqClusterName field should not be empty''))
                else Val None))"

definition Watcher_ValidateDelete :: "Watcher \<Rightarrow> (error option) go" where
  "Watcher_ValidateDelete r = Val None"

text \<open>The scaffolds of the services.\<close>

definition WatcherAPI_Default :: "WatcherAPI \<Rightarrow> WatcherAPI" where "WatcherAPI_Default r = r"
definition WatcherAPI_ValidateCreate :: "WatcherAPI \<Rightarrow> error option" where "WatcherAPI_ValidateCreate r = None"
definition WatcherAPI_ValidateUpdate :: "WatcherAPI \<Rightarrow> 'old \<Rightarrow> error option" where
  "WatcherAPI_ValidateUpdate r old = None"
definition WatcherAPI_ValidateDelete :: "WatcherAPI \<Rightarrow> error option" where "WatcherAPI_ValidateDelete r = None"

definition WatcherApplier_Default :: "WatcherApplier \<Rightarrow> WatcherApplier" where "WatcherApplier_Default r = r"
definition WatcherApplier_ValidateCreate :: "WatcherApplier \<Rightarrow> error option" where
  "WatcherApplier_ValidateCreate r = None"
definition WatcherApplier_ValidateUpdate :: "WatcherApplier \<Rightarrow> 'old \<Rightarrow> error option" where
  "WatcherApplier_ValidateUpdate r old = None"
definition WatcherApplier_ValidateDelete :: "WatcherApplier \<Rightarrow> error option" where
  "WatcherApplier_ValidateDelete r = None"

definition WatcherDecisionEngine_Default :: "WatcherDecisionEngine \<Rightarrow> WatcherDecisionEngine" where
  "WatcherDecisionEngine_Default r = r"
definition WatcherDecisionEngine_ValidateCreate :: "WatcherDecisionEngine \<Rightarrow> error option" where
  "WatcherDecisionEngine_ValidateCreate r = None"
definition WatcherDecisionEngine_ValidateUpdate :: "WatcherDecisionEngine \<Rightarrow> 'old \<Rightarrow> error option" where
  "WatcherDecisionEngine_ValidateUpdate r old = None"
definition WatcherDecisionEngine_ValidateDelete :: "WatcherDecisionEngine \<Rightarrow> error option" where
  "WatcherDecisionEngine_ValidateDelete r = None"

section \<open>Properties\<close>

lemma field_empty_cases:
  "field_empty None = Panic ''nil pointer dereference''" "field_empty (Some v) = Val (v = [])"
  by (simp_all add: field_empty_def)

text \<open>
  Defaulting a Watcher fills exactly the image URLs that are empty, each from the default of its own
  service, touches nothing else, and does nothing the second time.
\<close>

lemma watcher_default_fills_images:
  "Watcher_Default d r = r\<lparr>Spec := (Spec r)\<lparr>Images :=
     \<lparr>APIContainerImageURL = (let u = APIContainerImageURL (Images (Spec r)) in
        if u = [] then APIContainerImageURL d else u),
      DecisionEngineContainerImageURL = (let u = DecisionEngineContainerImageURL (Images (Spec r)) in
        if u = [] then DecisionEngineContainerImageURL d else u),
      ApplierContainerImageURL = (let u = ApplierContainerImageURL (Images (Spec r)) in
        if u = [] then ApplierContainerImageURL d else u)\<rparr>\<rparr>\<rparr> \<and>
   Watcher_Default d (Watcher_Default d r) = Watcher_Default d r"
proof -
  have "WatcherImages_Default d m =
     \<lparr>APIContainerImageURL = (let u = APIContainerImageURL m in if u = [] then APIContainerImageURL d else u),
      DecisionEngineContainerImageURL = (let u = DecisionEngineContainerImageURL m in
        if u = [] then DecisionEngineContainerImageURL d else u),
      ApplierContainerImageURL = (let u = ApplierContainerImageURL m in
        if u = [] then ApplierContainerImageURL d else u)\<rparr>" for m
    by (cases m) (simp add: WatcherImages_Default_def Let_def)
  then show ?thesis by (simp add: Watcher_Default_def WatcherSpec_Default_def Let_def)
qed

text \<open>
  C39. Validation of a Watcher, on create and on update alike, accepts exactly the resources that name
  both a database instance and a message bus cluster. An empty name is reported; a nil pointer is not:
  the handler panics on it.
\<close>

theorem watcher_validation:
  "Watcher_ValidateUpdate r old = Watcher_ValidateCreate r \<and>
   (Watcher_ValidateCreate r = Val None \<longleftrightarrow>
      (\<exists>d q. DatabaseInstance (Spec r) = Some d \<and> d \<noteq> [] \<and> RabbitMqClusterName (Spec r) = Some q \<and> q \<noteq> [])) \<and>
   (is_panic (Watcher_ValidateCreate r) \<longleftrightarrow>
      DatabaseInstance (Spec r) = None \<or>
      (\<exists>d. DatabaseInstance (Spec r) = Some d \<and> d \<noteq> [] \<and> RabbitMqClusterName (Spec r) = None))"
  by (cases "DatabaseInstance (Spec r)"; cases "RabbitMqClusterName (Spec r)")
    (simp_all add: Watcher_ValidateCreate_def Watcher_ValidateUpdate_def field_empty_cases)

end
