(* ===== verification/GoStructs.thy ===== *)
theory GoStructs
  imports GoHeap Webhooks
begin

text \<open>
  The types of \<open>api/v1beta1\<close> as they lie in memory, field by field as the Go structs have them.
\<close>

section \<open>The structs in memory\<close>

text \<open>
  Structs without references are those of theories Api and Webhooks. A struct of another module (\<open>ObjectMeta\<close>,
  \<open>ResourceRequirements\<close>, \<open>tls.API\<close> and so on) is a value of the type \<open>'x\<close>, which the module copies itself.
\<close>

record APIOverrideSpec_struct =
  mService :: "addr option"

record Override_struct =
  mRoute :: "addr option"
  mTLSOverride :: "addr option"

record WatcherCommon_struct =
  mServiceUser :: string
  mPasswordSelectors :: PasswordSelector
  mMemcachedInstance :: string
  mPreserveJobs :: bool
  mNodeSelector :: "addr option"
  mCustomServiceConfig :: string
  mPrometheusSecret :: string

record 'x WatcherSubCrsCommon_struct =
  mContainerImage :: string
  mResources :: 'x
  mServiceAccount :: string

record 'x WatcherAPISpec_struct =
  mAPICommon :: WatcherCommon_struct
  mAPISecret :: string
  mAPISubCrsCommon :: "'x WatcherSubCrsCommon_struct"
  mAPIReplicas :: "addr option"
  mAPIOverrideSpec :: APIOverrideSpec_struct
  mAPITLS :: 'x

record 'x WatcherApplierSpec_struct =
  mCommon :: WatcherCommon_struct
  mSecret :: string
  mSubCrsCommon :: "'x WatcherSubCrsCommon_struct"
  mReplicas :: "addr option"
  mTLSCa :: tls_Ca

type_synonym 'x WatcherDecisionEngineSpec_struct = "'x WatcherApplierSpec_struct"

record 'x WatcherSubCrsTemplate_struct =
  mTResources :: 'x
  mTNodeSelector :: "addr option"
  mTCustomServiceConfig :: string

record 'x WatcherAPITemplate_struct =
  mAPITemplate :: "'x WatcherSubCrsTemplate_struct"
  mTAPIReplicas :: "addr option"
  mTOverride :: APIOverrideSpec_struct
  mTTLS :: 'x

record 'x WatcherApplierTemplate_struct =
  mTemplate :: "'x WatcherSubCrsTemplate_struct"
  mTReplicas :: "addr option"

type_synonym 'x WatcherDecisionEngineTemplate_struct = "'x WatcherApplierTemplate_struct"

record WatcherDBPurge_struct =
  mSchedule :: "addr option"
  mPurgeAge :: "addr option"

record 'x WatcherTemplate_struct =
  mWatcherCommon :: WatcherCommon_struct
  mRabbitMqClusterName :: "addr option"
  mWatcherSecret :: string
  mDatabaseInstance :: "addr option"
  mDatabaseAccount :: string
  mAPIServiceTemplate :: "'x WatcherAPITemplate_struct"
  mApplierServiceTemplate :: "'x WatcherApplierTemplate_struct"
  mDecisionEngineServiceTemplate :: "'x WatcherDecisionEngineTemplate_struct"
  mAPIOverride :: Override_struct
  mDBPurge :: WatcherDBPurge_struct

record 'x WatcherSpec_struct =
  mWatcherTemplate :: "'x WatcherTemplate_struct"
  mWatcherImages :: WatcherImages

record WatcherStatus_struct =
  mWatcherConditions :: "addr option"
  mServiceID :: string
  mWatcherHash :: "addr option"
  mWatcherObservedGeneration :: int
  mAPIServiceReadyCount :: int
  mApplierServiceReadyCount :: int
  mDecisionEngineServiceReadyCount :: int

record WatcherAPIStatus_struct =
  mConditions :: "addr option"
  mObservedGeneration :: int
  mReadyCount :: int
  mHash :: "addr option"

type_synonym WatcherApplierStatus_struct = WatcherAPIStatus_struct
type_synonym WatcherDecisionEngineStatus_struct = WatcherAPIStatus_struct

text \<open>
  The four resources have the same outer form: \<open>TypeMeta\<close>, \<open>ObjectMeta\<close>, a spec and a status; so have their
  lists.
\<close>

record TypeMeta =
  mKind :: string
  mAPIVersion :: string

record ('x, 'spec, 'status) resource_struct =
  mTypeMeta :: TypeMeta
  mObjectMeta :: 'x
  mSpec :: 'spec
  mStatus :: 'status

type_synonym 'x Watcher_struct = "('x, 'x WatcherSpec_struct, WatcherStatus_struct) resource_struct"
type_synonym 'x WatcherAPI_struct = "('x, 'x WatcherAPISpec_struct, WatcherAPIStatus_struct) resource_struct"
type_synonym 'x WatcherApplier_struct =
  "('x, 'x WatcherApplierSpec_struct, WatcherApplierStatus_struct) resource_struct"
type_synonym 'x WatcherDecisionEngine_struct =
  "('x, 'x WatcherDecisionEngineSpec_struct, WatcherDecisionEngineStatus_struct) resource_struct"

record 'x list_struct =
  mListTypeMeta :: TypeMeta
  mListMeta :: 'x
  mItems :: "addr option"

text \<open>
  What a cell may hold: the target of a pointer, the entries of a map, the items of a slice. The address of a
  slice is that of its items, all of them.
\<close>

datatype 'x part_cell =
    APIOverrideSpecCell (the_APIOverrideSpec: APIOverrideSpec_struct)
  | OverrideCell (the_Override: Override_struct)
  | PasswordSelectorCell (the_PasswordSelector: PasswordSelector)
  | TLSServiceOverrideCell (the_TLSServiceOverride: TLSServiceOverride)
  | WatcherSpecCell (the_WatcherSpec: "'x WatcherSpec_struct")
  | WatcherStatusCell (the_WatcherStatus: WatcherStatus_struct)
  | WatcherTemplateCell (the_WatcherTemplate: "'x WatcherTemplate_struct")
  | WatcherAPISpecCell (the_WatcherAPISpec: "'x WatcherAPISpec_struct")
  | WatcherAPIStatusCell (the_WatcherAPIStatus: WatcherAPIStatus_struct)
  | WatcherAPITemplateCell (the_WatcherAPITemplate: "'x WatcherAPITemplate_struct")
  | WatcherApplierSpecCell (the_WatcherApplierSpec: "'x WatcherApplierSpec_struct")
  | WatcherApplierStatusCell (the_WatcherApplierStatus: WatcherApplierStatus_struct)
  | WatcherApplierTemplateCell (the_WatcherApplierTemplate: "'x WatcherApplierTemplate_struct")
  | WatcherDecisionEngineSpecCell (the_WatcherDecisionEngineSpec: "'x WatcherDecisionEngineSpec_struct")
  | WatcherDecisionEngineStatusCell (the_WatcherDecisionEngineStatus: WatcherDecisionEngineStatus_struct)
  | WatcherDecisionEngineTemplateCell (the_WatcherDecisionEngineTemplate: "'x WatcherDecisionEngineTemplate_struct")
  | WatcherCommonCell (the_WatcherCommon: WatcherCommon_struct)
  | WatcherDBPurgeCell (the_WatcherDBPurge: WatcherDBPurge_struct)
  | WatcherDefaultsCell (the_WatcherDefaults: WatcherDefaults)
  | WatcherImagesCell (the_WatcherImages: WatcherImages)
  | WatcherSubCrsCommonCell (the_WatcherSubCrsCommon: "'x WatcherSubCrsCommon_struct")
  | WatcherSubCrsTemplateCell (the_WatcherSubCrsTemplate: "'x WatcherSubCrsTemplate_struct")

datatype 'x object_cell =
    WatcherCell (the_Watcher: "'x Watcher_struct")
  | WatcherItems (the_WatcherItems: "'x Watcher_struct list")
  | WatcherListCell (the_WatcherList: "'x list_struct")
  | WatcherAPICell (the_WatcherAPI: "'x WatcherAPI_struct")
  | WatcherAPIItems (the_WatcherAPIItems: "'x WatcherAPI_struct list")
  | WatcherAPIListCell (the_WatcherAPIList: "'x list_struct")
  | WatcherApplierCell (the_WatcherApplier: "'x WatcherApplier_struct")
  | WatcherApplierItems (the_WatcherApplierItems: "'x WatcherApplier_struct list")
  | WatcherApplierListCell (the_WatcherApplierList: "'x list_struct")
  | WatcherDecisionEngineCell (the_WatcherDecisionEngine: "'x WatcherDecisionEngine_struct")
  | WatcherDecisionEngineItems (the_WatcherDecisionEngineItems: "'x WatcherDecisionEngine_struct list")
  | WatcherDecisionEngineListCell (the_WatcherDecisionEngineList: "'x list_struct")

datatype 'x cell =
    Int32Cell (the_Int32: int)
  | IntCell (the_Int: int)
  | StringCell (the_String: string)
  | StringMapCell (the_StringMap: "(string \<times> string) list")
  | MapVariable (the_MapVariable: "addr option")
  | ServiceMapCell (the_ServiceMap: "(string \<times> 'x) list")
  | ConditionsCell (the_Conditions: "'x list")
  | RouteCell (the_Route: 'x)
  | LibraryCell (the_Library: 'x)
  | PartCell (the_Part: "'x part_cell")
  | ObjectCell (the_Object: "'x object_cell")

type_synonym ('x, 'a) copying = "'a \<Rightarrow> ('x cell heap, 'a) state"
type_synonym 'x pointer_copying = "addr option \<Rightarrow> ('x cell heap, addr option) state"

end
