(* ===== verification/DeepCopy.thy ===== *)
theory DeepCopy
  imports GoStructs
begin

text \<open>
  \<open>api/v1beta1/zz_generated.deepcopy.go\<close>: \<open>DeepCopyInto\<close>, \<open>DeepCopy\<close> and \<open>DeepCopyObject\<close> of every type. \<open>in\<close> and
  \<open>out\<close> are never the same struct, so \<open>DeepCopyInto\<close> is the function from the struct behind \<open>in\<close> to what it leaves
  behind \<open>out\<close>: \<open>*out = *in\<close>, then the fields with references again.
\<close>

section \<open>The structs of other modules\<close>

text \<open>What they stand for, and the \<open>DeepCopyInto\<close> each of them has; \<open>RoutedOverrideSpec\<close> is copied by \<open>*val.DeepCopy()\<close>.\<close>

record object_meta =
  MetaName :: string
  MetaNamespace :: string
  MetaUID :: string
  MetaGeneration :: int
  MetaDeletionTimestamp :: "string option"
  MetaFinalizers :: "string list"

record 'x library_types =
  ObjectMeta_DeepCopyInto :: "('x, 'x) copying"
  ObjectMeta_shape :: "('x cell, 'x, object_meta) shape"
  ListMeta_DeepCopyInto :: "('x, 'x) copying"
  ListMeta_shape :: "('x cell, 'x, string) shape"
  ResourceRequirements_DeepCopyInto :: "('x, 'x) copying"
  ResourceRequirements_shape :: "('x cell, 'x, resources) shape"
  TLS_API_DeepCopyInto :: "('x, 'x) copying"
  TLS_API_shape :: "('x cell, 'x, tls_API) shape"
  RoutedOverrideSpec_DeepCopy :: "('x, 'x) copying"
  RoutedOverrideSpec_shape :: "('x cell, 'x, RoutedOverrideSpec) shape"
  RouteOverrideSpec_DeepCopyInto :: "('x, 'x) copying"
  RouteOverrideSpec_shape :: "('x cell, 'x, route_override) shape"
  Condition_DeepCopyInto :: "('x, 'x) copying"
  Condition_shape :: "('x cell, 'x, condition) shape"

section \<open>Pointers, maps and slices of basic types\<close>

definition copy_int32 :: "'x pointer_copying" where
  "copy_int32 = copy_ref the_Int32 Int32Cell return"

definition copy_string :: "'x pointer_copying" where
  "copy_string = copy_ref the_String StringCell return"

definition copy_string_map :: "'x pointer_copying" where
  "copy_string_map = copy_ref the_StringMap StringMapCell (\<lambda>entries. copy_entries return entries [])"

text \<open>\<open>*map[string]string\<close>: a pointer to a variable, which may hold a nil map.\<close>

definition copy_map_variable :: "'x pointer_copying" where
  "copy_map_variable = copy_ref the_MapVariable MapVariable copy_string_map"

text \<open>A pointer to one of the structs below, or a slice of them.\<close>

definition copy_part :: "('x part_cell \<Rightarrow> 'a) \<Rightarrow> ('a \<Rightarrow> 'x part_cell) \<Rightarrow> ('x, 'a) copying \<Rightarrow> 'x pointer_copying" where
  "copy_part un con into = copy_ref (\<lambda>c. un (the_Part c)) (\<lambda>x. PartCell (con x)) into"

definition copy_object :: "('x object_cell \<Rightarrow> 'a) \<Rightarrow> ('a \<Rightarrow> 'x object_cell) \<Rightarrow> ('x, 'a) copying \<Rightarrow> 'x pointer_copying" where
  "copy_object un con into = copy_ref (\<lambda>c. un (the_Object c)) (\<lambda>x. ObjectCell (con x)) into"

definition copy_conditions :: "'x library_types \<Rightarrow> 'x pointer_copying" where
  "copy_conditions K = copy_ref the_Conditions ConditionsCell (copy_items (Condition_DeepCopyInto K))"

section \<open>Specs and their parts\<close>

definition PasswordSelector_DeepCopyInto :: "('x, PasswordSelector) copying" where
  "PasswordSelector_DeepCopyInto src = return src"

definition PasswordSelector_DeepCopy :: "'x pointer_copying" where
  "PasswordSelector_DeepCopy =
     copy_part the_PasswordSelector PasswordSelectorCell PasswordSelector_DeepCopyInto"

definition TLSServiceOverride_DeepCopyInto :: "('x, TLSServiceOverride) copying" where
  "TLSServiceOverride_DeepCopyInto src = return src"

definition TLSServiceOverride_DeepCopy :: "'x pointer_copying" where
  "TLSServiceOverride_DeepCopy =
     copy_part the_TLSServiceOverride TLSServiceOverrideCell TLSServiceOverride_DeepCopyInto"

definition WatcherImages_DeepCopyInto :: "('x, WatcherImages) copying" where
  "WatcherImages_DeepCopyInto src = return src"

definition WatcherImages_DeepCopy :: "'x pointer_copying" where
  "WatcherImages_DeepCopy = copy_part the_WatcherImages WatcherImagesCell WatcherImages_DeepCopyInto"

definition WatcherDefaults_DeepCopyInto :: "('x, WatcherDefaults) copying" where
  "WatcherDefaults_DeepCopyInto src = return src"

definition WatcherDefaults_DeepCopy :: "'x pointer_copying" where
  "WatcherDefaults_DeepCopy = copy_part the_WatcherDefaults WatcherDefaultsCell WatcherDefaults_DeepCopyInto"

definition WatcherCommon_DeepCopyInto :: "('x, WatcherCommon_struct) copying" where
  "WatcherCommon_DeepCopyInto src = do {
     selector \<leftarrow> copy_map_variable (mNodeSelector src);
     return (src\<lparr>mPasswordSelectors := mPasswordSelectors src, mNodeSelector := selector\<rparr>)
   }"

definition WatcherCommon_DeepCopy :: "'x pointer_copying" where
  "WatcherCommon_DeepCopy = copy_part the_WatcherCommon WatcherCommonCell WatcherCommon_DeepCopyInto"

definition WatcherDBPurge_DeepCopyInto :: "('x, WatcherDBPurge_struct) copying" where
  "WatcherDBPurge_DeepCopyInto src = do {
     schedule \<leftarrow> copy_string (mSchedule src);
     age \<leftarrow> copy_ref the_Int IntCell return (mPurgeAge src);
     return (src\<lparr>mSchedule := schedule, mPurgeAge := age\<rparr>)
   }"

definition WatcherDBPurge_DeepCopy :: "'x pointer_copying" where
  "WatcherDBPurge_DeepCopy = copy_part the_WatcherDBPurge WatcherDBPurgeCell WatcherDBPurge_DeepCopyInto"

definition APIOverrideSpec_DeepCopyInto :: "'x library_types \<Rightarrow> ('x, APIOverrideSpec_struct) copying" where
  "APIOverrideSpec_DeepCopyInto K src = do {
     services \<leftarrow> copy_ref the_ServiceMap ServiceMapCell
       (\<lambda>entries. copy_entries (RoutedOverrideSpec_DeepCopy K) entries []) (mService src);
     return (src\<lparr>mService := services\<rparr>)
   }"

definition APIOverrideSpec_DeepCopy :: "'x library_types \<Rightarrow> 'x pointer_copying" where
  "APIOverrideSpec_DeepCopy K =
     copy_part the_APIOverrideSpec APIOverrideSpecCell (APIOverrideSpec_DeepCopyInto K)"

definition Override_DeepCopyInto :: "'x library_types \<Rightarrow> ('x, Override_struct) copying" where
  "Override_DeepCopyInto K src = do {
     route \<leftarrow> copy_ref the_Route RouteCell (RouteOverrideSpec_DeepCopyInto K) (mRoute src);
     tls \<leftarrow> copy_part the_TLSServiceOverride TLSServiceOverrideCell return (mTLSOverride src);
     return (src\<lparr>mRoute := route, mTLSOverride := tls\<rparr>)
   }"

definition Override_DeepCopy :: "'x library_types \<Rightarrow> 'x pointer_copying" where
  "Override_DeepCopy K = copy_part the_Override OverrideCell (Override_DeepCopyInto K)"

definition WatcherSubCrsCommon_DeepCopyInto :: "'x library_types \<Rightarrow> ('x, 'x WatcherSubCrsCommon_struct) copying" where
  "WatcherSubCrsCommon_DeepCopyInto K src = do {
     res \<leftarrow> ResourceRequirements_DeepCopyInto K (mResources src);
     return (src\<lparr>mResources := res\<rparr>)
   }"

definition WatcherSubCrsCommon_DeepCopy :: "'x library_types \<Rightarrow> 'x pointer_copying" where
  "WatcherSubCrsCommon_DeepCopy K =
     copy_part the_WatcherSubCrsCommon WatcherSubCrsCommonCell (WatcherSubCrsCommon_DeepCopyInto K)"

definition WatcherSubCrsTemplate_DeepCopyInto :: "'x library_types \<Rightarrow> ('x, 'x WatcherSubCrsTemplate_struct) copying" where
  "WatcherSubCrsTemplate_DeepCopyInto K src = do {
     res \<leftarrow> ResourceRequirements_DeepCopyInto K (mTResources src);
     selector \<leftarrow> copy_map_variable (mTNodeSelector src);
     return (src\<lparr>mTResources := res, mTNodeSelector := selector\<rparr>)
   }"

definition WatcherSubCrsTemplate_DeepCopy :: "'x library_types \<Rightarrow> 'x pointer_copying" where
  "WatcherSubCrsTemplate_DeepCopy K =
     copy_part the_WatcherSubCrsTemplate WatcherSubCrsTemplateCell (WatcherSubCrsTemplate_DeepCopyInto K)"

definition WatcherAPISpec_DeepCopyInto :: "'x library_types \<Rightarrow> ('x, 'x WatcherAPISpec_struct) copying" where
  "WatcherAPISpec_DeepCopyInto K src = do {
     common \<leftarrow> WatcherCommon_DeepCopyInto (mAPICommon src);
     sub \<leftarrow> WatcherSubCrsCommon_DeepCopyInto K (mAPISubCrsCommon src);
     replicas \<leftarrow> copy_int32 (mAPIReplicas src);
     override \<leftarrow> APIOverrideSpec_DeepCopyInto K (mAPIOverrideSpec src);
     tls \<leftarrow> TLS_API_DeepCopyInto K (mAPITLS src);
     return (src\<lparr>mAPICommon := common, mAPISubCrsCommon := sub, mAPIReplicas := replicas,
       mAPIOverrideSpec := override, mAPITLS := tls\<rparr>)
   }"

definition WatcherAPISpec_DeepCopy :: "'x library_types \<Rightarrow> 'x pointer_copying" where
  "WatcherAPISpec_DeepCopy K =
     copy_part the_WatcherAPISpec WatcherAPISpecCell (WatcherAPISpec_DeepCopyInto K)"

definition WatcherAPIStatus_DeepCopyInto :: "'x library_types \<Rightarrow> ('x, WatcherAPIStatus_struct) copying" where
  "WatcherAPIStatus_DeepCopyInto K src = do {
     conditions \<leftarrow> copy_conditions K (mConditions src);
     hash \<leftarrow> copy_string_map (mHash src);
     return (src\<lparr>mConditions := conditions, mHash := hash\<rparr>)
   }"

definition WatcherAPIStatus_DeepCopy :: "'x library_types \<Rightarrow> 'x pointer_copying" where
  "WatcherAPIStatus_DeepCopy K =
     copy_part the_WatcherAPIStatus WatcherAPIStatusCell (WatcherAPIStatus_DeepCopyInto K)"

definition WatcherAPITemplate_DeepCopyInto :: "'x library_types \<Rightarrow> ('x, 'x WatcherAPITemplate_struct) copying" where
  "WatcherAPITemplate_DeepCopyInto K src = do {
     template \<leftarrow> WatcherSubCrsTemplate_DeepCopyInto K (mAPITemplate src);
     replicas \<leftarrow> copy_int32 (mTAPIReplicas src);
     override \<leftarrow> APIOverrideSpec_DeepCopyInto K (mTOverride src);
     tls \<leftarrow> TLS_API_DeepCopyInto K (mTTLS src);
     return (src\<lparr>mAPITemplate := template, mTAPIReplicas := replicas, mTOverride := override, mTTLS := tls\<rparr>)
   }"

definition WatcherAPITemplate_DeepCopy :: "'x library_types \<Rightarrow> 'x pointer_copying" where
  "WatcherAPITemplate_DeepCopy K =
     copy_part the_WatcherAPITemplate WatcherAPITemplateCell (WatcherAPITemplate_DeepCopyInto K)"

definition WatcherApplierSpec_DeepCopyInto :: "'x library_types \<Rightarrow> ('x, 'x WatcherApplierSpec_struct) copying" where
  "WatcherApplierSpec_DeepCopyInto K src = do {
     common \<leftarrow> WatcherCommon_DeepCopyInto (mCommon src);
     sub \<leftarrow> WatcherSubCrsCommon_DeepCopyInto K (mSubCrsCommon src);
     replicas \<leftarrow> copy_int32 (mReplicas src);
     return (src\<lparr>mCommon := common, mSubCrsCommon := sub, mReplicas := replicas, mTLSCa := mTLSCa src\<rparr>)
   }"

definition WatcherApplierSpec_DeepCopy :: "'x library_types \<Rightarrow> 'x pointer_copying" where
  "WatcherApplierSpec_DeepCopy K =
     copy_part the_WatcherApplierSpec WatcherApplierSpecCell (WatcherApplierSpec_DeepCopyInto K)"

definition WatcherApplierStatus_DeepCopyInto :: "'x library_types \<Rightarrow> ('x, WatcherApplierStatus_struct) copying" where
  "WatcherApplierStatus_DeepCopyInto K src = do {
     conditions \<leftarrow> copy_conditions K (mConditions src);
     hash \<leftarrow> copy_string_map (mHash src);
     return (src\<lparr>mConditions := conditions, mHash := hash\<rparr>)
   }"

definition WatcherApplierStatus_DeepCopy :: "'x library_types \<Rightarrow> 'x pointer_copying" where
  "WatcherApplierStatus_DeepCopy K =
     copy_part the_WatcherApplierStatus WatcherApplierStatusCell (WatcherApplierStatus_DeepCopyInto K)"

definition WatcherApplierTemplate_DeepCopyInto :: "'x library_types \<Rightarrow> ('x, 'x WatcherApplierTemplate_struct) copying" where
  "WatcherApplierTemplate_DeepCopyInto K src = do {
     template \<leftarrow> WatcherSubCrsTemplate_DeepCopyInto K (mTemplate src);
     replicas \<leftarrow> copy_int32 (mTReplicas src);
     return (src\<lparr>mTemplate := template, mTReplicas := replicas\<rparr>)
   }"

definition WatcherApplierTemplate_DeepCopy :: "'x library_types \<Rightarrow> 'x pointer_copying" where
  "WatcherApplierTemplate_DeepCopy K =
     copy_part the_WatcherApplierTemplate WatcherApplierTemplateCell (WatcherApplierTemplate_DeepCopyInto K)"

definition WatcherDecisionEngineSpec_DeepCopyInto :: "'x library_types \<Rightarrow> ('x, 'x WatcherDecisionEngineSpec_struct) copying" where
  "WatcherDecisionEngineSpec_DeepCopyInto K src = do {
     common \<leftarrow> WatcherCommon_DeepCopyInto (mCommon src);
     sub \<leftarrow> WatcherSubCrsCommon_DeepCopyInto K (mSubCrsCommon src);
     replicas \<leftarrow> copy_int32 (mReplicas src);
     return (src\<lparr>mCommon := common, mSubCrsCommon := sub, mReplicas := replicas, mTLSCa := mTLSCa src\<rparr>)
   }"

definition WatcherDecisionEngineSpec_DeepCopy :: "'x library_types \<Rightarrow> 'x pointer_copying" where
  "WatcherDecisionEngineSpec_DeepCopy K =
     copy_part the_WatcherDecisionEngineSpec WatcherDecisionEngineSpecCell (WatcherDecisionEngineSpec_DeepCopyInto K)"

definition WatcherDecisionEngineStatus_DeepCopyInto :: "'x library_types \<Rightarrow> ('x, WatcherDecisionEngineStatus_struct) copying" where
  "WatcherDecisionEngineStatus_DeepCopyInto K src = do {
     conditions \<leftarrow> copy_conditions K (mConditions src);
     hash \<leftarrow> copy_string_map (mHash src);
     return (src\<lparr>mConditions := conditions, mHash := hash\<rparr>)
   }"

definition WatcherDecisionEngineStatus_DeepCopy :: "'x library_types \<Rightarrow> 'x pointer_copying" where
  "WatcherDecisionEngineStatus_DeepCopy K =
     copy_part the_WatcherDecisionEngineStatus WatcherDecisionEngineStatusCell (WatcherDecisionEngineStatus_DeepCopyInto K)"

definition WatcherDecisionEngineTemplate_DeepCopyInto :: "'x library_types \<Rightarrow> ('x, 'x WatcherDecisionEngineTemplate_struct) copying" where
  "WatcherDecisionEngineTemplate_DeepCopyInto K src = do {
     template \<leftarrow> WatcherSubCrsTemplate_DeepCopyInto K (mTemplate src);
     replicas \<leftarrow> copy_int32 (mTReplicas src);
     return (src\<lparr>mTemplate := template, mTReplicas := replicas\<rparr>)
   }"

definition WatcherDecisionEngineTemplate_DeepCopy :: "'x library_types \<Rightarrow> 'x pointer_copying" where
  "WatcherDecisionEngineTemplate_DeepCopy K =
     copy_part the_WatcherDecisionEngineTemplate WatcherDecisionEngineTemplateCell (WatcherDecisionEngineTemplate_DeepCopyInto K)"

definition WatcherTemplate_DeepCopyInto :: "'x library_types \<Rightarrow> ('x, 'x WatcherTemplate_struct) copying" where
  "WatcherTemplate_DeepCopyInto K src = do {
     common \<leftarrow> WatcherCommon_DeepCopyInto (mWatcherCommon src);
     bus \<leftarrow> copy_string (mRabbitMqClusterName src);
     db \<leftarrow> copy_string (mDatabaseInstance src);
     api \<leftarrow> WatcherAPITemplate_DeepCopyInto K (mAPIServiceTemplate src);
     applier \<leftarrow> WatcherApplierTemplate_DeepCopyInto K (mApplierServiceTemplate src);
     engine \<leftarrow> WatcherDecisionEngineTemplate_DeepCopyInto K (mDecisionEngineServiceTemplate src);
     override \<leftarrow> Override_DeepCopyInto K (mAPIOverride src);
     purge \<leftarrow> WatcherDBPurge_DeepCopyInto (mDBPurge src);
     return (src\<lparr>mWatcherCommon := common, mRabbitMqClusterName := bus, mDatabaseInstance := db,
       mAPIServiceTemplate := api, mApplierServiceTemplate := applier, mDecisionEngineServiceTemplate := engine,
       mAPIOverride := override, mDBPurge := purge\<rparr>)
   }"

definition WatcherTemplate_DeepCopy :: "'x library_types \<Rightarrow> 'x pointer_copying" where
  "WatcherTemplate_DeepCopy K =
     copy_part the_WatcherTemplate WatcherTemplateCell (WatcherTemplate_DeepCopyInto K)"

definition WatcherSpec_DeepCopyInto :: "'x library_types \<Rightarrow> ('x, 'x WatcherSpec_struct) copying" where
  "WatcherSpec_DeepCopyInto K src = do {
     template \<leftarrow> WatcherTemplate_DeepCopyInto K (mWatcherTemplate src);
     return (src\<lparr>mWatcherTemplate := template, mWatcherImages := mWatcherImages src\<rparr>)
   }"

definition WatcherSpec_DeepCopy :: "'x library_types \<Rightarrow> 'x pointer_copying" where
  "WatcherSpec_DeepCopy K = copy_part the_WatcherSpec WatcherSpecCell (WatcherSpec_DeepCopyInto K)"

definition WatcherStatus_DeepCopyInto :: "'x library_types \<Rightarrow> ('x, WatcherStatus_struct) copying" where
  "WatcherStatus_DeepCopyInto K src = do {
     conditions \<leftarrow> copy_conditions K (mWatcherConditions src);
     hash \<leftarrow> copy_string_map (mWatcherHash src);
     return (src\<lparr>mWatcherConditions := conditions, mWatcherHash := hash\<rparr>)
   }"

definition WatcherStatus_DeepCopy :: "'x library_types \<Rightarrow> 'x pointer_copying" where
  "WatcherStatus_DeepCopy K = copy_part the_WatcherStatus WatcherStatusCell (WatcherStatus_DeepCopyInto K)"

section \<open>Resources and their lists\<close>

definition Watcher_DeepCopyInto :: "'x library_types \<Rightarrow> ('x, 'x Watcher_struct) copying" where
  "Watcher_DeepCopyInto K src = do {
     meta \<leftarrow> ObjectMeta_DeepCopyInto K (mObjectMeta src);
     spec \<leftarrow> WatcherSpec_DeepCopyInto K (mSpec src);
     status \<leftarrow> WatcherStatus_DeepCopyInto K (mStatus src);
     return (src\<lparr>mTypeMeta := mTypeMeta src, mObjectMeta := meta, mSpec := spec, mStatus := status\<rparr>)
   }"

definition Watcher_DeepCopy :: "'x library_types \<Rightarrow> 'x pointer_copying" where
  "Watcher_DeepCopy K = copy_object the_Watcher WatcherCell (Watcher_DeepCopyInto K)"

definition WatcherList_DeepCopyInto :: "'x library_types \<Rightarrow> ('x, 'x list_struct) copying" where
  "WatcherList_DeepCopyInto K src = do {
     meta \<leftarrow> ListMeta_DeepCopyInto K (mListMeta src);
     items \<leftarrow> copy_object the_WatcherItems WatcherItems (copy_items (Watcher_DeepCopyInto K)) (mItems src);
     return (src\<lparr>mListTypeMeta := mListTypeMeta src, mListMeta := meta, mItems := items\<rparr>)
   }"

definition WatcherList_DeepCopy :: "'x library_types \<Rightarrow> 'x pointer_copying" where
  "WatcherList_DeepCopy K = copy_object the_WatcherList WatcherListCell (WatcherList_DeepCopyInto K)"

definition WatcherAPI_DeepCopyInto :: "'x library_types \<Rightarrow> ('x, 'x WatcherAPI_struct) copying" where
  "WatcherAPI_DeepCopyInto K src = do {
     meta \<leftarrow> ObjectMeta_DeepCopyInto K (mObjectMeta src);
     spec \<leftarrow> WatcherAPISpec_DeepCopyInto K (mSpec src);
     status \<leftarrow> WatcherAPIStatus_DeepCopyInto K (mStatus src);
     return (src\<lparr>mTypeMeta := mTypeMeta src, mObjectMeta := meta, mSpec := spec, mStatus := status\<rparr>)
   }"

definition WatcherAPI_DeepCopy :: "'x library_types \<Rightarrow> 'x pointer_copying" where
  "WatcherAPI_DeepCopy K = copy_object the_WatcherAPI WatcherAPICell (WatcherAPI_DeepCopyInto K)"

definition WatcherAPIList_DeepCopyInto :: "'x library_types \<Rightarrow> ('x, 'x list_struct) copying" where
  "WatcherAPIList_DeepCopyInto K src = do {
     meta \<leftarrow> ListMeta_DeepCopyInto K (mListMeta src);
     items \<leftarrow> copy_object the_WatcherAPIItems WatcherAPIItems (copy_items (WatcherAPI_DeepCopyInto K)) (mItems src);
     return (src\<lparr>mListTypeMeta := mListTypeMeta src, mListMeta := meta, mItems := items\<rparr>)
   }"

definition WatcherAPIList_DeepCopy :: "'x library_types \<Rightarrow> 'x pointer_copying" where
  "WatcherAPIList_DeepCopy K =
     copy_object the_WatcherAPIList WatcherAPIListCell (WatcherAPIList_DeepCopyInto K)"

definition WatcherApplier_DeepCopyInto :: "'x library_types \<Rightarrow> ('x, 'x WatcherApplier_struct) copying" where
  "WatcherApplier_DeepCopyInto K src = do {
     meta \<leftarrow> ObjectMeta_DeepCopyInto K (mObjectMeta src);
     spec \<leftarrow> WatcherApplierSpec_DeepCopyInto K (mSpec src);
     status \<leftarrow> WatcherApplierStatus_DeepCopyInto K (mStatus src);
     return (src\<lparr>mTypeMeta := mTypeMeta src, mObjectMeta := meta, mSpec := spec, mStatus := status\<rparr>)
   }"

definition WatcherApplier_DeepCopy :: "'x library_types \<Rightarrow> 'x pointer_copying" where
  "WatcherApplier_DeepCopy K =
     copy_object the_WatcherApplier WatcherApplierCell (WatcherApplier_DeepCopyInto K)"

definition WatcherApplierList_DeepCopyInto :: "'x library_types \<Rightarrow> ('x, 'x list_struct) copying" where
  "WatcherApplierList_DeepCopyInto K src = do {
     meta \<leftarrow> ListMeta_DeepCopyInto K (mListMeta src);
     items \<leftarrow> copy_object the_WatcherApplierItems WatcherApplierItems (copy_items (WatcherApplier_DeepCopyInto K)) (mItems src);
     return (src\<lparr>mListTypeMeta := mListTypeMeta src, mListMeta := meta, mItems := items\<rparr>)
   }"

definition WatcherApplierList_DeepCopy :: "'x library_types \<Rightarrow> 'x pointer_copying" where
  "WatcherApplierList_DeepCopy K =
     copy_object the_WatcherApplierList WatcherApplierListCell (WatcherApplierList_DeepCopyInto K)"

definition WatcherDecisionEngine_DeepCopyInto :: "'x library_types \<Rightarrow> ('x, 'x WatcherDecisionEngine_struct) copying" where
  "WatcherDecisionEngine_DeepCopyInto K src = do {
     meta \<leftarrow> ObjectMeta_DeepCopyInto K (mObjectMeta src);
     spec \<leftarrow> WatcherDecisionEngineSpec_DeepCopyInto K (mSpec src);
     status \<leftarrow> WatcherDecisionEngineStatus_DeepCopyInto K (mStatus src);
     return (src\<lparr>mTypeMeta := mTypeMeta src, mObjectMeta := meta, mSpec := spec, mStatus := status\<rparr>)
   }"

definition WatcherDecisionEngine_DeepCopy :: "'x library_types \<Rightarrow> 'x pointer_copying" where
  "WatcherDecisionEngine_DeepCopy K =
     copy_object the_WatcherDecisionEngine WatcherDecisionEngineCell (WatcherDecisionEngine_DeepCopyInto K)"

definition WatcherDecisionEngineList_DeepCopyInto :: "'x library_types \<Rightarrow> ('x, 'x list_struct) copying" where
  "WatcherDecisionEngineList_DeepCopyInto K src = do {
     meta \<leftarrow> ListMeta_DeepCopyInto K (mListMeta src);
     items \<leftarrow> copy_object the_WatcherDecisionEngineItems WatcherDecisionEngineItems (copy_items (WatcherDecisionEngine_DeepCopyInto K)) (mItems src);
     return (src\<lparr>mListTypeMeta := mListTypeMeta src, mListMeta := meta, mItems := items\<rparr>)
   }"

definition WatcherDecisionEngineList_DeepCopy :: "'x library_types \<Rightarrow> 'x pointer_copying" where
  "WatcherDecisionEngineList_DeepCopy K =
     copy_object the_WatcherDecisionEngineList WatcherDecisionEngineListCell (WatcherDecisionEngineList_DeepCopyInto K)"

section \<open>\<open>runtime.Object\<close>\<close>

text \<open>
  A value of the interface type is nil or a pointer with its dynamic type; a nil pointer with a type is not the nil
  interface.
\<close>

datatype object_type =
    GoWatcher | GoWatcherList | GoWatcherAPI | GoWatcherAPIList | GoWatcherApplier | GoWatcherApplierList
  | GoWatcherDecisionEngine | GoWatcherDecisionEngineList

type_synonym runtime_object = "(object_type \<times> addr option) option"

definition Watcher_DeepCopyObject :: "'x library_types \<Rightarrow> addr option \<Rightarrow> ('x cell heap, runtime_object) state" where
  "Watcher_DeepCopyObject K p = do {
     c \<leftarrow> Watcher_DeepCopy K p;
     if c \<noteq> None then return (Some (GoWatcher, c)) else return None
   }"

definition WatcherList_DeepCopyObject :: "'x library_types \<Rightarrow> addr option \<Rightarrow> ('x cell heap, runtime_object) state" where
  "WatcherList_DeepCopyObject K p = do {
     c \<leftarrow> WatcherList_DeepCopy K p;
     if c \<noteq> None then return (Some (GoWatcherList, c)) else return None
   }"

definition WatcherAPI_DeepCopyObject :: "'x library_types \<Rightarrow> addr option \<Rightarrow> ('x cell heap, runtime_object) state" where
  "WatcherAPI_DeepCopyObject K p = do {
     c \<leftarrow> WatcherAPI_DeepCopy K p;
     if c \<noteq> None then return (Some (GoWatcherAPI, c)) else return None
   }"

definition WatcherAPIList_DeepCopyObject :: "'x library_types \<Rightarrow> addr option \<Rightarrow> ('x cell heap, runtime_object) state" where
  "WatcherAPIList_DeepCopyObject K p = do {
     c \<leftarrow> WatcherAPIList_DeepCopy K p;
     if c \<noteq> None then return (Some (GoWatcherAPIList, c)) else return None
   }"

definition WatcherApplier_DeepCopyObject :: "'x library_types \<Rightarrow> addr option \<Rightarrow> ('x cell heap, runtime_object) state" where
  "WatcherApplier_DeepCopyObject K p = do {
     c \<leftarrow> WatcherApplier_DeepCopy K p;
     if c \<noteq> None then return (Some (GoWatcherApplier, c)) else return None
   }"

definition WatcherApplierList_DeepCopyObject :: "'x library_types \<Rightarrow> addr option \<Rightarrow> ('x cell heap, runtime_object) state" where
  "WatcherApplierList_DeepCopyObject K p = do {
     c \<leftarrow> WatcherApplierList_DeepCopy K p;
     if c \<noteq> None then return (Some (GoWatcherApplierList, c)) else return None
   }"

definition WatcherDecisionEngine_DeepCopyObject :: "'x library_types \<Rightarrow> addr option \<Rightarrow> ('x cell heap, runtime_object) state" where
  "WatcherDecisionEngine_DeepCopyObject K p = do {
     c \<leftarrow> WatcherDecisionEngine_DeepCopy K p;
     if c \<noteq> None then return (Some (GoWatcherDecisionEngine, c)) else return None
   }"

definition WatcherDecisionEngineList_DeepCopyObject :: "'x library_types \<Rightarrow> addr option \<Rightarrow> ('x cell heap, runtime_object) state" where
  "WatcherDecisionEngineList_DeepCopyObject K p = do {
     c \<leftarrow> WatcherDecisionEngineList_DeepCopy K p;
     if c \<noteq> None then return (Some (GoWatcherDecisionEngineList, c)) else return None
   }"

text \<open>The method of an interface value, by its dynamic type.\<close>

fun DeepCopyObject :: "'x library_types \<Rightarrow> object_type \<Rightarrow> addr option \<Rightarrow> ('x cell heap, runtime_object) state" where
  "DeepCopyObject K GoWatcher = Watcher_DeepCopyObject K"
| "DeepCopyObject K GoWatcherList = WatcherList_DeepCopyObject K"
| "DeepCopyObject K GoWatcherAPI = WatcherAPI_DeepCopyObject K"
| "DeepCopyObject K GoWatcherAPIList = WatcherAPIList_DeepCopyObject K"
| "DeepCopyObject K GoWatcherApplier = WatcherApplier_DeepCopyObject K"
| "DeepCopyObject K GoWatcherApplierList = WatcherApplierList_DeepCopyObject K"
| "DeepCopyObject K GoWatcherDecisionEngine = WatcherDecisionEngine_DeepCopyObject K"
| "DeepCopyObject K GoWatcherDecisionEngineList = WatcherDecisionEngineList_DeepCopyObject K"

end
