(* ===== verification/Copies.thy ===== *)
theory Copies
  imports DeepCopy
begin

text \<open>
  The value of theory Api each struct in memory stands for, and that every function of
  \<open>zz_generated.deepcopy.go\<close> copies deeply: the copy stands for the same value and shares no cell with the
  original. This is what the rest of the development rests on when it takes resources for values.
\<close>

section \<open>What the structs stand for\<close>

text \<open>A nil map reads as an empty one.\<close>

definition viewed :: "('v \<Rightarrow> 'w) \<Rightarrow> ('c, 'a, 'v) shape \<Rightarrow> ('c, 'a, 'w) shape" where
  "viewed f S = \<lparr>Holds = Holds S, View = \<lambda>h x. f (View S h x)\<rparr>"

lemma viewed_simps [simp]: "Holds (viewed f S) = Holds S" "View (viewed f S) h x = f (View S h x)"
  by (simp_all add: viewed_def)

lemma viewed_copier:
  assumes S: "deep_copier S into"
  shows "deep_copier (viewed f S) into"
proof (rule deep_copierI, goal_cases)
  case 1
  then show ?case using deep_copier.mono [OF S 1(1) [simplified]] by simp
next
  case 2
  then show ?case using deep_copier.frame_Holds [OF S 2(1) [simplified] 2(2)] deep_copier.frame_View [OF S 2(1) [simplified] 2(2)] by simp
next
  case (3 h x)
  then have "fills h (\<lambda>h. True) (into x) (copied S h x)"
    using deep_copier.fills_into [OF S _ kept_True, where f = return] by (simp add: fills_return)
  then show ?case by (rule fills_weaken) (simp add: copied_def)
qed

definition map_or_empty :: "('k \<rightharpoonup> 'v) option \<Rightarrow> ('k \<rightharpoonup> 'v)" where
  "map_or_empty m = (case m of None \<Rightarrow> Map.empty | Some m \<Rightarrow> m)"

definition int32_pointer :: "('x cell, addr option, int option) shape" where
  "int32_pointer = ref_to the_Int32 (plain id)"

definition int_pointer :: "('x cell, addr option, int option) shape" where
  "int_pointer = ref_to the_Int (plain id)"

definition string_pointer :: "('x cell, addr option, string option) shape" where
  "string_pointer = ref_to the_String (plain id)"

definition string_map_ref :: "('x cell, addr option, string_map option) shape" where
  "string_map_ref = ref_to the_StringMap (entries_of (plain id))"

definition map_pointer :: "('x cell, addr option, string_map option) shape" where
  "map_pointer = viewed (map_option map_or_empty) (ref_to the_MapVariable string_map_ref)"

definition conditions_slice :: "'x library_types \<Rightarrow> ('x cell, addr option, conditions) shape" where
  "conditions_slice K = ref_to the_Conditions (items_of (Condition_shape K))"

definition service_map :: "'x library_types \<Rightarrow> ('x cell, addr option, string \<rightharpoonup> RoutedOverrideSpec) shape" where
  "service_map K = viewed map_or_empty (ref_to the_ServiceMap (entries_of (RoutedOverrideSpec_shape K)))"

definition tls_override_pointer :: "('x cell, addr option, TLSServiceOverride option) shape" where
  "tls_override_pointer = ref_to (\<lambda>c. the_TLSServiceOverride (the_Part c)) (plain id)"

definition route_pointer :: "'x library_types \<Rightarrow> ('x cell, addr option, route_override option) shape" where
  "route_pointer K = ref_to the_Route (RouteOverrideSpec_shape K)"

subsection \<open>Specs\<close>

definition WatcherCommon_shape :: "('x cell, WatcherCommon_struct, WatcherCommon) shape" where
  "WatcherCommon_shape =
     \<lparr>Holds = \<lambda>A h x. Holds map_pointer A h (mNodeSelector x),
      View = \<lambda>h x. \<lparr>ServiceUser = mServiceUser x, PasswordSelectors = mPasswordSelectors x,
        MemcachedInstance = mMemcachedInstance x, PreserveJobs = mPreserveJobs x,
        NodeSelector = View map_pointer h (mNodeSelector x), CustomServiceConfig = mCustomServiceConfig x,
        PrometheusSecret = mPrometheusSecret x\<rparr>\<rparr>"

definition WatcherDBPurge_shape :: "('x cell, WatcherDBPurge_struct, WatcherDBPurge) shape" where
  "WatcherDBPurge_shape =
     \<lparr>Holds = \<lambda>A h x. Holds string_pointer A h (mSchedule x) \<and> Holds int_pointer A h (mPurgeAge x),
      View = \<lambda>h x. \<lparr>Schedule = View string_pointer h (mSchedule x), PurgeAge = View int_pointer h (mPurgeAge x)\<rparr>\<rparr>"

definition APIOverrideSpec_shape :: "'x library_types \<Rightarrow> ('x cell, APIOverrideSpec_struct, APIOverrideSpec) shape" where
  "APIOverrideSpec_shape K =
     \<lparr>Holds = \<lambda>A h x. Holds (service_map K) A h (mService x),
      View = \<lambda>h x. \<lparr>Service = View (service_map K) h (mService x)\<rparr>\<rparr>"

definition Override_shape :: "'x library_types \<Rightarrow> ('x cell, Override_struct, WatcherOverride) shape" where
  "Override_shape K =
     \<lparr>Holds = \<lambda>A h x. Holds (route_pointer K) A h (mRoute x) \<and> Holds tls_override_pointer A h (mTLSOverride x),
      View = \<lambda>h x. \<lparr>RouteOverride = View (route_pointer K) h (mRoute x),
        TLSOverride = View tls_override_pointer h (mTLSOverride x)\<rparr>\<rparr>"

text \<open>The part of a sub-resource's spec that \<open>WatcherSubCrsCommon\<close> holds: the image, the resources and the account.\<close>

definition WatcherSubCrsCommon_shape ::
  "'x library_types \<Rightarrow> ('x cell, 'x WatcherSubCrsCommon_struct, string \<times> resources \<times> string) shape" where
  "WatcherSubCrsCommon_shape K =
     \<lparr>Holds = \<lambda>A h x. Holds (ResourceRequirements_shape K) A h (mResources x),
      View = \<lambda>h x. (mContainerImage x, View (ResourceRequirements_shape K) h (mResources x), mServiceAccount x)\<rparr>"

text \<open>Theory Api lists the fields of the structs a spec embeds as its own.\<close>

definition sub_spec_view ::
  "WatcherCommon \<Rightarrow> string \<Rightarrow> string \<times> resources \<times> string \<Rightarrow> int option \<Rightarrow> WatcherSubCrsCommon" where
  "sub_spec_view c secret sub replicas = (case sub of (img, res, account) \<Rightarrow>
     \<lparr>ServiceUser = ServiceUser c, PasswordSelectors = PasswordSelectors c, MemcachedInstance = MemcachedInstance c,
      PreserveJobs = PreserveJobs c, NodeSelector = NodeSelector c, CustomServiceConfig = CustomServiceConfig c,
      PrometheusSecret = PrometheusSecret c, Secret = secret, ContainerImage = img, Resources = res,
      ServiceAccount = account, Replicas = replicas\<rparr>)"

definition WatcherAPISpec_shape :: "'x library_types \<Rightarrow> ('x cell, 'x WatcherAPISpec_struct, WatcherAPISpec) shape" where
  "WatcherAPISpec_shape K =
     \<lparr>Holds = \<lambda>A h x. Holds WatcherCommon_shape A h (mAPICommon x) \<and>
        Holds (WatcherSubCrsCommon_shape K) A h (mAPISubCrsCommon x) \<and> Holds int32_pointer A h (mAPIReplicas x) \<and>
        Holds (APIOverrideSpec_shape K) A h (mAPIOverrideSpec x) \<and> Holds (TLS_API_shape K) A h (mAPITLS x),
      View = \<lambda>h x. WatcherSubCrsCommon.extend
        (sub_spec_view (View WatcherCommon_shape h (mAPICommon x)) (mAPISecret x)
          (View (WatcherSubCrsCommon_shape K) h (mAPISubCrsCommon x)) (View int32_pointer h (mAPIReplicas x)))
        (WatcherAPISpec.fields (View (APIOverrideSpec_shape K) h (mAPIOverrideSpec x))
          (View (TLS_API_shape K) h (mAPITLS x)))\<rparr>"

definition worker_spec_view ::
  "'x library_types \<Rightarrow> 'x cell heap \<Rightarrow> 'x WatcherApplierSpec_struct \<Rightarrow> WatcherSubCrsCommon" where
  "worker_spec_view K h x = sub_spec_view (View WatcherCommon_shape h (mCommon x)) (mSecret x)
     (View (WatcherSubCrsCommon_shape K) h (mSubCrsCommon x)) (View int32_pointer h (mReplicas x))"

definition worker_spec_holds ::
  "'x library_types \<Rightarrow> addr set \<Rightarrow> 'x cell heap \<Rightarrow> 'x WatcherApplierSpec_struct \<Rightarrow> bool" where
  "worker_spec_holds K A h x \<longleftrightarrow> Holds WatcherCommon_shape A h (mCommon x) \<and>
     Holds (WatcherSubCrsCommon_shape K) A h (mSubCrsCommon x) \<and> Holds int32_pointer A h (mReplicas x)"

definition WatcherApplierSpec_shape ::
  "'x library_types \<Rightarrow> ('x cell, 'x WatcherApplierSpec_struct, WatcherApplierSpec) shape" where
  "WatcherApplierSpec_shape K = \<lparr>Holds = worker_spec_holds K,
     View = \<lambda>h x. WatcherSubCrsCommon.extend (worker_spec_view K h x) (WatcherApplierSpec.fields (mTLSCa x))\<rparr>"

definition WatcherDecisionEngineSpec_shape ::
  "'x library_types \<Rightarrow> ('x cell, 'x WatcherDecisionEngineSpec_struct, WatcherDecisionEngineSpec) shape" where
  "WatcherDecisionEngineSpec_shape K = \<lparr>Holds = worker_spec_holds K,
     View = \<lambda>h x. WatcherSubCrsCommon.extend (worker_spec_view K h x) (WatcherDecisionEngineSpec.fields (mTLSCa x))\<rparr>"

definition WatcherSubCrsTemplate_shape ::
  "'x library_types \<Rightarrow> ('x cell, 'x WatcherSubCrsTemplate_struct, WatcherSubCrsTemplate) shape" where
  "WatcherSubCrsTemplate_shape K =
     \<lparr>Holds = \<lambda>A h x. Holds (ResourceRequirements_shape K) A h (mTResources x) \<and> Holds map_pointer A h (mTNodeSelector x),
      View = \<lambda>h x. \<lparr>TResources = View (ResourceRequirements_shape K) h (mTResources x),
        TNodeSelector = View map_pointer h (mTNodeSelector x), TCustomServiceConfig = mTCustomServiceConfig x\<rparr>\<rparr>"

definition WatcherApplierTemplate_shape ::
  "'x library_types \<Rightarrow> ('x cell, 'x WatcherApplierTemplate_struct, WatcherApplierTemplate) shape" where
  "WatcherApplierTemplate_shape K =
     \<lparr>Holds = \<lambda>A h x. Holds (WatcherSubCrsTemplate_shape K) A h (mTemplate x) \<and> Holds int32_pointer A h (mTReplicas x),
      View = \<lambda>h x. WatcherSubCrsTemplate.extend (View (WatcherSubCrsTemplate_shape K) h (mTemplate x))
        (WatcherApplierTemplate.fields (View int32_pointer h (mTReplicas x)))\<rparr>"

definition WatcherAPITemplate_shape ::
  "'x library_types \<Rightarrow> ('x cell, 'x WatcherAPITemplate_struct, WatcherAPITemplate) shape" where
  "WatcherAPITemplate_shape K =
     \<lparr>Holds = \<lambda>A h x. Holds (WatcherSubCrsTemplate_shape K) A h (mAPITemplate x) \<and>
        Holds int32_pointer A h (mTAPIReplicas x) \<and> Holds (APIOverrideSpec_shape K) A h (mTOverride x) \<and>
        Holds (TLS_API_shape K) A h (mTTLS x),
      View = \<lambda>h x. WatcherApplierTemplate.extend
        (WatcherSubCrsTemplate.extend (View (WatcherSubCrsTemplate_shape K) h (mAPITemplate x))
          (WatcherApplierTemplate.fields (View int32_pointer h (mTAPIReplicas x))))
        (WatcherAPITemplate.fields (View (APIOverrideSpec_shape K) h (mTOverride x)) (View (TLS_API_shape K) h (mTTLS x)))\<rparr>"

definition WatcherTemplate_shape :: "'x library_types \<Rightarrow> ('x cell, 'x WatcherTemplate_struct, WatcherTemplate) shape" where
  "WatcherTemplate_shape K =
     \<lparr>Holds = \<lambda>A h x. Holds WatcherCommon_shape A h (mWatcherCommon x) \<and>
        Holds string_pointer A h (mRabbitMqClusterName x) \<and> Holds string_pointer A h (mDatabaseInstance x) \<and>
        Holds (WatcherAPITemplate_shape K) A h (mAPIServiceTemplate x) \<and>
        Holds (WatcherApplierTemplate_shape K) A h (mApplierServiceTemplate x) \<and>
        Holds (WatcherApplierTemplate_shape K) A h (mDecisionEngineServiceTemplate x) \<and>
        Holds (Override_shape K) A h (mAPIOverride x) \<and> Holds WatcherDBPurge_shape A h (mDBPurge x),
      View = \<lambda>h x. WatcherSecretSpec.extend
        (WatcherCommon.extend (View WatcherCommon_shape h (mWatcherCommon x)) (WatcherSecretSpec.fields (mWatcherSecret x)))
        (WatcherTemplate.fields (View string_pointer h (mRabbitMqClusterName x)) (View string_pointer h (mDatabaseInstance x))
          (mDatabaseAccount x) (View (WatcherAPITemplate_shape K) h (mAPIServiceTemplate x))
          (View (WatcherApplierTemplate_shape K) h (mApplierServiceTemplate x))
          (View (WatcherApplierTemplate_shape K) h (mDecisionEngineServiceTemplate x))
          (View (Override_shape K) h (mAPIOverride x)) (View WatcherDBPurge_shape h (mDBPurge x)))\<rparr>"

definition WatcherSpec_shape :: "'x library_types \<Rightarrow> ('x cell, 'x WatcherSpec_struct, WatcherSpec) shape" where
  "WatcherSpec_shape K =
     \<lparr>Holds = \<lambda>A h x. Holds (WatcherTemplate_shape K) A h (mWatcherTemplate x),
      View = \<lambda>h x. WatcherTemplate.extend (View (WatcherTemplate_shape K) h (mWatcherTemplate x))
        (WatcherSpec.fields (mWatcherImages x))\<rparr>"

subsection \<open>Resources\<close>

definition resource_holds ::
  "'x library_types \<Rightarrow> ('x cell, 'a, 'v) shape \<Rightarrow> ('x cell, 'b, 'w) shape \<Rightarrow> addr set \<Rightarrow> 'x cell heap \<Rightarrow>
    ('x, 'a, 'b) resource_struct \<Rightarrow> bool" where
  "resource_holds K spec status A h x \<longleftrightarrow> Holds (ObjectMeta_shape K) A h (mObjectMeta x) \<and>
     Holds spec A h (mSpec x) \<and> Holds status A h (mStatus x)"

text \<open>The status of a sub-resource: conditions, hash, observed generation, ready count.\<close>

definition sub_status_shape ::
  "'x library_types \<Rightarrow> ('x cell, WatcherAPIStatus_struct, conditions \<times> string_map option \<times> int \<times> int) shape" where
  "sub_status_shape K =
     \<lparr>Holds = \<lambda>A h x. Holds (conditions_slice K) A h (mConditions x) \<and> Holds string_map_ref A h (mHash x),
      View = \<lambda>h x. (View (conditions_slice K) h (mConditions x), View string_map_ref h (mHash x),
        mObservedGeneration x, mReadyCount x)\<rparr>"

definition sub_resource_shape ::
  "'x library_types \<Rightarrow> ('x cell, 'a, 'spec) shape \<Rightarrow>
    ('x cell, ('x, 'a, WatcherAPIStatus_struct) resource_struct, 'spec sub_cr) shape" where
  "sub_resource_shape K spec =
     \<lparr>Holds = resource_holds K spec (sub_status_shape K),
      View = \<lambda>h x. let m = View (ObjectMeta_shape K) h (mObjectMeta x);
          (conditions, hash, generation, ready) = View (sub_status_shape K) h (mStatus x)
        in \<lparr>Kind = mKind (mTypeMeta x), Name = MetaName m, Namespace = MetaNamespace m, UID = MetaUID m,
          Generation = MetaGeneration m, DeletionTimestamp = MetaDeletionTimestamp m, Finalizers = MetaFinalizers m,
          Spec = View spec h (mSpec x), Conditions = conditions, Hash = hash, ObservedGeneration = generation,
          ReadyCount = ready\<rparr>\<rparr>"

definition WatcherAPI_shape :: "'x library_types \<Rightarrow> ('x cell, 'x WatcherAPI_struct, WatcherAPI) shape" where
  "WatcherAPI_shape K = sub_resource_shape K (WatcherAPISpec_shape K)"

definition WatcherApplier_shape :: "'x library_types \<Rightarrow> ('x cell, 'x WatcherApplier_struct, WatcherApplier) shape" where
  "WatcherApplier_shape K = sub_resource_shape K (WatcherApplierSpec_shape K)"

definition WatcherDecisionEngine_shape ::
  "'x library_types \<Rightarrow> ('x cell, 'x WatcherDecisionEngine_struct, WatcherDecisionEngine) shape" where
  "WatcherDecisionEngine_shape K = sub_resource_shape K (WatcherDecisionEngineSpec_shape K)"

definition WatcherStatus_shape ::
  "'x library_types \<Rightarrow> ('x cell, WatcherStatus_struct, conditions \<times> string \<times> string_map option \<times> int \<times> int \<times> int \<times> int) shape" where
  "WatcherStatus_shape K =
     \<lparr>Holds = \<lambda>A h x. Holds (conditions_slice K) A h (mWatcherConditions x) \<and> Holds string_map_ref A h (mWatcherHash x),
      View = \<lambda>h x. (View (conditions_slice K) h (mWatcherConditions x), mServiceID x,
        View string_map_ref h (mWatcherHash x), mWatcherObservedGeneration x, mAPIServiceReadyCount x,
        mApplierServiceReadyCount x, mDecisionEngineServiceReadyCount x)\<rparr>"

definition Watcher_shape :: "'x library_types \<Rightarrow> ('x cell, 'x Watcher_struct, Watcher) shape" where
  "Watcher_shape K =
     \<lparr>Holds = resource_holds K (WatcherSpec_shape K) (WatcherStatus_shape K),
      View = \<lambda>h x. let m = View (ObjectMeta_shape K) h (mObjectMeta x);
          (conditions, service, hash, generation, api, applier, engine) = View (WatcherStatus_shape K) h (mStatus x)
        in \<lparr>Kind = mKind (mTypeMeta x), Name = MetaName m, Namespace = MetaNamespace m, UID = MetaUID m,
          Generation = MetaGeneration m, DeletionTimestamp = MetaDeletionTimestamp m, Finalizers = MetaFinalizers m,
          Spec = View (WatcherSpec_shape K) h (mSpec x), Conditions = conditions, Hash = hash,
          ObservedGeneration = generation, ServiceID = service, APIServiceReadyCount = api,
          ApplierServiceReadyCount = applier, DecisionEngineServiceReadyCount = engine\<rparr>\<rparr>"

text \<open>A list: its kind, what its \<open>ListMeta\<close> says, its items.\<close>

definition list_shape ::
  "'x library_types \<Rightarrow> ('x object_cell \<Rightarrow> 'a list) \<Rightarrow> ('x cell, 'a, 'v) shape \<Rightarrow>
    ('x cell, 'x list_struct, TypeMeta \<times> string \<times> 'v list option) shape" where
  "list_shape K un S =
     \<lparr>Holds = \<lambda>A h x. Holds (ListMeta_shape K) A h (mListMeta x) \<and>
        Holds (ref_to (\<lambda>c. un (the_Object c)) (items_of S)) A h (mItems x),
      View = \<lambda>h x. (mListTypeMeta x, View (ListMeta_shape K) h (mListMeta x),
        View (ref_to (\<lambda>c. un (the_Object c)) (items_of S)) h (mItems x))\<rparr>"

section \<open>What the other modules promise\<close>

text \<open>The \<open>DeepCopyInto\<close> of a struct of another module copies it deeply.\<close>

definition library_copies :: "'x library_types \<Rightarrow> bool" where
  "library_copies K \<longleftrightarrow>
     deep_copier (ObjectMeta_shape K) (ObjectMeta_DeepCopyInto K) \<and>
     deep_copier (ListMeta_shape K) (ListMeta_DeepCopyInto K) \<and>
     deep_copier (ResourceRequirements_shape K) (ResourceRequirements_DeepCopyInto K) \<and>
     deep_copier (TLS_API_shape K) (TLS_API_DeepCopyInto K) \<and>
     deep_copier (RoutedOverrideSpec_shape K) (RoutedOverrideSpec_DeepCopy K) \<and>
     deep_copier (RouteOverrideSpec_shape K) (RouteOverrideSpec_DeepCopyInto K) \<and>
     deep_copier (Condition_shape K) (Condition_DeepCopyInto K)"

section \<open>Every copy is deep\<close>

lemma id_copier: "deep_copier (plain id) return"
  by (rule plain_copier)

lemma int32_copier: "deep_copier int32_pointer copy_int32"
  unfolding int32_pointer_def copy_int32_def by (rule ref_copier [OF id_copier]) simp

lemma string_copier: "deep_copier string_pointer copy_string"
  unfolding string_pointer_def copy_string_def by (rule ref_copier [OF id_copier]) simp

lemma int_copier: "deep_copier int_pointer (copy_ref the_Int IntCell return)"
  unfolding int_pointer_def by (rule ref_copier [OF id_copier]) simp

lemma string_map_copier: "deep_copier string_map_ref copy_string_map"
  unfolding string_map_ref_def copy_string_map_def by (rule ref_copier [OF entries_copier [OF id_copier]]) simp

lemma map_pointer_copier: "deep_copier map_pointer copy_map_variable"
  unfolding map_pointer_def copy_map_variable_def by (rule viewed_copier [OF ref_copier [OF string_map_copier]]) simp

lemma tls_override_copier:
  "deep_copier tls_override_pointer (copy_part the_TLSServiceOverride TLSServiceOverrideCell return)"
  unfolding tls_override_pointer_def copy_part_def by (rule ref_copier [OF id_copier]) simp

context deep_copier
begin

lemma framed: "Holds S A h x \<Longrightarrow> agree A h h' \<Longrightarrow> Holds S A h' x \<and> View S h' x = View S h x"
  by (simp add: frame_Holds frame_View)

end

lemma WatcherCommon_copier:
  shows "deep_copier WatcherCommon_shape WatcherCommon_DeepCopyInto"
  by (rule struct_copier [OF map_pointer_copier,
      where refs = "mNodeSelector"
        and put = "\<lambda>a x. x\<lparr>mNodeSelector := a\<rparr>"])
    (auto simp: WatcherCommon_shape_def WatcherCommon_DeepCopyInto_def)

lemma WatcherDBPurge_copier:
  shows "deep_copier WatcherDBPurge_shape WatcherDBPurge_DeepCopyInto"
  by (rule struct_copier [OF both_copier [OF string_copier int_copier],
      where refs = "\<lambda>x. (mSchedule x, mPurgeAge x)"
        and put = "\<lambda>(a, b) x. x\<lparr>mSchedule := a, mPurgeAge := b\<rparr>"])
    (auto simp: copy_both_def WatcherDBPurge_shape_def WatcherDBPurge_DeepCopyInto_def)

lemma library_copiesD:
  assumes "library_copies K"
  shows "deep_copier (ObjectMeta_shape K) (ObjectMeta_DeepCopyInto K)"
    and "deep_copier (ListMeta_shape K) (ListMeta_DeepCopyInto K)"
    and "deep_copier (ResourceRequirements_shape K) (ResourceRequirements_DeepCopyInto K)"
    and "deep_copier (TLS_API_shape K) (TLS_API_DeepCopyInto K)"
    and "deep_copier (service_map K) (copy_ref the_ServiceMap ServiceMapCell
      (\<lambda>entries. copy_entries (RoutedOverrideSpec_DeepCopy K) entries []))"
    and "deep_copier (route_pointer K) (copy_ref the_Route RouteCell (RouteOverrideSpec_DeepCopyInto K))"
    and "deep_copier (conditions_slice K) (copy_conditions K)"
  using assms unfolding library_copies_def service_map_def route_pointer_def conditions_slice_def copy_conditions_def
  by (auto intro!: viewed_copier [OF ref_copier [OF entries_copier]] intro: ref_copier items_copier)

lemma APIOverrideSpec_copier:
  assumes K: "library_copies K"
  shows "deep_copier (APIOverrideSpec_shape K) (APIOverrideSpec_DeepCopyInto K)"
  by (rule struct_copier [OF library_copiesD(5) [OF K],
      where refs = "mService"
        and put = "\<lambda>a x. x\<lparr>mService := a\<rparr>"])
    (auto simp: APIOverrideSpec_shape_def APIOverrideSpec_DeepCopyInto_def)

lemma Override_copier:
  assumes K: "library_copies K"
  shows "deep_copier (Override_shape K) (Override_DeepCopyInto K)"
  by (rule struct_copier [OF both_copier [OF library_copiesD(6) [OF K] tls_override_copier],
      where refs = "\<lambda>x. (mRoute x, mTLSOverride x)"
        and put = "\<lambda>(a, b) x. x\<lparr>mRoute := a, mTLSOverride := b\<rparr>"])
    (auto simp: copy_both_def Override_shape_def Override_DeepCopyInto_def)

lemma WatcherSubCrsCommon_copier:
  assumes K: "library_copies K"
  shows "deep_copier (WatcherSubCrsCommon_shape K) (WatcherSubCrsCommon_DeepCopyInto K)"
  by (rule struct_copier [OF library_copiesD(3) [OF K],
      where refs = "mResources"
        and put = "\<lambda>a x. x\<lparr>mResources := a\<rparr>"])
    (auto simp: WatcherSubCrsCommon_shape_def WatcherSubCrsCommon_DeepCopyInto_def)

lemma WatcherSubCrsTemplate_copier:
  assumes K: "library_copies K"
  shows "deep_copier (WatcherSubCrsTemplate_shape K) (WatcherSubCrsTemplate_DeepCopyInto K)"
  by (rule struct_copier [OF both_copier [OF library_copiesD(3) [OF K] map_pointer_copier],
      where refs = "\<lambda>x. (mTResources x, mTNodeSelector x)"
        and put = "\<lambda>(a, b) x. x\<lparr>mTResources := a, mTNodeSelector := b\<rparr>"])
    (auto simp: copy_both_def WatcherSubCrsTemplate_shape_def WatcherSubCrsTemplate_DeepCopyInto_def)

lemma WatcherAPISpec_copier:
  assumes K: "library_copies K"
  shows "deep_copier (WatcherAPISpec_shape K) (WatcherAPISpec_DeepCopyInto K)"
  by (rule struct_copier [OF both_copier [OF WatcherCommon_copier both_copier [OF WatcherSubCrsCommon_copier [OF
    K] both_copier [OF int32_copier both_copier [OF APIOverrideSpec_copier [OF K] library_copiesD(4) [OF K]]]]],
      where refs = "\<lambda>x. (mAPICommon x, mAPISubCrsCommon x, mAPIReplicas x, mAPIOverrideSpec x, mAPITLS
        x)"
        and put = "\<lambda>(a, b, c, d, e) x. x\<lparr>mAPICommon := a, mAPISubCrsCommon := b, mAPIReplicas :=
          c, mAPIOverrideSpec := d, mAPITLS := e\<rparr>"])
    (auto simp: copy_both_def WatcherAPISpec_shape_def WatcherAPISpec_DeepCopyInto_def)

lemma WatcherApplierSpec_copier:
  assumes K: "library_copies K"
  shows "deep_copier (WatcherApplierSpec_shape K) (WatcherApplierSpec_DeepCopyInto K)"
  by (rule struct_copier [OF both_copier [OF WatcherCommon_copier both_copier [OF WatcherSubCrsCommon_copier [OF
    K] int32_copier]],
      where refs = "\<lambda>x. (mCommon x, mSubCrsCommon x, mReplicas x)"
        and put = "\<lambda>(a, b, c) x. x\<lparr>mCommon := a, mSubCrsCommon := b, mReplicas := c\<rparr>"])
    (auto simp: copy_both_def WatcherApplierSpec_shape_def worker_spec_holds_def worker_spec_view_def
      WatcherApplierSpec_DeepCopyInto_def)

lemma WatcherDecisionEngineSpec_copier:
  assumes K: "library_copies K"
  shows "deep_copier (WatcherDecisionEngineSpec_shape K) (WatcherDecisionEngineSpec_DeepCopyInto K)"
  by (rule struct_copier [OF both_copier [OF WatcherCommon_copier both_copier [OF WatcherSubCrsCommon_copier [OF
    K] int32_copier]],
      where refs = "\<lambda>x. (mCommon x, mSubCrsCommon x, mReplicas x)"
        and put = "\<lambda>(a, b, c) x. x\<lparr>mCommon := a, mSubCrsCommon := b, mReplicas := c\<rparr>"])
    (auto simp: copy_both_def WatcherDecisionEngineSpec_shape_def worker_spec_holds_def worker_spec_view_def
      WatcherDecisionEngineSpec_DeepCopyInto_def)

lemma WatcherAPIStatus_copier:
  assumes K: "library_copies K"
  shows "deep_copier (sub_status_shape K) (WatcherAPIStatus_DeepCopyInto K)"
  by (rule struct_copier [OF both_copier [OF library_copiesD(7) [OF K] string_map_copier],
      where refs = "\<lambda>x. (mConditions x, mHash x)"
        and put = "\<lambda>(a, b) x. x\<lparr>mConditions := a, mHash := b\<rparr>"])
    (auto simp: copy_both_def sub_status_shape_def WatcherAPIStatus_DeepCopyInto_def)

lemma WatcherApplierStatus_copier:
  assumes K: "library_copies K"
  shows "deep_copier (sub_status_shape K) (WatcherApplierStatus_DeepCopyInto K)"
  by (rule struct_copier [OF both_copier [OF library_copiesD(7) [OF K] string_map_copier],
      where refs = "\<lambda>x. (mConditions x, mHash x)"
        and put = "\<lambda>(a, b) x. x\<lparr>mConditions := a, mHash := b\<rparr>"])
    (auto simp: copy_both_def sub_status_shape_def WatcherApplierStatus_DeepCopyInto_def)

lemma WatcherDecisionEngineStatus_copier:
  assumes K: "library_copies K"
  shows "deep_copier (sub_status_shape K) (WatcherDecisionEngineStatus_DeepCopyInto K)"
  by (rule struct_copier [OF both_copier [OF library_copiesD(7) [OF K] string_map_copier],
      where refs = "\<lambda>x. (mConditions x, mHash x)"
        and put = "\<lambda>(a, b) x. x\<lparr>mConditions := a, mHash := b\<rparr>"])
    (auto simp: copy_both_def sub_status_shape_def WatcherDecisionEngineStatus_DeepCopyInto_def)

lemma WatcherApplierTemplate_copier:
  assumes K: "library_copies K"
  shows "deep_copier (WatcherApplierTemplate_shape K) (WatcherApplierTemplate_DeepCopyInto K)"
  by (rule struct_copier [OF both_copier [OF WatcherSubCrsTemplate_copier [OF K] int32_copier],
      where refs = "\<lambda>x. (mTemplate x, mTReplicas x)"
        and put = "\<lambda>(a, b) x. x\<lparr>mTemplate := a, mTReplicas := b\<rparr>"])
    (auto simp: copy_both_def WatcherApplierTemplate_shape_def WatcherApplierTemplate_DeepCopyInto_def)

lemma WatcherDecisionEngineTemplate_copier:
  assumes K: "library_copies K"
  shows "deep_copier (WatcherApplierTemplate_shape K) (WatcherDecisionEngineTemplate_DeepCopyInto K)"
  by (rule struct_copier [OF both_copier [OF WatcherSubCrsTemplate_copier [OF K] int32_copier],
      where refs = "\<lambda>x. (mTemplate x, mTReplicas x)"
        and put = "\<lambda>(a, b) x. x\<lparr>mTemplate := a, mTReplicas := b\<rparr>"])
    (auto simp: copy_both_def WatcherApplierTemplate_shape_def WatcherDecisionEngineTemplate_DeepCopyInto_def)

lemma WatcherAPITemplate_copier:
  assumes K: "library_copies K"
  shows "deep_copier (WatcherAPITemplate_shape K) (WatcherAPITemplate_DeepCopyInto K)"
  by (rule struct_copier [OF both_copier [OF WatcherSubCrsTemplate_copier [OF K] both_copier [OF int32_copier
    both_copier [OF APIOverrideSpec_copier [OF K] library_copiesD(4) [OF K]]]],
      where refs = "\<lambda>x. (mAPITemplate x, mTAPIReplicas x, mTOverride x, mTTLS x)"
        and put = "\<lambda>(a, b, c, d) x. x\<lparr>mAPITemplate := a, mTAPIReplicas := b, mTOverride := c,
          mTTLS := d\<rparr>"])
    (auto simp: copy_both_def WatcherAPITemplate_shape_def WatcherAPITemplate_DeepCopyInto_def)

lemma WatcherTemplate_copier:
  assumes K: "library_copies K"
  shows "deep_copier (WatcherTemplate_shape K) (WatcherTemplate_DeepCopyInto K)"
  by (rule struct_copier [OF both_copier [OF WatcherCommon_copier both_copier [OF string_copier both_copier [OF
    string_copier both_copier [OF WatcherAPITemplate_copier [OF K] both_copier [OF WatcherApplierTemplate_copier
    [OF K] both_copier [OF WatcherDecisionEngineTemplate_copier [OF K] both_copier [OF Override_copier [OF K]
    WatcherDBPurge_copier]]]]]]],
      where refs = "\<lambda>x. (mWatcherCommon x, mRabbitMqClusterName x, mDatabaseInstance x,
        mAPIServiceTemplate x, mApplierServiceTemplate x, mDecisionEngineServiceTemplate x, mAPIOverride x,
        mDBPurge x)"
        and put = "\<lambda>(a, b, c, d, e, f, g, i) x. x\<lparr>mWatcherCommon := a, mRabbitMqClusterName := b,
          mDatabaseInstance := c, mAPIServiceTemplate := d, mApplierServiceTemplate := e,
          mDecisionEngineServiceTemplate := f, mAPIOverride := g, mDBPurge := i\<rparr>"])
    (auto simp: copy_both_def WatcherTemplate_shape_def WatcherTemplate_DeepCopyInto_def)

lemma WatcherSpec_copier:
  assumes K: "library_copies K"
  shows "deep_copier (WatcherSpec_shape K) (WatcherSpec_DeepCopyInto K)"
  by (rule struct_copier [OF WatcherTemplate_copier [OF K],
      where refs = "mWatcherTemplate"
        and put = "\<lambda>a x. x\<lparr>mWatcherTemplate := a\<rparr>"])
    (auto simp: WatcherSpec_shape_def WatcherSpec_DeepCopyInto_def)

lemma WatcherStatus_copier:
  assumes K: "library_copies K"
  shows "deep_copier (WatcherStatus_shape K) (WatcherStatus_DeepCopyInto K)"
  by (rule struct_copier [OF both_copier [OF library_copiesD(7) [OF K] string_map_copier],
      where refs = "\<lambda>x. (mWatcherConditions x, mWatcherHash x)"
        and put = "\<lambda>(a, b) x. x\<lparr>mWatcherConditions := a, mWatcherHash := b\<rparr>"])
    (auto simp: copy_both_def WatcherStatus_shape_def WatcherStatus_DeepCopyInto_def)

lemma Watcher_copier:
  assumes K: "library_copies K"
  shows "deep_copier (Watcher_shape K) (Watcher_DeepCopyInto K)"
  by (rule struct_copier [OF both_copier [OF library_copiesD(1) [OF K] both_copier [OF WatcherSpec_copier [OF K]
    WatcherStatus_copier [OF K]]],
      where refs = "\<lambda>x. (mObjectMeta x, mSpec x, mStatus x)"
        and put = "\<lambda>(a, b, c) x. x\<lparr>mObjectMeta := a, mSpec := b, mStatus := c\<rparr>"])
    (auto simp: copy_both_def Watcher_shape_def resource_holds_def Watcher_DeepCopyInto_def)

lemma WatcherAPI_copier:
  assumes K: "library_copies K"
  shows "deep_copier (WatcherAPI_shape K) (WatcherAPI_DeepCopyInto K)"
  by (rule struct_copier [OF both_copier [OF library_copiesD(1) [OF K] both_copier [OF WatcherAPISpec_copier [OF
    K] WatcherAPIStatus_copier [OF K]]],
      where refs = "\<lambda>x. (mObjectMeta x, mSpec x, mStatus x)"
        and put = "\<lambda>(a, b, c) x. x\<lparr>mObjectMeta := a, mSpec := b, mStatus := c\<rparr>"])
    (auto simp: copy_both_def WatcherAPI_shape_def sub_resource_shape_def resource_holds_def
      WatcherAPI_DeepCopyInto_def)

lemma WatcherApplier_copier:
  assumes K: "library_copies K"
  shows "deep_copier (WatcherApplier_shape K) (WatcherApplier_DeepCopyInto K)"
  by (rule struct_copier [OF both_copier [OF library_copiesD(1) [OF K] both_copier [OF WatcherApplierSpec_copier
    [OF K] WatcherApplierStatus_copier [OF K]]],
      where refs = "\<lambda>x. (mObjectMeta x, mSpec x, mStatus x)"
        and put = "\<lambda>(a, b, c) x. x\<lparr>mObjectMeta := a, mSpec := b, mStatus := c\<rparr>"])
    (auto simp: copy_both_def WatcherApplier_shape_def sub_resource_shape_def resource_holds_def
      WatcherApplier_DeepCopyInto_def)

lemma WatcherDecisionEngine_copier:
  assumes K: "library_copies K"
  shows "deep_copier (WatcherDecisionEngine_shape K) (WatcherDecisionEngine_DeepCopyInto K)"
  by (rule struct_copier [OF both_copier [OF library_copiesD(1) [OF K] both_copier [OF
    WatcherDecisionEngineSpec_copier [OF K] WatcherDecisionEngineStatus_copier [OF K]]],
      where refs = "\<lambda>x. (mObjectMeta x, mSpec x, mStatus x)"
        and put = "\<lambda>(a, b, c) x. x\<lparr>mObjectMeta := a, mSpec := b, mStatus := c\<rparr>"])
    (auto simp: copy_both_def WatcherDecisionEngine_shape_def sub_resource_shape_def resource_holds_def
      WatcherDecisionEngine_DeepCopyInto_def)

text \<open>The structs without parts of other modules need no promise.\<close>

interpretation common_struct: deep_copier WatcherCommon_shape WatcherCommon_DeepCopyInto
  by (rule WatcherCommon_copier)

interpretation purge_struct: deep_copier WatcherDBPurge_shape WatcherDBPurge_DeepCopyInto
  by (rule WatcherDBPurge_copier)

lemma list_copier:
  assumes K: "library_copies K" and S: "deep_copier S into" and un: "\<And>xs. un (con xs) = xs"
  shows "deep_copier (list_shape K un S) (\<lambda>src. do {
     meta \<leftarrow> ListMeta_DeepCopyInto K (mListMeta src);
     items \<leftarrow> copy_object un con (copy_items into) (mItems src);
     return (src\<lparr>mListTypeMeta := mListTypeMeta src, mListMeta := meta, mItems := items\<rparr>)
   })"
proof -
  have "deep_copier (ref_to (\<lambda>c. un (the_Object c)) (items_of S)) (copy_object un con (copy_items into))"
    unfolding copy_object_def by (rule ref_copier [OF items_copier [OF S]]) (simp add: un)
  from both_copier [OF library_copiesD(2) [OF K] this] show ?thesis
    by (rule struct_copier [where refs = "\<lambda>x. (mListMeta x, mItems x)" and
          put = "\<lambda>(a, b) x. x\<lparr>mListMeta := a, mItems := b\<rparr>"])
      (auto simp: copy_both_def list_shape_def)
qed

section \<open>Snapshots\<close>

text \<open>
  What \<open>q\<close> points to was copied from what \<open>p\<close> points to while the memory went from \<open>h\<close> to \<open>h'\<close>: no cell there was
  has changed, whatever is written elsewhere the copy stands for what the original stood for, and whatever is
  written into the copy the original does too.
\<close>

definition is_snapshot :: "('c, 'a, 'v) shape \<Rightarrow> 'c heap \<Rightarrow> 'a \<Rightarrow> 'c heap \<Rightarrow> 'a \<Rightarrow> bool" where
  "is_snapshot S h p h' q \<longleftrightarrow> grows h h' \<and>
     (\<forall>h2. agree {NextAddr h..<NextAddr h'} h' h2 \<longrightarrow> View S h2 q = View S h p) \<and>
     (\<forall>h2. agree {..<NextAddr h} h' h2 \<longrightarrow> View S h2 p = View S h p)"

lemma copier_snapshot:
  assumes "deep_copier S into" and "Holds S {..<NextAddr h} h p" and "run_state (into p) h = (q, h')"
  shows "is_snapshot S h p h' q"
  using deep_copier.copies [OF assms] deep_copier.snapshot [OF assms] by (simp add: is_snapshot_def)

text \<open>A method that copies what a pointer points to, if it points anywhere.\<close>

definition takes_snapshots :: "('c, addr option, 'v option) shape \<Rightarrow> (addr option \<Rightarrow> ('c heap, addr option) state) \<Rightarrow> bool" where
  "takes_snapshots S copy \<longleftrightarrow>
     (\<forall>h p q h'. Holds S {..<NextAddr h} h p \<and> run_state (copy p) h = (q, h') \<longrightarrow>
       (q = None \<longleftrightarrow> p = None) \<and> is_snapshot S h p h' q)"

abbreviation part_pointer :: "('x part_cell \<Rightarrow> 'a) \<Rightarrow> ('x cell, 'a, 'v) shape \<Rightarrow> ('x cell, addr option, 'v option) shape" where
  "part_pointer un S \<equiv> ref_to (\<lambda>c. un (the_Part c)) S"

abbreviation object_pointer :: "('x object_cell \<Rightarrow> 'a) \<Rightarrow> ('x cell, 'a, 'v) shape \<Rightarrow> ('x cell, addr option, 'v option) shape" where
  "object_pointer un S \<equiv> ref_to (\<lambda>c. un (the_Object c)) S"

lemma pointer_snapshots:
  assumes "deep_copier (ref_to un S) copy"
  shows "takes_snapshots (ref_to un S) copy"
proof -
  have "View (ref_to un S) h p = None \<longleftrightarrow> p = None" for h p by (simp add: ref_to_def)
  then show ?thesis
    using deep_copier.copies [OF assms] copier_snapshot [OF assms] unfolding takes_snapshots_def by metis
qed

lemma part_snapshots:
  assumes "deep_copier S into" and "\<And>x. un (con x) = x"
  shows "takes_snapshots (part_pointer un S) (copy_part un con into)"
  unfolding copy_part_def by (intro pointer_snapshots ref_copier [OF assms(1)]) (simp add: assms(2))

lemma object_copier:
  assumes "deep_copier S into" and "\<And>x. un (con x) = x"
  shows "deep_copier (object_pointer un S) (copy_object un con into)"
  unfolding copy_object_def by (intro ref_copier [OF assms(1)]) (simp add: assms(2))

text \<open>The parts of the resources.\<close>

lemma plain_part_copiers:
  "deep_copier (plain id) PasswordSelector_DeepCopyInto" "deep_copier (plain id) TLSServiceOverride_DeepCopyInto"
  "deep_copier (plain id) WatcherImages_DeepCopyInto" "deep_copier (plain id) WatcherDefaults_DeepCopyInto"
  using id_copier by (simp_all add: PasswordSelector_DeepCopyInto_def [abs_def] TLSServiceOverride_DeepCopyInto_def [abs_def]
    WatcherImages_DeepCopyInto_def [abs_def] WatcherDefaults_DeepCopyInto_def [abs_def])

end
