(* ===== verification/Registration.thy ===== *)
theory Registration
  imports Copies
begin

text \<open>
  The types of the API group: \<open>groupversion_info.go\<close> and the \<open>init\<close> functions of \<open>api/v1beta1/*_types.go\<close> that
  register them, and that each registered type, and each struct it is made of, copies deeply.
\<close>

section \<open>The scheme builder\<close>

record group_version =
  Group :: string
  Version :: string

definition GroupVersion :: group_version where
  "GroupVersion = \<lparr>Group = ''watcher.openstack.org'', Version = ''v1beta1''\<rparr>"

text \<open>\<open>scheme.Builder\<close>: the group version and the types registered so far, in order.\<close>

record scheme_builder =
  BuilderGroupVersion :: group_version
  Registered :: "object_type list"

definition SchemeBuilder :: scheme_builder where
  "SchemeBuilder = \<lparr>BuilderGroupVersion = GroupVersion, Registered = []\<rparr>"

definition Register :: "object_type list \<Rightarrow> scheme_builder \<Rightarrow> scheme_builder" where
  "Register types b = b\<lparr>Registered := Registered b @ types\<rparr>"

definition watcher_types_init :: "scheme_builder \<Rightarrow> scheme_builder" where
  "watcher_types_init = Register [GoWatcher, GoWatcherList]"

definition watcherapi_types_init :: "scheme_builder \<Rightarrow> scheme_builder" where
  "watcherapi_types_init = Register [GoWatcherAPI, GoWatcherAPIList]"

definition watcherapplier_types_init :: "scheme_builder \<Rightarrow> scheme_builder" where
  "watcherapplier_types_init = Register [GoWatcherApplier, GoWatcherApplierList]"

definition watcherdecisionengine_types_init :: "scheme_builder \<Rightarrow> scheme_builder" where
  "watcherdecisionengine_types_init = Register [GoWatcherDecisionEngine, GoWatcherDecisionEngineList]"

text \<open>The files of a package are initialised in the order of their names.\<close>

definition package_init :: "scheme_builder \<Rightarrow> scheme_builder" where
  "package_init b = watcherdecisionengine_types_init (watcherapplier_types_init (watcherapi_types_init (watcher_types_init b)))"

lemma registered_types:
  "Registered (package_init SchemeBuilder) =
     [GoWatcher, GoWatcherList, GoWatcherAPI, GoWatcherAPIList, GoWatcherApplier, GoWatcherApplierList,
      GoWatcherDecisionEngine, GoWatcherDecisionEngineList]"
  by (simp add: package_init_def watcher_types_init_def watcherapi_types_init_def watcherapplier_types_init_def
    watcherdecisionengine_types_init_def Register_def SchemeBuilder_def)

text \<open>The kind a type is known by in the scheme is the name of the Go type.\<close>

fun kind_of :: "object_type \<Rightarrow> string" where
  "kind_of GoWatcher = ''Watcher''"
| "kind_of GoWatcherList = ''WatcherList''"
| "kind_of GoWatcherAPI = ''WatcherAPI''"
| "kind_of GoWatcherAPIList = ''WatcherAPIList''"
| "kind_of GoWatcherApplier = ''WatcherApplier''"
| "kind_of GoWatcherApplierList = ''WatcherApplierList''"
| "kind_of GoWatcherDecisionEngine = ''WatcherDecisionEngine''"
| "kind_of GoWatcherDecisionEngineList = ''WatcherDecisionEngineList''"

definition known_kinds :: "scheme_builder \<Rightarrow> string set" where
  "known_kinds b = kind_of ` set (Registered b)"

section \<open>What an object stands for\<close>

datatype api_object =
    AWatcher Watcher
  | AWatcherAPI WatcherAPI
  | AWatcherApplier WatcherApplier
  | AWatcherDecisionEngine WatcherDecisionEngine
  | AWatcherList "TypeMeta \<times> string \<times> Watcher list option"
  | AWatcherAPIList "TypeMeta \<times> string \<times> WatcherAPI list option"
  | AWatcherApplierList "TypeMeta \<times> string \<times> WatcherApplier list option"
  | AWatcherDecisionEngineList "TypeMeta \<times> string \<times> WatcherDecisionEngine list option"

fun object_shape :: "'x library_types \<Rightarrow> object_type \<Rightarrow> ('x cell, addr option, api_object option) shape" where
  "object_shape K GoWatcher = viewed (map_option AWatcher) (object_pointer the_Watcher (Watcher_shape K))"
| "object_shape K GoWatcherList = viewed (map_option AWatcherList)
     (object_pointer the_WatcherList (list_shape K the_WatcherItems (Watcher_shape K)))"
| "object_shape K GoWatcherAPI = viewed (map_option AWatcherAPI) (object_pointer the_WatcherAPI (WatcherAPI_shape K))"
| "object_shape K GoWatcherAPIList = viewed (map_option AWatcherAPIList)
     (object_pointer the_WatcherAPIList (list_shape K the_WatcherAPIItems (WatcherAPI_shape K)))"
| "object_shape K GoWatcherApplier = viewed (map_option AWatcherApplier) (object_pointer the_WatcherApplier (WatcherApplier_shape K))"
| "object_shape K GoWatcherApplierList = viewed (map_option AWatcherApplierList)
     (object_pointer the_WatcherApplierList (list_shape K the_WatcherApplierItems (WatcherApplier_shape K)))"
| "object_shape K GoWatcherDecisionEngine = viewed (map_option AWatcherDecisionEngine) (object_pointer the_WatcherDecisionEngine (WatcherDecisionEngine_shape K))"
| "object_shape K GoWatcherDecisionEngineList = viewed (map_option AWatcherDecisionEngineList)
     (object_pointer the_WatcherDecisionEngineList (list_shape K the_WatcherDecisionEngineItems (WatcherDecisionEngine_shape K)))"

text \<open>\<open>DeepCopy\<close> of each type, by the type.\<close>

fun typed_DeepCopy :: "'x library_types \<Rightarrow> object_type \<Rightarrow> 'x pointer_copying" where
  "typed_DeepCopy K GoWatcher = Watcher_DeepCopy K"
| "typed_DeepCopy K GoWatcherList = WatcherList_DeepCopy K"
| "typed_DeepCopy K GoWatcherAPI = WatcherAPI_DeepCopy K"
| "typed_DeepCopy K GoWatcherAPIList = WatcherAPIList_DeepCopy K"
| "typed_DeepCopy K GoWatcherApplier = WatcherApplier_DeepCopy K"
| "typed_DeepCopy K GoWatcherApplierList = WatcherApplierList_DeepCopy K"
| "typed_DeepCopy K GoWatcherDecisionEngine = WatcherDecisionEngine_DeepCopy K"
| "typed_DeepCopy K GoWatcherDecisionEngineList = WatcherDecisionEngineList_DeepCopy K"

lemma DeepCopyObject_typed:
  "DeepCopyObject K t p = do { c \<leftarrow> typed_DeepCopy K t p; return (if c \<noteq> None then Some (t, c) else None) }"
  by (cases t) (simp_all add: if_distrib [of return] cong: if_cong add:
    Watcher_DeepCopyObject_def WatcherList_DeepCopyObject_def
    WatcherAPI_DeepCopyObject_def WatcherAPIList_DeepCopyObject_def
    WatcherApplier_DeepCopyObject_def WatcherApplierList_DeepCopyObject_def
    WatcherDecisionEngine_DeepCopyObject_def WatcherDecisionEngineList_DeepCopyObject_def)

lemma WatcherList_copier:
  assumes "library_copies K"
  shows "deep_copier (list_shape K the_WatcherItems (Watcher_shape K)) (WatcherList_DeepCopyInto K)"
  using list_copier [OF assms Watcher_copier [OF assms], of the_WatcherItems WatcherItems]
  by (simp add: WatcherList_DeepCopyInto_def [abs_def])

lemma WatcherAPIList_copier:
  assumes "library_copies K"
  shows "deep_copier (list_shape K the_WatcherAPIItems (WatcherAPI_shape K)) (WatcherAPIList_DeepCopyInto K)"
  using list_copier [OF assms WatcherAPI_copier [OF assms], of the_WatcherAPIItems WatcherAPIItems]
  by (simp add: WatcherAPIList_DeepCopyInto_def [abs_def])

lemma WatcherApplierList_copier:
  assumes "library_copies K"
  shows "deep_copier (list_shape K the_WatcherApplierItems (WatcherApplier_shape K)) (WatcherApplierList_DeepCopyInto K)"
  using list_copier [OF assms WatcherApplier_copier [OF assms], of the_WatcherApplierItems WatcherApplierItems]
  by (simp add: WatcherApplierList_DeepCopyInto_def [abs_def])

lemma WatcherDecisionEngineList_copier:
  assumes "library_copies K"
  shows "deep_copier (list_shape K the_WatcherDecisionEngineItems (WatcherDecisionEngine_shape K)) (WatcherDecisionEngineList_DeepCopyInto K)"
  using list_copier [OF assms WatcherDecisionEngine_copier [OF assms], of the_WatcherDecisionEngineItems WatcherDecisionEngineItems]
  by (simp add: WatcherDecisionEngineList_DeepCopyInto_def [abs_def])

lemma typed_copier:
  assumes K: "library_copies K"
  shows "deep_copier (object_shape K t) (typed_DeepCopy K t)"
  by (cases t)
    (simp_all add: viewed_copier object_copier Watcher_copier [OF K] WatcherList_copier [OF K] WatcherAPI_copier [OF K] WatcherAPIList_copier [OF K]
      WatcherApplier_copier [OF K] WatcherApplierList_copier [OF K] WatcherDecisionEngine_copier [OF K] WatcherDecisionEngineList_copier [OF K]
      Watcher_DeepCopy_def WatcherList_DeepCopy_def WatcherAPI_DeepCopy_def WatcherAPIList_DeepCopy_def WatcherApplier_DeepCopy_def WatcherApplierList_DeepCopy_def WatcherDecisionEngine_DeepCopy_def WatcherDecisionEngineList_DeepCopy_def)

lemma View_None_iff: "View (object_shape K t) h p = None \<longleftrightarrow> p = None"
  by (cases t) (simp_all add: ref_to_def)

section \<open>The properties\<close>

text \<open>
  C18. Every type the group registers copies deeply. \<open>DeepCopyObject\<close> of a nil pointer is the nil interface (not
  a nil pointer with a type) and leaves the memory as it is; of any other it is a pointer of the same type to a
  new struct, whose value is that of the original at the time of the copy whatever is written later into the
  original or anywhere else outside the copy, and writing into the copy does not change the original.
\<close>

theorem registered_objects_copy_deeply:
  assumes "library_copies K" and "t \<in> set (Registered (package_init SchemeBuilder))"
    and "Holds (object_shape K t) {..<NextAddr h} h p" and "run_state (DeepCopyObject K t p) h = (obj, h')"
  shows "case p of
      None \<Rightarrow> obj = None \<and> h' = h
    | Some a \<Rightarrow> (\<exists>b. obj = Some (t, Some b) \<and> NextAddr h \<le> b \<and> b < NextAddr h' \<and> is_snapshot (object_shape K t) h p h' (Some b))"
proof -
  obtain c where run: "run_state (typed_DeepCopy K t p) h = (c, h')" and obj: "obj = (if c \<noteq> None then Some (t, c) else None)"
    using assms(4) by (auto simp: DeepCopyObject_typed split: prod.splits)
  note cop = typed_copier [OF assms(1), of t]
  have c: "Holds (object_shape K t) {NextAddr h..<NextAddr h'} h' c" "c = None \<longleftrightarrow> p = None"
    using deep_copier.copies [OF cop assms(3) run] View_None_iff [of K t] by metis+
  have snap: "is_snapshot (object_shape K t) h p h' c" by (rule copier_snapshot [OF cop assms(3) run])
  show ?thesis
  proof (cases p)
    case None
    then have "h' = h" using run by (cases t) (simp_all add: copy_object_def copy_ref_def
      Watcher_DeepCopy_def WatcherList_DeepCopy_def
      WatcherAPI_DeepCopy_def WatcherAPIList_DeepCopy_def
      WatcherApplier_DeepCopy_def WatcherApplierList_DeepCopy_def
      WatcherDecisionEngine_DeepCopy_def WatcherDecisionEngineList_DeepCopy_def)
    then show ?thesis using None c(2) obj by simp
  next
    case (Some a)
    then obtain b where b: "c = Some b" using c(2) by auto
    then have "NextAddr h \<le> b \<and> b < NextAddr h'" using c(1) by (cases t) simp_all
    then show ?thesis using Some b obj snap by simp
  qed
qed

text \<open>
  C37. So does every struct the resources are made of: \<open>DeepCopy\<close> of a pointer to it gives a snapshot, nil for nil.
\<close>

theorem parts_copy_deeply:
  assumes "library_copies K"
  shows "takes_snapshots (part_pointer the_PasswordSelector (plain id)) PasswordSelector_DeepCopy \<and>
    takes_snapshots (part_pointer the_TLSServiceOverride (plain id)) TLSServiceOverride_DeepCopy \<and>
    takes_snapshots (part_pointer the_WatcherImages (plain id)) WatcherImages_DeepCopy \<and>
    takes_snapshots (part_pointer the_WatcherDefaults (plain id)) WatcherDefaults_DeepCopy \<and>
    takes_snapshots (part_pointer the_WatcherCommon WatcherCommon_shape) WatcherCommon_DeepCopy \<and>
    takes_snapshots (part_pointer the_WatcherDBPurge WatcherDBPurge_shape) WatcherDBPurge_DeepCopy \<and>
    takes_snapshots (part_pointer the_APIOverrideSpec (APIOverrideSpec_shape K)) (APIOverrideSpec_DeepCopy K) \<and>
    takes_snapshots (part_pointer the_Override (Override_shape K)) (Override_DeepCopy K) \<and>
    takes_snapshots (part_pointer the_WatcherSubCrsCommon (WatcherSubCrsCommon_shape K)) (WatcherSubCrsCommon_DeepCopy K) \<and>
    takes_snapshots (part_pointer the_WatcherSubCrsTemplate (WatcherSubCrsTemplate_shape K)) (WatcherSubCrsTemplate_DeepCopy K) \<and>
    takes_snapshots (part_pointer the_WatcherAPISpec (WatcherAPISpec_shape K)) (WatcherAPISpec_DeepCopy K) \<and>
    takes_snapshots (part_pointer the_WatcherAPITemplate (WatcherAPITemplate_shape K)) (WatcherAPITemplate_DeepCopy K) \<and>
    takes_snapshots (part_pointer the_WatcherApplierSpec (WatcherApplierSpec_shape K)) (WatcherApplierSpec_DeepCopy K) \<and>
    takes_snapshots (part_pointer the_WatcherDecisionEngineSpec (WatcherDecisionEngineSpec_shape K)) (WatcherDecisionEngineSpec_DeepCopy K) \<and>
    takes_snapshots (part_pointer the_WatcherApplierTemplate (WatcherApplierTemplate_shape K)) (WatcherApplierTemplate_DeepCopy K) \<and>
    takes_snapshots (part_pointer the_WatcherDecisionEngineTemplate (WatcherApplierTemplate_shape K)) (WatcherDecisionEngineTemplate_DeepCopy K) \<and>
    takes_snapshots (part_pointer the_WatcherTemplate (WatcherTemplate_shape K)) (WatcherTemplate_DeepCopy K) \<and>
    takes_snapshots (part_pointer the_WatcherSpec (WatcherSpec_shape K)) (WatcherSpec_DeepCopy K) \<and>
    takes_snapshots (part_pointer the_WatcherStatus (WatcherStatus_shape K)) (WatcherStatus_DeepCopy K) \<and>
    takes_snapshots (part_pointer the_WatcherAPIStatus (sub_status_shape K)) (WatcherAPIStatus_DeepCopy K) \<and>
    takes_snapshots (part_pointer the_WatcherApplierStatus (sub_status_shape K)) (WatcherApplierStatus_DeepCopy K) \<and>
    takes_snapshots (part_pointer the_WatcherDecisionEngineStatus (sub_status_shape K)) (WatcherDecisionEngineStatus_DeepCopy K)"
  unfolding PasswordSelector_DeepCopy_def TLSServiceOverride_DeepCopy_def WatcherImages_DeepCopy_def WatcherDefaults_DeepCopy_def
    WatcherCommon_DeepCopy_def WatcherDBPurge_DeepCopy_def APIOverrideSpec_DeepCopy_def Override_DeepCopy_def
    WatcherSubCrsCommon_DeepCopy_def WatcherSubCrsTemplate_DeepCopy_def WatcherAPISpec_DeepCopy_def WatcherAPITemplate_DeepCopy_def
    WatcherApplierSpec_DeepCopy_def WatcherDecisionEngineSpec_DeepCopy_def WatcherApplierTemplate_DeepCopy_def WatcherDecisionEngineTemplate_DeepCopy_def
    WatcherTemplate_DeepCopy_def WatcherSpec_DeepCopy_def WatcherStatus_DeepCopy_def WatcherAPIStatus_DeepCopy_def
    WatcherApplierStatus_DeepCopy_def WatcherDecisionEngineStatus_DeepCopy_def
  by (intro conjI part_snapshots plain_part_copiers
    WatcherCommon_copier WatcherDBPurge_copier APIOverrideSpec_copier [OF assms]
    Override_copier [OF assms] WatcherSubCrsCommon_copier [OF assms] WatcherSubCrsTemplate_copier [OF assms]
    WatcherAPISpec_copier [OF assms] WatcherAPITemplate_copier [OF assms] WatcherApplierSpec_copier [OF assms]
    WatcherDecisionEngineSpec_copier [OF assms] WatcherApplierTemplate_copier [OF assms] WatcherDecisionEngineTemplate_copier [OF assms]
    WatcherTemplate_copier [OF assms] WatcherSpec_copier [OF assms] WatcherStatus_copier [OF assms]
    WatcherAPIStatus_copier [OF assms] WatcherApplierStatus_copier [OF assms] WatcherDecisionEngineStatus_copier [OF assms]) simp_all

end
