(* ===== verification/Operator.thy ===== *)
theory Operator
  imports Watching Registration
begin

text \<open>
  Starting the operator: \<open>SetupWithManager\<close> of the four controllers, \<open>NewReconcilers\<close>, \<open>Setup\<close> and
  \<open>OverrideRequeueTimeout\<close> of \<open>watcher_common.go\<close>, and \<open>main.go\<close>.
\<close>

section \<open>Calls to the manager\<close>

text \<open>
  What the operator asks of controller-runtime and client-go while it starts. An index is registered by
  its field and kind; a controller is completed with the kinds it owns and those it watches through
  \<open>findObjectsForSrc\<close>. \<open>main\<close> leaves by \<open>os.Exit(1)\<close> or when the manager's \<open>Start\<close> returns.
\<close>

text \<open>The part of a \<open>tls.Config\<close> the operator sets, and the \<open>ctrl.Options\<close> it builds its manager with.\<close>

record tls_setting =
  NextProtos :: "string list"

record manager_options =
  ManagerScheme :: "string list"
  MetricsBindAddress :: string
  SecureServing :: bool
  MetricsTLSOpts :: "(tls_setting \<Rightarrow> tls_setting) list"
  WebhookTLSOpts :: "(tls_setting \<Rightarrow> tls_setting) list"
  HealthProbeBindAddress :: string
  LeaderElection :: bool
  LeaderElectionID :: string

datatype health_checker = Ping | WebhookServerStarted

datatype mgr_call =
    AddToScheme string
  | GetConfigOrDie
  | NewManager manager_options
  | GetConfig
  | NewForConfig
  | IndexField string string
  | CompleteController string "string list" "string list"
  | SetWatcherDefaults WatcherDefaults
  | CompleteWebhook string
  | AddHealthzCheck health_checker
  | AddReadyzCheck health_checker
  | StartManager
  | Exit1

type_synonym mgr_history = "mgr_call list"

type_synonym mgr_env = "mgr_history \<Rightarrow> error option"

definition ask :: "mgr_env \<Rightarrow> mgr_call \<Rightarrow> (mgr_history, error option) state" where
  "ask M c = State (\<lambda>h. (M (h @ [c]), h @ [c]))"

section \<open>Setting up the controllers\<close>

text \<open>The indexes in order, each failure ending the function, then the controller with what it owns; all four watch secrets.\<close>

fun index_fields :: "mgr_env \<Rightarrow> string \<Rightarrow> string list \<Rightarrow> (mgr_history, error option) state" where
  "index_fields M kind [] = return None"
| "index_fields M kind (f # fs) = do {
     err \<leftarrow> ask M (IndexField kind f);
     if err \<noteq> None then return err else index_fields M kind fs
   }"

definition setup_controller ::
  "mgr_env \<Rightarrow> string \<Rightarrow> string list \<Rightarrow> string list \<Rightarrow> (mgr_history, error option) state" where
  "setup_controller M kind indexed owns = do {
     err \<leftarrow> index_fields M kind indexed;
     if err \<noteq> None then return err else ask M (CompleteController kind owns [''Secret''])
   }"

definition watcher_SetupWithManager :: "mgr_env \<Rightarrow> (mgr_history, error option) state" where
  "watcher_SetupWithManager M = setup_controller M ''Watcher'' (map fst watcher_indexers)
     [''WatcherAPI'', ''WatcherDecisionEngine'', ''WatcherApplier'', ''MariaDBDatabase'', ''MariaDBAccount'',
      ''TransportURL'', ''KeystoneService'', ''ServiceAccount'', ''Role'', ''RoleBinding'', ''Job'', ''CronJob'',
      ''Secret'', ''Route'']"

definition api_SetupWithManager :: "mgr_env \<Rightarrow> (mgr_history, error option) state" where
  "api_SetupWithManager M = setup_controller M ''WatcherAPI'' (map fst api_indexers)
     [''Secret'', ''StatefulSet'', ''Service'', ''KeystoneEndpoint'']"

definition applier_SetupWithManager :: "mgr_env \<Rightarrow> (mgr_history, error option) state" where
  "applier_SetupWithManager M = setup_controller M ''WatcherApplier'' (map fst applier_indexers)
     [''Secret'', ''StatefulSet'']"

definition de_SetupWithManager :: "mgr_env \<Rightarrow> (mgr_history, error option) state" where
  "de_SetupWithManager M = setup_controller M ''WatcherDecisionEngine'' (map fst de_indexers)
     [''Secret'', ''StatefulSet'']"

section \<open>The reconcilers\<close>

text \<open>A reconciler is its \<open>SetupWithManager\<close> and its requeue timeout; the four are a map by kind.\<close>

record reconciler_obj =
  SetupWith :: "mgr_env \<Rightarrow> (mgr_history, error option) state"
  Timeout :: int

type_synonym reconcilers = "string \<rightharpoonup> reconciler_obj"

definition NewReconcilers :: reconcilers where
  "NewReconcilers =
     [''Watcher'' \<mapsto> \<lparr>SetupWith = watcher_SetupWithManager, Timeout = NewReconcilerBase_RequeueTimeout\<rparr>,
      ''WatcherAPI'' \<mapsto> \<lparr>SetupWith = api_SetupWithManager, Timeout = NewReconcilerBase_RequeueTimeout\<rparr>,
      ''WatcherDecisionEngine'' \<mapsto> \<lparr>SetupWith = de_SetupWithManager, Timeout = NewReconcilerBase_RequeueTimeout\<rparr>,
      ''WatcherApplier'' \<mapsto> \<lparr>SetupWith = applier_SetupWithManager, Timeout = NewReconcilerBase_RequeueTimeout\<rparr>]"

text \<open>The order a Go map is ranged over is the runtime's choice: it is the list \<open>order\<close> of the keys.\<close>

fun Setup :: "mgr_env \<Rightarrow> reconcilers \<Rightarrow> string list \<Rightarrow> (mgr_history, error option) state" where
  "Setup M rs [] = return None"
| "Setup M rs (name # order) =
     (case rs name of
        None \<Rightarrow> Setup M rs order
      | Some controller \<Rightarrow> do {
          err \<leftarrow> SetupWith controller M;
          if err \<noteq> None then return err else Setup M rs order
        })"

definition SetRequeueTimeout :: "int \<Rightarrow> reconciler_obj \<Rightarrow> reconciler_obj" where
  "SetRequeueTimeout timeout r = r\<lparr>Timeout := timeout\<rparr>"

definition OverrideRequeueTimeout :: "int \<Rightarrow> reconcilers \<Rightarrow> reconcilers" where
  "OverrideRequeueTimeout timeout rs = (\<lambda>name. map_option (SetRequeueTimeout timeout) (rs name))"

section \<open>\<open>main\<close>\<close>

text \<open>\<open>strings.ToLower\<close> on the ASCII letters, which is all its comparison with \<open>"false"\<close> depends on.\<close>

definition to_lower :: "char \<Rightarrow> char" where
  "to_lower c = (if 65 \<le> (of_char c :: nat) \<and> (of_char c :: nat) \<le> 90 then char_of ((of_char c :: nat) + 32) else c)"

definition webhooks_enabled :: "string \<Rightarrow> bool" where
  "webhooks_enabled v \<longleftrightarrow> map to_lower v \<noteq> ''false''"

text \<open>\<open>init\<close>: the API groups, each of which must register (\<open>utilruntime.Must\<close> panics otherwise).\<close>

definition scheme_groups :: "string list" where
  "scheme_groups = [''clientgoscheme'', ''watcherv1beta1'', ''mariadbv1'', ''rabbitmqv1'', ''keystonev1'',
     ''memcachedv1'', ''routev1'']"

fun must_add :: "mgr_env \<Rightarrow> string list \<Rightarrow> (mgr_history, unit go) state" where
  "must_add M [] = return (Val ())"
| "must_add M (g # gs) = do {
     err \<leftarrow> ask M (AddToScheme g);
     case err of Some e \<Rightarrow> return (Panic (err_text e)) | None \<Rightarrow> must_add M gs
   }"

definition init_scheme :: "mgr_env \<Rightarrow> (mgr_history, unit go) state" where
  "init_scheme M = must_add M scheme_groups"

text \<open>The command line, with its defaults, and what \<open>main\<close> makes of it.\<close>

record main_flags =
  metricsAddr :: string
  probeAddr :: string
  enableLeaderElection :: bool
  secureMetrics :: bool
  enableHTTP2 :: bool

definition default_flags :: main_flags where
  "default_flags = \<lparr>metricsAddr = '':33080'', probeAddr = '':33081'', enableLeaderElection = False,
     secureMetrics = False, enableHTTP2 = False\<rparr>"

definition disableHTTP2 :: "tls_setting \<Rightarrow> tls_setting" where
  "disableHTTP2 c = c\<lparr>NextProtos := [''http/1.1'']\<rparr>"

definition main_tlsOpts :: "main_flags \<Rightarrow> (tls_setting \<Rightarrow> tls_setting) list" where
  "main_tlsOpts flags = (if \<not> enableHTTP2 flags then [disableHTTP2] else [])"

definition main_options :: "main_flags \<Rightarrow> manager_options" where
  "main_options flags =
     \<lparr>ManagerScheme = scheme_groups, MetricsBindAddress = metricsAddr flags, SecureServing = secureMetrics flags,
      MetricsTLSOpts = main_tlsOpts flags, WebhookTLSOpts = main_tlsOpts flags,
      HealthProbeBindAddress = probeAddr flags, LeaderElection = enableLeaderElection flags,
      LeaderElectionID = ''5049980f.openstack.org''\<rparr>"

text \<open>\<open>if err := c; err != nil { os.Exit(1) }\<close>: the rest runs only when the call succeeded.\<close>

definition or_exit ::
  "mgr_env \<Rightarrow> (mgr_history, error option) state \<Rightarrow> (mgr_history, unit) state \<Rightarrow> (mgr_history, unit) state" where
  "or_exit M c rest = do {
     err \<leftarrow> c;
     if err \<noteq> None then do { ask M Exit1; return () } else rest
   }"

text \<open>\<open>SetupWebhookWithManager\<close> of the four types: \<open>NewWebhookManagedBy(mgr).For(r).Complete()\<close>.\<close>

type_synonym webhook_setup = "mgr_env \<Rightarrow> (mgr_history, error option) state"

definition complete_webhook :: "object_type \<Rightarrow> webhook_setup" where
  "complete_webhook r M = ask M (CompleteWebhook (kind_of r))"

definition Watcher_SetupWebhookWithManager :: webhook_setup where
  "Watcher_SetupWebhookWithManager = complete_webhook GoWatcher"

definition WatcherAPI_SetupWebhookWithManager :: webhook_setup where
  "WatcherAPI_SetupWebhookWithManager = complete_webhook GoWatcherAPI"

definition WatcherApplier_SetupWebhookWithManager :: webhook_setup where
  "WatcherApplier_SetupWebhookWithManager = complete_webhook GoWatcherApplier"

definition WatcherDecisionEngine_SetupWebhookWithManager :: webhook_setup where
  "WatcherDecisionEngine_SetupWebhookWithManager = complete_webhook GoWatcherDecisionEngine"

fun setup_webhooks :: "mgr_env \<Rightarrow> webhook_setup list \<Rightarrow> (mgr_history, unit) state \<Rightarrow> (mgr_history, unit) state" where
  "setup_webhooks M [] rest = rest"
| "setup_webhooks M (w # ws) rest = or_exit M (w M) (setup_webhooks M ws rest)"

text \<open>\<open>SetupWatcherDefaults\<close> sets the package variable; it cannot fail.\<close>

definition SetupWatcherDefaults :: "mgr_env \<Rightarrow> WatcherDefaults \<Rightarrow> (mgr_history, unit) state" where
  "SetupWatcherDefaults M defaults = do { ask M (SetWatcherDefaults defaults); return () }"

text \<open>
  The webhooks to register, the last steps, and the checker they are given, which waits for the webhook
  server if there is one.
\<close>

definition main_checks :: "mgr_env \<Rightarrow> health_checker \<Rightarrow> (mgr_history, unit) state" where
  "main_checks M checker = or_exit M (ask M (AddHealthzCheck checker)) (or_exit M (ask M (AddReadyzCheck checker))
     (or_exit M (ask M StartManager) (return ())))"

definition main_checker :: "string \<Rightarrow> health_checker" where
  "main_checker v = (if webhooks_enabled v then WebhookServerStarted else Ping)"

definition main_webhooks :: "string \<Rightarrow> webhook_setup list" where
  "main_webhooks v = (if webhooks_enabled v
     then [Watcher_SetupWebhookWithManager, WatcherAPI_SetupWebhookWithManager,
       WatcherApplier_SetupWebhookWithManager, WatcherDecisionEngine_SetupWebhookWithManager] else [])"

definition webhook_types :: "string \<Rightarrow> object_type list" where
  "webhook_types v =
     (if webhooks_enabled v then [GoWatcher, GoWatcherAPI, GoWatcherApplier, GoWatcherDecisionEngine] else [])"

lemma main_webhooks_types: "main_webhooks v = map complete_webhook (webhook_types v)"
  by (simp add: main_webhooks_def webhook_types_def Watcher_SetupWebhookWithManager_def WatcherAPI_SetupWebhookWithManager_def
    WatcherApplier_SetupWebhookWithManager_def WatcherDecisionEngine_SetupWebhookWithManager_def)

definition main :: "lib \<Rightarrow> mgr_env \<Rightarrow> string list \<Rightarrow> main_flags \<Rightarrow> string \<Rightarrow> (mgr_history, unit) state" where
  "main L M order flags ENABLE_WEBHOOKS =
     or_exit M (ask M GetConfigOrDie)
     (or_exit M (ask M (NewManager (main_options flags)))
     (or_exit M (ask M GetConfig)
     (or_exit M (ask M NewForConfig)
     (or_exit M (Setup M NewReconcilers order) (do {
        SetupWatcherDefaults M (SetupDefaults L);
        setup_webhooks M (main_webhooks ENABLE_WEBHOOKS)
          (main_checks M (main_checker ENABLE_WEBHOOKS))
      })))))"

text \<open>The program: \<open>init\<close>, then \<open>main\<close>.\<close>

definition program :: "lib \<Rightarrow> mgr_env \<Rightarrow> string list \<Rightarrow> main_flags \<Rightarrow> string \<Rightarrow> (mgr_history, unit go) state" where
  "program L M order flags ENABLE_WEBHOOKS = do {
     r \<leftarrow> init_scheme M;
     case r of
       Panic e \<Rightarrow> return (Panic e)
     | Val u \<Rightarrow> do { main L M order flags ENABLE_WEBHOOKS; return (Val ()) }
   }"

section \<open>What holds when the manager starts\<close>

lemma run_ask [simp]: "run_state (ask M c) h = (M (h @ [c]), h @ [c])"
  by (simp add: ask_def)

lemma run_or_exit [simp]:
  "run_state (or_exit M c rest) h =
     (case run_state c h of (None, h') \<Rightarrow> run_state rest h' | (Some e, h') \<Rightarrow> ((), h' @ [Exit1]))"
  by (auto simp: or_exit_def split: prod.splits option.splits)

text \<open>Which calls a run has made successfully.\<close>

definition done_by :: "mgr_env \<Rightarrow> mgr_history \<Rightarrow> mgr_call \<Rightarrow> bool" where
  "done_by M h c \<longleftrightarrow> (\<exists>h1 h2. h = h1 @ c # h2 \<and> M (h1 @ [c]) = None)"

lemma done_append: "done_by M h c \<Longrightarrow> done_by M (h @ h') c"
  unfolding done_by_def by (metis append_Cons append_assoc)

lemma done_snoc: "M (h @ [c]) = None \<Longrightarrow> done_by M (h @ [c]) c"
  unfolding done_by_def by blast

text \<open>What a piece of the start-up does to the history: it appends calls, none of which starts the manager.\<close>

definition appends :: "mgr_history \<Rightarrow> mgr_history \<Rightarrow> bool" where
  "appends h h' \<longleftrightarrow> (\<exists>cs. h' = h @ cs \<and> StartManager \<notin> set cs)"

lemma appendsI: "StartManager \<notin> set cs \<Longrightarrow> appends h (h @ cs)"
  unfolding appends_def by blast

interpretation app: step_relation appends
  by unfold_locales (auto simp: appends_def)

lemma appends_done: "appends h h' \<Longrightarrow> done_by M h c \<Longrightarrow> done_by M h' c"
  unfolding appends_def by (auto intro: done_append)

lemma index_fields_done:
  assumes "run_state (index_fields M kind fs) h = (None, h')"
  shows "appends h h' \<and> (\<forall>f \<in> set fs. done_by M h' (IndexField kind f))"
  using assms
proof (induction fs arbitrary: h)
  case (Cons f fs)
  then have ok: "M (h @ [IndexField kind f]) = None"
    and r: "run_state (index_fields M kind fs) (h @ [IndexField kind f]) = (None, h')"
    by (auto split: if_splits)
  have "appends h (h @ [IndexField kind f])" by (rule appendsI) simp
  moreover note Cons.IH [OF r]
  ultimately show ?case using appends_done done_snoc [of M, OF ok] app.R_trans by auto
qed (simp add: app.R_refl)

lemma ask_appends: "c \<noteq> StartManager \<Longrightarrow> state_io_rel appends (ask M c)"
  by (auto simp: state_io_rel_def intro: appendsI)

lemma index_appends: "state_io_rel appends (index_fields M kind fs)"
proof (induction fs)
  case (Cons f fs)
  then show ?case unfolding index_fields.simps by (intro app.rel_rules ask_appends; simp)
qed (simp add: app.rel_return)

lemma setup_controller_appends: "state_io_rel appends (setup_controller M kind fs owns)"
  unfolding setup_controller_def by (intro app.rel_rules index_appends ask_appends; simp)

lemma setup_controller_done:
  assumes "run_state (setup_controller M kind fs owns) h = (None, h')"
  shows "done_by M h' (CompleteController kind owns [''Secret'']) \<and> (\<forall>f \<in> set fs. done_by M h' (IndexField kind f))"
proof -
  obtain err h1 where 1: "run_state (index_fields M kind fs) h = (err, h1)" by fastforce
  from assms have none: "err = None" and m: "M (h1 @ [CompleteController kind owns [''Secret'']]) = None"
    and h': "h' = h1 @ [CompleteController kind owns [''Secret'']]"
    by (cases err; simp add: setup_controller_def 1)+
  from 1 none have "\<forall>f \<in> set fs. done_by M h1 (IndexField kind f)" using index_fields_done by blast
  then show ?thesis unfolding h' using done_append done_snoc [of M, OF m] by blast
qed

text \<open>A controller of the map is set up when its controller is completed after its indexes.\<close>

definition controller_ready :: "mgr_env \<Rightarrow> mgr_history \<Rightarrow> string \<Rightarrow> bool" where
  "controller_ready M h kind \<longleftrightarrow>
     (\<exists>owns. done_by M h (CompleteController kind owns [''Secret''])) \<and>
     (\<forall>f \<in> set (if kind = ''Watcher'' then watcherWatchFields else if kind = ''WatcherAPI'' then apiWatchFields
        else if kind = ''WatcherApplier'' then applierWatchFields else decisionEngineWatchFields).
        done_by M h (IndexField kind f))"

lemma controller_ready_append: "controller_ready M h kind \<Longrightarrow> appends h h' \<Longrightarrow> controller_ready M h' kind"
  unfolding controller_ready_def using appends_done by blast

lemma NewReconcilers_ready:
  assumes "NewReconcilers kind = Some r"
  shows "state_io_rel appends (SetupWith r M)"
    and "run_state (SetupWith r M) h = (None, h') \<Longrightarrow> controller_ready M h' kind"
proof -
  note defs = watcher_SetupWithManager_def api_SetupWithManager_def applier_SetupWithManager_def
    de_SetupWithManager_def
  from assms consider "kind = ''Watcher''" "SetupWith r = watcher_SetupWithManager"
    | "kind = ''WatcherAPI''" "SetupWith r = api_SetupWithManager"
    | "kind = ''WatcherDecisionEngine''" "SetupWith r = de_SetupWithManager"
    | "kind = ''WatcherApplier''" "SetupWith r = applier_SetupWithManager"
    by (auto simp: NewReconcilers_def split: if_splits)
  note kinds = this
  show "state_io_rel appends (SetupWith r M)"
    by (cases rule: kinds) (simp_all add: defs setup_controller_appends)
  assume run: "run_state (SetupWith r M) h = (None, h')"
  have "controller_ready M h' kind" if "SetupWith r M = setup_controller M kind fs owns"
      and "fs = (if kind = ''Watcher'' then watcherWatchFields else if kind = ''WatcherAPI'' then apiWatchFields
        else if kind = ''WatcherApplier'' then applierWatchFields else decisionEngineWatchFields)" for fs owns
    using setup_controller_done [OF run [unfolded that(1)]] that(2) unfolding controller_ready_def by blast
  then show "controller_ready M h' kind"
    by (cases rule: kinds) (simp_all add: defs watcher_watch.indexed api_watch.indexed applier_watch.indexed
        de_watch.indexed)
qed

lemma Setup_appends: "state_io_rel appends (Setup M NewReconcilers order)"
proof (induction order)
  case (Cons name order)
  then show ?case unfolding Setup.simps by (intro app.rel_rules NewReconcilers_ready)
qed (simp add: app.rel_return)

lemma Setup_done:
  "run_state (Setup M NewReconcilers order) h = (None, h') \<Longrightarrow>
   appends h h' \<and> (\<forall>kind \<in> set order \<inter> dom NewReconcilers. controller_ready M h' kind)"
proof (induction order arbitrary: h)
  case (Cons name order)
  show ?case
  proof (cases "NewReconcilers name")
    case (Some r)
    with Cons.prems obtain h1 where 1: "run_state (SetupWith r M) h = (None, h1)"
        and 2: "run_state (Setup M NewReconcilers order) h1 = (None, h')"
      by (auto split: prod.splits if_splits)
    have "appends h h1" using state_io_relD [OF NewReconcilers_ready(1) [OF Some] 1] .
    with Cons.IH [OF 2] NewReconcilers_ready(2) [OF Some 1] show ?thesis
      using app.R_trans controller_ready_append by auto
  qed (use Cons in auto)
qed (simp add: app.R_refl)

lemma or_exit_starts:
  assumes "run_state (or_exit M c rest) h = (u, h')" and "state_io_rel appends c"
    and "StartManager \<in> set h'" and "StartManager \<notin> set h"
  obtains h1 where "run_state c h = (None, h1)" and "run_state rest h1 = (u, h')" and "appends h h1"
    and "StartManager \<notin> set h1"
proof -
  obtain err h1 where c: "run_state c h = (err, h1)" by fastforce
  have a: "appends h h1" by (rule state_io_relD [OF assms(2) c])
  with assms(4) have "StartManager \<notin> set h1" by (auto simp: appends_def)
  with assms(1,3) c a that show ?thesis by (cases err) auto
qed

lemma setup_webhooks_starts:
  assumes "run_state (setup_webhooks M (map complete_webhook kinds) rest) h = (u, h')"
    and "StartManager \<in> set h'" and "StartManager \<notin> set h"
  obtains h1 where "run_state rest h1 = (u, h')" and "appends h h1" and "StartManager \<notin> set h1"
    and "\<forall>kind \<in> set kinds. done_by M h1 (CompleteWebhook (kind_of kind))"
  using assms
proof (induction kinds arbitrary: h thesis)
  case Nil
  then show ?case by (auto intro: app.R_refl)
next
  case (Cons kind kinds)
  from Cons.prems(2) have "run_state (or_exit M (ask M (CompleteWebhook (kind_of kind))) (setup_webhooks M (map complete_webhook kinds) rest)) h = (u, h')"
    by (simp add: complete_webhook_def [of kind M])
  then obtain h1 where 1: "run_state (ask M (CompleteWebhook (kind_of kind))) h = (None, h1)"
      and 2: "run_state (setup_webhooks M (map complete_webhook kinds) rest) h1 = (u, h')" and a: "appends h h1" "StartManager \<notin> set h1"
    by (rule or_exit_starts [OF _ ask_appends Cons.prems(3,4)]) simp_all
  from 1 have d: "done_by M h1 (CompleteWebhook (kind_of kind))" by (auto intro: done_snoc)
  obtain h2 where r2: "run_state rest h2 = (u, h')" and a2: "appends h1 h2" "StartManager \<notin> set h2"
      and "\<forall>k \<in> set kinds. done_by M h2 (CompleteWebhook (kind_of k))"
    using Cons.IH [OF _ 2 Cons.prems(3) a(2)] by blast
  with appends_done [OF a2(1) d] have "\<forall>k \<in> set (kind # kinds). done_by M h2 (CompleteWebhook (kind_of k))" by simp
  then show ?case by (rule Cons.prems(1) [OF r2 app.R_trans [OF a(1) a2(1)] a2(2)])
qed

text \<open>How far a start that reaches the manager has come.\<close>

lemma main_checks_start:
  assumes "run_state (main_checks M c) h = (u, h')" and "StartManager \<in> set h'" and "StartManager \<notin> set h"
  obtains h1 h2 where "h' = h1 @ StartManager # h2" and "appends h h1" and "StartManager \<notin> set h1"
    and "done_by M h1 (AddHealthzCheck c)" and "done_by M h1 (AddReadyzCheck c)"
proof -
  note goes_on = or_exit_starts [OF _ _ assms(2)]
  let ?last = "or_exit M (ask M StartManager) (return ())"
  obtain h1 where 1: "run_state (or_exit M (ask M (AddReadyzCheck c)) ?last) h1 = (u, h')" "StartManager \<notin> set h1"
      and live: "run_state (ask M (AddHealthzCheck c)) h = (None, h1)"
    by (rule goes_on [OF assms(1) [unfolded main_checks_def] ask_appends assms(3)]) simp_all
  obtain h2 where 2: "run_state ?last h2 = (u, h')" "StartManager \<notin> set h2"
      and ready: "run_state (ask M (AddReadyzCheck c)) h1 = (None, h2)"
    by (rule goes_on [OF 1(1) ask_appends 1(2)]) simp_all
  from 2(1) obtain h3 where "h' = h2 @ StartManager # h3" by (auto split: option.splits)
  moreover have "appends h h2" using live ready by (auto simp: appends_def)
  moreover have "done_by M h2 (AddHealthzCheck c)" "done_by M h2 (AddReadyzCheck c)"
    using live ready by (auto intro: done_append done_snoc)
  ultimately show thesis using that 2(2) by blast
qed

lemma must_add_done:
  "run_state (must_add M gs) h = (Val u, h') \<Longrightarrow> appends h h' \<and> (\<forall>g \<in> set gs. done_by M h' (AddToScheme g))"
proof (induction gs arbitrary: h)
  case (Cons g gs)
  then have ok: "M (h @ [AddToScheme g]) = None" and r: "run_state (must_add M gs) (h @ [AddToScheme g]) = (Val u, h')"
    by (auto split: option.splits)
  have "appends h (h @ [AddToScheme g])" by (rule appendsI) simp
  moreover note Cons.IH [OF r]
  ultimately show ?case using appends_done done_snoc [of M, OF ok] app.R_trans by auto
qed (simp add: app.R_refl)

lemma must_add_appends: "state_io_rel appends (must_add M gs)"
proof (induction gs)
  case (Cons g gs)
  then show ?case unfolding must_add.simps by (intro app.rel_rules ask_appends; simp)
qed (simp add: app.rel_return)

lemma main_set_up_start:
  assumes "run_state (main L M order flags v) h0 = (u, h)" and "StartManager \<in> set h" and "StartManager \<notin> set h0"
  obtains h1 h2 where "run_state (Setup M NewReconcilers order) h1 = (None, h2)" and "StartManager \<notin> set h2"
    and "run_state (setup_webhooks M (main_webhooks v) (main_checks M (main_checker v)))
           (h2 @ [SetWatcherDefaults (SetupDefaults L)]) = (u, h)"
    and "appends h0 h2" and "done_by M h2 (NewManager (main_options flags))"
proof -
  note goes_on = or_exit_starts [OF _ _ assms(2)]
  let ?ready = "do { SetupWatcherDefaults M (SetupDefaults L); setup_webhooks M (main_webhooks v) (main_checks M (main_checker v)) }"
  let ?set_up = "or_exit M (Setup M NewReconcilers order) ?ready"
  let ?clients = "or_exit M (ask M GetConfig) (or_exit M (ask M NewForConfig) ?set_up)"
  let ?manager = "ask M (NewManager (main_options flags))"
  from assms(1) have m: "run_state (or_exit M (ask M GetConfigOrDie) (or_exit M ?manager ?clients)) h0 = (u, h)"
    by (simp only: main_def)
  obtain h1 where 1: "run_state (or_exit M ?manager ?clients) h1 = (u, h)" "StartManager \<notin> set h1" and a1: "appends h0 h1"
    by (rule goes_on [OF m ask_appends assms(3)]) simp_all
  obtain h2 where 2: "run_state ?clients h2 = (u, h)" "StartManager \<notin> set h2" and a2: "appends h1 h2"
      and made: "run_state ?manager h1 = (None, h2)"
    by (rule goes_on [OF 1(1) ask_appends 1(2)]) simp_all
  obtain h3 where 3: "run_state (or_exit M (ask M NewForConfig) ?set_up) h3 = (u, h)" "StartManager \<notin> set h3"
      and a3: "appends h2 h3"
    by (rule goes_on [OF 2(1) ask_appends 2(2)]) simp_all
  obtain h4 where 4: "run_state ?set_up h4 = (u, h)" "StartManager \<notin> set h4" and a4: "appends h3 h4"
    by (rule goes_on [OF 3(1) ask_appends 3(2)]) simp_all
  obtain h5 where 5: "run_state (Setup M NewReconcilers order) h4 = (None, h5)"
      "run_state ?ready h5 = (u, h)" "StartManager \<notin> set h5" and a5: "appends h4 h5"
    by (rule goes_on [OF 4(1) Setup_appends 4(2)]) simp_all
  have late: "appends h2 h5" by (rule app.R_trans [OF a3 app.R_trans [OF a4 a5]])
  from made have "done_by M h2 (NewManager (main_options flags))" by (auto intro: done_snoc)
  with late have "done_by M h5 (NewManager (main_options flags))" by (rule appends_done)
  moreover have "appends h0 h5" by (rule app.R_trans [OF a1 app.R_trans [OF a2 late]])
  ultimately show thesis using that [OF 5(1,3)] 5(2) by (simp add: SetupWatcherDefaults_def)
qed

text \<open>
  C38. The manager is started only when everything before it succeeded: every API group is registered,
  the manager is built from the command line, whatever order the map of controllers is walked in each of
  the four is completed, watching secrets, with every field its watch lists by indexed, its kind and the
  list of it being known to the API group, the image defaults are set, the four webhooks are registered
  unless they are disabled, and both health checks are added, waiting for the webhook server exactly when
  there is one. Unless the flag asks for it, neither the metrics nor the webhook server offers HTTP/2.
\<close>

theorem main_starts_set_up:
  assumes "set order = dom NewReconcilers"
    and "run_state (program L M order flags v) [] = (u, h)" and "StartManager \<in> set h"
  shows "\<exists>h0 h1. h = h0 @ StartManager # h1 \<and> StartManager \<notin> set h0 \<and>
    (\<forall>g \<in> set scheme_groups. done_by M h0 (AddToScheme g)) \<and> done_by M h0 (NewManager (main_options flags)) \<and>
    (\<not> enableHTTP2 flags \<longrightarrow> (\<forall>c. NextProtos (fold (\<lambda>f. f) (MetricsTLSOpts (main_options flags)) c) = [''http/1.1''] \<and>
       NextProtos (fold (\<lambda>f. f) (WebhookTLSOpts (main_options flags)) c) = [''http/1.1''])) \<and>
    (\<forall>kind \<in> {''Watcher'', ''WatcherAPI'', ''WatcherApplier'', ''WatcherDecisionEngine''}.
       controller_ready M h0 kind \<and> {kind, kind @ ''List''} \<subseteq> known_kinds (package_init SchemeBuilder) \<and> (webhooks_enabled v \<longrightarrow> done_by M h0 (CompleteWebhook kind))) \<and>
    SetWatcherDefaults (SetupDefaults L) \<in> set h0 \<and> done_by M h0 (AddHealthzCheck (main_checker v)) \<and> done_by M h0 (AddReadyzCheck (main_checker v))"
proof -
  obtain w h0 where 0: "run_state (init_scheme M) [] = (w, h0)" by fastforce
  have "StartManager \<notin> set h0"
    using state_io_relD [OF must_add_appends 0 [unfolded init_scheme_def]] by (auto simp: appends_def)
  moreover from this assms(2,3) 0 obtain x u' where x: "w = Val x" and m: "run_state (main L M order flags v) h0 = (u', h)"
    by (cases w) (auto simp: program_def split: prod.splits)
  ultimately obtain h1 h2 where su: "run_state (Setup M NewReconcilers order) h1 = (None, h2)" and n2: "StartManager \<notin> set h2"
      and r2: "run_state (setup_webhooks M (main_webhooks v) (main_checks M (main_checker v)))
        (h2 @ [SetWatcherDefaults (SetupDefaults L)]) = (u', h)"
      and a02: "appends h0 h2" and made: "done_by M h2 (NewManager (main_options flags))"
    using main_set_up_start [OF m assms(3)] by blast
  have groups: "\<forall>g \<in> set scheme_groups. done_by M h2 (AddToScheme g)"
    using must_add_done [OF 0 [unfolded init_scheme_def x]] appends_done [OF a02] by blast
  let ?h3 = "h2 @ [SetWatcherDefaults (SetupDefaults L)]"
  from n2 have "StartManager \<notin> set ?h3" by simp
  then obtain h4 where 4: "run_state (main_checks M (main_checker v)) h4 = (u', h)" "appends ?h3 h4" "StartManager \<notin> set h4"
      and hooks: "\<forall>t \<in> set (webhook_types v). done_by M h4 (CompleteWebhook (kind_of t))"
    by (rule setup_webhooks_starts [OF r2 [unfolded main_webhooks_types] assms(3)])
  obtain h5 h6 where 5: "h = h5 @ StartManager # h6" "appends h4 h5" "StartManager \<notin> set h5"
      and checks: "done_by M h5 (AddHealthzCheck (main_checker v))" "done_by M h5 (AddReadyzCheck (main_checker v))"
    by (rule main_checks_start [OF 4(1) assms(3) 4(3)])
  have "appends h2 ?h3" by (rule appendsI) simp
  from app.R_trans [OF this app.R_trans [OF 4(2) 5(2)]] have a25: "appends h2 h5" .
  have dom: "set order \<inter> dom NewReconcilers = {''Watcher'', ''WatcherAPI'', ''WatcherApplier'', ''WatcherDecisionEngine''}"
    using assms(1) by (auto simp: NewReconcilers_def)
  have known: "{kind, kind @ ''List''} \<subseteq> known_kinds (package_init SchemeBuilder)"
    if "kind \<in> {''Watcher'', ''WatcherAPI'', ''WatcherApplier'', ''WatcherDecisionEngine''}" for kind
    using that by (auto simp: known_kinds_def registered_types)
  have "controller_ready M h5 kind \<and> {kind, kind @ ''List''} \<subseteq> known_kinds (package_init SchemeBuilder) \<and> (webhooks_enabled v \<longrightarrow> done_by M h5 (CompleteWebhook kind))"
    if "kind \<in> {''Watcher'', ''WatcherAPI'', ''WatcherApplier'', ''WatcherDecisionEngine''}" for kind
    using Setup_done [OF su] known [OF that] that hooks controller_ready_append [OF _ a25] appends_done [OF 5(2)]
    unfolding dom webhook_types_def by auto
  moreover have "SetWatcherDefaults (SetupDefaults L) \<in> set h5"
    using 4(2) 5(2) by (auto simp: appends_def)
  moreover have "\<forall>g \<in> set scheme_groups. done_by M h5 (AddToScheme g)" "done_by M h5 (NewManager (main_options flags))"
    using groups made appends_done [OF a25] by blast+
  moreover have "\<not> enableHTTP2 flags \<longrightarrow> (\<forall>c. NextProtos (fold (\<lambda>f. f) (MetricsTLSOpts (main_options flags)) c) = [''http/1.1''] \<and>
       NextProtos (fold (\<lambda>f. f) (WebhookTLSOpts (main_options flags)) c) = [''http/1.1''])"
    by (simp add: main_options_def main_tlsOpts_def disableHTTP2_def)
  ultimately show ?thesis using 5(1,3) checks by blast
qed

text \<open>
  Overriding the requeue timeout sets it for all four controllers and changes nothing else, so the
  order of the walk does not matter; by default it is five seconds.
\<close>

lemma override_requeue_timeout:
  "(\<forall>kind. map_option Timeout (OverrideRequeueTimeout t NewReconcilers kind) =
      (if kind \<in> dom NewReconcilers then Some t else None)) \<and>
   (\<forall>kind. map_option (\<lambda>r. SetupWith r) (OverrideRequeueTimeout t rs kind) = map_option SetupWith (rs kind)) \<and>
   OverrideRequeueTimeout t (OverrideRequeueTimeout u rs) = OverrideRequeueTimeout t rs \<and>
   map_option Timeout (NewReconcilers ''Watcher'') = Some 5000000000"
  by (auto simp: OverrideRequeueTimeout_def SetRequeueTimeout_def [abs_def] option.map_comp comp_def dom_def
      NewReconcilers_def NewReconcilerBase_RequeueTimeout_def seconds_def fun_eq_iff)

end
