(* ===== verification/Panics.thy ===== *)
theory Panics
  imports Lifecycle Webhooks
begin

text \<open>
  Nil pointers. Programs that cannot panic at all, programs that cannot when the resource they run on
  meets a condition, and what a resource must have for its reconcile never to panic.
\<close>

section \<open>Programs that do not panic\<close>

definition crashes :: "'a flow \<Rightarrow> bool" where
  "crashes r \<longleftrightarrow> (case r of Crash p \<Rightarrow> True | _ \<Rightarrow> False)"

lemma crashes_simps [simp]: "\<not> crashes (Ret res err)" "\<not> crashes (Next x)" "crashes (Crash p)"
  by (simp_all add: crashes_def)

definition calm :: "('s, 'a flow) state \<Rightarrow> bool" where
  "calm m \<longleftrightarrow> (\<forall>s. \<not> crashes (fst (run_state m s)))"

lemma calm_return: "calm (return (Ret res err))" "calm (return (Next x))"
  by (simp_all add: calm_def)

lemma calm_bind: "(\<And>x. calm (f x)) \<Longrightarrow> calm (State_Monad.bind m f)"
  by (auto simp: calm_def split: prod.splits)

lemma calm_continue:
  assumes "calm m" and "\<And>x. calm (f x)"
  shows "calm (continue m f)"
  unfolding calm_def
proof
  fix s
  obtain r t where r: "run_state m s = (r, t)" by fastforce
  with assms(1) have "\<not> crashes r" unfolding calm_def by (metis fst_conv)
  with r assms(2) show "\<not> crashes (fst (run_state (continue m f) s))"
    by (cases r) (simp_all add: run_continue calm_def)
qed

lemma calm_cases:
  "(c \<Longrightarrow> calm m) \<Longrightarrow> (\<not> c \<Longrightarrow> calm n) \<Longrightarrow> calm (if c then m else n)"
  "(po = None \<Longrightarrow> calm m) \<Longrightarrow> (\<And>x. po = Some x \<Longrightarrow> calm (g x)) \<Longrightarrow> calm (case po of None \<Rightarrow> m | Some x \<Rightarrow> g x)"
  "(\<And>e. ps = Inl e \<Longrightarrow> calm (h e)) \<Longrightarrow> (\<And>x. ps = Inr x \<Longrightarrow> calm (k x)) \<Longrightarrow>
     calm (case ps of Inl e \<Rightarrow> h e | Inr x \<Rightarrow> k x)"
  "(\<And>x y. pp = (x, y) \<Longrightarrow> calm (j x y)) \<Longrightarrow> calm (case pp of (x, y) \<Rightarrow> j x y)"
  by (cases po; cases ps; cases pp; simp)+

lemma calm_let: "(\<And>x. x = v \<Longrightarrow> calm (f x)) \<Longrightarrow> calm (Let v f)"
  by simp

lemmas calm_rules = calm_return calm_bind calm_continue calm_cases calm_let

text \<open>On a resource that meets a condition on what no operation changes.\<close>

definition calm_if :: "(('spec, 'z) cr_scheme \<Rightarrow> bool) \<Rightarrow> (('spec, 'z) cr_st, 'a flow) state \<Rightarrow> bool" where
  "calm_if K m \<longleftrightarrow> (\<forall>s. K (inst s) \<longrightarrow> \<not> crashes (fst (run_state m s)))"

text \<open>A condition that two resources of the same identity meet together.\<close>

definition of_identity :: "(('spec, 'z) cr_scheme \<Rightarrow> bool) \<Rightarrow> bool" where
  "of_identity K \<longleftrightarrow> (\<forall>i j. identity i = identity j \<longrightarrow> K i \<longrightarrow> K j)"

lemma of_identityI: "(\<And>i. K i \<longleftrightarrow> P (Spec i)) \<Longrightarrow> of_identity K"
  by (simp add: of_identity_def identity_def)

lemma calm_calm_if: "calm m \<Longrightarrow> calm_if K m"
  by (simp add: calm_def calm_if_def)

lemma calm_if_continue:
  assumes "of_identity K" and "calm_if K m" and "state_io_rel (keeps identity) m" and "\<And>x. calm_if K (f x)"
  shows "calm_if K (continue m f)"
  unfolding calm_if_def
proof (intro allI impI)
  fix s :: "('a, 'b) cr_st"
  assume K: "K (inst s)"
  obtain r t where r: "run_state m s = (r, t)" by fastforce
  have "K (inst t)"
    using K assms(1) kept_run [OF assms(3) r] unfolding of_identity_def by metis
  moreover have "\<not> crashes r" using assms(2) K r by (auto simp: calm_if_def)
  ultimately show "\<not> crashes (fst (run_state (continue m f) s))"
    using assms(4) r by (cases r) (auto simp: run_continue calm_if_def)
qed

lemma calm_if_gate:
  assumes "of_identity K" and "calm_if K delete" and "calm_if K normal"
  shows "calm_if K (finalizer_gate L new delete normal)"
  using assms unfolding calm_if_def run_finalizer_gate Let_def of_identity_def
  by (auto simp: split_beta)

text \<open>A reconcile panics exactly when its body does.\<close>

context reconciler
begin

lemma panics_if_body:
  assumes "OnGetInstance E (trace s @ [GetInstance req]) = Inr i" and "NewHelper E = None"
    and "is_panic (fst (run_state (reconcile E req) s))"
  shows "crashes (fst (run_state (body E (Conditions i = None))
           \<lparr>inst = prep i, trace = trace s @ [GetInstance req]\<rparr>))"
proof -
  obtain b s1 where b: "run_state (body E (Conditions i = None))
      \<lparr>inst = prep i, trace = trace s @ [GetInstance req]\<rparr> = (b, s1)" by fastforce
  from assms(3) loaded(2) [OF assms(1,2) b] show ?thesis
    by (cases b) (auto simp: b split: option.splits)
qed

lemma never_panics:
  assumes "of_identity K" and "\<And>new. calm_if K (body E new)"
    and "\<forall>i. OnGetInstance E (trace s @ [GetInstance req]) = Inr i \<longrightarrow> K i"
  shows "\<not> is_panic (fst (run_state (reconcile E req) s))"
proof (cases "OnGetInstance E (trace s @ [GetInstance req])")
  case (Inl e)
  then show ?thesis by (simp add: not_loaded)
next
  case (Inr i)
  show ?thesis
  proof (cases "NewHelper E")
    case None
    have "K (prep i)"
      using assms(1,3) Inr prep_identity [of i] unfolding of_identity_def by metis
    then show ?thesis using panics_if_body [OF Inr None] assms(2) unfolding calm_if_def by fastforce
  next
    case (Some e)
    then show ?thesis using Inr by (simp add: shape reconcile_shape_def)
  qed
qed

end

section \<open>The blocks\<close>

lemma calm_shared_blocks:
  "calm (service_secret L E)" "calm (prometheus_secret L E vars)" "calm (claim_memcached L E)"
  "calm (release_memcached L E)" "calm (finish_reconcile L)"
  unfolding service_blocks by (intro calm_rules)+

text \<open>The hash of the inputs panics when it cannot be computed, and the deployment on a nil replica count.\<close>

lemma calm_settle:
  assumes "\<forall>es. snd (HashEnvs L es) = None"
  shows "calm (settle_input_hash L (input_hash L vars))"
proof -
  obtain h where "HashEnvs L (MergeEnvs L [] vars) = (h, None)" using assms by (metis prod.collapse)
  then show ?thesis by (simp add: calm_def settle_input_hash_def input_hash_def split_beta)
qed

lemma observe_no_panic:
  "Replicas (Spec (inst s)) \<noteq> None \<Longrightarrow> \<not> is_panic (fst (run_state (observe_statefulset L st) s))"
  by (auto simp: observe_statefulset_def split: if_splits)

lemma apply_no_panic:
  "Replicas (Spec (inst s)) \<noteq> None \<Longrightarrow> \<not> is_panic (fst (run_state (apply_statefulset L E ss) s))"
  by (auto simp: apply_statefulset_def observe_no_panic split: prod.splits)

lemma api_apply_no_panic:
  "Replicas (Spec (inst s)) \<noteq> None \<Longrightarrow> \<not> is_panic (fst (run_state (api_ensureDeployment L E psec h) s))"
  by (auto simp: api_ensureDeployment_def observe_no_panic split: prod.splits sum.splits option.splits)

text \<open>Calling a function that did not panic, before something that does not.\<close>

lemma calm_if_call:
  assumes "\<And>s. K (inst s) \<Longrightarrow> \<not> is_panic (fst (run_state m s))" and "\<And>x. calm (f x)"
  shows "calm_if K (call_go m f)"
  unfolding calm_if_def
proof (intro allI impI)
  fix s :: "('a, 'b) cr_st"
  assume "K (inst s)"
  then show "\<not> crashes (fst (run_state (call_go m f) s))"
    using assms(1) [of s] assms(2) by (cases "run_state m s"; cases "fst (run_state m s)") (auto simp: calm_def)
qed

section \<open>The services\<close>

abbreviation has_replicas :: "('a WatcherSubCrsCommon_scheme, 'z) cr_scheme \<Rightarrow> bool" where
  "has_replicas \<equiv> \<lambda>i. Replicas (Spec i) \<noteq> None"

lemma has_replicas_identity: "of_identity has_replicas"
  by (rule of_identityI) simp

lemma applier_calm:
  assumes "\<forall>es. snd (HashEnvs L es) = None"
  shows "calm_if has_replicas (applier_body L E new)"
proof -
  have deploy: "calm_if has_replicas (applier_deploy L E h)" for h
    unfolding applier_deploy_def applier_ensureDeployment_def
    by (rule calm_if_call) (auto simp: apply_no_panic intro: calm_rules)
  have 1: "calm (applier_inputs L E)" "calm (applier_memcached L E)" "calm (applier_reconcileDelete L E)"
    unfolding applier_inputs_def applier_memcached_def applier_reconcileDelete_def
    by (intro calm_rules calm_shared_blocks)+
  have 2: "calm (applier_config L E sec vars mc)" for sec vars mc
    unfolding applier_config_def applier_createHashOfInputHashes_def
    by (intro calm_rules calm_settle assms)
  note blocks = 1 [THEN calm_calm_if] 2 [THEN calm_calm_if] deploy calm_shared_blocks(5) [THEN calm_calm_if]
  have "calm_if has_replicas (applier_normal L E)"
    unfolding applier_normal_def split_beta
    by (intro calm_if_continue has_replicas_identity blocks applier_identity_frames)
  from calm_if_gate [OF has_replicas_identity blocks(3) this]
  show ?thesis
    by (auto simp: applier_body_def calm_if_def applier_initStatus_def)
qed

lemma de_calm:
  assumes "\<forall>es. snd (HashEnvs L es) = None"
  shows "calm_if has_replicas (de_body L E new)"
proof -
  have deploy: "calm_if has_replicas (de_deploy L E psec h)" for psec h
    unfolding de_deploy_def de_ensureDeployment_def
    by (rule calm_if_call) (auto simp: apply_no_panic intro: calm_rules)
  have 1: "calm (de_inputs L E)" "calm (de_memcached L E)" "calm (de_reconcileDelete L E)"
    unfolding de_inputs_def de_memcached_def de_reconcileDelete_def
    by (intro calm_rules calm_shared_blocks)+
  have 2: "calm (de_config L E sec psec vars mc)" for sec psec vars mc
    unfolding de_config_def de_createHashOfInputHashes_def
    by (intro calm_rules calm_settle assms)
  note blocks = 1 [THEN calm_calm_if] 2 [THEN calm_calm_if] deploy calm_shared_blocks(5) [THEN calm_calm_if]
  have "calm_if has_replicas (de_normal L E)"
    unfolding de_normal_def split_beta
    by (intro calm_if_continue has_replicas_identity blocks de_identity_frames)
  from calm_if_gate [OF has_replicas_identity blocks(3) this]
  show ?thesis
    by (auto simp: de_body_def calm_if_def de_initStatus_def)
qed

lemma api_calm:
  assumes "\<forall>es. snd (HashEnvs L es) = None"
  shows "calm_if has_replicas (api_body L E new)"
proof -
  have deploy: "calm_if has_replicas (api_deploy L E psec h)" for psec h
    unfolding api_deploy_def
    by (rule calm_if_call, simp add: api_apply_no_panic) (intro calm_rules)
  have 1: "calm (api_inputs L E)" "calm (api_memcached L E)" "calm (api_reconcileDelete L E)"
      "calm (api_validate_ca L E vars)" "calm (api_validate_certs L E vars)" "calm (api_expose L E)" for vars
    unfolding api_inputs_def api_memcached_def api_reconcileDelete_def api_validate_ca_def api_validate_certs_def
      api_expose_def
    by (intro calm_rules calm_shared_blocks)+
  have 2: "calm (api_config L E sec psec vars mc)" "calm (api_hash L vars)" for sec psec vars mc
    unfolding api_config_def api_hash_def api_createHashOfInputHashes_def
    by (intro calm_rules calm_settle assms)+
  note blocks = 1 [THEN calm_calm_if] 2 [THEN calm_calm_if] deploy calm_shared_blocks(5) [THEN calm_calm_if]
  have "calm_if has_replicas (api_normal L E)"
    unfolding api_normal_def split_beta
    by (intro calm_if_continue has_replicas_identity blocks api_identity_frames)
  from calm_if_gate [OF has_replicas_identity blocks(3) this]
  show ?thesis
    by (auto simp: api_body_def calm_if_def api_initStatus_def)
qed

section \<open>The Watcher\<close>

text \<open>The route code dereferences the hostname, which the calls before it have set.\<close>

lemma calm_CreateRoute: "calm (CreateRoute L E ed)"
proof -
  have host: "calm (CreateRoute_host L E ed)" and tls: "\<And>ed. calm (CreateRoute_tls L E ed)"
    unfolding CreateRoute_host_def CreateRoute_tls_def CreateRoute_cert_def CreateRoute_tls_config_def
    by (intro calm_rules)+
  have "calm (continue (if RouteTLSEnabled (RouteTLS (EDRoute ed')) then CreateRoute_tls L E ed'
            else return (Next (ed'\<lparr>EDProto := ''http''\<rparr>))) (\<lambda>ed. call_go (return (deref (EDHostname ed)))
            (\<lambda>hostname. return (Next (with_url ed hostname)))))" (is "calm ?rest")
    if "EDHostname ed' = Some h" for ed' h
    unfolding calm_def
  proof
    fix s
    obtain r t where r: "run_state (if RouteTLSEnabled (RouteTLS (EDRoute ed')) then CreateRoute_tls L E ed'
        else return (Next (ed'\<lparr>EDProto := ''http''\<rparr>))) s = (r, t)" by fastforce
    have "calm (if RouteTLSEnabled (RouteTLS (EDRoute ed')) then CreateRoute_tls L E ed'
        else return (Next (ed'\<lparr>EDProto := ''http''\<rparr>)))"
      by (intro calm_rules tls)
    with r have "\<not> crashes r" unfolding calm_def by (metis fst_conv)
    moreover have "EDHostname e = Some h" if "r = Next e" for e
      using r that \<open>EDHostname ed' = Some h\<close> by (auto dest: CreateRoute_tls_Next split: if_splits)
    ultimately show "\<not> crashes (fst (run_state ?rest s))"
      using r by (cases r) (simp_all add: run_continue)
  qed
  note rest = this
  show ?thesis
    unfolding calm_def
  proof
    fix s
    obtain r t where r: "run_state (CreateRoute_host L E ed) s = (r, t)" by fastforce
    with host have "\<not> crashes r" unfolding calm_def by (metis fst_conv)
    moreover have "\<not> crashes (fst (run_state (CreateRoute L E ed) s))" if "r = Next ed'" for ed'
    proof -
      from CreateRoute_host_Next r that obtain h where "EDHostname ed' = Some h" by fastforce
      from rest [OF this] r that show ?thesis
        unfolding calm_def CreateRoute_def by (simp add: run_continue split: option.split)
    qed
    ultimately show "\<not> crashes (fst (run_state (CreateRoute L E ed) s))"
      using r by (cases r) (simp_all add: CreateRoute_def run_continue split: option.split)
  qed
qed

lemma calm_stop: "calm m \<Longrightarrow> calm (do { r \<leftarrow> m; return (stop_on_result r) })"
  by (auto simp: calm_def stop_on_result_def split: prod.split flow.split) (metis crashes_simps(3) fst_conv)

lemma calm_expose: "calm (watcher_expose L E)"
proof -
  have del: "calm (delete_routes L E i svc ed rts)" for i svc ed rts
  proof (induction rts arbitrary: ed)
    case (Cons rt rest)
    then show ?case unfolding delete_routes.simps by (intro calm_rules; blast)
  qed (simp add: calm_return)
  have svc: "calm (expose_service L E i svc)" for i svc
    unfolding expose_service_def ingress_tls_def pod_tls_def validate_cert_def ensureRoute_def
    by (intro calm_return calm_continue calm_cases calm_let calm_stop del calm_CreateRoute calm_bind)
  have "calm (expose_services L E i svcs)" for i svcs
  proof (induction svcs)
    case (Cons v rest)
    then show ?case unfolding expose_services.simps by (intro calm_continue svc)
  qed (simp add: calm_return)
  then have "calm (exposeEndpoints L E)"
    unfolding exposeEndpoints_def by (intro calm_rules)
  then show ?thesis
    unfolding calm_def watcher_expose_def
    by (auto simp: stop_on_result_def split: prod.splits flow.splits option.splits) (metis crashes_simps(3) fst_conv)
qed

abbreviation complete :: "Watcher \<Rightarrow> bool" where
  "complete \<equiv> \<lambda>i. DatabaseInstance (Spec i) \<noteq> None \<and> RabbitMqClusterName (Spec i) \<noteq> None \<and>
     PurgeAge (DBPurge (Spec i)) \<noteq> None \<and> Schedule (DBPurge (Spec i)) \<noteq> None"

lemma complete_identity: "of_identity complete"
  by (rule of_identityI) simp

lemma watcher_deref_calm:
  "calm_if complete (watcher_database L E)" "calm_if complete (watcher_transport L E)"
  "calm_if complete (watcher_cronjob L E)"
proof -
  show "calm_if complete (watcher_database L E)"
    unfolding watcher_database_def
    by (rule calm_if_call) (auto simp: watcher_ensureDB_def watcher_database_request_def
        split: prod.splits option.splits sum.split intro: calm_rules)
  show "calm_if complete (watcher_transport L E)"
    unfolding watcher_transport_def
    by (rule calm_if_call) (auto simp: watcher_ensureMQ_def
        split: prod.splits option.splits sum.splits if_splits intro!: calm_rules)
  show "calm_if complete (watcher_cronjob L E)"
    unfolding watcher_cronjob_def
    by (rule calm_if_call) (auto simp: watcher_ensureDBPurgeCronJob_def DBPurgeCronJob_def
        split: prod.splits option.splits intro: calm_rules)
qed

lemma watcher_calm: "calm_if complete (watcher_body L E new)"
proof -
  have 1: "calm (watcher_input_secrets L E n)" "calm (watcher_prometheus L E)"
      "calm (watcher_sub_level_secret L E tsec isec db)" "calm (watcher_keystone L E)"
      "calm (watcher_config L E db tsec)" "calm (watcher_dbsync L E)"
      "calm (stop_on_error (watcher_ensureAPI L E n))" "calm (stop_on_error (watcher_ensureDecisionEngine L E n))"
      "calm (stop_on_error (watcher_ensureApplier L E n))" "calm (watcher_unused_accounts L E)"
      "calm (watcher_reconcileDelete L E)" "calm (watcher_ensureRbac L E)" for n tsec isec db
    unfolding watcher_input_secrets_def watcher_secret_def watcher_prometheus_def watcher_sub_level_secret_def
      watcher_keystone_def watcher_config_def watcher_dbsync_def stop_on_error_def watcher_unused_accounts_def
      watcher_reconcileDelete_def watcher_release_database_def watcher_release_keystone_def
      watcher_release_prometheus_def watcher_ensureRbac_def
    by (intro calm_rules)+
  note blocks = 1 [THEN calm_calm_if] watcher_deref_calm calm_expose [THEN calm_calm_if]
    calm_shared_blocks(5) [THEN calm_calm_if]
  have "calm_if complete (watcher_normal L E)"
    unfolding watcher_normal_def watcher_services_def split_beta
    by (intro calm_if_continue complete_identity blocks id_frame.frame_blocks id_frame.frame_secrets
        id_frame.frame_expose; simp)
  note gate = calm_if_gate [OF complete_identity blocks(11) this]
  have "calm_if complete (continue (watcher_ensureRbac L E) (\<lambda>_.
      finalizer_gate L new (watcher_reconcileDelete L E) (watcher_normal L E)))"
    by (intro calm_if_continue complete_identity blocks rbac_frames gate)
  then show ?thesis
    by (simp add: calm_if_def watcher_body_def watcher_initStatus_def watcher_initConditions_def Let_def
        split: option.split)
qed

section \<open>Properties\<close>

text \<open>
  C9. A Watcher that the webhook accepts and whose purge age and schedule are set, as the defaults of its
  schema do, never makes its reconcile panic, whatever the cluster answers.
\<close>

theorem validated_watcher_never_panics:
  assumes "\<forall>i. OnGetInstance E (trace s @ [GetInstance req]) = Inr i \<longrightarrow>
      Watcher_ValidateCreate i = Val None \<and>
      PurgeAge (DBPurge (Spec i)) \<noteq> None \<and> Schedule (DBPurge (Spec i)) \<noteq> None"
  shows "\<not> is_panic (fst (run_state (watcher_Reconcile L E req) s))"
proof (rule watcher.never_panics [OF complete_identity watcher_calm])
  have "complete i" if "OnGetInstance E (trace s @ [GetInstance req]) = Inr i" for i
    using assms that
    by (cases "DatabaseInstance (Spec i)"; cases "RabbitMqClusterName (Spec i)")
      (auto simp: Watcher_ValidateCreate_def field_empty_cases split: if_splits)
  then show "\<forall>i. OnGetInstance E (trace s @ [GetInstance req]) = Inr i \<longrightarrow> complete i" by blast
qed

text \<open>
  C27. The reconcile of a service never panics when its spec has a replica count and the hash of its
  inputs can be computed; nothing else is dereferenced.
\<close>

theorem services_never_panic:
  assumes "\<forall>es. snd (HashEnvs L es) = None"
    and "\<forall>i. OnGetInstance Ea (trace sa @ [GetInstance req]) = Inr i \<longrightarrow> Replicas (Spec i) \<noteq> None"
    and "\<forall>i. OnGetInstance Ep (trace sp @ [GetInstance req]) = Inr i \<longrightarrow> Replicas (Spec i) \<noteq> None"
    and "\<forall>i. OnGetInstance Ed (trace sd @ [GetInstance req]) = Inr i \<longrightarrow> Replicas (Spec i) \<noteq> None"
  shows "\<not> is_panic (fst (run_state (api_Reconcile L Ea req) sa)) \<and>
    \<not> is_panic (fst (run_state (applier_Reconcile L Ep req) sp)) \<and>
    \<not> is_panic (fst (run_state (de_Reconcile L Ed req) sd))"
  using api.never_panics [OF has_replicas_identity api_calm [OF assms(1)] assms(2)]
    applier.never_panics [OF has_replicas_identity applier_calm [OF assms(1)] assms(3)]
    de.never_panics [OF has_replicas_identity de_calm [OF assms(1)] assms(4)]
  by blast

text \<open>
  C28. The input hash: an unchanged one goes on and is reported, a changed one is recorded and ends the
  reconcile, and one that cannot be computed makes the reconcile panic instead of returning the error.
\<close>

theorem input_hash_outcomes:
  assumes "hash_laws L"
  shows "run_state (settle_input_hash L (input_hash L vars)) s =
    (case HashEnvs L (MergeEnvs L [] vars) of
       (h, Some e) \<Rightarrow> (Crash ''nil pointer dereference'', s)
     | (h, None) \<Rightarrow>
         if hash_map (Hash (inst s)) (InputHashName L) = Some h
         then (Next h, s\<lparr>inst := (inst s)\<lparr>Conditions := CMarkTrue L ServiceConfigReadyCondition
                 (LibMessage ''ServiceConfigReadyMessage'') (Conditions (inst s))\<rparr>\<rparr>)
         else (Ret Result0 None, s\<lparr>inst := (inst s)\<lparr>Hash :=
                 Some ((hash_map (Hash (inst s)))(InputHashName L \<mapsto> h))\<rparr>\<rparr>))"
proof (cases "HashEnvs L (MergeEnvs L [] vars)")
  case (Pair h err)
  then show ?thesis
    using set_hash [OF assms, of "MergeEnvs L [] vars" h]
    by (cases err) (auto simp: settle_input_hash_def input_hash_def)
qed

end
