(* ===== verification/Workflow.thy ===== *)
theory Workflow
  imports Lifecycle
begin

text \<open>
  The workflow of each controller as an abstract machine: a list of stages, each a kind of call that is
  made once or any number of times, or not at all, and never again once a later stage has begun. The
  detailed reconcile functions refine it: the calls of every run are a word of the machine.
\<close>

section \<open>Workflows\<close>

datatype 'c stage = Once "'c \<Rightarrow> bool" | Many "'c \<Rightarrow> bool"

fun follows :: "'c stage list \<Rightarrow> 'c list \<Rightarrow> bool" where
  "follows ws [] = True"
| "follows [] (c # cs) = False"
| "follows (Once P # ws) (c # cs) = (P c \<and> follows ws cs \<or> follows ws (c # cs))"
| "follows (Many P # ws) (c # cs) = (P c \<and> follows (Many P # ws) cs \<or> follows ws (c # cs))"

lemma follows_skip: "follows ws cs \<Longrightarrow> follows (w # ws) cs"
  by (cases cs; cases w) simp_all

lemma follows_skips: "follows ws cs \<Longrightarrow> follows (vs @ ws) cs"
  by (induction vs) (simp_all add: follows_skip)

lemma follows_append: "follows ws as \<Longrightarrow> follows vs bs \<Longrightarrow> follows (ws @ vs) (as @ bs)"
  by (induction ws as rule: follows.induct) (auto intro: follows_skips)

lemma follows_many: "list_all P cs \<Longrightarrow> follows [Many P] cs"
  by (induction cs) simp_all

text \<open>Stages that are all made once bound the number of calls.\<close>

primrec is_once :: "'c stage \<Rightarrow> bool" where
  "is_once (Once P) = True"
| "is_once (Many P) = False"

lemma follows_bound: "follows ws cs \<Longrightarrow> list_all is_once ws \<Longrightarrow> length cs \<le> length ws"
  by (induction ws cs rule: follows.induct) auto

section \<open>Programs that follow a workflow\<close>

definition traced :: "'i call stage list \<Rightarrow> 'i st \<Rightarrow> 'i st \<Rightarrow> bool" where
  "traced ws s t \<longleftrightarrow> (\<exists>tr. trace t = trace s @ tr \<and> follows ws tr)"

definition along :: "'i call stage list \<Rightarrow> ('i st, 'a) state \<Rightarrow> bool" where
  "along ws m \<longleftrightarrow> (\<forall>s. traced ws s (snd (run_state m s)))"

lemma traced_refl: "trace t = trace s \<Longrightarrow> traced ws s t"
  by (simp add: traced_def)

lemma traced_append: "traced ws s t \<Longrightarrow> traced vs t u \<Longrightarrow> traced (ws @ vs) s u"
  unfolding traced_def using follows_append by fastforce

lemma traced_first: "traced ws s t \<Longrightarrow> traced (ws @ vs) s t"
  using traced_append [of ws s t vs t] traced_refl by blast

lemma along_silent_ops:
  "along ws (return x)" "along ws the_inst" "along ws (modify_inst f)" "along ws State_Monad.get"
  by (simp_all add: along_def traced_def)

lemma along_cond_ops:
  "along ws (cond_set L c)" "along ws (mark_true L t m)" "along ws (set_false L t rs sv m args)"
  "along ws (drop_own_finalizer L)"
  by (simp_all add: along_def traced_def drop_own_finalizer_def)

lemma along_bind: "along ws m \<Longrightarrow> (\<And>x. along vs (f x)) \<Longrightarrow> along (ws @ vs) (State_Monad.bind m f)"
  unfolding along_def by (auto split: prod.split) (metis snd_conv traced_append)

lemma along_continue:
  assumes "along ws m" and "\<And>x. along vs (f x)"
  shows "along (ws @ vs) (continue m f)"
  unfolding along_def
proof
  fix s
  obtain r t where r: "run_state m s = (r, t)" by fastforce
  have "traced ws s t" using assms(1) r unfolding along_def by (metis snd_conv)
  then show "traced (ws @ vs) s (snd (run_state (continue m f) s))"
    using r assms(2) by (cases r) (auto simp: run_continue along_def intro: traced_append traced_first)
qed

lemma along_call_go:
  assumes "along ws m" and "\<And>x. along vs (f x)"
  shows "along (ws @ vs) (call_go m f)"
  unfolding along_def
proof
  fix s
  obtain r t where r: "run_state m s = (r, t)" by fastforce
  have "traced ws s t" using assms(1) r unfolding along_def by (metis snd_conv)
  then show "traced (ws @ vs) s (snd (run_state (call_go m f) s))"
    using r assms(2) by (cases r) (auto simp: along_def intro: traced_append traced_first)
qed

text \<open>The rules a program is walked through with: what is called is the next stage, or that stage is skipped.\<close>

lemma along_call: "P c \<Longrightarrow> (\<And>x. along ws (f x)) \<Longrightarrow> along (Once P # ws) (State_Monad.bind (perform c a) f)"
  using along_bind [of "[Once P]" "perform c a" ws f] by (simp add: along_def traced_def)

lemma along_last: "P c \<Longrightarrow> along (Once P # ws) (perform c a)"
  by (simp add: along_def traced_def)

lemma along_skip: "along ws (State_Monad.bind (perform c a) f) \<Longrightarrow> along (w # ws) (State_Monad.bind (perform c a) f)"
  unfolding along_def traced_def using follows_skip by blast

lemma along_quiet: "along [] m \<Longrightarrow> (\<And>x. along ws (f x)) \<Longrightarrow> along ws (State_Monad.bind m f)"
  using along_bind [of "[]" m ws f] by simp

lemma along_block:
  "along [w] m \<Longrightarrow> (\<And>x. along ws (f x)) \<Longrightarrow> along (w # ws) (State_Monad.bind m f)"
  "along [w, v] n \<Longrightarrow> (\<And>x. along ws (g x)) \<Longrightarrow> along (w # v # ws) (State_Monad.bind n g)"
  using along_bind [of "[w]" m ws f] along_bind [of "[w, v]" n ws g] by simp_all

lemma along_first: "along ws m \<Longrightarrow> (\<And>x. along [] (f x)) \<Longrightarrow> along ws (State_Monad.bind m f)"
  using along_bind [of ws m "[]" f] by simp

lemma along_first_flow:
  "along ws m \<Longrightarrow> (\<And>x. along [] (f x)) \<Longrightarrow> along ws (continue m f)"
  "along ws n \<Longrightarrow> (\<And>x. along [] (g x)) \<Longrightarrow> along ws (call_go n g)"
  using along_continue [of ws m "[]" f] along_call_go [of ws n "[]" g] by simp_all

lemma along_cases:
  "(c \<Longrightarrow> along ws m) \<Longrightarrow> (\<not> c \<Longrightarrow> along ws n) \<Longrightarrow> along ws (if c then m else n)"
  "(po = None \<Longrightarrow> along ws m) \<Longrightarrow> (\<And>x. po = Some x \<Longrightarrow> along ws (g x)) \<Longrightarrow>
     along ws (case po of None \<Rightarrow> m | Some x \<Rightarrow> g x)"
  "(\<And>e. ps = Inl e \<Longrightarrow> along ws (h e)) \<Longrightarrow> (\<And>x. ps = Inr x \<Longrightarrow> along ws (k x)) \<Longrightarrow>
     along ws (case ps of Inl e \<Rightarrow> h e | Inr x \<Rightarrow> k x)"
  "(\<And>x y. pp = (x, y) \<Longrightarrow> along ws (j x y)) \<Longrightarrow> along ws (case pp of (x, y) \<Rightarrow> j x y)"
  "(\<And>x. pg = Val x \<Longrightarrow> along ws (q x)) \<Longrightarrow> (\<And>p. pg = Panic p \<Longrightarrow> along ws (r p)) \<Longrightarrow>
     along ws (case pg of Val x \<Rightarrow> q x | Panic p \<Rightarrow> r p)"
  "(\<And>x. x = v \<Longrightarrow> along ws (l x)) \<Longrightarrow> along ws (Let v l)"
  by (cases po; cases ps; cases pp; cases pg; simp)+

lemma along_many: "state_io_rel (extends P) m \<Longrightarrow> along [Many P] m"
  unfolding along_def traced_def by (metis ext.relD extends_def follows_many list.pred_set)

lemma along_weaken: "along ws m \<Longrightarrow> along (ws @ vs) m"
  unfolding along_def using traced_first by blast

lemma along_flow_cases:
  "(\<And>res err. r = Ret res err \<Longrightarrow> along ws (f res err)) \<Longrightarrow> (\<And>p. r = Crash p \<Longrightarrow> along ws (g p)) \<Longrightarrow>
   (\<And>x. r = Next x \<Longrightarrow> along ws (h x)) \<Longrightarrow> along ws (case r of Ret res err \<Rightarrow> f res err | Crash p \<Rightarrow> g p | Next x \<Rightarrow> h x)"
  by (cases r) simp_all

lemmas along_rules = along_silent_ops along_cond_ops along_cases along_flow_cases

section \<open>The blocks of the services\<close>

lemma along_memcached:
  "along [Once is_GetMemcachedByName, Once is_UpdateMemcached] (claim_memcached L E)"
  "along [Once is_GetMemcachedByName, Once is_UpdateMemcached] (release_memcached L E)"
proof -
  have "along [Once is_GetMemcachedByName] (ensureMemcached L E (\<lambda>c. cond_set L (Some c)) (mark_true L) ns n)" for ns n
    unfolding ensureMemcached_def
    by (rule along_rules | rule along_call, (simp; fail) | rule along_quiet)+
  note claim = along_block(1) [OF this]
  show "along [Once is_GetMemcachedByName, Once is_UpdateMemcached] (claim_memcached L E)"
    unfolding claim_memcached_def
    by (rule along_rules claim | rule along_call, (simp; fail) | rule along_quiet)+
  show "along [Once is_GetMemcachedByName, Once is_UpdateMemcached] (release_memcached L E)"
    unfolding release_memcached_def
    by (rule along_rules | rule along_call, (simp; fail) | rule along_quiet)+
qed

lemma along_secret:
  "along [Once is_GetSecret] (ensureSecret L E (\<lambda>c. cond_set L (Some c)) n fs)"
  unfolding ensureSecret_def
  by (rule along_rules | rule along_call, (simp; fail) | rule along_quiet)+

lemma along_generate: "along [Once is_EnsureSecrets] (GenerateConfigsGeneric E i vars params custom labels scripts)"
  unfolding GenerateConfigsGeneric_def
  by (rule along_rules | rule along_call along_last, (simp; fail) | rule along_quiet)+

lemma along_shared:
  "along [Once is_GetSecret] (service_secret L E)"
  "along [Once is_GetSecret] (prometheus_secret L E vars)"
  "along [] (settle_input_hash L (input_hash L vars))"
  "along [] (observe_statefulset L st)"
  "along ws (finish_reconcile L)"
  unfolding service_secret_def prometheus_secret_def settle_input_hash_def input_hash_def
    observe_statefulset_def finish_reconcile_def
  by (rule along_rules along_block(1) [OF along_secret] | rule along_call, (simp; fail) |
      rule along_quiet along_call_go [of "[]" _ "[]", simplified])+

text \<open>A workflow of one block after another.\<close>

lemma along_then:
  "along [u] m \<Longrightarrow> (\<And>x. along ws (f x)) \<Longrightarrow> along (u # ws) (continue m f)"
  "along [u, v] n \<Longrightarrow> (\<And>x. along ws (g x)) \<Longrightarrow> along (u # v # ws) (continue n g)"
  "along [u, v, w] p \<Longrightarrow> (\<And>x. along ws (h x)) \<Longrightarrow> along (u # v # w # ws) (continue p h)"
  "along [] q \<Longrightarrow> (\<And>x. along ws (k x)) \<Longrightarrow> along ws (continue q k)"
  using along_continue [of "[u]" m ws f] along_continue [of "[u, v]" n ws g] along_continue [of "[u, v, w]" p ws h]
    along_continue [of "[]" q ws k]
  by simp_all

section \<open>The services\<close>

definition applier_workflow :: "'i call stage list" where
  "applier_workflow = [Once is_GetSecret, Once is_GetMemcachedByName, Once is_UpdateMemcached,
     Once is_GetKeystoneAPI, Once is_GetDatabaseByNameAndAccount, Once is_EnsureSecrets, Once is_ApplyStatefulSet]"

definition de_workflow :: "'i call stage list" where
  "de_workflow = [Once is_GetSecret, Once is_GetSecret, Once is_GetMemcachedByName, Once is_UpdateMemcached,
     Once is_GetKeystoneAPI, Once is_GetDatabaseByNameAndAccount, Once is_EnsureSecrets, Once is_ApplyStatefulSet]"

definition api_workflow :: "'i call stage list" where
  "api_workflow = [Once is_GetSecret, Once is_GetSecret, Once is_GetMemcachedByName, Once is_UpdateMemcached,
     Once is_GetKeystoneAPI, Once is_GetDatabaseByNameAndAccount, Once is_EnsureSecrets,
     Once is_ValidateCACertSecret, Once is_ValidateCertSecrets, Once is_ApplyStatefulSet,
     Once is_ApplyService, Once is_ApplyService, Once is_ApplyKeystoneEndpoint]"

definition memcached_release_workflow :: "'i call stage list" where
  "memcached_release_workflow = [Once is_GetMemcachedByName, Once is_UpdateMemcached]"

definition api_delete_workflow :: "'i call stage list" where
  "api_delete_workflow = [Once is_GetKeystoneEndpointWithName, Once is_UpdateKeystoneEndpoint,
     Once is_GetMemcachedByName, Once is_UpdateMemcached]"

lemma along_apply: "along [Once is_ApplyStatefulSet] (apply_statefulset L E ss)"
  unfolding apply_statefulset_def
  by (rule along_rules | rule along_call, (simp; fail) | rule along_shared(4) along_quiet |
      simp add: along_def traced_def)+

lemma along_sources:
  assumes "\<And>x. along ws (f x)"
  shows "along (Once is_GetKeystoneAPI # Once is_GetDatabaseByNameAndAccount # ws)
    (State_Monad.bind (config_sources L E sec) f)"
proof (rule along_block(2) [OF _ assms])
  show "along [Once is_GetKeystoneAPI, Once is_GetDatabaseByNameAndAccount] (config_sources L E sec)"
    unfolding config_sources_def
    by (rule along_rules | rule along_call, (simp; fail) | rule along_quiet)+
qed

lemma applier_along:
  "along applier_workflow (applier_normal L E)" "along memcached_release_workflow (applier_reconcileDelete L E)"
proof -
  have deploy: "along [Once is_ApplyStatefulSet] (applier_deploy L E h)" for h
    unfolding applier_deploy_def applier_ensureDeployment_def
    by (rule along_first_flow(2) along_rules along_quiet along_apply)+
  have "along [Once is_GetKeystoneAPI, Once is_GetDatabaseByNameAndAccount, Once is_EnsureSecrets]
      (applier_generateServiceConfigs L E sec mc vars)" for sec mc vars
    unfolding applier_generateServiceConfigs_def by (rule along_rules along_sources along_generate along_quiet)+
  then have config: "along [Once is_GetKeystoneAPI, Once is_GetDatabaseByNameAndAccount, Once is_EnsureSecrets]
      (applier_config L E sec vars mc)" for sec vars mc
    unfolding applier_config_def applier_createHashOfInputHashes_def
    by (intro along_first along_cases along_silent_ops along_shared)
  show "along applier_workflow (applier_normal L E)"
    unfolding applier_normal_def applier_workflow_def applier_inputs_def applier_memcached_def
    by (rule along_then along_shared along_memcached deploy config along_rules along_quiet along_first_flow(1))+
  show "along memcached_release_workflow (applier_reconcileDelete L E)"
    unfolding applier_reconcileDelete_def memcached_release_workflow_def
    by (rule along_then along_memcached along_rules along_quiet)+
qed

lemma de_along:
  "along de_workflow (de_normal L E)" "along memcached_release_workflow (de_reconcileDelete L E)"
proof -
  have deploy: "along [Once is_ApplyStatefulSet] (de_deploy L E psec h)" for psec h
    unfolding de_deploy_def de_ensureDeployment_def
    by (rule along_first_flow(2) along_rules along_quiet along_apply)+
  have "along [Once is_GetKeystoneAPI, Once is_GetDatabaseByNameAndAccount, Once is_EnsureSecrets]
      (de_generateServiceConfigs L E sec psec mc vars)" for sec psec mc vars
    unfolding de_generateServiceConfigs_def by (rule along_rules along_sources along_generate along_quiet)+
  then have config: "along [Once is_GetKeystoneAPI, Once is_GetDatabaseByNameAndAccount, Once is_EnsureSecrets]
      (de_config L E sec psec vars mc)" for sec psec vars mc
    unfolding de_config_def de_createHashOfInputHashes_def
    by (intro along_first along_cases along_silent_ops along_shared)
  have inputs: "along [Once is_GetSecret, Once is_GetSecret] (de_inputs L E)"
    unfolding de_inputs_def by (rule along_then along_shared along_rules along_quiet)+
  show "along de_workflow (de_normal L E)"
    unfolding de_normal_def de_workflow_def de_memcached_def
    by (rule inputs along_memcached deploy config along_then along_shared along_rules along_quiet)+
  show "along memcached_release_workflow (de_reconcileDelete L E)"
    unfolding de_reconcileDelete_def memcached_release_workflow_def
    by (rule along_then along_memcached along_rules along_quiet)+
qed

lemma api_expose_along:
  "along [Once is_ApplyService, Once is_ApplyService, Once is_ApplyKeystoneEndpoint] (api_expose L E)"
proof -
  have endpoint: "along [Once is_ApplyService] (api_expose_endpoint L E ep)" for ep
    unfolding api_expose_endpoint_def
    by (rule along_rules | rule along_call, (simp; fail) | rule along_quiet)+
  have "along [Once is_ApplyService, Once is_ApplyService] (api_expose_loop L E [p, q] m)" for p q m
    unfolding api_expose_loop.simps by (rule along_rules along_block(1) [OF endpoint])+
  then have loop: "along [Once is_ApplyService, Once is_ApplyService]
      (api_expose_loop L E (if b then [p, q] else [q, p]) m)" for b p q m
    by (cases b) simp_all
  have services: "along [Once is_ApplyService, Once is_ApplyService] (api_ensureServiceExposed L E)"
    unfolding api_ensureServiceExposed_def
    by (rule along_rules along_block(2) [OF loop] along_quiet)+
  have keystone: "along [Once is_ApplyKeystoneEndpoint] (api_ensureKeystoneEndpoint L E eps)" for eps
    unfolding api_ensureKeystoneEndpoint_def
    by (rule along_rules | rule along_call, (simp; fail) | rule along_quiet)+
  show ?thesis
    unfolding api_expose_def
    by (rule along_rules along_block(2) [OF services] along_block(1) [OF keystone])+
qed

lemma api_along:
  "along api_workflow (api_normal L E)" "along api_delete_workflow (api_reconcileDelete L E)"
proof -
  have "along [Once is_ApplyStatefulSet] (api_ensureDeployment L E psec h)" for psec h
    unfolding api_ensureDeployment_def
    by (rule along_rules | rule along_call, (simp; fail) | rule along_shared(4) along_quiet)+
  then have deploy: "along [Once is_ApplyStatefulSet] (api_deploy L E psec h)" for psec h
    unfolding api_deploy_def by (rule along_first_flow(2)) (rule along_rules along_quiet)+
  have "along [Once is_GetKeystoneAPI, Once is_GetDatabaseByNameAndAccount, Once is_EnsureSecrets]
      (api_generateServiceConfigs L E sec psec mc vars)" for sec psec mc vars
    unfolding api_generateServiceConfigs_def by (rule along_rules along_sources along_generate along_quiet)+
  then have config: "along [Once is_GetKeystoneAPI, Once is_GetDatabaseByNameAndAccount, Once is_EnsureSecrets]
      (api_config L E sec psec vars mc)" for sec psec vars mc
    unfolding api_config_def by (intro along_first along_cases along_silent_ops)
  have inputs: "along [Once is_GetSecret, Once is_GetSecret] (api_inputs L E)"
    unfolding api_inputs_def by (rule along_then along_shared along_rules along_quiet)+
  have ca: "along [Once is_ValidateCACertSecret] (api_validate_ca L E vars)" for vars
    unfolding api_validate_ca_def by (rule along_rules | rule along_call, (simp; fail) | rule along_quiet)+
  have certs: "along [Once is_ValidateCertSecrets] (api_validate_certs L E vars)" for vars
    unfolding api_validate_certs_def by (rule along_rules | rule along_call, (simp; fail) | rule along_quiet)+
  show "along api_workflow (api_normal L E)"
    unfolding api_normal_def api_workflow_def api_memcached_def api_hash_def api_createHashOfInputHashes_def
    by (rule inputs along_memcached deploy config ca certs along_shared along_then along_rules api_expose_along)+
  have endpoint: "along [Once is_GetKeystoneEndpointWithName, Once is_UpdateKeystoneEndpoint]
      (api_ensureKeystoneEndpointDeletion L E)"
    unfolding api_ensureKeystoneEndpointDeletion_def
    by (rule along_rules | rule along_call, (simp; fail) | rule along_quiet)+
  show "along api_delete_workflow (api_reconcileDelete L E)"
    unfolding api_reconcileDelete_def api_delete_workflow_def
    by (rule along_block(2) [OF endpoint] along_then along_memcached along_rules along_quiet)+
qed

section \<open>The Watcher\<close>

definition expose_call :: "'i call \<Rightarrow> bool" where
  "expose_call c \<longleftrightarrow> is_GetServicesListWithLabel c \<or> is_ValidateCertSecret c \<or> is_ListRoutes c \<or> is_DeleteRoute c \<or>
     is_GetRoute c \<or> is_ApplyRoute c \<or> is_GetSecret c \<or> is_GetDataFromSecret c"

definition watcher_workflow :: "'i call stage list" where
  "watcher_workflow = [Once is_ReconcileRbac, Once is_EnsureMariaDBAccount, Once is_ApplyDatabase,
     Once is_WaitForDBCreated, Once is_ApplyTransportURL, Once is_GetSecret, Once is_GetSecret, Once is_GetSecret,
     Once is_GetSecret, Once is_UpdateSecret, Once is_EnsureSecrets, Once is_ApplyKeystoneService,
     Once is_EnsureSecrets, Once is_DoJob, Once is_ApplyCronJob, Once is_ApplyWatcherAPI, Many expose_call,
     Once is_ApplyWatcherDecisionEngine, Once is_ApplyWatcherApplier, Once is_DeleteUnusedMariaDBAccountFinalizers]"

definition watcher_delete_workflow :: "'i call stage list" where
  "watcher_delete_workflow = [Once is_ReconcileRbac, Once is_GetDatabaseByNameAndAccount,
     Once is_DeleteDatabaseFinalizer, Once is_GetKeystoneServiceWithName, Once is_UpdateKeystoneService,
     Once is_GetSecret, Once is_UpdateSecret]"

lemma watcher_prepare_along:
  "along [Once is_EnsureMariaDBAccount, Once is_ApplyDatabase, Once is_WaitForDBCreated] (watcher_database L E)"
  "along [Once is_ApplyTransportURL, Once is_GetSecret] (watcher_transport L E)"
  "along [Once is_GetSecret, Once is_GetSecret] (watcher_input_secrets L E n)"
  "along [Once is_GetSecret, Once is_UpdateSecret] (watcher_prometheus L E)"
  "along [Once is_EnsureSecrets] (watcher_sub_level_secret L E tsec isec db)"
  "along [Once is_ApplyKeystoneService] (watcher_keystone L E)"
  "along [Once is_EnsureSecrets] (watcher_config L E db tsec)"
  "along [Once is_DoJob] (watcher_dbsync L E)"
  "along [Once is_ApplyCronJob] (watcher_cronjob L E)"
proof -
  have "along [Once is_ApplyDatabase, Once is_WaitForDBCreated] (watcher_create_database L E req)" for req
    unfolding watcher_create_database_def db_error_def db_running_def
    by (rule along_rules | rule along_call, (simp; fail) | rule along_quiet)+
  note create = along_first [OF this]
  have "along [Once is_EnsureMariaDBAccount, Once is_ApplyDatabase, Once is_WaitForDBCreated] (watcher_ensureDB L E)"
    unfolding watcher_ensureDB_def
    by (rule along_rules create | rule along_call, (simp; fail) | rule along_quiet)+
  then show "along [Once is_EnsureMariaDBAccount, Once is_ApplyDatabase, Once is_WaitForDBCreated] (watcher_database L E)"
    unfolding watcher_database_def by (rule along_first_flow(2)) (rule along_rules)+
  have "along [Once is_ApplyTransportURL, Once is_GetSecret] (watcher_ensureMQ L E)"
    unfolding watcher_ensureMQ_def by (rule along_rules | rule along_call, (simp; fail) | rule along_quiet)+
  then show "along [Once is_ApplyTransportURL, Once is_GetSecret] (watcher_transport L E)"
    unfolding watcher_transport_def by (rule along_first_flow(2)) (rule along_rules along_quiet)+
  have secret: "along [Once is_GetSecret] (watcher_secret L E m fs msg)" for m fs msg
    unfolding watcher_secret_def by (rule along_rules along_block(1) [OF along_secret] along_quiet)+
  show "along [Once is_GetSecret, Once is_GetSecret] (watcher_input_secrets L E n)"
    unfolding watcher_input_secrets_def by (rule along_rules along_then(1) [OF secret] along_quiet)+
  show "along [Once is_GetSecret, Once is_UpdateSecret] (watcher_prometheus L E)"
    unfolding watcher_prometheus_def
    by (rule along_rules along_block(1) [OF along_secret] | rule along_call, (simp; fail) | rule along_quiet)+
  have "along [Once is_EnsureSecrets] (watcher_createSubLevelSecret L E tsec isec db)"
    unfolding watcher_createSubLevelSecret_def
    by (rule along_rules | rule along_call, (simp; fail) | rule along_quiet)+
  then show "along [Once is_EnsureSecrets] (watcher_sub_level_secret L E tsec isec db)"
    unfolding watcher_sub_level_secret_def by (rule along_first) (rule along_rules along_quiet)+
  have "along [Once is_ApplyKeystoneService] (watcher_ensureKeystoneSvc L E)"
    unfolding watcher_ensureKeystoneSvc_def by (rule along_rules | rule along_call, (simp; fail) | rule along_quiet)+
  then show "along [Once is_ApplyKeystoneService] (watcher_keystone L E)"
    unfolding watcher_keystone_def by (rule along_first) (rule along_rules)+
  have "along [Once is_EnsureSecrets] (watcher_generateServiceConfigDBJobs L E db tsec vars)" for vars
    unfolding watcher_generateServiceConfigDBJobs_def by (rule along_rules along_generate along_quiet)+
  then show "along [Once is_EnsureSecrets] (watcher_config L E db tsec)"
    unfolding watcher_config_def by (rule along_first) (rule along_rules along_quiet)+
  have "along [Once is_DoJob] (watcher_ensureDBSync L E)"
    unfolding watcher_ensureDBSync_def by (rule along_rules | rule along_call, (simp; fail) | rule along_quiet)+
  then show "along [Once is_DoJob] (watcher_dbsync L E)"
    unfolding watcher_dbsync_def by (rule along_first) (rule along_rules)+
  have "along [Once is_ApplyCronJob] (watcher_ensureDBPurgeCronJob L E)"
    unfolding watcher_ensureDBPurgeCronJob_def by (rule along_rules | rule along_call, (simp; fail) | rule along_quiet)+
  then show "along [Once is_ApplyCronJob] (watcher_cronjob L E)"
    unfolding watcher_cronjob_def by (rule along_first_flow(2)) (rule along_rules)+
qed

lemma watcher_services_along:
  "along [Once is_ApplyWatcherAPI] (stop_on_error (watcher_ensureAPI L E n))"
  "along [Once is_ApplyWatcherDecisionEngine] (stop_on_error (watcher_ensureDecisionEngine L E n))"
  "along [Once is_ApplyWatcherApplier] (stop_on_error (watcher_ensureApplier L E n))"
  "along [Once is_DeleteUnusedMariaDBAccountFinalizers] (watcher_unused_accounts L E)"
  "along [Many expose_call] (watcher_expose L E)"
proof -
  have "along [Once is_ApplyWatcherAPI] (watcher_ensureAPI L E n)"
    and "along [Once is_ApplyWatcherDecisionEngine] (watcher_ensureDecisionEngine L E n)"
    and "along [Once is_ApplyWatcherApplier] (watcher_ensureApplier L E n)"
    unfolding watcher_ensureAPI_def watcher_ensureDecisionEngine_def watcher_ensureApplier_def sub_failed_def
      mirror_sub_def
    by (rule along_rules | rule along_call, (simp; fail) | rule along_quiet)+
  note subs = this
  show "along [Once is_ApplyWatcherAPI] (stop_on_error (watcher_ensureAPI L E n))"
    and "along [Once is_ApplyWatcherDecisionEngine] (stop_on_error (watcher_ensureDecisionEngine L E n))"
    and "along [Once is_ApplyWatcherApplier] (stop_on_error (watcher_ensureApplier L E n))"
    unfolding stop_on_error_def by (intro along_first subs along_cases along_silent_ops)+
  show "along [Once is_DeleteUnusedMariaDBAccountFinalizers] (watcher_unused_accounts L E)"
    unfolding watcher_unused_accounts_def by (rule along_rules | rule along_call, (simp; fail) | rule along_quiet)+
  show "along [Many expose_call] (watcher_expose L E)"
    by (rule along_many, rule expose_calls) (auto simp: route_calls_def expose_call_def split: call.splits)
qed

lemma watcher_normal_along: "along (tl watcher_workflow) (watcher_normal L E)"
  unfolding watcher_normal_def watcher_services_def watcher_workflow_def list.sel(3)
  by (rule watcher_prepare_along watcher_services_along along_then along_rules along_shared)+

lemma watcher_workflow_cons: "watcher_workflow = Once is_ReconcileRbac # tl watcher_workflow"
  by (simp add: watcher_workflow_def)

lemma watcher_delete_along: "along (tl watcher_delete_workflow) (watcher_reconcileDelete L E)"
proof -
  have db: "along [Once is_GetDatabaseByNameAndAccount, Once is_DeleteDatabaseFinalizer] (watcher_release_database L E)"
    unfolding watcher_release_database_def by (rule along_rules | rule along_call, (simp; fail) | rule along_quiet)+
  have keystone: "along [Once is_GetKeystoneServiceWithName, Once is_UpdateKeystoneService]
      (watcher_release_keystone L E)"
    unfolding watcher_release_keystone_def by (rule along_rules | rule along_call, (simp; fail) | rule along_quiet)+
  have prometheus: "along [Once is_GetSecret, Once is_UpdateSecret] (watcher_release_prometheus L E)"
    unfolding watcher_release_prometheus_def by (rule along_rules | rule along_call, (simp; fail) | rule along_quiet)+
  show ?thesis
    unfolding watcher_reconcileDelete_def watcher_delete_workflow_def list.sel(3)
    by (rule db keystone prometheus along_then along_rules along_quiet)+
qed

lemma watcher_rbac_along: "along [Once is_ReconcileRbac] (watcher_ensureRbac L E)"
  unfolding watcher_ensureRbac_def by (rule along_rules | rule along_call, (simp; fail) | rule along_quiet)+

section \<open>Whole runs\<close>

text \<open>
  A reconcile function refines two workflows: it reads its resource, then takes the first if the resource
  is live and the second if it is being deleted, and stores it.
\<close>

definition refines_workflow ::
  "('spec, 'z) cr_scheme env \<Rightarrow> (nsname \<Rightarrow> (('spec, 'z) cr_st, (result \<times> error option) go) state) \<Rightarrow>
   ('spec, 'z) cr_scheme call stage list \<Rightarrow> ('spec, 'z) cr_scheme call stage list \<Rightarrow> bool" where
  "refines_workflow E reconcile normal delete \<longleftrightarrow>
     (\<forall>req s. traced
        (Once is_GetInstance #
          (case OnGetInstance E (trace s @ [GetInstance req]) of
             Inl err \<Rightarrow> []
           | Inr i \<Rightarrow> (if DeletionTimestamp i = None then normal else delete) @ [Once is_PatchInstance]))
        s (snd (run_state (reconcile req) s)))"

definition refines_workflows ::
  "(('spec, 'z) cr_scheme env \<Rightarrow> nsname \<Rightarrow> (('spec, 'z) cr_st, (result \<times> error option) go) state) \<Rightarrow>
   ('spec, 'z) cr_scheme call stage list \<Rightarrow> ('spec, 'z) cr_scheme call stage list \<Rightarrow> bool" where
  "refines_workflows reconcile normal delete \<longleftrightarrow> (\<forall>E. refines_workflow E (reconcile E) normal delete)"

lemma traced_gate:
  assumes "along ws normal" and "along vs delete"
  shows "traced (if DeletionTimestamp (inst s) = None then ws else vs) s
    (snd (run_state (finalizer_gate L new delete normal) s))"
proof -
  have "traced ws s (snd (run_state normal (s\<lparr>inst := j\<rparr>)))" for j
    using assms(1) unfolding along_def traced_def by (metis st.select_convs(2) st.surjective st.update_convs(1))
  then show ?thesis
    using assms(2) by (auto simp: run_finalizer_gate Let_def split_beta along_def traced_refl)
qed

context reconciler
begin

lemma refines:
  assumes body: "\<And>new s. traced (if DeletionTimestamp (inst s) = None then ws else vs) s
      (snd (run_state (body E new) s))"
  shows "refines_workflow E (reconcile E) ws vs"
  unfolding refines_workflow_def
proof (intro allI)
  fix req and s :: "('spec, 'z) cr_st"
  let ?t = "snd (run_state (reconcile E req) s)"
  show "traced (Once is_GetInstance #
      (case OnGetInstance E (trace s @ [GetInstance req]) of
         Inl err \<Rightarrow> []
       | Inr i \<Rightarrow> (if DeletionTimestamp i = None then ws else vs) @ [Once is_PatchInstance])) s ?t"
  proof (cases "OnGetInstance E (trace s @ [GetInstance req])")
    case (Inl err)
    then show ?thesis by (simp add: not_loaded traced_def)
  next
    case (Inr i)
    let ?ws = "if DeletionTimestamp i = None then ws else vs"
    show ?thesis
    proof (cases "NewHelper E")
      case None
      let ?s0 = "\<lparr>inst = prep i, trace = trace s @ [GetInstance req]\<rparr>"
      obtain b s1 where b: "run_state (body E (Conditions i = None)) ?s0 = (b, s1)" by fastforce
      have "DeletionTimestamp (prep i) = DeletionTimestamp i"
        using prep_identity [of i] by (simp add: identity_def)
      with body [of ?s0 "Conditions i = None"] have "traced ?ws ?s0 s1" by (simp add: b split: if_splits)
      moreover have "traced [Once is_GetInstance] s (?s0\<lparr>inst := inst s\<rparr>)" by (simp add: traced_def)
      ultimately have "traced ([Once is_GetInstance] @ ?ws) s s1"
        unfolding traced_def using follows_append by fastforce
      moreover have "traced [Once is_PatchInstance] s1 ?t"
        using loaded(1) [OF Inr None b] by (simp add: traced_def)
      ultimately have "traced (([Once is_GetInstance] @ ?ws) @ [Once is_PatchInstance]) s ?t" by (rule traced_append)
      then show ?thesis by (simp add: Inr)
    next
      case (Some e)
      then show ?thesis using Inr by (simp add: shape reconcile_shape_def traced_def)
    qed
  qed
qed

end

context service_reconciler
begin

lemma service_refines:
  assumes "\<And>E. along ws (normal E)" and "\<And>E. along vs (delete E)"
  shows "refines_workflows reconcile ws vs"
  unfolding refines_workflows_def
proof (rule allI, rule refines)
  fix E :: "('spec, 'z) cr_scheme env" and new and s :: "('spec, 'z) cr_st"
  show "traced (if DeletionTimestamp (inst s) = None then ws else vs) s (snd (run_state (body E new) s))"
    using traced_gate [OF assms, of "s\<lparr>inst := init (inst s)\<rparr>" L new]
    by (simp add: body_shape init_identityD traced_def)
qed

end

lemma watcher_body_traced:
  assumes normal: "along ws (watcher_normal L E)"
  shows "traced (if DeletionTimestamp (inst s) = None then Once is_ReconcileRbac # ws else watcher_delete_workflow) s
    (snd (run_state (watcher_body L E new) s))"
proof -
  let ?gate = "finalizer_gate L new (watcher_reconcileDelete L E) (watcher_normal L E)"
  let ?s0 = "s\<lparr>inst := watcher_initStatus L (inst s)\<rparr>"
  let ?ws = "if DeletionTimestamp (inst s) = None then ws else tl watcher_delete_workflow"
  obtain r s1 where r: "run_state (watcher_ensureRbac L E) ?s0 = (r, s1)" by fastforce
  have "DeletionTimestamp (inst s1) = DeletionTimestamp (inst s)"
    using kept_run [OF rbac_frames(1) r] watcher_init_fields(1) [of L "inst s"] by (simp add: identity_def)
  with traced_gate [OF normal watcher_delete_along [of L E], where s = s1 and L = L and new = new]
  have gate: "traced ?ws s1 (snd (run_state ?gate s1))" by simp
  have rbac: "traced [Once is_ReconcileRbac] s s1"
    using watcher_rbac_along [of L E] r unfolding along_def by (metis snd_conv st.select_convs(2) st.surjective st.update_convs(1) traced_def)
  have "traced ([Once is_ReconcileRbac] @ ?ws) s (snd (run_state (watcher_body L E new) s))"
    using traced_append [OF rbac gate] traced_first [OF rbac] r
    by (cases r) (simp_all add: watcher_body_def run_continue)
  then show ?thesis
    by (cases "DeletionTimestamp (inst s)") (simp_all add: watcher_delete_workflow_def)
qed

text \<open>
  C5. The calls of every run of the Watcher's reconcile are a word of its workflow: RBAC first, then the
  database and its account, the message bus, the four secrets, the Keystone service, the configuration,
  the database job, the purge job, the API, its routes, the decision engine, the applier, and the store;
  for a Watcher being deleted the releases instead. No stage is entered again, and only the routes take
  more than one call a stage.
\<close>

theorem watcher_follows_workflow:
  "refines_workflows (watcher_Reconcile L) watcher_workflow watcher_delete_workflow"
  using watcher.refines [OF watcher_body_traced [OF watcher_normal_along], folded watcher_workflow_cons]
  unfolding refines_workflows_def by blast

text \<open>C21. The calls of every run of a service's reconcile are a word of that service's workflow.\<close>

theorem services_follow_workflow:
  "refines_workflows (api_Reconcile L) api_workflow api_delete_workflow \<and>
   refines_workflows (applier_Reconcile L) applier_workflow memcached_release_workflow \<and>
   refines_workflows (de_Reconcile L) de_workflow memcached_release_workflow"
  by (intro conjI api.service_refines applier.service_refines de.service_refines api_along applier_along de_along)

text \<open>The number of calls, from the workflow.\<close>

definition calls_at_most ::
  "('i env \<Rightarrow> nsname \<Rightarrow> ('i st, 'a) state) \<Rightarrow> nat \<Rightarrow> bool" where
  "calls_at_most reconcile n \<longleftrightarrow>
     (\<forall>E req s. length (trace (snd (run_state (reconcile E req) s))) \<le> length (trace s) + n)"

lemma calls_of_workflow:
  assumes "refines_workflow E reconcile ws vs" and "list_all is_once (ws @ vs)"
    and "length ws + 2 \<le> n" and "length vs + 2 \<le> n"
  shows "length (trace (snd (run_state (reconcile req) s))) \<le> length (trace s) + n"
proof -
  from assms(1) obtain us tr where tr: "trace (snd (run_state (reconcile req) s)) = trace s @ tr" "follows us tr"
    and us: "us = Once is_GetInstance # (case OnGetInstance E (trace s @ [GetInstance req]) of
             Inl err \<Rightarrow> []
           | Inr i \<Rightarrow> (if DeletionTimestamp i = None then ws else vs) @ [Once is_PatchInstance])"
    unfolding refines_workflow_def traced_def by blast
  from us assms(2-4) have "list_all is_once us" and "length us \<le> n" by (auto split: sum.split)
  with tr follows_bound [OF tr(2)]
  show ?thesis by simp
qed

lemma all_calls_of_workflow:
  "refines_workflows reconcile ws vs \<Longrightarrow> list_all is_once (ws @ vs) \<Longrightarrow> length ws + 2 \<le> n \<Longrightarrow> length vs + 2 \<le> n \<Longrightarrow>
   calls_at_most reconcile n"
  unfolding calls_at_most_def refines_workflows_def by (blast intro: calls_of_workflow)

text \<open>
  C26. A reconcile of a WatcherAPI makes at most fifteen calls, one of a WatcherApplier nine and one of a
  WatcherDecisionEngine ten, whatever the cluster answers.
\<close>

theorem services_calls_bounded:
  "calls_at_most (api_Reconcile L) 15 \<and> calls_at_most (applier_Reconcile L) 9 \<and> calls_at_most (de_Reconcile L) 10"
  by (intro conjI all_calls_of_workflow [OF api.service_refines [OF api_along]]
      all_calls_of_workflow [OF applier.service_refines [OF applier_along]]
      all_calls_of_workflow [OF de.service_refines [OF de_along]])
    (simp_all add: api_workflow_def api_delete_workflow_def applier_workflow_def de_workflow_def
      memcached_release_workflow_def)

section \<open>The routes, stage by stage\<close>

text \<open>
  When the cluster lists at most \<open>n\<close> routes, exposing a service is a workflow without repetition, and so is
  exposing \<open>m\<close> services.
\<close>

definition route_workflow :: "nat \<Rightarrow> 'i call stage list" where
  "route_workflow n = [Once is_ValidateCertSecret, Once is_ValidateCertSecret, Once is_ListRoutes] @
     replicate n (Once is_DeleteRoute) @
     [Once is_GetRoute, Once is_ApplyRoute, Once is_GetSecret, Once is_GetDataFromSecret, Once is_ApplyRoute]"

definition expose_workflow :: "nat \<Rightarrow> nat \<Rightarrow> 'i call stage list" where
  "expose_workflow m n = Once is_GetServicesListWithLabel # concat (replicate m (route_workflow n))"

lemma delete_routes_along: "along (replicate (length rts) (Once is_DeleteRoute)) (delete_routes L E i svc ed rts)"
proof (induction rts arbitrary: ed)
  case (Cons rt rts)
  have skip: "along (Once is_DeleteRoute # replicate (length rts) (Once is_DeleteRoute)) (delete_routes L E i svc ed rts)"
    using Cons.IH [of ed] unfolding along_def traced_def by (meson follows_skip)
  show ?case
    unfolding delete_routes.simps list.size add_0_right add_Suc_right replicate_Suc
    by (rule along_rules Cons.IH skip | rule along_call, (simp; fail))+
qed (simp add: along_silent_ops)

lemma CreateRoute_along:
  "along [Once is_GetRoute, Once is_ApplyRoute, Once is_GetSecret, Once is_GetDataFromSecret, Once is_ApplyRoute]
     (CreateRoute L E ed)"
proof -
  have host: "along [Once is_GetRoute, Once is_ApplyRoute] (CreateRoute_host L E ed)" for ed
    unfolding CreateRoute_host_def by (rule along_rules | rule along_call, (simp; fail) | rule along_quiet)+
  have cert: "along [Once is_GetSecret] (CreateRoute_cert L E ed)" for ed
    unfolding CreateRoute_cert_def by (rule along_rules | rule along_call, (simp; fail) | rule along_quiet)+
  have config: "along [Once is_GetDataFromSecret] (CreateRoute_tls_config L E ed sec)" for ed sec
    unfolding CreateRoute_tls_config_def by (rule along_rules | rule along_call, (simp; fail) | rule along_quiet)+
  have tls: "along [Once is_GetSecret, Once is_GetDataFromSecret, Once is_ApplyRoute] (CreateRoute_tls L E ed)" for ed
    unfolding CreateRoute_tls_def
    by (rule along_then(1) cert config along_rules | rule along_call, (simp; fail) | rule along_quiet)+
  show ?thesis
    unfolding CreateRoute_def
    by (rule along_then(2) [OF host] along_first_flow tls along_rules along_quiet)+
qed

lemma expose_service_along:
  assumes "\<And>h rts. OnListRoutes E h = Inr rts \<Longrightarrow> length rts \<le> n"
  shows "along (route_workflow n) (expose_service L E i svc)"
proof -
  have cert: "along [Once is_ValidateCertSecret] (validate_cert L E i name)" for name
    unfolding validate_cert_def by (rule along_rules | rule along_call, (simp; fail) | rule along_quiet)+
  have ingress: "along [Once is_ValidateCertSecret] (ingress_tls L E i ed)" for ed
    unfolding ingress_tls_def by (rule along_rules along_first_flow(1) cert)+
  have pod: "along [Once is_ValidateCertSecret] (pod_tls L E i ed)" for ed
    unfolding pod_tls_def by (rule along_rules along_first_flow(1) cert)+
  have delete: "along (replicate n (Once is_DeleteRoute)) (delete_routes L E i svc ed rts)" if "length rts \<le> n" for ed rts
    using along_weaken [OF delete_routes_along, of rts "replicate (n - length rts) (Once is_DeleteRoute)"] that
    by (simp flip: replicate_add)
  have routes: "along (Once is_ListRoutes # replicate n (Once is_DeleteRoute) @
      [Once is_GetRoute, Once is_ApplyRoute, Once is_GetSecret, Once is_GetDataFromSecret, Once is_ApplyRoute])
    (ensureRoute L E i svc ed)" for ed
    unfolding along_def
  proof
    fix s
    show "traced (Once is_ListRoutes # replicate n (Once is_DeleteRoute) @
      [Once is_GetRoute, Once is_ApplyRoute, Once is_GetSecret, Once is_GetDataFromSecret, Once is_ApplyRoute]) s
      (snd (run_state (ensureRoute L E i svc ed) s))"
    proof (cases "OnListRoutes E (trace s @ [ListRoutes (Namespace i) (getAPIServiceLabels L)])")
      case (Inl e)
      then show ?thesis by (simp add: ensureRoute_def GetRoutesListWithLabel_def traced_def)
    next
      case (Inr rts)
      let ?s = "s\<lparr>trace := trace s @ [ListRoutes (Namespace i) (getAPIServiceLabels L)]\<rparr>"
      let ?m = "continue (delete_routes L E i svc ed rts) (\<lambda>ed. if RouteCreate (EDRoute ed)
          then CreateRoute L E ((with_embedded_labels ed)\<lparr>EDLabels := getAPIServiceLabels L\<rparr>) else return (Next ed))"
      have "along (replicate n (Once is_DeleteRoute) @
          [Once is_GetRoute, Once is_ApplyRoute, Once is_GetSecret, Once is_GetDataFromSecret, Once is_ApplyRoute]) ?m"
        by (rule along_continue [OF delete [OF assms [OF Inr]]]) (rule along_cases along_silent_ops CreateRoute_along)+
      moreover have "traced [Once is_ListRoutes] s ?s" by (simp add: traced_def)
      ultimately have "traced ([Once is_ListRoutes] @ replicate n (Once is_DeleteRoute) @
          [Once is_GetRoute, Once is_ApplyRoute, Once is_GetSecret, Once is_GetDataFromSecret, Once is_ApplyRoute]) s
          (snd (run_state ?m ?s))"
        unfolding along_def by (blast intro: traced_append)
      then show ?thesis by (simp add: Inr ensureRoute_def GetRoutesListWithLabel_def)
    qed
  qed
  show ?thesis
    unfolding expose_service_def route_workflow_def append.simps
    by (rule along_rules along_then(1) ingress pod along_first [OF routes])+
qed

lemma expose_along:
  assumes "\<And>h svcs. OnGetServices E h = Inr svcs \<Longrightarrow> length svcs \<le> m"
    and "\<And>h rts. OnListRoutes E h = Inr rts \<Longrightarrow> length rts \<le> n"
  shows "along (expose_workflow m n) (exposeEndpoints L E)"
proof -
  have loop: "along (concat (replicate (length svcs) (route_workflow n))) (expose_services L E i svcs)" for i svcs
  proof (induction svcs)
    case (Cons svc svcs)
    have "along (route_workflow n @ concat (replicate (length svcs) (route_workflow n)))
        (continue (expose_service L E i svc) (\<lambda>_. expose_services L E i svcs))"
      by (rule along_continue) (rule expose_service_along Cons.IH assms(2), assumption?)+
    then show ?case by simp
  qed (simp add: along_silent_ops)
  have loops: "along (concat (replicate m (route_workflow n))) (expose_services L E i svcs)" if "length svcs \<le> m" for i svcs
    using along_weaken [OF loop, of svcs "concat (replicate (m - length svcs) (route_workflow n))" i] that
    by (simp flip: concat_append replicate_add)
  show ?thesis
    unfolding along_def
  proof
    fix s :: "Watcher st"
    let ?c = "GetServicesListWithLabel (Namespace (inst s)) (getAPIServiceLabels L)"
    show "traced (expose_workflow m n) s (snd (run_state (exposeEndpoints L E) s))"
    proof (cases "OnGetServices E (trace s @ [?c])")
      case (Inl e)
      then show ?thesis by (simp add: exposeEndpoints_def traced_def expose_workflow_def)
    next
      case (Inr svcs)
      have "along (concat (replicate m (route_workflow n))) (expose_services L E (inst s) svcs)"
        by (rule loops [OF assms(1) [OF Inr]])
      moreover have "traced [Once is_GetServicesListWithLabel] s (s\<lparr>trace := trace s @ [?c]\<rparr>)" by (simp add: traced_def)
      ultimately have "traced ([Once is_GetServicesListWithLabel] @ concat (replicate m (route_workflow n))) s
          (snd (run_state (expose_services L E (inst s) svcs) (s\<lparr>trace := trace s @ [?c]\<rparr>)))"
        unfolding along_def by (blast intro: traced_append)
      then show ?thesis by (auto simp: Inr exposeEndpoints_def expose_workflow_def traced_def)
    qed
  qed
qed

text \<open>The normal branch of the Watcher with that workflow in the place of the routes.\<close>

definition watcher_run_workflow :: "nat \<Rightarrow> nat \<Rightarrow> 'i call stage list" where
  "watcher_run_workflow m n = [Once is_EnsureMariaDBAccount, Once is_ApplyDatabase,
     Once is_WaitForDBCreated, Once is_ApplyTransportURL, Once is_GetSecret, Once is_GetSecret, Once is_GetSecret,
     Once is_GetSecret, Once is_UpdateSecret, Once is_EnsureSecrets, Once is_ApplyKeystoneService,
     Once is_EnsureSecrets, Once is_DoJob, Once is_ApplyCronJob, Once is_ApplyWatcherAPI] @ expose_workflow m n @
     [Once is_ApplyWatcherDecisionEngine, Once is_ApplyWatcherApplier, Once is_DeleteUnusedMariaDBAccountFinalizers]"

lemma watcher_run_along:
  assumes "\<And>h svcs. OnGetServices E h = Inr svcs \<Longrightarrow> length svcs \<le> m"
    and "\<And>h rts. OnListRoutes E h = Inr rts \<Longrightarrow> length rts \<le> n"
  shows "along (watcher_run_workflow m n) (watcher_normal L E)"
proof -
  have expose: "along (expose_workflow m n) (watcher_expose L E)"
    unfolding watcher_expose_def by (rule along_first [OF expose_along [OF assms]]) (assumption | rule along_rules along_quiet)+
  show ?thesis
    unfolding watcher_normal_def watcher_services_def watcher_run_workflow_def append.simps
    by (rule watcher_prepare_along watcher_services_along along_then along_continue [OF expose] along_rules along_shared)+
qed

lemma once_stages:
  "list_all is_once (watcher_run_workflow m n)" "length (watcher_run_workflow m n) = 19 + m * (n + 8)"
  "list_all is_once watcher_delete_workflow" "length watcher_delete_workflow = 7"
  by (simp_all add: watcher_run_workflow_def expose_workflow_def route_workflow_def watcher_delete_workflow_def
      list_all_iff length_concat sum_list_replicate algebra_simps)

text \<open>
  C22. A reconcile of a Watcher always comes to its end: when the cluster lists at most \<open>m\<close> services and
  \<open>n\<close> routes, it makes at most \<open>22 + m * (n + 8)\<close> calls, whatever else the cluster answers.
\<close>

theorem watcher_reconcile_ends:
  assumes "\<And>h svcs. OnGetServices E h = Inr svcs \<Longrightarrow> length svcs \<le> m"
    and "\<And>h rts. OnListRoutes E h = Inr rts \<Longrightarrow> length rts \<le> n"
  shows "length (trace (snd (run_state (watcher_Reconcile L E req) s))) \<le> length (trace s) + (22 + m * (n + 8))"
proof (rule calls_of_workflow [OF watcher.refines [OF watcher_body_traced]])
  show "along (watcher_run_workflow m n) (watcher_normal L E)" by (rule watcher_run_along [OF assms])
qed (simp_all add: once_stages)

end
