(* ===== verification/Status.thy ===== *)
theory Status
  imports WatcherConvergence
begin

text \<open>
  The status a controller stores, whatever branch its reconcile took: which conditions it lists, which
  generation it says it has observed, and what the caller was told when it says Ready. The locale
  \<open>status_reconciler\<close> proves it once for a reconciler that initialises its conditions and then reports
  only conditions of its own list.
\<close>

section \<open>Runs that end Ready\<close>

text \<open>
  A block that makes the resource Ready does so last: it stops without an error and without a requeue,
  and leaves no other condition unmet.
\<close>

definition ends_well :: "(('spec, 'z) cr_st, unit flow) state \<Rightarrow> bool" where
  "ends_well m \<longleftrightarrow> (\<forall>s b u. run_state m s = (b, u) \<longrightarrow> cstate ReadyCondition (inst s) \<noteq> Some CTrue \<longrightarrow>
     cstate ReadyCondition (inst u) = Some CTrue \<longrightarrow>
     b = Ret Result0 None \<and> (\<forall>v. cstate v (inst u) \<in> {None, Some CTrue}))"

lemma ends_finish:
  assumes "cond_laws L"
  shows "ends_well (finish_reconcile L :: (('spec, 'z) cr_st, unit flow) state)"
  unfolding ends_well_def
proof (intro allI impI conjI)
  fix s :: "('spec, 'z) cr_st" and b u v
  assume f: "run_state (finish_reconcile L) s = (b, u)" "cstate ReadyCondition (inst s) \<noteq> Some CTrue"
    "cstate ReadyCondition (inst u) = Some CTrue"
  show "b = Ret Result0 None" using f(1) by (auto simp: finish_reconcile_def split: if_splits)
  show "cstate v (inst u) \<in> {None, Some CTrue}"
    using finish_Ready(2,3) [OF assms f, of v] f(3) by (cases "v = ReadyCondition") simp_all
qed

lemma ends_continue:
  assumes "state_io_rel (keeps (cstate ReadyCondition)) m" and "\<And>x. ends_well (f x)"
  shows "ends_well (continue m f)"
  unfolding ends_well_def
proof (intro allI impI)
  fix s b u
  assume c: "run_state (continue m f) s = (b, u)" "cstate ReadyCondition (inst s) \<noteq> Some CTrue"
    "cstate ReadyCondition (inst u) = Some CTrue"
  obtain x s' where "run_state (f x) s' = (b, u)" "cstate ReadyCondition (inst s') \<noteq> Some CTrue"
    by (rule continue_True [OF c(1) assms(1) c(2,3)])
  then show "b = Ret Result0 None \<and> (\<forall>v. cstate v (inst u) \<in> {None, Some CTrue})"
    using assms(2) [of x] c(3) unfolding ends_well_def by blast
qed

lemma ends_split: "(\<And>x y. p = (x, y) \<Longrightarrow> ends_well (f x y)) \<Longrightarrow> ends_well (case p of (x, y) \<Rightarrow> f x y)"
  by (cases p) simp

lemma ends_gate:
  assumes "state_io_rel (keeps (cstate ReadyCondition)) delete" and "ends_well normal"
  shows "ends_well (finalizer_gate L new delete normal)"
  unfolding ends_well_def
proof (intro allI impI)
  fix s b u
  assume g: "run_state (finalizer_gate L new delete normal) s = (b, u)"
    "cstate ReadyCondition (inst s) \<noteq> Some CTrue" "cstate ReadyCondition (inst u) = Some CTrue"
  show "b = Ret Result0 None \<and> (\<forall>v. cstate v (inst u) \<in> {None, Some CTrue})"
    by (rule gate_True [OF g(1) assms(1) g(2,3)]) (use assms(2) g(2,3) in \<open>force simp: ends_well_def\<close>)
qed

lemmas ends_rules = ends_continue ends_split ends_finish ends_gate

section \<open>The stored status\<close>

text \<open>
  \<open>always\<close> are the conditions every stored status lists, \<open>types\<close> those it may list; \<open>ok\<close> is what is
  known of the cluster. The statement says nothing of a resource that could not be loaded, which is not
  stored.
\<close>

definition stores_status ::
  "(('spec, 'z) cr_scheme env \<Rightarrow> bool) \<Rightarrow> ctype set \<Rightarrow> ctype set \<Rightarrow>
   (('spec, 'z) cr_scheme env \<Rightarrow> nsname \<Rightarrow> (('spec, 'z) cr_st, (result \<times> error option) go) state) \<Rightarrow> bool" where
  "stores_status ok always types reconcile \<longleftrightarrow>
     (\<forall>E req s i r t. ok E \<longrightarrow> OnGetInstance E (trace s @ [GetInstance req]) = Inr i \<longrightarrow> NewHelper E = None \<longrightarrow>
        cond_wf (Conditions i) \<longrightarrow> (\<forall>u. u \<notin> types \<longrightarrow> cstate u i = None) \<longrightarrow>
        run_state (reconcile E req) s = (r, t) \<longrightarrow>
        cond_wf (Conditions (inst t)) \<and> ObservedGeneration (inst t) = Generation i \<and>
        (\<forall>u \<in> always. cstate u (inst t) \<noteq> None) \<and> (\<forall>u. u \<notin> types \<longrightarrow> cstate u (inst t) = None) \<and>
        (cstate ReadyCondition (inst t) = Some CTrue \<longrightarrow>
           r = Val (Result0, OnPatchInstance E (trace t)) \<and>
           (\<forall>u. cstate u (inst t) \<in> {None, Some CTrue})))"

locale status_reconciler = tidy_reconciler L prep body reconcile init rest
  for L :: lib and prep :: "('spec, 'z) cr_scheme \<Rightarrow> ('spec, 'z) cr_scheme"
    and body reconcile init rest +
  fixes ok :: "('spec, 'z) cr_scheme env \<Rightarrow> bool" and always types :: "ctype set"
  assumes Ready_always: "ReadyCondition \<in> always" and always_types: "always \<subseteq> types"
    and init_lists: "cond_laws L \<Longrightarrow> u \<in> always \<Longrightarrow> cstate u (init i) = Some CUnknown"
    and init_other: "cond_laws L \<Longrightarrow> init_law L \<Longrightarrow> u \<notin> types \<Longrightarrow> cstate u i = None \<Longrightarrow> cstate u (init i) = None"
    and prep_other: "cstate u i = None \<Longrightarrow> cstate u (prep i) = None"
    and observes: "ObservedGeneration (init i) = Generation i" "state_io_rel (keeps ObservedGeneration) (rest E new)"
    and rest_other: "cond_laws L \<Longrightarrow> ok E \<Longrightarrow> u \<notin> types \<Longrightarrow> state_io_rel (keeps (cstate u)) (rest E new)"
    and rest_ends: "cond_laws L \<Longrightarrow> ok E \<Longrightarrow> ends_well (rest E new)"
begin

lemma does_store_status:
  assumes L: "cond_laws L" "init_law L"
  shows "stores_status ok always types reconcile"
  unfolding stores_status_def
proof (intro allI impI)
  fix E :: "('spec, 'z) cr_scheme env" and s :: "('spec, 'z) cr_st" and req i r t
  assume ok: "ok E" and load: "OnGetInstance E (trace s @ [GetInstance req]) = Inr i" "NewHelper E = None"
    and wf: "cond_wf (Conditions i)" and only: "\<forall>u. u \<notin> types \<longrightarrow> cstate u i = None"
    and run: "run_state (reconcile E req) s = (r, t)"
  let ?s0 = "\<lparr>inst = prep i, trace = trace s @ [GetInstance req]\<rparr>"
  obtain b k where b: "run_state (body E (Conditions i = None)) ?s0 = (b, k)" by fastforce
  from b have rest: "run_state (rest E (Conditions i = None)) (?s0\<lparr>inst := init (prep i)\<rparr>) = (b, k)"
    by (simp add: initialises)
  note l = loaded [OF load b]
  have t: "inst t = exit_inst L (Conditions (prep i)) (inst k)" using l(1) run by simp
  have wf_k: "cond_wf (Conditions (inst k))" by (rule body_wf [OF L(1) b]) (simp add: prep_wf wf)
  have lists: "cstate u (inst k) \<noteq> None" if "u \<in> always" for u
    by (rule conds_listed [OF L(1) rest_conds rest]) (simp add: init_lists [OF L(1) that])
  have other: "cstate u (inst k) = None" if "u \<notin> types" for u
    using kept_run [OF rest_other [OF L(1) ok that] rest] init_other [OF L that prep_other] only that by simp
  have Ready_k: "cstate ReadyCondition (inst k) \<noteq> None" by (rule lists [OF Ready_always])
  have no_Ready: "u \<noteq> ReadyCondition" if "u \<notin> types" for u using that Ready_always always_types by blast
  show "cond_wf (Conditions (inst t)) \<and> ObservedGeneration (inst t) = Generation i \<and>
      (\<forall>u \<in> always. cstate u (inst t) \<noteq> None) \<and> (\<forall>u. u \<notin> types \<longrightarrow> cstate u (inst t) = None) \<and>
      (cstate ReadyCondition (inst t) = Some CTrue \<longrightarrow> r = Val (Result0, OnPatchInstance E (trace t)) \<and>
         (\<forall>u. cstate u (inst t) \<in> {None, Some CTrue}))"
  proof (intro conjI ballI allI impI)
    show "cond_wf (Conditions (inst t))" unfolding t by (rule exit_wf [OF L(1) wf_k])
    show "ObservedGeneration (inst t) = Generation i"
      using kept_run [OF observes(2) rest] observes(1) [of "prep i"] prep_identity [of i] by (simp add: t identity_def)
    show "cstate u (inst t) \<noteq> None" if "u \<in> always" for u
    proof (cases "u = ReadyCondition")
      case False
      with lists [OF that] show ?thesis by (simp add: t cstate_exit(1) [OF L(1)] del: not_None_eq)
    qed (use exit_Ready_listed [OF L(1) Ready_k] in \<open>simp add: t del: not_None_eq\<close>)
    show "cstate u (inst t) = None" if "u \<notin> types" for u
      by (simp add: t cstate_exit(1) [OF L(1) no_Ready [OF that]] other [OF that])
    assume ready: "cstate ReadyCondition (inst t) = Some CTrue"
    have ready_k: "cstate ReadyCondition (inst k) = Some CTrue"
      by (rule cstate_exit(2) [OF L(1) Ready_k]) (use ready in \<open>simp add: t\<close>)
    have "cstate ReadyCondition (init (prep i)) \<noteq> Some CTrue" by (simp add: init_lists [OF L(1) Ready_always])
    with rest_ends [OF L(1) ok] rest ready_k
    have e: "b = Ret Result0 None" "\<And>u. cstate u (inst k) \<in> {None, Some CTrue}"
      unfolding ends_well_def by (metis st.select_convs(1) st.update_convs(1))+
    show "r = Val (Result0, OnPatchInstance E (trace t))" using l run e(1) by (auto split: option.splits)
    show "cstate u (inst t) \<in> {None, Some CTrue}" for u
    proof (cases "u = ReadyCondition")
      case False
      with e(2) [of u] show ?thesis by (simp add: t cstate_exit(1) [OF L(1)])
    qed (use ready in simp)
  qed
qed

end

section \<open>The four controllers\<close>

text \<open>The conditions of the services and of the Watcher, by name.\<close>

definition worker_types :: "ctype set" where
  "worker_types = {ReadyCondition, InputReadyCondition, ServiceConfigReadyCondition, MemcachedReadyCondition,
     DeploymentReadyCondition}"

definition api_types :: "ctype set" where
  "api_types = worker_types \<union>
     {TLSInputReadyCondition, CreateServiceReadyCondition, KeystoneEndpointReadyCondition}"

lemma init_types:
  assumes "cond_laws L"
  shows "Type ` set (applier_init_conditions L) = worker_types" "Type ` set (de_init_conditions L) = worker_types"
    "Type ` set (api_init_conditions L) = api_types"
    "Type ` set (watcher_init_conditions L) = watcher_types - {MariaDBAccountReadyCondition}"
  by (auto simp: applier_init_conditions_def de_init_conditions_def api_init_conditions_def worker_types_def
      api_types_def watcher_init_conditions_def watcher_types_def watcher_reports_def rbac_types_def
      cond_lawsD [OF assms])

lemma Ready_in_types [simp]:
  "ReadyCondition \<in> worker_types" "ReadyCondition \<in> api_types" "ReadyCondition \<in> watcher_types"
  by (simp_all add: worker_types_def api_types_def watcher_types_def)

lemma not_Ready: "u \<notin> worker_types \<Longrightarrow> u \<noteq> ReadyCondition" "u \<notin> api_types \<Longrightarrow> u \<noteq> ReadyCondition"
    "u \<notin> watcher_types \<Longrightarrow> u \<noteq> ReadyCondition"
  by auto

lemma init_drops:
  assumes "init_law L" and "t \<notin> Type ` set l" and "t \<noteq> ReadyCondition" and "status_of t cs = None"
  shows "status_of t (CInit L l cs) = None"
  using init_lawD [OF assms(1-3), of cs] assms(4) by simp

lemma absent_after_init:
  assumes "cond_laws L" "init_law L"
  shows "u \<notin> worker_types \<Longrightarrow> cstate u p = None \<Longrightarrow> cstate u (applier_initStatus L p) = None"
    "u \<notin> worker_types \<Longrightarrow> cstate u d = None \<Longrightarrow> cstate u (de_initStatus L d) = None"
    "u \<notin> api_types \<Longrightarrow> cstate u a = None \<Longrightarrow> cstate u (api_initStatus L a) = None"
  using not_Ready [of u] init_types [OF assms(1)]
  by (simp_all add: applier_initStatus_def de_initStatus_def api_initStatus_def cstate_def init_drops [OF assms(2)])

lemma observed_after_init:
  "ObservedGeneration (applier_initStatus L p) = Generation p" "ObservedGeneration (de_initStatus L d) = Generation d"
  "ObservedGeneration (api_initStatus L a) = Generation a" "ObservedGeneration (watcher_initStatus L w) = Generation w"
  by (auto simp: applier_initStatus_def de_initStatus_def api_initStatus_def watcher_initStatus_def
      watcher_initConditions_def Let_def split: option.split)

lemma absent_after_watcher_init:
  assumes "cond_laws L" "init_law L" and "u \<notin> watcher_types" and "cstate u i = None"
  shows "cstate u (watcher_initStatus L i) = None"
proof -
  have u: "u \<notin> Type ` set (watcher_init_conditions L)" "u \<noteq> ReadyCondition"
    using assms(3) not_Ready(3) init_types(4) [OF assms(1)] by auto
  have "status_of u (Some []) = None" by (simp add: status_of_def cond_list_def)
  with assms(4) show ?thesis
    by (cases "Conditions i")
      (simp_all add: watcher_initStatus_def watcher_initConditions_def Let_def cstate_def init_drops [OF assms(2) u])
qed

lemma branch_other_frames:
  assumes "cond_laws L"
  shows "u \<notin> worker_types \<Longrightarrow> state_io_rel (keeps (cstate u)) (finalizer_gate L new (applier_reconcileDelete L E) (applier_normal L E))"
    "u \<notin> worker_types \<Longrightarrow> state_io_rel (keeps (cstate u)) (finalizer_gate L new (de_reconcileDelete L F) (de_normal L F))"
    "u \<notin> api_types \<Longrightarrow> state_io_rel (keeps (cstate u)) (finalizer_gate L new (api_reconcileDelete L G) (api_normal L G))"
  by (intro gate_keeps applier_cstate_frames de_cstate_frames api_cstate_frames
      normal_other_frames [OF assms, unfolded init_types [OF assms]] assms; simp add: not_Ready)+

lemma branch_observed_frames:
  "state_io_rel (keeps ObservedGeneration) (finalizer_gate L new (applier_reconcileDelete L E) (applier_normal L E))"
  "state_io_rel (keeps ObservedGeneration) (finalizer_gate L new (de_reconcileDelete L F) (de_normal L F))"
  "state_io_rel (keeps ObservedGeneration) (finalizer_gate L new (api_reconcileDelete L G) (api_normal L G))"
proof -
  have "state_io_rel (keeps ObservedGeneration) (applier_reconcileDelete L E)"
    and "state_io_rel (keeps ObservedGeneration) (de_reconcileDelete L F)"
    and "state_io_rel (keeps ObservedGeneration) (api_reconcileDelete L G)"
    unfolding applier_reconcileDelete_def de_reconcileDelete_def api_reconcileDelete_def release_memcached_def
      api_ensureKeystoneEndpointDeletion_def
    by (intro keep_rules drop_own_finalizer_rules; simp)+
  then show "state_io_rel (keeps ObservedGeneration) (finalizer_gate L new (applier_reconcileDelete L E) (applier_normal L E))"
    "state_io_rel (keeps ObservedGeneration) (finalizer_gate L new (de_reconcileDelete L F) (de_normal L F))"
    "state_io_rel (keeps ObservedGeneration) (finalizer_gate L new (api_reconcileDelete L G) (api_normal L G))"
    by (auto intro!: gate_keeps observed_frames)
qed

text \<open>Only the last step of a normal branch makes the resource Ready.\<close>

lemma normal_ends:
  assumes "cond_laws L"
  shows "ends_well (applier_normal L E)" "ends_well (de_normal L F)" "ends_well (api_normal L G)"
    "ends_well (watcher_normal L H)"
  unfolding applier_normal_def de_normal_def api_normal_def watcher_normal_def watcher_services_def
  by (intro ends_rules applier_cstate_frames de_cstate_frames api_cstate_frames api_expose_cstate blocks_cstate
      cs_frame.frame_blocks cs_frame.frame_secrets cs_frame.frame_expose conjI assms; simp)+

lemma branch_ends:
  assumes "cond_laws L"
  shows "ends_well (finalizer_gate L new (applier_reconcileDelete L E) (applier_normal L E))"
    "ends_well (finalizer_gate L new (de_reconcileDelete L F) (de_normal L F))"
    "ends_well (finalizer_gate L new (api_reconcileDelete L G) (api_normal L G))"
    "ends_well (finalizer_gate L new (watcher_reconcileDelete L H) (watcher_normal L H))"
  by (intro ends_gate normal_ends applier_cstate_frames de_cstate_frames api_cstate_frames cs_frame.frame_delete
      conjI assms)+

interpretation applier_status: status_reconciler L "\<lambda>i. i" "applier_body L" "applier_Reconcile L" "applier_initStatus L"
    "\<lambda>E new. finalizer_gate L new (applier_reconcileDelete L E) (applier_normal L E)" "\<lambda>_. True"
    worker_types worker_types for L
  by unfold_locales
    (simp_all add: applier_init_unknown init_types absent_after_init branch_observed_frames branch_other_frames
      branch_ends observed_after_init)

lemma absent_after_prep: "cstate u d = None \<Longrightarrow> cstate u (de_prep d) = None"
  by (simp add: de_prep_def cstate_def status_of_def cond_list_def split: option.split)

interpretation de_status: status_reconciler L de_prep "de_body L" "de_Reconcile L" "de_initStatus L"
    "\<lambda>E new. finalizer_gate L new (de_reconcileDelete L E) (de_normal L E)" "\<lambda>_. True"
    worker_types worker_types for L
  by unfold_locales
    (simp_all add: de_init_unknown init_types absent_after_init branch_observed_frames branch_other_frames
      branch_ends observed_after_init absent_after_prep)

interpretation api_status: status_reconciler L "\<lambda>i. i" "api_body L" "api_Reconcile L" "api_initStatus L"
    "\<lambda>E new. finalizer_gate L new (api_reconcileDelete L E) (api_normal L E)" "\<lambda>_. True"
    api_types api_types for L
  by unfold_locales
    (simp_all add: api_init_unknown init_types absent_after_init branch_observed_frames branch_other_frames
      branch_ends observed_after_init)

lemma rbac_other: "cond_laws L \<Longrightarrow> rbac_law E \<Longrightarrow> u \<notin> watcher_types \<Longrightarrow> state_io_rel (keeps (cstate u)) (watcher_ensureRbac L E)"
  by (rule rbac_cstate) (auto simp: watcher_types_def)

lemma watcher_rest_frames:
  assumes "cond_laws L" "rbac_law E"
  shows "u \<notin> watcher_types \<Longrightarrow> state_io_rel (keeps (cstate u)) (continue (watcher_ensureRbac L E) (\<lambda>_.
      finalizer_gate L new (watcher_reconcileDelete L E) (watcher_normal L E)))"
    and "ends_well (continue (watcher_ensureRbac L E) (\<lambda>_.
      finalizer_gate L new (watcher_reconcileDelete L E) (watcher_normal L E)))"
proof -
  have types: "t \<noteq> u" if "u \<notin> watcher_types" "t \<in> watcher_types" for t using that by blast
  show "state_io_rel (keeps (cstate u)) (continue (watcher_ensureRbac L E) (\<lambda>_.
      finalizer_gate L new (watcher_reconcileDelete L E) (watcher_normal L E)))" if u: "u \<notin> watcher_types"
    by (intro kp.rel_continue rbac_other gate_keeps watcher_other_frame cs_frame.frame_delete conjI assms u)
      (use u in simp_all)
  show "ends_well (continue (watcher_ensureRbac L E) (\<lambda>_.
      finalizer_gate L new (watcher_reconcileDelete L E) (watcher_normal L E)))"
    by (intro ends_continue branch_ends rbac_cstate assms) (simp add: rbac_types_def)
qed

lemma watcher_rest_observed: "state_io_rel (keeps ObservedGeneration) (continue (watcher_ensureRbac L E) (\<lambda>_.
    finalizer_gate L new (watcher_reconcileDelete L E) (watcher_normal L E)))"
  unfolding watcher_ensureRbac_def
  by (intro keep_rules gate_keeps obs_frame.frame_normal obs_frame.frame_delete rbac_fold_observed; simp)

interpretation watcher_status: status_reconciler L "\<lambda>i. i" "watcher_body L" "watcher_Reconcile L" "watcher_initStatus L"
    "\<lambda>E new. continue (watcher_ensureRbac L E) (\<lambda>_.
       finalizer_gate L new (watcher_reconcileDelete L E) (watcher_normal L E))" rbac_law
    "watcher_types - {MariaDBAccountReadyCondition}" watcher_types for L
  by unfold_locales
    (auto simp: watcher_init_unknown init_types absent_after_watcher_init watcher_rest_observed watcher_rest_frames
      observed_after_init)

text \<open>
  C25. Whatever branch a reconcile took, deletion and panic included, the resource it stores has one
  condition of each type, lists every condition its controller announces (for the Watcher all but that of
  the database account, which is not initialised) and no other, and observed its own generation. When it
  is stored Ready the caller was told of success without a requeue, the store's own error apart, and no
  other condition is unmet.
\<close>

theorem reconcile_stores_status:
  assumes "cond_laws L" and "init_law L"
  shows "stores_status rbac_law
      {ReadyCondition, ServiceAccountReadyCondition, RoleReadyCondition, RoleBindingReadyCondition, DBReadyCondition,
       WatcherRabbitMQTransportURLReadyCondition, InputReadyCondition, KeystoneServiceReadyCondition,
       ServiceConfigReadyCondition, DBSyncReadyCondition, CronJobReadyCondition, WatcherAPIReadyCondition,
       ExposeServiceReadyCondition, WatcherDecisionEngineReadyCondition, WatcherApplierReadyCondition}
      watcher_types (watcher_Reconcile L) \<and>
    stores_status (\<lambda>_. True) api_types api_types (api_Reconcile L) \<and>
    stores_status (\<lambda>_. True) worker_types worker_types (applier_Reconcile L) \<and>
    stores_status (\<lambda>_. True) worker_types worker_types (de_Reconcile L)"
proof -
  have types: "{ReadyCondition, ServiceAccountReadyCondition, RoleReadyCondition, RoleBindingReadyCondition, DBReadyCondition,
       WatcherRabbitMQTransportURLReadyCondition, InputReadyCondition, KeystoneServiceReadyCondition,
       ServiceConfigReadyCondition, DBSyncReadyCondition, CronJobReadyCondition, WatcherAPIReadyCondition,
       ExposeServiceReadyCondition, WatcherDecisionEngineReadyCondition, WatcherApplierReadyCondition} =
      watcher_types - {MariaDBAccountReadyCondition}"
    by (auto simp: watcher_types_def watcher_reports_def rbac_types_def)
  show ?thesis
    unfolding types
    by (intro conjI watcher_status.does_store_status api_status.does_store_status applier_status.does_store_status
        de_status.does_store_status assms)
qed

end
