(* ===== verification/Witnesses.thy ===== *)
theory Witnesses
  imports SampleOperator Operator Panics Workflow Status
begin

text \<open>
  For every property with hypotheses, a concrete input at which they hold: the sample cluster, its
  resources and the sample parameters.
\<close>

section \<open>Pods\<close>

definition sample_ca :: prometheus_ca where
  "sample_ca = [(''casecret_key'', ''ca.crt''), (''casecret_name'', ''prom-ca'')]"

lemma sample_ca_ok: "prometheus_ok sample_ca"
  by (simp add: prometheus_ok_def sample_ca_def map_get_def plain_segment_def)

lemma sample_api_built:
  "api_StatefulSet sample_lib sample_api h ca labels = Inr (sample_api_set sample_api h ca labels)"
  by (rule sample_api_StatefulSet [where n = "''watcher''"]) (simp add: sample_api_def)

theorem api_statefulset_wired_witness:
  "pod_wired (SSPod (sample_api_set sample_api ''h'' sample_ca Map.empty))"
  using api_statefulset_wired [OF sample_tls_law_ca sample_tls_law_service sample_ca_ok sample_api_built
      [of "''h''" sample_ca Map.empty]] by simp

theorem service_statefulsets_wired_witness:
  "pod_wired (SSPod (applier_StatefulSet sample_lib sample_applier ''h'' Map.empty)) \<and>
   pod_wired (SSPod (de_StatefulSet sample_lib sample_de ''h'' sample_ca Map.empty))"
  using service_statefulsets_wired [OF sample_tls_law_ca sample_ca_ok, of sample_applier "''h''" Map.empty
      sample_de] by simp

theorem db_jobs_wired_witness:
  "pod_wired (JobPod (DbSyncJob sample_lib sample_watcher Map.empty Map.empty)) \<and>
   pod_wired (CronPod (sample_cronjob sample_watcher Map.empty Map.empty))"
proof -
  have "DBPurgeCronJob sample_lib sample_watcher Map.empty Map.empty =
      Val (sample_cronjob sample_watcher Map.empty Map.empty)" by simp
  with db_jobs_wired [OF sample_tls_law_ca sample_env_laws, of sample_watcher Map.empty Map.empty]
  show ?thesis by blast
qed

theorem config_hash_rolls_pods_witness:
  "SSPod (sample_api_set sample_api ''old'' sample_ca Map.empty) \<noteq>
     SSPod (sample_api_set sample_api ''new'' sample_ca Map.empty) \<and>
   SSPod (applier_StatefulSet sample_lib sample_applier ''old'' Map.empty) \<noteq>
     SSPod (applier_StatefulSet sample_lib sample_applier ''new'' Map.empty)"
proof -
  have "''old'' \<noteq> ''new''" by simp
  from config_hash_rolls_pods [OF sample_env_laws this] sample_api_built
  show ?thesis by blast
qed

section \<open>Runs of the controllers\<close>

lemma run_after: "run_state m (start i) = (fst (run_state m (start i)), after m i)"
  by (simp add: after_def)

lemma sample_loaded: "OnGetInstance (sample_env i) (trace (start i) @ [GetInstance request]) = Inr i"
  by simp

lemma sample_helper: "NewHelper (sample_env i) = None"
  by simp

lemma sample_timeout: "RequeueTimeout (sample_env i) \<noteq> 0"
  by simp

lemmas sample_run = sample_loaded sample_helper run_after

lemmas sample_Ready = sample_applier_Ready [folded after_def] sample_de_Ready [folded after_def]
  sample_api_Ready [folded after_def] sample_watcher_Ready [folded after_def]

abbreviation "applier_run i \<equiv> after (applier_Reconcile sample_lib (sample_env i) request) i"
abbreviation "de_run i \<equiv> after (de_Reconcile sample_lib (sample_env i) request) i"
abbreviation "api_run i \<equiv> after (api_Reconcile sample_lib (sample_env i) request) i"

theorem applier_ready_sound_witness:
  "\<exists>h. hash_map (Hash sample_applier) (InputHashName sample_lib) = Some h \<and>
     deployed (sample_env sample_applier) (start sample_applier) (applier_run sample_applier)
       (applier_StatefulSet sample_lib sample_applier h (getApplierServiceLabels sample_lib))
       (Replicas (Spec sample_applier))"
  using applier_ready_sound [OF sample_cond_laws sample_finalizer_laws sample_hash_laws sample_notfound_law
      sample_timeout sample_run sample_Ready(1)] by blast

theorem de_ready_sound_witness:
  "\<exists>h psec. hash_map (Hash sample_de) (InputHashName sample_lib) = Some h \<and>
     deployed (sample_env sample_de) (start sample_de) (de_run sample_de)
       (de_StatefulSet sample_lib sample_de h (prometheus_ca_of psec) (getDecisionEngineServiceLabels sample_lib))
       (Replicas (Spec sample_de))"
  using de_ready_sound [OF sample_cond_laws sample_finalizer_laws sample_hash_laws sample_notfound_law
      sample_timeout sample_run sample_Ready(2)] by blast

theorem api_ready_sound_witness:
  "api_done sample_lib (sample_env sample_api) (start sample_api) (api_run sample_api) sample_api"
  using api_ready_sound [OF sample_cond_laws sample_finalizer_laws sample_hash_laws
      sample_timeout sample_run sample_Ready(3)] by (simp add: api_done_def)

section \<open>Deleted resources\<close>

lemma gone_fields [simp]:
  "DeletionTimestamp (gone i) = Some ''now''" "Conditions (gone i) = Conditions i" "Kind (gone i) = Kind i"
  "Finalizers (gone i) = Finalizers i" "Spec (gone i) = Spec i" "Hash (gone i) = Hash i"
  by (simp_all add: gone_def)

lemma gone_timestamp: "DeletionTimestamp (gone i) \<noteq> None"
  by simp

lemma sample_applier_gone: "Finalizers (inst (applier_run (gone sample_applier))) \<noteq> Finalizers (gone sample_applier)"
  by (simp add: after_def applier_Reconcile_def applier_body_def applier_defs run_simps sample_applier_def
      applier_initStatus_def applier_init_conditions_def applier_reconcileDelete_def drop_own_finalizer_def)

lemma sample_de_gone: "Finalizers (inst (de_run (gone sample_de))) \<noteq> Finalizers (gone sample_de)"
  by (simp add: after_def de_Reconcile_def de_body_def de_defs de_prep_def run_simps sample_de_def
      de_initStatus_def de_init_conditions_def de_reconcileDelete_def drop_own_finalizer_def)

lemma sample_api_gone: "Finalizers (inst (api_run (gone sample_api))) \<noteq> Finalizers (gone sample_api)"
  by (simp add: after_def api_Reconcile_def api_body_def api_defs run_simps sample_api_def
      api_initStatus_def api_init_conditions_def drop_own_finalizer_def)

theorem api_delete_releases_witness:
  "endpoint_released sample_lib (sample_env (gone sample_api)) (start (gone sample_api))
     (api_run (gone sample_api)) (Namespace (gone sample_api)) (GetFinalizer sample_lib (Kind (gone sample_api)))"
  by (rule conjunct2 [OF api_delete_releases [OF sample_finalizer_laws sample_run gone_timestamp sample_api_gone]])

section \<open>Exposure\<close>

lemma sample_expose_run:
  "run_state (exposeEndpoints sample_lib (sample_env sample_watcher)) (start sample_watcher) =
   (Next (), after (exposeEndpoints sample_lib (sample_env sample_watcher)) sample_watcher)"
  by (simp add: after_def exposeEndpoints_def run_simps del: expose_services.simps)

lemma sample_service_wanted: "wants_route sample_lib sample_service"
  by (simp add: wants_route_def is_public_def sample_service_def map_get_def sample_lib_def)

lemma sample_services_seen: "sample_service \<in> set (services_seen sample_lib (sample_env sample_watcher) (start sample_watcher))"
  by (simp add: services_seen_def)

theorem exposeEndpoints_publishes_witness:
  "route_published sample_lib (sample_env sample_watcher) (start sample_watcher)
     (after (exposeEndpoints sample_lib (sample_env sample_watcher)) sample_watcher)
     (inst (start sample_watcher)) sample_service"
  using exposeEndpoints_publishes [OF sample_expose_run] sample_services_seen sample_service_wanted by blast

text \<open>A public service that declines a route while one of the Watcher's leads to it.\<close>

definition declining_service :: service_obj where
  "declining_service = sample_service\<lparr>SvcAnnotations :=
     (SvcAnnotations sample_service)(AnnotationIngressCreateKey sample_lib \<mapsto> ''false'')\<rparr>"

definition our_route :: route where
  "our_route = \<lparr>RouteName = ''watcher-public'', RouteTo = ''watcher-public'', RouteOwners = [instance_ref sample_watcher],
     RouteHost = []\<rparr>"

definition declining_env :: "Watcher env" where
  "declining_env = (sample_env sample_watcher)\<lparr>OnGetServices := (\<lambda>_. Inr [declining_service]),
     OnListRoutes := (\<lambda>_. Inr [our_route])\<rparr>"

lemma declining_service_declines: "declines_route sample_lib declining_service"
  by (simp add: declines_route_def is_public_def declining_service_def sample_service_def map_get_def sample_lib_def)

lemma declining_seen: "services_seen sample_lib declining_env s = [declining_service]"
  by (simp add: services_seen_def declining_env_def)

lemma declining_env_fields [simp]:
  "OnGetServices declining_env h = Inr [declining_service]" "OnListRoutes declining_env h = Inr [our_route]"
  "OnDeleteRoute declining_env h = None"
  by (simp_all add: declining_env_def)

lemma declining_expose:
  "run_state (expose_services sample_lib declining_env sample_watcher [declining_service]) s =
     (Next (), s\<lparr>trace := trace s @ [ListRoutes ''openstack'' (getAPIServiceLabels sample_lib),
        DeleteRoute (our_route\<lparr>RouteOwners := [instance_ref sample_watcher]\<rparr>)]\<rparr>)"
  by (simp add: expose_service_def endpoint_of_service_def public_endpoint_def declining_service_def sample_service_def
      map_get_def ingress_tls_def pod_tls_def hasPublicServiceSecretName_def ensureRoute_def GetRoutesListWithLabel_def
      route_to_delete_def our_route_def instance_ref_def sample_watcher_def run_continue stop_on_result_def Let_def
      sample_lib_def)

lemma declining_run:
  "run_state (exposeEndpoints sample_lib declining_env) (start sample_watcher) =
     (Next (), start sample_watcher\<lparr>trace :=
        [GetServicesListWithLabel ''openstack'' (getAPIServiceLabels sample_lib),
         ListRoutes ''openstack'' (getAPIServiceLabels sample_lib),
         DeleteRoute (our_route\<lparr>RouteOwners := [instance_ref sample_watcher]\<rparr>)]\<rparr>)"
  by (simp add: exposeEndpoints_def start_def declining_expose hasPublicServiceSecretName_def del: expose_services.simps)

theorem exposeEndpoints_route_calls_witness:
  "\<exists>svc \<in> set (services_seen sample_lib declining_env (start sample_watcher)). declines_route sample_lib svc"
proof -
  have t: "trace (snd (run_state (exposeEndpoints sample_lib declining_env) (start sample_watcher))) =
      trace (start sample_watcher) @
        [GetServicesListWithLabel ''openstack'' (getAPIServiceLabels sample_lib),
         ListRoutes ''openstack'' (getAPIServiceLabels sample_lib)] @
        DeleteRoute (our_route\<lparr>RouteOwners := [instance_ref sample_watcher]\<rparr>) # []"
    by (simp add: declining_run)
  from exposeEndpoints_route_calls [OF t] show ?thesis by auto
qed

theorem exposeEndpoints_withdraws_witness:
  "\<exists>rts. answered_since (start sample_watcher) (after (exposeEndpoints sample_lib declining_env) sample_watcher)
     (ListRoutes ''openstack'' (getAPIServiceLabels sample_lib)) (OnListRoutes declining_env) (Inr rts) \<and>
     (\<forall>rt \<in> set rts. RouteTo rt = ''watcher-public'' \<and> controls sample_lib sample_watcher rt \<longrightarrow>
        route_withdrawn sample_lib declining_env (start sample_watcher)
          (after (exposeEndpoints sample_lib declining_env) sample_watcher) sample_watcher rt)"
proof -
  have "run_state (exposeEndpoints sample_lib declining_env) (start sample_watcher) =
      (Next (), after (exposeEndpoints sample_lib declining_env) sample_watcher)"
    by (simp add: declining_run after_def)
  from exposeEndpoints_withdraws [OF this] declining_service_declines show ?thesis
    by (simp add: declining_seen start_def sample_watcher_def declining_service_def sample_service_def)
qed

definition pod_tls_watcher :: Watcher where
  "pod_tls_watcher = sample_watcher\<lparr>Spec := sample_watcher_spec\<lparr>APIServiceTemplate :=
     (APIServiceTemplate sample_watcher_spec)\<lparr>TTLS :=
       (TTLS (APIServiceTemplate sample_watcher_spec))\<lparr>PublicSecretName := Some ''cert''\<rparr>\<rparr>\<rparr>\<rparr>"

lemma pod_tls_watcher_refused:
  "hasPublicServiceSecretName (inst (start pod_tls_watcher))" "\<not> hasIngressTLS (inst (start pod_tls_watcher))"
  "OnGetServices (sample_env pod_tls_watcher) h = Inr [sample_service]"
  by (simp_all add: hasPublicServiceSecretName_def hasIngressTLS_def pod_tls_watcher_def start_def)

theorem exposeEndpoints_refuses_pod_tls_alone_witness:
  "cstate ExposeServiceReadyCondition
     (inst (after (exposeEndpoints sample_lib (sample_env pod_tls_watcher)) pod_tls_watcher)) = Some CFalse"
  using exposeEndpoints_refuses_pod_tls_alone [OF sample_cond_laws pod_tls_watcher_refused run_after] by blast


section \<open>The Watcher\<close>

abbreviation "watcher_run i \<equiv> after (watcher_Reconcile sample_lib (sample_env i) request) i"

lemma sample_rbac_law: "rbac_law (sample_env i)"
  by (simp add: rbac_law_def rbac_types_def)

theorem watcher_ready_sound_witness:
  "watcher_prepared sample_lib (sample_env sample_watcher) sample_watcher (start sample_watcher)
     (watcher_run sample_watcher)"
  using watcher_ready_sound [OF sample_cond_laws sample_finalizer_laws sample_rbac_law sample_run sample_Ready(4)]
  by blast

lemma sample_sub_called: "\<exists>c \<in> set (trace (watcher_run sample_watcher)). sub_call c"
  by (simp add: after_def watcher_Reconcile_def watcher_body_def watcher_normal_def watcher_services_def run_simps
      watcher_initStatus_def watcher_initConditions_def watcher_init_conditions_def
      watcher_database_def watcher_ensureDB_def watcher_create_database_def db_error_def db_running_def
      watcher_transport_def watcher_ensureMQ_def watcher_sub_level_secret_def watcher_createSubLevelSecret_def
      watcher_keystone_def watcher_ensureKeystoneSvc_def watcher_config_def watcher_generateServiceConfigDBJobs_def
      watcher_dbsync_def watcher_ensureDBSync_def watcher_cronjob_def
      watcher_ensureDBPurgeCronJob_def stop_on_error_def watcher_ensureAPI_def watcher_ensureDecisionEngine_def
      watcher_ensureApplier_def sub_failed_def mirror_sub_def watcher_unused_accounts_def watcher_input_secrets_def
      watcher_secret_def watcher_prometheus_def watcher_ensureRbac_def RbacConditionsSet_def
      watcher_database_request_def watcher_expose_def exposeEndpoints_def stop_on_result_def sub_call_def
      del: expose_services.simps)

theorem watcher_orders_sub_resources_witness:
  "\<exists>h c. sub_call c \<and> derived_call sample_watcher c \<and>
     watcher_prepared sample_lib (sample_env sample_watcher) sample_watcher (start sample_watcher)
       (start sample_watcher\<lparr>trace := trace (start sample_watcher) @ h\<rparr>)"
proof -
  obtain c h h' where c: "sub_call c" and "trace (watcher_run sample_watcher) = h @ c # h'"
    using sample_sub_called by (meson split_list)
  then have "trace (watcher_run sample_watcher) = trace (start sample_watcher) @ h @ c # h'"
    by (simp add: start_def)
  from watcher_orders_sub_resources [OF sample_cond_laws sample_finalizer_laws sample_run this c] c
  show ?thesis by blast
qed

lemma sample_watcher_gone: "Finalizers (inst (watcher_run (gone sample_watcher))) \<noteq> Finalizers (gone sample_watcher)"
  by (simp add: after_def watcher_Reconcile_def watcher_body_def run_simps
      watcher_initStatus_def watcher_initConditions_def watcher_init_conditions_def watcher_ensureRbac_def
      RbacConditionsSet_def watcher_reconcileDelete_def watcher_release_database_def watcher_release_keystone_def
      watcher_release_prometheus_def drop_own_finalizer_def)

theorem watcher_delete_releases_witness:
  "keystone_released sample_lib (sample_env (gone sample_watcher)) (gone sample_watcher) (start (gone sample_watcher))
     (watcher_run (gone sample_watcher))"
  using watcher_delete_releases [OF sample_finalizer_laws sample_run gone_timestamp sample_watcher_gone] by blast

theorem sub_level_secret_feeds_services_witness:
  "accepts_secret sample_lib (sample_env sample_applier)
     (CustomData (sub_level_template sample_lib sample_watcher sample_secret sample_secret sample_database))
     (start sample_applier)"
proof -
  have hash: "snd (HashValues sample_lib vs) = None" for vs by simp
  have specs: "Spec (inst (start sample_api)) = watcher_api_spec sample_watcher (Name sample_watcher)"
    "Spec (inst (start sample_applier)) = watcher_applier_spec sample_watcher (Name sample_watcher)"
    "Spec (inst (start sample_de)) = watcher_de_spec sample_watcher (Name sample_watcher)"
    by simp_all
  from sub_level_secret_feeds_services [OF hash specs refl] show ?thesis by blast
qed

section \<open>Start-up\<close>

definition sample_order :: "string list" where
  "sample_order = [''WatcherApplier'', ''Watcher'', ''WatcherDecisionEngine'', ''WatcherAPI'']"

lemma sample_order_keys: "set sample_order = dom NewReconcilers"
  by (auto simp: sample_order_def NewReconcilers_def)

lemma sample_main_starts:
  "StartManager \<in> set (snd (run_state (program sample_lib (\<lambda>_. None) sample_order default_flags ''true'') []))"
  by (simp add: program_def init_scheme_def scheme_groups_def main_def sample_order_def NewReconcilers_def watcher_SetupWithManager_def api_SetupWithManager_def
      applier_SetupWithManager_def de_SetupWithManager_def setup_controller_def watcher_indexers_def
      api_indexers_def applier_indexers_def de_indexers_def SetupWatcherDefaults_def main_checks_def main_webhooks_types webhook_types_def
      complete_webhook_def)

theorem main_starts_set_up_witness:
  "\<exists>h0 h1. snd (run_state (program sample_lib (\<lambda>_. None) sample_order default_flags ''true'') []) = h0 @ StartManager # h1 \<and>
     controller_ready (\<lambda>_. None) h0 ''WatcherAPI''"
proof -
  have "run_state (program sample_lib (\<lambda>_. None) sample_order default_flags ''true'') [] =
      (fst (run_state (program sample_lib (\<lambda>_. None) sample_order default_flags ''true'') []), snd (run_state (program sample_lib (\<lambda>_. None) sample_order default_flags ''true'') []))" by (simp add: prod_eq_iff)
  from main_starts_set_up [OF sample_order_keys this sample_main_starts] show ?thesis by blast
qed

section \<open>Runs from the start\<close>

lemma sample_hash_total: "\<forall>es. snd (HashEnvs sample_lib es) = None"
  by simp

theorem applier_converges_witness:
  "cstate ReadyCondition (inst (nth_reconcile (applier_Reconcile sample_lib (storing_env (unseen sample_applier)) request)
     (start (unseen sample_applier)) 3)) = Some CTrue"
  by (rule applier_converges [OF sample_cond_laws sample_finalizer_laws sample_hash_laws sample_notfound_law
      sample_init_law sample_stores sample_service_clusters(2)]) simp_all

theorem de_converges_witness:
  "cstate ReadyCondition (inst (nth_reconcile (de_Reconcile sample_lib (storing_env (unseen sample_de)) request)
     (start (unseen sample_de)) 3)) = Some CTrue"
  by (rule de_converges [OF sample_cond_laws sample_finalizer_laws sample_hash_laws sample_notfound_law
      sample_init_law sample_stores sample_service_clusters(3)]) simp_all

theorem api_converges_witness:
  "cstate ReadyCondition (inst (nth_reconcile (api_Reconcile sample_lib (storing_env (unseen sample_api)) request)
     (start (unseen sample_api)) 3)) = Some CTrue"
  by (rule api_converges [OF sample_cond_laws sample_finalizer_laws sample_hash_laws
      sample_init_law sample_stores sample_service_clusters(1)]) simp_all

theorem watcher_converges_witness:
  "cstate ReadyCondition (inst (nth_reconcile (watcher_Reconcile sample_lib (storing_env (unseen sample_watcher)) request)
     (start (unseen sample_watcher)) 2)) = Some CTrue"
  by (rule watcher_converges [OF sample_cond_laws sample_finalizer_laws sample_init_law sample_stores
      sample_healthy_watcher sample_subs_ready]) simp_all

theorem operator_converges_witness:
  "cstate ReadyCondition (inst (OfWatcher (turns sample_lib sample_cluster
     (sample_turns @ [WatcherTurn, APITurn]) sample_operator))) = Some CTrue"
  using operator_converges [OF sample_cond_laws sample_finalizer_laws sample_hash_laws sample_notfound_law
      sample_init_law sample_mirror_law sample_fresh sample_cluster_stores sample_cluster_healthy sample_enough,
      of "[APITurn]"] by blast

theorem operator_rolls_out_witness:
  "rolled_out (rollout_turns sample_lib sample_uids sample_lone_cluster
     ([WatcherTurn, APITurn, WatcherTurn] @ sample_turns @ [WatcherTurn, APITurn]) (lone_watcher (unseen sample_watcher)))"
  by (rule operator_rolls_out [OF sample_cond_laws sample_finalizer_laws sample_hash_laws sample_notfound_law
      sample_init_law sample_mirror_law sample_new sample_lone_stores sample_lone_healthy _ sample_enough(1)]) simp

theorem rollout_refines_operator_witness:
  "\<exists>ks'. subseq ks' [APITurn, WatcherTurn, WatcherTurn, DETurn] \<and>
     count_list ks' WatcherTurn = count_list [APITurn, WatcherTurn, WatcherTurn, DETurn] WatcherTurn \<and>
     mirrors sample_uids (unseen sample_watcher)
       (rollout_turns sample_lib sample_uids sample_lone_cluster [APITurn, WatcherTurn, WatcherTurn, DETurn]
          (lone_watcher (unseen sample_watcher)))
       (turns sample_lib sample_lone_cluster ks' (all_created sample_uids (unseen sample_watcher)))"
  by (rule rollout_refines_operator [OF sample_cond_laws sample_finalizer_laws sample_new sample_lone_stores])

theorem operator_ready_sound_witness:
  "in_last_turn sample_lib sample_cluster sample_operator APITurn sample_turns
     (\<lambda>before after. \<exists>i. identity i = identity (inst (OfAPI sample_operator)) \<and>
        api_done sample_lib (APIEnv sample_cluster) (OfAPI before) (OfAPI after) i)"
proof -
  have "operator_is_ready (turns sample_lib sample_cluster (sample_turns @ [WatcherTurn]) sample_operator)"
    by (rule operator_gets_ready [OF sample_cond_laws sample_finalizer_laws sample_hash_laws sample_notfound_law
      sample_init_law sample_mirror_law sample_fresh sample_cluster_stores sample_cluster_healthy sample_enough])
  then have ready: "cstate ReadyCondition (inst (OfWatcher (turns sample_lib sample_cluster
      (sample_turns @ [WatcherTurn]) sample_operator))) = Some CTrue" by (simp only: operator_is_ready_def)
  have "rbac_law (WatcherEnv sample_cluster)" by (auto simp: rbac_law_def sample_cluster_def storing_env_def rbac_types_def)
  from operator_ready_sound [OF sample_cond_laws sample_finalizer_laws sample_hash_laws sample_notfound_law this
      _ _ _ sample_fresh sample_cluster_stores ready]
  show ?thesis by (simp add: sample_cluster_def storing_env_def)
qed

theorem watcher_reconcile_ends_witness:
  "length (trace (snd (run_state (watcher_Reconcile sample_lib (sample_env sample_watcher) request) (start sample_watcher)))) \<le> 30"
  using watcher_reconcile_ends [of "sample_env sample_watcher" 1 0 sample_lib request "start sample_watcher"] by simp

theorem services_deploy_recorded_hash_witness:
  "deploys_recorded sample_lib (applier_Reconcile sample_lib)
     (\<lambda>E i h ss. ss = applier_StatefulSet sample_lib i h (getApplierServiceLabels sample_lib))"
  using services_deploy_recorded_hash [OF sample_cond_laws sample_hash_laws] by blast

theorem services_release_memcached_witness:
  "memcached_released sample_lib (sample_env (gone sample_applier)) (start (gone sample_applier))
     (applier_run (gone sample_applier)) (MemcachedInstance (Spec (gone sample_applier)))
     (Namespace (gone sample_applier)) (GetFinalizer sample_lib (Kind (gone sample_applier))) \<and>
   memcached_released sample_lib (sample_env (gone sample_de)) (start (gone sample_de))
     (de_run (gone sample_de)) (MemcachedInstance (Spec (gone sample_de)))
     (Namespace (gone sample_de)) (GetFinalizer sample_lib (Kind (gone sample_de)))"
  using services_release_memcached [OF sample_finalizer_laws, unfolded keeps_until_released_def, THEN conjunct1,
      rule_format, OF sample_run gone_timestamp sample_applier_gone]
    services_release_memcached [OF sample_finalizer_laws, unfolded keeps_until_released_def, THEN conjunct2,
      rule_format, OF sample_run gone_timestamp sample_de_gone] by blast

theorem reconcile_stores_status_witness: "stores_status (\<lambda>_. True) api_types api_types (api_Reconcile sample_lib)"
  using reconcile_stores_status [OF sample_cond_laws sample_init_law] by blast

theorem input_hash_outcomes_witness:
  "fst (run_state (settle_input_hash sample_lib (input_hash sample_lib [])) (start sample_applier)) = Next ''h''"
  by (simp add: input_hash_outcomes [OF sample_hash_laws] start_def sample_applier_def hash_map_def)

theorem ensureSecret_outcomes_witness:
  "cstate InputReadyCondition (inst (snd (run_state (ensureSecret sample_lib
     ((sample_env sample_applier)\<lparr>OnGetSecret := (\<lambda>_. Inl (LibError ''Gone'' ''x''))\<rparr>)
     (\<lambda>c. cond_set sample_lib (Some c)) request []) (start sample_applier)))) = Some CFalse"
proof -
  let ?E = "(sample_env sample_applier)\<lparr>OnGetSecret := (\<lambda>_. Inl (LibError ''Gone'' ''x''))\<rparr>"
  let ?m = "ensureSecret sample_lib ?E (\<lambda>c. cond_set sample_lib (Some c)) request []"
  obtain h res sec err t where r: "run_state ?m (start sample_applier) = ((h, res, sec, err), t)"
    by (metis surj_pair)
  from ensureSecret_outcomes [OF sample_cond_laws r] show ?thesis by (simp add: r)
qed

theorem validated_watcher_never_panics_witness:
  "\<not> is_panic (fst (run_state (watcher_Reconcile sample_lib (sample_env sample_watcher) request) (start sample_watcher)))"
proof (rule validated_watcher_never_panics)
  show "\<forall>i. OnGetInstance (sample_env sample_watcher) (trace (start sample_watcher) @ [GetInstance request]) = Inr i \<longrightarrow>
      Watcher_ValidateCreate i = Val None \<and> PurgeAge (DBPurge (Spec i)) \<noteq> None \<and> Schedule (DBPurge (Spec i)) \<noteq> None"
    by (simp add: Watcher_ValidateCreate_def field_empty_cases)
qed

theorem services_never_panic_witness:
  "\<not> is_panic (fst (run_state (api_Reconcile sample_lib (sample_env sample_api) request) (start sample_api))) \<and>
   \<not> is_panic (fst (run_state (applier_Reconcile sample_lib (sample_env sample_applier) request) (start sample_applier)))"
  using services_never_panic [OF sample_hash_total, of "sample_env sample_api" "start sample_api" request
      "sample_env sample_applier" "start sample_applier" "sample_env sample_de" "start sample_de"]
  by (simp add: sample_api_def sample_applier_def sample_de_def)

end
