(* ===== verification/SampleMemory.thy ===== *)
theory SampleMemory
  imports Registration
begin

text \<open>
  A memory with a Watcher in it, and structs of other modules that copy as they promise: an \<open>ObjectMeta\<close> that keeps
  its finalizers behind a pointer, the others without references. The properties of theory Registration apply.
\<close>

datatype sample_struct =
    SampleMeta string "addr option"
  | SampleStrings "string list"
  | SampleText (sample_text: string)
  | SampleTLS (sample_tls: tls_API)
  | SampleRouted (sample_routed: RoutedOverrideSpec)
  | SampleRoute (sample_route: route_override)
  | SampleCondition (sample_condition: condition)

fun sample_finalizers :: "sample_struct option \<Rightarrow> string list" where
  "sample_finalizers (Some (SampleStrings l)) = l"
| "sample_finalizers _ = []"

fun sample_meta_copy :: "(sample_struct, sample_struct) copying" where
  "sample_meta_copy (SampleMeta n p) = do {
     q \<leftarrow> copy_ref the_Library LibraryCell return p;
     return (SampleMeta n q)
   }"
| "sample_meta_copy x = return x"

definition sample_strings :: "(sample_struct cell, addr option, string list) shape" where
  "sample_strings = viewed sample_finalizers (ref_to the_Library (plain id))"

definition sample_meta_shape :: "(sample_struct cell, sample_struct, object_meta) shape" where
  "sample_meta_shape =
     \<lparr>Holds = \<lambda>A h x. case x of SampleMeta n p \<Rightarrow> Holds sample_strings A h p | _ \<Rightarrow> True,
      View = \<lambda>h x. case x of
         SampleMeta n p \<Rightarrow> \<lparr>MetaName = n, MetaNamespace = ''openstack'', MetaUID = ''uid'', MetaGeneration = 1,
           MetaDeletionTimestamp = None, MetaFinalizers = View sample_strings h p\<rparr>
       | _ \<Rightarrow> \<lparr>MetaName = [], MetaNamespace = [], MetaUID = [], MetaGeneration = 0, MetaDeletionTimestamp = None,
           MetaFinalizers = []\<rparr>\<rparr>"

definition sample_modules :: "sample_struct library_types" where
  "sample_modules = \<lparr>
     ObjectMeta_DeepCopyInto = sample_meta_copy, ObjectMeta_shape = sample_meta_shape,
     ListMeta_DeepCopyInto = return, ListMeta_shape = plain sample_text,
     ResourceRequirements_DeepCopyInto = return, ResourceRequirements_shape = plain sample_text,
     TLS_API_DeepCopyInto = return, TLS_API_shape = plain sample_tls,
     RoutedOverrideSpec_DeepCopy = return, RoutedOverrideSpec_shape = plain sample_routed,
     RouteOverrideSpec_DeepCopyInto = return, RouteOverrideSpec_shape = plain sample_route,
     Condition_DeepCopyInto = return, Condition_shape = plain sample_condition\<rparr>"

lemma sample_meta_copier: "deep_copier sample_meta_shape sample_meta_copy"
proof (rule deep_copierI, goal_cases)
  have c: "deep_copier sample_strings (copy_ref the_Library LibraryCell return)"
    unfolding sample_strings_def by (rule viewed_copier [OF ref_copier [OF id_copier]]) simp
  { case 1 then show ?case by (auto simp: sample_meta_shape_def intro: deep_copier.mono [OF c] split: sample_struct.splits) }
  { case 2 then show ?case using deep_copier.framed [OF c _ 2(2)]
      by (simp add: sample_meta_shape_def split: sample_struct.splits) }
  { case (3 h x)
    show ?case
    proof (cases x)
      case (SampleMeta n p)
      then have p: "Holds sample_strings {..<NextAddr h} h p" using 3 by (simp add: sample_meta_shape_def)
      show ?thesis unfolding SampleMeta sample_meta_copy.simps
        by (intro deep_copier.fills_into [OF c] kept_True fills_return) (use p in \<open>simp_all add: sample_meta_shape_def copied_def\<close>)
    qed (auto simp: sample_meta_shape_def copied_def intro: fills_return) }
qed

lemma sample_modules_copy: "library_copies sample_modules"
  using sample_meta_copier by (simp add: library_copies_def sample_modules_def plain_copier)

text \<open>A Watcher with a node selector, a message bus, a database and a finalizer.\<close>

definition sample_common_struct :: WatcherCommon_struct where
  "sample_common_struct = \<lparr>mServiceUser = ''watcher'', mPasswordSelectors = \<lparr>ServiceSelector = ''WatcherPassword''\<rparr>,
     mMemcachedInstance = ''memcached'', mPreserveJobs = False, mNodeSelector = Some 1, mCustomServiceConfig = [],
     mPrometheusSecret = ''metric-storage-prometheus-config''\<rparr>"

definition sample_sub_template :: "sample_struct WatcherSubCrsTemplate_struct" where
  "sample_sub_template = \<lparr>mTResources = SampleText [], mTNodeSelector = None, mTCustomServiceConfig = []\<rparr>"

definition sample_watcher_struct :: "sample_struct Watcher_struct" where
  "sample_watcher_struct = \<lparr>
     mTypeMeta = \<lparr>mKind = ''Watcher'', mAPIVersion = ''watcher.openstack.org/v1beta1''\<rparr>,
     mObjectMeta = SampleMeta ''watcher'' (Some 5),
     mSpec = \<lparr>mWatcherTemplate = \<lparr>mWatcherCommon = sample_common_struct, mRabbitMqClusterName = Some 3,
         mWatcherSecret = ''osp-secret'', mDatabaseInstance = Some 4, mDatabaseAccount = ''watcher'',
         mAPIServiceTemplate = \<lparr>mAPITemplate = sample_sub_template, mTAPIReplicas = Some 6,
           mTOverride = \<lparr>mService = None\<rparr>,
           mTTLS = SampleTLS \<lparr>CaBundleSecretName = [], PublicSecretName = None, InternalSecretName = None\<rparr>\<rparr>,
         mApplierServiceTemplate = \<lparr>mTemplate = sample_sub_template, mTReplicas = Some 6\<rparr>,
         mDecisionEngineServiceTemplate = \<lparr>mTemplate = sample_sub_template, mTReplicas = None\<rparr>,
         mAPIOverride = \<lparr>mRoute = None, mTLSOverride = None\<rparr>,
         mDBPurge = \<lparr>mSchedule = None, mPurgeAge = None\<rparr>\<rparr>,
       mWatcherImages = \<lparr>APIContainerImageURL = ''api'', DecisionEngineContainerImageURL = ''de'',
         ApplierContainerImageURL = ''applier''\<rparr>\<rparr>,
     mStatus = \<lparr>mWatcherConditions = None, mServiceID = [], mWatcherHash = None, mWatcherObservedGeneration = 0,
       mAPIServiceReadyCount = 0, mApplierServiceReadyCount = 0, mDecisionEngineServiceReadyCount = 0\<rparr>\<rparr>"

definition sample_memory :: "sample_struct cell heap" where
  "sample_memory = \<lparr>NextAddr = 7, Cells = (\<lambda>a.
     if a = 0 then ObjectCell (WatcherCell sample_watcher_struct)
     else if a = 1 then MapVariable (Some 2)
     else if a = 2 then StringMapCell [(''zone'', ''a''), (''disk'', ''ssd'')]
     else if a = 3 then StringCell ''rabbitmq''
     else if a = 4 then StringCell ''openstack''
     else if a = 5 then LibraryCell (SampleStrings [''openstack.org/watcher''])
     else Int32Cell 1)\<rparr>"

lemmas sample_shapes = Watcher_shape_def resource_holds_def WatcherSpec_shape_def WatcherTemplate_shape_def
  WatcherAPITemplate_shape_def WatcherApplierTemplate_shape_def WatcherSubCrsTemplate_shape_def WatcherCommon_shape_def
  WatcherStatus_shape_def Override_shape_def WatcherDBPurge_shape_def APIOverrideSpec_shape_def map_pointer_def
  string_map_ref_def int32_pointer_def string_pointer_def int_pointer_def service_map_def route_pointer_def
  tls_override_pointer_def conditions_slice_def sample_meta_shape_def sample_strings_def

lemma sample_memory_holds: "Holds (object_shape sample_modules GoWatcher) {..<NextAddr sample_memory} sample_memory (Some 0)"
  by (simp add: sample_shapes sample_modules_def sample_memory_def sample_watcher_struct_def sample_common_struct_def
    sample_sub_template_def)

theorem registered_objects_copy_deeply_witness:
  "\<exists>b. fst (run_state (DeepCopyObject sample_modules GoWatcher (Some 0)) sample_memory) = Some (GoWatcher, Some b) \<and>
     7 \<le> b \<and> is_snapshot (object_shape sample_modules GoWatcher) sample_memory (Some 0)
       (snd (run_state (DeepCopyObject sample_modules GoWatcher (Some 0)) sample_memory)) (Some b)"
proof -
  have "GoWatcher \<in> set (Registered (package_init SchemeBuilder))" by (simp add: registered_types)
  from registered_objects_copy_deeply [OF sample_modules_copy this sample_memory_holds prod.collapse [symmetric]]
  show ?thesis by (auto simp: sample_memory_def)
qed

theorem parts_copy_deeply_witness:
  "takes_snapshots (part_pointer the_WatcherCommon WatcherCommon_shape)
     (WatcherCommon_DeepCopy :: sample_struct pointer_copying)"
  using parts_copy_deeply [OF sample_modules_copy] by blast

end
