(* ===== verification/Spec2Isabelle.thy ===== *)
theory Spec2Isabelle
  imports Witnesses SampleMemory
begin

text \<open>
  The watcher operator: a Kubernetes operator that deploys OpenStack Watcher from four custom
  resources. A Watcher is what the user writes; its controller prepares the database, the message
  bus, the secrets, the Keystone service and two jobs, and creates a WatcherAPI, a WatcherApplier and a
  WatcherDecisionEngine, each of which has a controller of its own that deploys a StatefulSet. The
  controllers talk to each other only through these resources and through one secret.

  How a controller is modelled. A Go method is a program of HOL-Library's \<open>State_Monad\<close> over the state
  \<open>st\<close> (theory Effects): \<open>inst\<close> is the copy of the resource the method mutates, \<open>trace\<close> the calls it has
  made to the cluster, with their arguments, in order. Every call is \<open>perform c answer\<close>; the answer is a
  function of the whole history, a field of the environment \<open>env\<close> over which the properties quantify.
  A property therefore holds for every cluster, whatever changes or fails between two calls. An early
  return \<open>return ctrl.Result{}, err\<close> is the value \<open>Ret\<close> of the type \<open>flow\<close>, a nil dereference or another
  panic is \<open>Crash\<close> (\<open>Panic\<close> for a plain function), going on is \<open>Next\<close>; \<open>continue\<close> composes. The deferred
  function of \<open>Reconcile\<close> is \<open>patch_on_exit\<close>. Every loop of the code is over a list, so every definition is
  structurally recursive and total: there is no fuel anywhere, and an equation that shows a run is a
  proof that it returns.

  Resources are values in this state. That this is sound is a theorem of its own: theories GoHeap to
  Registration model the structs as they lie in memory, with pointers, maps and slices as addresses, the
  value of theory Api each of them stands for, and prove of every function of \<open>zz_generated.deepcopy.go\<close>
  that its copy stands for the same value and shares no cell with the original, so that what is written into
  one is never seen in the other.

  Third-party code. Pure functions of lib-common, controller-runtime and the like are the fields of
  \<open>lib\<close> (theory Lib), calls that leave the process are fields of \<open>env\<close>. What the code relies on is named:
  \<open>cond_laws\<close>, \<open>init_law\<close>, \<open>mirror_law\<close> (the condition list), \<open>finalizer_laws\<close>, \<open>hash_laws\<close>, \<open>notfound_law\<close>, \<open>env_laws\<close>,
  \<open>tls_law_ca\<close>, \<open>tls_law_service\<close>, \<open>rbac_law\<close>, \<open>library_copies\<close> (the \<open>DeepCopyInto\<close> of other modules);
  and of the data, \<open>prometheus_ok\<close> (a CA file is named by a plain file name). Theory Sample gives functions that meet all of them, theory
  SampleCluster a cluster in which every step succeeds, theory SampleOperator one that also stores what it
  is given, theory SampleMemory a memory with a Watcher in it, and the witnesses (theory Witnesses) apply each property with hypotheses there.

  The theories and the sources, all under \<open>src/\<close>:

  \<^item> Prelude, Reasoning: the Go primitives, the rules that carry a relation through a program.
  \<^item> Types, Api: the Kubernetes objects; \<open>api/v1beta1/*_types.go\<close>, \<open>conditions.go\<close>.
  \<^item> Volumes, Workloads: \<open>pkg/watcher\<close>, \<open>pkg/watcherapi\<close>, \<open>pkg/watcherapplier\<close>, \<open>pkg/watcherdecisionengine\<close>:
    the pod volumes, the StatefulSets, the db-sync job and the purge cron job. PodWiring: that
    the volumes of each pod fit its containers, that selectors match labels, and when container names are
    well formed (the rest of what the API server checks of a pod, such as its resources, is not stated).
  \<^item> Effects, Common: the calls; \<open>controllers/watcher_common.go\<close>.
  \<^item> Controllers, ServiceCommon: what the \<open>Reconcile\<close> functions share, once for the four of them and once
    for the three services. The locales \<open>reconciler\<close> and \<open>service_reconciler\<close> say what a controller is
    made of; each controller's theory interprets them on its own functions.
  \<^item> ApplierController, DecisionEngineController, APIController:
    \<open>controllers/watcher{applier,decisionengine,api}_controller.go\<close>, one definition for each block of
    \<open>reconcileNormal\<close>, in the order of the code.
  \<^item> Endpoints, WatcherController: \<open>controllers/watcher_controller.go\<close>, first the routes, then the rest.
  \<^item> Webhooks: \<open>api/v1beta1/*_webhook.go\<close> and the defaults of \<open>common_types.go\<close>.
  \<^item> Watching: the index functions of each \<open>SetupWithManager\<close> and \<open>findObjectsForSrc\<close>.
  \<^item> GoHeap: memory and what a deep copy is (the locale \<open>deep_copier\<close>). GoStructs: the structs of
    \<open>api/v1beta1/*_types.go\<close> in memory. DeepCopy: \<open>zz_generated.deepcopy.go\<close>, function by function. Copies: what
    the structs stand for, and that each copy is deep. Registration: \<open>groupversion_info.go\<close> and the \<open>init\<close>
    functions that register the types.
  \<^item> Operator: \<open>main.go\<close> (the scheme \<open>init\<close> builds, the flags, the TLS and manager options, the order of
    starting), \<open>SetupWebhookWithManager\<close>, \<open>NewReconcilers\<close>, \<open>Setup\<close>, \<open>SetupWithManager\<close>.
  \<^item> Progress, Convergence, WatcherConvergence: repeated reconciles of one resource in a cluster that stores
    it and answers well. Status: what any reconcile leaves in the status. Interleaving: the operator as its four controllers taking turns in any order; a
    turn is a whole \<open>Reconcile\<close>, and what the Watcher's controller reads of the three services is what their
    own controllers last stored. Creation: the operator from a lone Watcher, whose services are created by the
    \<open>CreateOrPatch\<close> calls of \<open>ensureAPI\<close>, \<open>ensureApplier\<close> and \<open>ensureDecisionEngine\<close>.

  What the lemmas show:

  \<^item> Soundness of \<open>Ready\<close> (WatcherProperties and the three service theories): a resource stored Ready
    was so after a run in which every step it reports really succeeded. The proofs walk back from the
    condition through the blocks (\<open>ready_back\<close>, \<open>body_Ready\<close>, \<open>..._Next\<close> lemmas). Among these steps is the
    configuration: the templates are spelled out, with the data the run itself read (\<open>config_rendered\<close>,
    \<open>config_stored\<close>).
  \<^item> Routes (Endpoints): every call of \<open>exposeEndpoints\<close> is judged at the history it is made at, so that a route
    is deleted only when this run listed it as one the Watcher controls; on success the services that ask
    for a route have one and those that decline have none of ours. Who owns a route that is applied is left
    to the library's create-or-patch.
  \<^item> Order: what precedes the creation of a sub-resource (\<open>watcher_prepared\<close>); Workflow gives each
    controller an abstract machine of stages which the calls of every run refine, and the bounds on the
    number of calls of a run, hence its termination, that follow from it.
  \<^item> Deletion: a finalizer is dropped only when what it guards was released.
  \<^item> Lifecycle: specifications met by all four controllers (one store at the end, nothing but a read for a
    resource that is gone, the finalizer before anything else). Status: the status they store lists exactly
    the conditions of the controller, observes its generation, and is Ready only after a run without an error.
  \<^item> Panics: which resources can make a controller panic, and that the webhook excludes them.
  \<^item> Convergence: progress in a healthy cluster, with the number of reconciles it takes: the services are
    Ready from their third on (finalizer, conditions, deployment), the Watcher from its second once they are.
  \<^item> Creation and Interleaving: from a lone Watcher the operator converges under every schedule that gives the Watcher
    two turns and then the services three turns each and the Watcher one more; it refines the operator whose services were there from the
    start. Whatever the schedule, a Watcher that is Ready found each service deployed by the last turn of its
    controller. In a healthy cluster the calls succeed and the services read the secret the Watcher's template describes.
  \<^item> Configuration: the secret the Watcher writes is the one its services can read; no service deploys a
    configuration its status does not record; a changed configuration restarts the pods.

  \<^item> Snapshots: \<open>DeepCopyObject\<close> of every registered type, and \<open>DeepCopy\<close> of every part of it, is a snapshot; a
    nil pointer gives the nil interface.

  Not modelled: kubebuilder markers and printer columns, logging and its flags, the parsing of the command
  line, and the predicates given to the watches, which are the library's. What is left of the sources beside
  these are licence headers, imports and the types of the reconcilers, which hold the clients. A slice in
  memory is its whole backing array. Two reconciles that overlap are modelled only through the answers of the cluster: a turn is a
  whole one. Times are not modelled: a requeue delay is a number. A type of \<open>api/v1beta1\<close> has the fields the controllers read.
\<close>

end
